(* ===== verification/Prelude.thy ===== *)
theory Prelude
  imports Complex_Main "HOL-Library.AList"
begin

text \<open>
  Shared vocabulary of the development: JavaScript values and numbers, the string operations
  of the standard library that the sources use, results of fallible operations, and generic
  lemmas on lists and association lists.

  Strings are lists of code units in the range 0 to 255 (\<open>char\<close>).  A JavaScript number is
  NaN, an infinity, negative zero, or a finite value; finite values are exact rationals, so the
  rounding of IEEE doubles is not modelled (the quantities the modelled code computes with are
  integers below 2^53 or short decimal fractions).  A plain object is an association list in
  insertion order, without duplicate keys (\<open>wf_jsv\<close>).
\<close>

named_theorems step_defs "definitions of the operations of the modelled state machines"
named_theorems js_simps "evaluation of JavaScript coercions"

section \<open>Numbers and values\<close>

datatype jnum = NaN | PosInf | NegInf | NegZero | Fin rat

datatype jsv =
    JUndef
  | JNull
  | JBool bool
  | JNum jnum
  | JStr string
  | JArr "jsv list"
  | JObj "(string \<times> jsv) list"

text \<open>The finite value of a number, where it has one.\<close>

definition fin_of :: "jnum \<Rightarrow> rat option" where
  "fin_of x = (case x of Fin q \<Rightarrow> Some q | NegZero \<Rightarrow> Some 0 | _ \<Rightarrow> None)"

definition isFinite :: "jnum \<Rightarrow> bool" where
  "isFinite x = (fin_of x \<noteq> None)"

lemma fin_of_simps [simp, js_simps]:
  "fin_of (Fin q) = Some q" "fin_of NegZero = Some 0"
  "fin_of NaN = None" "fin_of PosInf = None" "fin_of NegInf = None"
  by (simp_all add: fin_of_def)

lemma isFinite_simps [simp, js_simps]:
  "isFinite (Fin q)" "isFinite NegZero" "\<not> isFinite NaN" "\<not> isFinite PosInf" "\<not> isFinite NegInf"
  by (simp_all add: isFinite_def)

definition rat_is_int :: "rat \<Rightarrow> bool" where
  "rat_is_int q = (of_int \<lfloor>q\<rfloor> = q)"

lemma rat_is_int_of_int [simp]: "rat_is_int (of_int k)"
  by (simp add: rat_is_int_def)

lemma rat_is_int_numeral [simp]:
  "rat_is_int 0" "rat_is_int 1" "rat_is_int (numeral k)" "rat_is_int (- numeral k)"
proof -
  show "rat_is_int 0" using rat_is_int_of_int [of 0] by simp
  show "rat_is_int 1" using rat_is_int_of_int [of 1] by simp
  show "rat_is_int (numeral k)" using rat_is_int_of_int [of "numeral k"] by simp
  show "rat_is_int (- numeral k)" using rat_is_int_of_int [of "- numeral k"] by simp
qed

text \<open>\<open>Number.isInteger\<close> and \<open>Number.isSafeInteger\<close>, on a value of any type.\<close>

definition num_isInteger :: "jnum \<Rightarrow> bool" where
  "num_isInteger x = (case fin_of x of Some q \<Rightarrow> rat_is_int q | None \<Rightarrow> False)"

definition isInteger :: "jsv \<Rightarrow> bool" where
  "isInteger v = (case v of JNum x \<Rightarrow> num_isInteger x | _ \<Rightarrow> False)"

definition isSafeInteger :: "jsv \<Rightarrow> bool" where
  "isSafeInteger v = (case v of JNum x \<Rightarrow>
     (case fin_of x of Some q \<Rightarrow> rat_is_int q \<and> \<bar>q\<bar> \<le> 9007199254740991 | None \<Rightarrow> False) | _ \<Rightarrow> False)"

text \<open>Comparison of numbers: any comparison with NaN is false.\<close>

fun num_le :: "jnum \<Rightarrow> jnum \<Rightarrow> bool" where
  "num_le NaN y = False"
| "num_le x NaN = False"
| "num_le NegInf y = True"
| "num_le x PosInf = True"
| "num_le PosInf y = False"
| "num_le x NegInf = False"
| "num_le x y = (the (fin_of x) \<le> the (fin_of y))"

fun num_lt :: "jnum \<Rightarrow> jnum \<Rightarrow> bool" where
  "num_lt NaN y = False"
| "num_lt x NaN = False"
| "num_lt PosInf y = False"
| "num_lt x NegInf = False"
| "num_lt NegInf y = True"
| "num_lt x PosInf = True"
| "num_lt x y = (the (fin_of x) < the (fin_of y))"

lemma num_lt_imp_not_le: "num_lt x y \<Longrightarrow> \<not> num_le y x"
  by (cases x; cases y) auto

section \<open>Strings\<close>

definition starts_with :: "string \<Rightarrow> string \<Rightarrow> bool" where
  "starts_with p s = (take (length p) s = p)"

lemma starts_with_append [simp]: "starts_with p (p @ s)"
  by (simp add: starts_with_def)

lemma starts_with_iff: "starts_with p s \<longleftrightarrow> (\<exists>r. s = p @ r)"
  by (metis append_take_drop_id starts_with_append starts_with_def)

lemma starts_with_Nil [simp]: "starts_with [] s"
  by (simp add: starts_with_def)

lemma starts_with_Cons [simp]:
  "starts_with (c # p) [] = False"
  "starts_with (c # p) (d # s) = (c = d \<and> starts_with p s)"
  by (auto simp: starts_with_def)

definition ends_with :: "string \<Rightarrow> string \<Rightarrow> bool" where
  "ends_with p s = starts_with (rev p) (rev s)"

fun contains :: "string \<Rightarrow> string \<Rightarrow> bool" where
  "contains p [] = (p = [])"
| "contains p (c # s) = (starts_with p (c # s) \<or> contains p s)"

definition is_ws :: "char \<Rightarrow> bool" where
  "is_ws c = (of_char c \<in> {9, 10, 11, 12, 13, 32, 160 :: nat})"

definition trim_start :: "string \<Rightarrow> string" where
  "trim_start s = dropWhile is_ws s"

definition trim_end :: "string \<Rightarrow> string" where
  "trim_end s = rev (dropWhile is_ws (rev s))"

definition trim :: "string \<Rightarrow> string" where
  "trim s = trim_end (trim_start s)"

definition lower_char :: "char \<Rightarrow> char" where
  "lower_char c = (let n = of_char c :: nat in
     if (65 \<le> n \<and> n \<le> 90) \<or> (192 \<le> n \<and> n \<le> 222 \<and> n \<noteq> 215) then char_of (n + 32) else c)"

definition to_lower :: "string \<Rightarrow> string" where
  "to_lower s = map lower_char s"

definition upper_char :: "char \<Rightarrow> char" where
  "upper_char c = (let n = of_char c :: nat in
     if 97 \<le> n \<and> n \<le> 122 then char_of (n - 32) else c)"

text \<open>\<open>s.split(c)\<close> on a one-character separator, and \<open>xs.join(sep)\<close>.\<close>

fun split_on :: "char \<Rightarrow> string \<Rightarrow> string list" where
  "split_on c [] = [[]]"
| "split_on c (d # s) =
     (if d = c then [] # split_on c s
      else (case split_on c s of [] \<Rightarrow> [[d]] | w # ws \<Rightarrow> (d # w) # ws))"

fun join :: "string \<Rightarrow> string list \<Rightarrow> string" where
  "join sep [] = []"
| "join sep [w] = w"
| "join sep (w # v # ws) = w @ sep @ join sep (v # ws)"

lemma split_on_nonempty [simp]: "split_on c s \<noteq> []"
  by (induction s) (auto split: list.splits)

lemma join_split_on: "join [c] (split_on c s) = s"
proof (induction s)
  case (Cons d s)
  obtain w ws where "split_on c s = w # ws" by (cases "split_on c s") auto
  with Cons show ?case by (cases ws) auto
qed simp

lemma split_on_no_sep: "w \<in> set (split_on c s) \<Longrightarrow> c \<notin> set w"
proof (induction s arbitrary: w)
  case (Cons d s)
  obtain v vs where v: "split_on c s = v # vs" by (cases "split_on c s") auto
  with Cons show ?case by (auto split: if_splits)
qed simp

lemma split_on_join:
  "ws \<noteq> [] \<Longrightarrow> \<forall>w \<in> set ws. c \<notin> set w \<Longrightarrow> split_on c (join [c] ws) = ws"
proof (induction ws rule: list_nonempty_induct)
  case (single w)
  then have "c \<notin> set w" by simp
  then have "split_on c w = [w]" by (induction w) auto
  then show ?case by simp
next
  case (cons w ws)
  then obtain v vs where ws: "ws = v # vs" by (cases ws) auto
  have step: "c \<notin> set w \<Longrightarrow> split_on c (w @ c # r) = w # split_on c r" for r
    by (induction w) auto
  from cons ws show ?case by (simp add: step)
qed

definition is_digit :: "char \<Rightarrow> bool" where
  "is_digit c = (let n = of_char c :: nat in 48 \<le> n \<and> n \<le> 57)"

definition digit_val :: "char \<Rightarrow> nat" where
  "digit_val c = of_char c - 48"

definition is_lower_az :: "char \<Rightarrow> bool" where
  "is_lower_az c = (let n = of_char c :: nat in 97 \<le> n \<and> n \<le> 122)"

definition is_upper_az :: "char \<Rightarrow> bool" where
  "is_upper_az c = (let n = of_char c :: nat in 65 \<le> n \<and> n \<le> 90)"

definition is_id_char :: "char \<Rightarrow> bool" where
  "is_id_char c = (is_lower_az c \<or> is_upper_az c \<or> is_digit c \<or> c = CHR ''_'' \<or> c = CHR ''-'')"

definition is_hex_lower :: "char \<Rightarrow> bool" where
  "is_hex_lower c = (is_digit c \<or> (let n = of_char c :: nat in 97 \<le> n \<and> n \<le> 102))"

fun nat_string :: "nat \<Rightarrow> string" where
  "nat_string n = (if n < 10 then [char_of (48 + n)] else nat_string (n div 10) @ [char_of (48 + n mod 10)])"

declare nat_string.simps [simp del]

section \<open>Coercions\<close>

text \<open>
  \<open>Number(v)\<close>.  A string is trimmed and read as a decimal, hexadecimal, octal or binary
  literal or \<open>Infinity\<close>; an empty string is 0.  A plain object is NaN; an array is the number
  of its string form, so it can only be a number when it has at most one element.
\<close>

definition digits_rat :: "string \<Rightarrow> rat" where
  "digits_rat ds = foldl (\<lambda>a c. 10 * a + of_nat (digit_val c)) 0 ds"

definition rat_pow10 :: "int \<Rightarrow> rat" where
  "rat_pow10 e = (if 0 \<le> e then 10 ^ nat e else 1 / 10 ^ nat (- e))"

definition parse_exponent :: "string \<Rightarrow> int option" where
  "parse_exponent s =
     (let (neg, ds) = (case s of c # r \<Rightarrow> if c = CHR ''-'' then (True, r) else if c = CHR ''+'' then (False, r)
                                          else (False, s) | [] \<Rightarrow> (False, []))
      in if ds \<noteq> [] \<and> list_all is_digit ds
         then Some (let n = int (foldl (\<lambda>a c. 10 * a + digit_val c) 0 ds) in if neg then - n else n) else None)"

definition parse_decimal :: "string \<Rightarrow> rat option" where
  "parse_decimal s =
     (let ip = takeWhile is_digit s; r1 = dropWhile is_digit s;
          (fp, r2) = (case r1 of c # r \<Rightarrow> if c = CHR ''.'' then (takeWhile is_digit r, dropWhile is_digit r) else ([], r1)
                               | [] \<Rightarrow> ([], []));
          m = digits_rat ip + digits_rat fp / 10 ^ length fp
      in if ip = [] \<and> fp = [] then None
         else (case r2 of [] \<Rightarrow> Some m
               | c # r3 \<Rightarrow> if c = CHR ''e'' \<or> c = CHR ''E''
                   then map_option (\<lambda>e. m * rat_pow10 e) (parse_exponent r3) else None))"

definition radix_digit :: "nat \<Rightarrow> char \<Rightarrow> nat option" where
  "radix_digit b c =
     (let n = of_char (lower_char c) :: nat;
          d = (if 48 \<le> n \<and> n \<le> 57 then n - 48 else if 97 \<le> n \<and> n \<le> 122 then n - 87 else 99)
      in if d < b then Some d else None)"

definition parse_radix :: "nat \<Rightarrow> string \<Rightarrow> rat option" where
  "parse_radix b s =
     (if s \<noteq> [] \<and> list_all (\<lambda>c. radix_digit b c \<noteq> None) s
      then Some (foldl (\<lambda>a c. of_nat b * a + of_nat (the (radix_digit b c))) 0 s) else None)"

definition num_of_opt :: "rat option \<Rightarrow> jnum" where
  "num_of_opt x = (case x of Some q \<Rightarrow> Fin q | None \<Rightarrow> NaN)"

definition str_Number :: "string \<Rightarrow> jnum" where
  "str_Number str =
     (let s = trim str in
      if s = [] then Fin 0
      else if s = ''Infinity'' \<or> s = ''+Infinity'' then PosInf
      else if s = ''-Infinity'' then NegInf
      else if starts_with ''0x'' s \<or> starts_with ''0X'' s then num_of_opt (parse_radix 16 (drop 2 s))
      else if starts_with ''0o'' s \<or> starts_with ''0O'' s then num_of_opt (parse_radix 8 (drop 2 s))
      else if starts_with ''0b'' s \<or> starts_with ''0B'' s then num_of_opt (parse_radix 2 (drop 2 s))
      else if starts_with ''+'' s then num_of_opt (parse_decimal (drop 1 s))
      else if starts_with ''-'' s
        then (case parse_decimal (drop 1 s) of Some q \<Rightarrow> if q = 0 then NegZero else Fin (- q) | None \<Rightarrow> NaN)
      else num_of_opt (parse_decimal s))"

fun js_Number :: "jsv \<Rightarrow> jnum" where
  "js_Number JUndef = NaN"
| "js_Number JNull = Fin 0"
| "js_Number (JBool b) = Fin (if b then 1 else 0)"
| "js_Number (JNum x) = x"
| "js_Number (JStr s) = str_Number s"
| "js_Number (JArr []) = Fin 0"
| "js_Number (JArr [JUndef]) = Fin 0"
| "js_Number (JArr [JBool b]) = NaN"
| "js_Number (JArr [v]) = js_Number v"
| "js_Number (JArr (v # w # vs)) = NaN"
| "js_Number (JObj ps) = NaN"

text \<open>Truthiness, and \<open>Number(v) || d\<close>.\<close>

definition truthy :: "jsv \<Rightarrow> bool" where
  "truthy v = (case v of JUndef \<Rightarrow> False | JNull \<Rightarrow> False | JBool b \<Rightarrow> b
     | JNum x \<Rightarrow> x \<notin> {NaN, NegZero, Fin 0} | JStr s \<Rightarrow> s \<noteq> [] | JArr _ \<Rightarrow> True | JObj _ \<Rightarrow> True)"

lemma truthy_simps [simp, js_simps]:
  "\<not> truthy JUndef" "\<not> truthy JNull" "truthy (JBool b) = b" "truthy (JStr s) = (s \<noteq> [])"
  "truthy (JArr xs)" "truthy (JObj ps)" "truthy (JNum x) = (x \<noteq> NaN \<and> x \<noteq> NegZero \<and> x \<noteq> Fin 0)"
  by (auto simp: truthy_def)

definition num_or :: "jnum \<Rightarrow> rat \<Rightarrow> jnum" where
  "num_or x d = (if x \<in> {NaN, NegZero, Fin 0} then Fin d else x)"

text \<open>\<open>isRecord\<close> of the sources (non-null object that is no array), \<open>v?.k\<close>, and \<open>Object.hasOwn\<close>.\<close>

definition isRecord :: "jsv \<Rightarrow> bool" where
  "isRecord v = (case v of JObj _ \<Rightarrow> True | _ \<Rightarrow> False)"

lemma isRecord_simps [simp, js_simps]:
  "isRecord (JObj ps)" "\<not> isRecord JUndef" "\<not> isRecord JNull" "\<not> isRecord (JBool b)"
  "\<not> isRecord (JNum x)" "\<not> isRecord (JStr s)" "\<not> isRecord (JArr xs)"
  by (simp_all add: isRecord_def)

definition js_get :: "jsv \<Rightarrow> string \<Rightarrow> jsv" where
  "js_get v k = (case v of JObj ps \<Rightarrow> (case map_of ps k of Some w \<Rightarrow> w | None \<Rightarrow> JUndef) | _ \<Rightarrow> JUndef)"

lemma js_get_simps [simp, js_simps]:
  "js_get (JObj []) k = JUndef"
  "js_get (JObj ((a, v) # ps)) k = (if a = k then v else js_get (JObj ps) k)"
  "js_get JUndef k = JUndef" "js_get JNull k = JUndef"
  by (simp_all add: js_get_def)

definition obj_entries :: "jsv \<Rightarrow> (string \<times> jsv) list" where
  "obj_entries v = (case v of JObj ps \<Rightarrow> ps | _ \<Rightarrow> [])"

definition hasOwn :: "jsv \<Rightarrow> string \<Rightarrow> bool" where
  "hasOwn v k = (k \<in> set (map fst (obj_entries v)))"

definition arr_elems :: "jsv \<Rightarrow> jsv list" where
  "arr_elems v = (case v of JArr xs \<Rightarrow> xs | _ \<Rightarrow> [])"

definition isArray :: "jsv \<Rightarrow> bool" where
  "isArray v = (case v of JArr _ \<Rightarrow> True | _ \<Rightarrow> False)"

lemma coll_simps [simp, js_simps]:
  "obj_entries (JObj ps) = ps" "arr_elems (JArr xs) = xs" "isArray (JArr xs)"
  "\<not> isArray (JObj ps)" "\<not> isArray JUndef" "\<not> isArray JNull" "\<not> isArray (JStr s)"
  "\<not> isArray (JNum x)" "\<not> isArray (JBool b)"
  by (simp_all add: obj_entries_def arr_elems_def isArray_def)

text \<open>Objects have distinct keys, at every depth.\<close>

fun wf_jsv :: "jsv \<Rightarrow> bool" where
  "wf_jsv (JArr xs) = list_all wf_jsv xs"
| "wf_jsv (JObj ps) = (distinct (map fst ps) \<and> list_all (\<lambda>(k, v). wf_jsv v) ps)"
| "wf_jsv _ = True"

section \<open>Results\<close>

definition res_bind :: "'e + 'a \<Rightarrow> ('a \<Rightarrow> 'e + 'b) \<Rightarrow> 'e + 'b" where
  "res_bind r f = (case r of Inl e \<Rightarrow> Inl e | Inr x \<Rightarrow> f x)"

lemma res_bind_simps [simp]: "res_bind (Inl e) f = Inl e" "res_bind (Inr x) f = f x"
  by (simp_all add: res_bind_def)

lemma res_bind_Inr_iff: "res_bind r f = Inr y \<longleftrightarrow> (\<exists>x. r = Inr x \<and> f x = Inr y)"
  by (cases r) auto

lemma res_bind_cong [fundef_cong]:
  "r = r' \<Longrightarrow> (\<And>x. r' = Inr x \<Longrightarrow> f x = g x) \<Longrightarrow> res_bind r f = res_bind r' g"
  by (cases r') auto

definition is_ok :: "'e + 'a \<Rightarrow> bool" where
  "is_ok r = (case r of Inl _ \<Rightarrow> False | Inr _ \<Rightarrow> True)"

lemma is_ok_simps [simp]: "is_ok (Inr x)" "\<not> is_ok (Inl e)"
  by (simp_all add: is_ok_def)

lemma is_ok_iff: "is_ok r \<longleftrightarrow> (\<exists>x. r = Inr x)"
  by (cases r) auto

text \<open>A loop that may throw, over a list.\<close>

fun res_map :: "('a \<Rightarrow> 'e + 'b) \<Rightarrow> 'a list \<Rightarrow> 'e + 'b list" where
  "res_map f [] = Inr []"
| "res_map f (x # xs) = res_bind (f x) (\<lambda>y. res_bind (res_map f xs) (\<lambda>ys. Inr (y # ys)))"

fun res_fold :: "('s \<Rightarrow> 'a \<Rightarrow> 'e + 's) \<Rightarrow> 's \<Rightarrow> 'a list \<Rightarrow> 'e + 's" where
  "res_fold f s [] = Inr s"
| "res_fold f s (x # xs) = res_bind (f s x) (\<lambda>s'. res_fold f s' xs)"

lemma res_fold_invariant:
  assumes "\<And>s x s'. P s \<Longrightarrow> f s x = Inr s' \<Longrightarrow> P s'"
  shows "P s \<Longrightarrow> res_fold f s xs = Inr s' \<Longrightarrow> P s'"
  by (induction xs arbitrary: s) (auto simp: res_bind_Inr_iff intro: assms)

section \<open>Lists and association lists\<close>

lemma distinct_map_fst_filter: "distinct (map fst ps) \<Longrightarrow> distinct (map fst (filter P ps))"
  by (induction ps) auto

lemma map_of_distinct_iff:
  "distinct (map fst ps) \<Longrightarrow> map_of ps k = Some v \<longleftrightarrow> (k, v) \<in> set ps"
  by (rule map_of_eq_Some_iff)

lemma length_filter_less_iff: "length (filter P xs) < length xs \<longleftrightarrow> (\<exists>x \<in> set xs. \<not> P x)"
  by (metis filter_True length_filter_le length_filter_less less_irrefl)

end
