(* ===== verification/Errors.thy ===== *)
theory Errors
  imports Prelude
begin

text \<open>
  The error values of the runtime (\<open>src/local/errors.mjs\<close>): the error codes, the constructor of
  \<open>BridgeError\<close>, the mapping of system error codes, and the projection an untrusted caller sees.
  The free text of an error message is kept only where a function returns it; thrown errors carry
  their code, their retryable and expose flags and their machine-readable details.
\<close>

section \<open>Codes\<close>

definition ERROR_CODES :: "string list" where
  "ERROR_CODES = [
     ''cancelled'', ''timeout'', ''authentication_failed'', ''authorization_denied'', ''policy_denied'',
     ''invalid_request'', ''not_found'', ''conflict'', ''limit_exceeded'', ''permission_denied'',
     ''path_boundary'', ''network_error'', ''protocol_error'', ''unavailable'', ''integrity_error'',
     ''execution_failed'', ''internal_error'']"

definition RETRYABLE_CODES :: "string list" where
  "RETRYABLE_CODES = [''timeout'', ''network_error'', ''unavailable'']"

text \<open>\<open>[a-z0-9_-]\<close>: every other character of a candidate code is replaced by an underscore.\<close>

definition code_char :: "char \<Rightarrow> bool" where
  "code_char c = (is_lower_az c \<or> is_digit c \<or> c = CHR ''_'' \<or> c = CHR ''-'')"

definition normalizeErrorCode :: "string \<Rightarrow> string \<Rightarrow> string" where
  "normalizeErrorCode value fallback =
     (let code = take 64 (map (\<lambda>c. if code_char c then c else CHR ''_'') (to_lower (trim value)))
      in if code \<in> set ERROR_CODES then code else fallback)"

section \<open>The error value\<close>

record bridge_error =
  code :: string
  retryable :: bool
  expose :: bool
  details :: "(string \<times> jsv) list option"

text \<open>
  \<open>new BridgeError(code, message, options)\<close>: the options are the optional \<open>retryable\<close> and
  \<open>expose\<close> flags and the details object.
\<close>

definition BridgeError :: "string \<Rightarrow> bool option \<Rightarrow> bool option \<Rightarrow> (string \<times> jsv) list option \<Rightarrow> bridge_error" where
  "BridgeError c retry shown det =
     (let n = normalizeErrorCode c ''execution_failed''
      in \<lparr>code = n,
          retryable = (case retry of None \<Rightarrow> n \<in> set RETRYABLE_CODES | Some b \<Rightarrow> b),
          expose = (case shown of None \<Rightarrow> True | Some b \<Rightarrow> b),
          details = det\<rparr>)"

text \<open>The shapes the modelled code throws: no details, a reason, a reason with more fields.\<close>

abbreviation berr :: "string \<Rightarrow> bridge_error" where
  "berr c \<equiv> BridgeError c None None None"

abbreviation berr_reason :: "string \<Rightarrow> string \<Rightarrow> bridge_error" where
  "berr_reason c r \<equiv> BridgeError c None None (Some [(''reason'', JStr r)])"

abbreviation berr_with :: "string \<Rightarrow> string \<Rightarrow> (string \<times> jsv) list \<Rightarrow> bridge_error" where
  "berr_with c r ds \<equiv> BridgeError c None None (Some ((''reason'', JStr r) # ds))"

abbreviation berr_retry :: "string \<Rightarrow> bridge_error" where
  "berr_retry c \<equiv> BridgeError c (Some True) None None"

text \<open>
  \<open>errorCode\<close> of a thrown value: a \<open>BridgeError\<close> keeps its code; any other error is classified by
  its \<open>code\<close> property, first as a runtime code and then as a system error code.
\<close>

datatype thrown = Bridge bridge_error | OtherError string   \<comment> \<open>the string of its \<open>code\<close> property, empty when absent\<close>

definition upper :: "string \<Rightarrow> string" where
  "upper s = map upper_char s"

definition errorCode :: "thrown \<Rightarrow> string \<Rightarrow> string" where
  "errorCode err fallback = (case err of
     Bridge b \<Rightarrow> code b
   | OtherError c \<Rightarrow>
      (let direct = normalizeErrorCode c []; node = upper c
       in if direct \<noteq> [] \<and> direct \<in> set ERROR_CODES then direct
          else if node \<in> {''ENOENT'', ''ENOTDIR''} then ''not_found''
          else if node \<in> {''EACCES'', ''EPERM'', ''EROFS''} then ''permission_denied''
          else if node \<in> {''ETIMEDOUT'', ''ESOCKETTIMEDOUT''} then ''timeout''
          else if node \<in> {''ECONNRESET'', ''ECONNREFUSED'', ''EHOSTUNREACH'', ''ENETUNREACH'', ''ENOTFOUND'', ''EAI_AGAIN''}
            then ''network_error''
          else if node \<in> {''EEXIST'', ''ENOTEMPTY'', ''EBUSY''} then ''conflict''
          else normalizeErrorCode fallback ''execution_failed''))"

text \<open>\<open>executionFailureReason\<close>: a machine code \<open>MBM_...\<close> or \<open>E..\<close> is published, lower-cased, as the reason.\<close>

definition machine_code :: "string \<Rightarrow> bool" where
  "machine_code s =
     ((starts_with ''MBM_'' s \<and> drop 4 s \<noteq> [] \<and> list_all (\<lambda>c. is_upper_az c \<or> is_digit c \<or> c = CHR ''_'') (drop 4 s))
      \<or> (starts_with ''E'' s \<and> 2 \<le> length (drop 1 s) \<and> list_all is_upper_az (drop 1 s)))"

definition executionFailureReason :: "string \<Rightarrow> string \<Rightarrow> (string \<times> jsv) list option" where
  "executionFailureReason machine c =
     (if c \<noteq> ''execution_failed'' \<and> c \<noteq> ''internal_error'' then None
      else if \<not> machine_code machine then None
      else Some [(''reason'', JStr (to_lower machine))])"

definition normalizeBridgeError :: "thrown \<Rightarrow> string \<Rightarrow> bool \<Rightarrow> bool option \<Rightarrow> bridge_error" where
  "normalizeBridgeError err fallback shown retry = (case err of
     Bridge b \<Rightarrow> b
   | OtherError machine \<Rightarrow>
       (let c = errorCode err fallback
        in BridgeError c retry (Some shown) (executionFailureReason machine c)))"

section \<open>Lemmas\<close>

lemma ERROR_CODES_nonempty: "[] \<notin> set ERROR_CODES"
  by (simp add: ERROR_CODES_def)

lemma RETRYABLE_subset: "set RETRYABLE_CODES \<subseteq> set ERROR_CODES"
  by (simp add: RETRYABLE_CODES_def ERROR_CODES_def)

lemma execution_failed_code [simp]: "''execution_failed'' \<in> set ERROR_CODES"
  by (simp add: ERROR_CODES_def)

lemma normalizeErrorCode_closed: "fallback \<in> set ERROR_CODES \<Longrightarrow> normalizeErrorCode v fallback \<in> set ERROR_CODES"
  by (simp add: normalizeErrorCode_def Let_def)

lemma BridgeError_code_known: "code (BridgeError c r x d) \<in> set ERROR_CODES"
  by (simp add: BridgeError_def Let_def normalizeErrorCode_closed)

lemma BridgeError_details [simp]: "details (BridgeError c r x d) = d"
  by (simp add: BridgeError_def Let_def)

lemma BridgeError_retry [simp]: "retryable (BridgeError c (Some b) x d) = b"
  by (simp add: BridgeError_def Let_def)

text \<open>
  A literal runtime code is its own normal form: it consists of code characters, which are lower case
  and no white space, and it is short.
\<close>

lemma code_char_lower: "code_char c \<Longrightarrow> lower_char c = c"
  by (auto simp: code_char_def lower_char_def is_lower_az_def is_digit_def Let_def)

lemma code_char_no_ws: "code_char c \<Longrightarrow> \<not> is_ws c"
  by (auto simp: code_char_def is_ws_def is_lower_az_def is_digit_def Let_def)

lemma trim_id: "list_all (\<lambda>c. \<not> is_ws c) s \<Longrightarrow> trim s = s"
proof -
  assume "list_all (\<lambda>c. \<not> is_ws c) s"
  then have "\<not> is_ws c" if "c \<in> set s" for c using that by (simp add: list_all_iff)
  then have "dropWhile is_ws s = s" "dropWhile is_ws (rev s) = rev s"
    by (metis dropWhile_eq_Cons_conv dropWhile_eq_self_iff list.set_sel(1),
        metis dropWhile_eq_self_iff list.set_sel(1) set_rev)
  then show ?thesis by (simp add: trim_def trim_start_def trim_end_def)
qed

lemma normalize_code_chars:
  assumes "list_all code_char c" "length c \<le> 64" "c \<in> set ERROR_CODES"
  shows "normalizeErrorCode c f = c"
proof -
  have t: "trim c = c" using assms(1) by (intro trim_id) (auto simp: list_all_iff code_char_no_ws)
  have l: "to_lower c = c" using assms(1) by (auto simp: to_lower_def list_all_iff code_char_lower intro: map_idI)
  have m: "map (\<lambda>d. if code_char d then d else CHR ''_'') c = c"
    using assms(1) by (auto simp: list_all_iff intro: map_idI)
  show ?thesis using assms(2,3) by (simp add: normalizeErrorCode_def Let_def t l m)
qed

lemma ERROR_CODES_chars: "list_all (\<lambda>c. list_all code_char c \<and> length c \<le> 64) ERROR_CODES"
  by (simp add: ERROR_CODES_def code_char_def is_lower_az_def is_digit_def Let_def)

lemma normalize_known: "c \<in> set ERROR_CODES \<Longrightarrow> normalizeErrorCode c ''execution_failed'' = c"
  using ERROR_CODES_chars by (intro normalize_code_chars) (auto simp: list_all_iff)

lemma BridgeError_code: "c \<in> set ERROR_CODES \<Longrightarrow> code (BridgeError c r x d) = c"
  by (simp add: BridgeError_def Let_def normalize_known)

lemma BridgeError_code_lit [simp]:
  "code (BridgeError ''invalid_request'' r x d) = ''invalid_request''"
  "code (BridgeError ''conflict'' r x d) = ''conflict''"
  "code (BridgeError ''limit_exceeded'' r x d) = ''limit_exceeded''"
  "code (BridgeError ''unavailable'' r x d) = ''unavailable''"
  "code (BridgeError ''policy_denied'' r x d) = ''policy_denied''"
  "code (BridgeError ''not_found'' r x d) = ''not_found''"
  "code (BridgeError ''integrity_error'' r x d) = ''integrity_error''"
  "code (BridgeError ''authorization_denied'' r x d) = ''authorization_denied''"
  "code (BridgeError ''permission_denied'' r x d) = ''permission_denied''"
  "code (BridgeError ''timeout'' r x d) = ''timeout''"
  "code (BridgeError ''cancelled'' r x d) = ''cancelled''"
  by (simp_all add: BridgeError_code ERROR_CODES_def)

end
