(* ===== verification/PatchParse.thy ===== *)
theory PatchParse
  imports Errors
begin

text \<open>
  The patch envelope parser of \<open>src/local/patch.mjs\<close> (\<open>parsePatchEnvelope\<close>).  The source walks an
  index over the lines between the begin and the end marker; the model walks the list of the lines
  not yet read and carries the index \<open>n\<close>, which error details report as \<open>n + 1\<close>.
\<close>

section \<open>Data\<close>

record hunk =
  header :: string
  hunk_lines :: "(char \<times> string) list"

datatype patch_op =
    PAdd string string
  | PUpdate string "string option" "hunk list"
  | PDelete string

abbreviation LF :: char where "LF \<equiv> CHR 0x0A"
abbreviation CR :: char where "CR \<equiv> CHR 0x0D"
abbreviation TAB :: char where "TAB \<equiv> CHR 0x09"

abbreviation BEGIN_MARK :: string where "BEGIN_MARK \<equiv> ''*** Begin Patch''"
abbreviation END_MARK :: string where "END_MARK \<equiv> ''*** End Patch''"
abbreviation ADD_PREFIX :: string where "ADD_PREFIX \<equiv> ''*** Add File: ''"
abbreviation UPDATE_PREFIX :: string where "UPDATE_PREFIX \<equiv> ''*** Update File: ''"
abbreviation DELETE_PREFIX :: string where "DELETE_PREFIX \<equiv> ''*** Delete File: ''"
abbreviation MOVE_PREFIX :: string where "MOVE_PREFIX \<equiv> ''*** Move to: ''"

type_synonym 'a parsed = "bridge_error + ('a \<times> nat \<times> string list)"

definition isSectionHeader :: "string \<Rightarrow> bool" where
  "isSectionHeader l = (starts_with ADD_PREFIX l \<or> starts_with UPDATE_PREFIX l \<or> starts_with DELETE_PREFIX l)"

text \<open>\<open>text.replaceAll("\r\n", "\n")\<close>.\<close>

fun crlf_to_lf :: "string \<Rightarrow> string" where
  "crlf_to_lf [] = []"
| "crlf_to_lf [c] = [c]"
| "crlf_to_lf (c # d # s) = (if c = CR \<and> d = LF then LF # crlf_to_lf s else c # crlf_to_lf (d # s))"

section \<open>Section bodies\<close>

fun take_add_lines :: "nat \<Rightarrow> string list \<Rightarrow> string list parsed" where
  "take_add_lines n [] = Inr ([], n, [])"
| "take_add_lines n (l # ls) =
     (if isSectionHeader l then Inr ([], n, l # ls)
      else if \<not> starts_with ''+'' l
        then Inl (berr_with ''invalid_request'' ''invalid_add_line'' [(''line'', JNum (Fin (of_nat (n + 1))))])
      else res_bind (take_add_lines (n + 1) ls) (\<lambda>(cs, m, r). Inr (drop 1 l # cs, m, r)))"

fun take_hunk_lines :: "nat \<Rightarrow> string list \<Rightarrow> (char \<times> string) list parsed" where
  "take_hunk_lines n [] = Inr ([], n, [])"
| "take_hunk_lines n (l # ls) =
     (if isSectionHeader l \<or> starts_with ''@@'' l then Inr ([], n, l # ls)
      else (case l of
          [] \<Rightarrow> Inl (berr_with ''invalid_request'' ''invalid_update_line'' [(''line'', JNum (Fin (of_nat (n + 1))))])
        | c # t \<Rightarrow>
            if c \<notin> set '' +-''
            then Inl (berr_with ''invalid_request'' ''invalid_update_line'' [(''line'', JNum (Fin (of_nat (n + 1))))])
            else res_bind (take_hunk_lines (n + 1) ls) (\<lambda>(hs, m, r). Inr ((c, t) # hs, m, r))))"

lemma take_add_lines_shorter: "take_add_lines n ls = Inr (cs, m, r) \<Longrightarrow> length r \<le> length ls"
  by (induction n ls arbitrary: cs m r rule: take_add_lines.induct)
    (fastforce simp: res_bind_Inr_iff split: if_splits)+

lemma take_hunk_lines_shorter: "take_hunk_lines n ls = Inr (hs, m, r) \<Longrightarrow> length r \<le> length ls"
  by (induction n ls arbitrary: hs m r rule: take_hunk_lines.induct)
    (fastforce simp: res_bind_Inr_iff split: if_splits list.splits)+

text \<open>The hunks of an update section: blank lines between hunks are skipped.\<close>

function parse_hunks :: "nat \<Rightarrow> string list \<Rightarrow> hunk list parsed" where
  "parse_hunks n [] = Inr ([], n, [])"
| "parse_hunks n (l # ls) =
     (if isSectionHeader l then Inr ([], n, l # ls)
      else if l = [] then parse_hunks (n + 1) ls
      else if \<not> starts_with ''@@'' l
        then Inl (berr_with ''invalid_request'' ''missing_hunk_header'' [(''line'', JNum (Fin (of_nat (n + 1))))])
      else res_bind (take_hunk_lines (n + 1) ls) (\<lambda>(hl, m, r).
        if hl = [] then Inl (berr_reason ''invalid_request'' ''empty_hunk'')
        else if \<not> list_ex (\<lambda>x. fst x \<noteq> CHR ''+'') hl then Inl (berr_reason ''invalid_request'' ''context_free_hunk'')
        else res_bind (parse_hunks m r) (\<lambda>(hs, m', r').
          Inr (\<lparr>header = trim (drop 2 l), hunk_lines = hl\<rparr> # hs, m', r'))))"
  by pat_completeness auto
termination
  by (relation "measure (\<lambda>(n, ls). length ls)") (auto dest: take_hunk_lines_shorter)

lemma parse_hunks_shorter: "parse_hunks n ls = Inr (hs, m, r) \<Longrightarrow> length r \<le> length ls"
proof (induction n ls arbitrary: hs m r rule: parse_hunks.induct)
  case (2 n l ls)
  show ?case
  proof (cases "isSectionHeader l \<or> l = []")
    case True
    with 2 show ?thesis by (fastforce split: if_splits)
  next
    case False
    with "2.prems" obtain hl m1 r1 where t: "take_hunk_lines (n + 1) ls = Inr (hl, m1, r1)"
      by (auto simp: res_bind_Inr_iff split: if_splits)
    with False "2.prems" obtain hs' where "parse_hunks m1 r1 = Inr (hs', m, r)"
      by (auto simp: res_bind_Inr_iff split: if_splits)
    then have "length r \<le> length r1"
      using "2.IH"(2) [OF _ _ _ t] False "2.prems" t
      by (auto simp: res_bind_Inr_iff split: if_splits)
    with take_hunk_lines_shorter [OF t] show ?thesis by simp
  qed
qed simp

section \<open>Sections\<close>

text \<open>One section, given its header line; \<open>n\<close> is the index after the header.\<close>

definition parse_add :: "string \<Rightarrow> nat \<Rightarrow> string list \<Rightarrow> patch_op parsed" where
  "parse_add path n ls =
     res_bind (take_add_lines n ls) (\<lambda>(cs, m, r).
       Inr (PAdd path (if cs \<noteq> [] then join [LF] cs @ [LF] else []), m, r))"

definition parse_delete :: "string \<Rightarrow> nat \<Rightarrow> string list \<Rightarrow> patch_op parsed" where
  "parse_delete path n ls =
     (case ls of
        [] \<Rightarrow> Inr (PDelete path, n, ls)
      | l # _ \<Rightarrow>
          if \<not> isSectionHeader l \<and> l \<noteq> []
          then Inl (berr_with ''invalid_request'' ''unexpected_delete_body'' [(''line'', JNum (Fin (of_nat (n + 1))))])
          else Inr (PDelete path, n, ls))"

definition parse_move :: "nat \<Rightarrow> string list \<Rightarrow> string option parsed" where
  "parse_move n ls =
     (case ls of
        [] \<Rightarrow> Inr (None, n, ls)
      | l # r \<Rightarrow>
          if starts_with MOVE_PREFIX l
          then (let t = trim (drop (length MOVE_PREFIX) l)
                in if t = [] then Inl (berr_reason ''invalid_request'' ''empty_move_destination'')
                   else Inr (Some t, n + 1, r))
          else Inr (None, n, ls))"

definition parse_update :: "string \<Rightarrow> nat \<Rightarrow> string list \<Rightarrow> patch_op parsed" where
  "parse_update path n ls =
     res_bind (parse_move n ls) (\<lambda>(mv, n1, ls1).
       res_bind (parse_hunks n1 ls1) (\<lambda>(hs, m, r).
         if hs = [] then Inl (berr_reason ''invalid_request'' ''missing_hunks'')
         else Inr (PUpdate path mv hs, m, r)))"

definition parse_section :: "nat \<Rightarrow> string \<Rightarrow> string list \<Rightarrow> patch_op parsed" where
  "parse_section n h ls =
     (if starts_with ADD_PREFIX h
      then (let path = trim (drop (length ADD_PREFIX) h)
            in if path = [] then Inl (berr_with ''invalid_request'' ''empty_path'' [(''operation'', JStr ''add'')])
               else parse_add path (n + 1) ls)
      else if starts_with UPDATE_PREFIX h
      then (let path = trim (drop (length UPDATE_PREFIX) h)
            in if path = [] then Inl (berr_with ''invalid_request'' ''empty_path'' [(''operation'', JStr ''update'')])
               else parse_update path (n + 1) ls)
      else if starts_with DELETE_PREFIX h
      then (let path = trim (drop (length DELETE_PREFIX) h)
            in if path = [] then Inl (berr_with ''invalid_request'' ''empty_path'' [(''operation'', JStr ''delete'')])
               else parse_delete path (n + 1) ls)
      else Inl (berr_with ''invalid_request'' ''invalid_section_header'' [(''line'', JNum (Fin (of_nat (n + 1))))]))"

lemma parse_move_shorter: "parse_move n ls = Inr (mv, m, r) \<Longrightarrow> length r \<le> length ls"
  by (auto simp: parse_move_def Let_def split: list.splits if_splits)

lemma parse_add_shorter: "parse_add path n ls = Inr (p, m, r) \<Longrightarrow> length r \<le> length ls"
  by (auto simp: parse_add_def res_bind_Inr_iff dest!: take_add_lines_shorter)

lemma parse_delete_shorter: "parse_delete path n ls = Inr (p, m, r) \<Longrightarrow> length r \<le> length ls"
  by (auto simp: parse_delete_def split: list.splits if_splits)

lemma parse_update_shorter: "parse_update path n ls = Inr (p, m, r) \<Longrightarrow> length r \<le> length ls"
  by (force simp: parse_update_def res_bind_Inr_iff split: if_splits
      dest!: parse_move_shorter parse_hunks_shorter)

lemma parse_section_shorter: "parse_section n h ls = Inr (p, m, r) \<Longrightarrow> length r \<le> length ls"
  unfolding parse_section_def Let_def
  by (simp split: if_splits add: parse_add_shorter parse_delete_shorter parse_update_shorter)

function parse_sections :: "nat \<Rightarrow> string list \<Rightarrow> bridge_error + patch_op list" where
  "parse_sections n [] = Inr []"
| "parse_sections n (l # ls) =
     (if l = [] then parse_sections (n + 1) ls
      else res_bind (parse_section n l ls) (\<lambda>(p, m, r).
        res_bind (parse_sections m r) (\<lambda>ps. Inr (p # ps))))"
  by pat_completeness auto
termination
  by (relation "measure (\<lambda>(n, ls). length ls)") (auto dest: parse_section_shorter)

section \<open>The envelope\<close>

text \<open>\<open>lines.lastIndexOf(END)\<close>.\<close>

fun last_index :: "'a \<Rightarrow> 'a list \<Rightarrow> nat option" where
  "last_index x [] = None"
| "last_index x (y # ys) = (case last_index x ys of Some i \<Rightarrow> Some (Suc i) | None \<Rightarrow> if y = x then Some 0 else None)"

definition op_paths :: "patch_op \<Rightarrow> string list" where
  "op_paths p = (case p of
     PAdd a _ \<Rightarrow> filter (\<lambda>s. s \<noteq> []) [a]
   | PDelete a \<Rightarrow> filter (\<lambda>s. s \<noteq> []) [a]
   | PUpdate a mv _ \<Rightarrow> filter (\<lambda>s. s \<noteq> []) (a # (case mv of None \<Rightarrow> [] | Some b \<Rightarrow> [b])))"

fun touched_once :: "string list \<Rightarrow> string list \<Rightarrow> bool" where
  "touched_once seen [] = True"
| "touched_once seen (p # ps) = (if p \<in> set seen then False else touched_once (p # seen) ps)"

definition parsePatchEnvelope :: "string \<Rightarrow> bridge_error + patch_op list" where
  "parsePatchEnvelope input =
     (let ls = split_on LF (crlf_to_lf input) in
      if ls ! 0 \<noteq> BEGIN_MARK then Inl (berr_reason ''invalid_request'' ''missing_begin_marker'')
      else (case last_index END_MARK ls of
          None \<Rightarrow> Inl (berr_reason ''invalid_request'' ''missing_end_marker'')
        | Some e \<Rightarrow>
            if e < 1 then Inl (berr_reason ''invalid_request'' ''missing_end_marker'')
            else if list_ex (\<lambda>l. l \<noteq> []) (drop (e + 1) ls) then Inl (berr_reason ''invalid_request'' ''trailing_content'')
            else res_bind (parse_sections 1 (drop 1 (take e ls))) (\<lambda>ps.
              if ps = [] then Inl (berr_reason ''invalid_request'' ''empty_patch'')
              else if \<not> touched_once [] (concat (map op_paths ps))
                then Inl (berr_reason ''conflict'' ''duplicate_path'')
              else Inr ps)))"

end
