(* ===== verification/PatchSpec.thy ===== *)
theory PatchSpec
  imports PatchParse
begin

text \<open>
  What the patch parser guarantees: the shape of every accepted patch, and that an envelope written
  from a list of well-formed operations parses back to exactly that list.
\<close>

section \<open>Shape of an accepted patch\<close>

definition hunk_wf :: "hunk \<Rightarrow> bool" where
  "hunk_wf h = (list_all (\<lambda>x. fst x \<in> set '' +-'') (hunk_lines h) \<and> list_ex (\<lambda>x. fst x \<noteq> CHR ''+'') (hunk_lines h))"

definition op_wf :: "patch_op \<Rightarrow> bool" where
  "op_wf p = (case p of
     PAdd a c \<Rightarrow> a \<noteq> [] \<and> (c = [] \<or> last c = LF)
   | PDelete a \<Rightarrow> a \<noteq> []
   | PUpdate a mv hs \<Rightarrow> a \<noteq> [] \<and> mv \<noteq> Some [] \<and> hs \<noteq> [] \<and> list_all hunk_wf hs)"

definition patch_wf :: "patch_op list \<Rightarrow> bool" where
  "patch_wf ps = (ps \<noteq> [] \<and> list_all op_wf ps \<and> distinct (concat (map op_paths ps)))"

lemma take_hunk_lines_types:
  "take_hunk_lines n ls = Inr (hs, m, r) \<Longrightarrow> list_all (\<lambda>x. fst x \<in> set '' +-'') hs"
  by (induction n ls arbitrary: hs m r rule: take_hunk_lines.induct)
    (fastforce simp: res_bind_Inr_iff split: if_splits list.splits)+

lemma parse_hunks_wf: "parse_hunks n ls = Inr (hs, m, r) \<Longrightarrow> list_all hunk_wf hs"
proof (induction n ls arbitrary: hs m r rule: parse_hunks.induct)
  case (2 n l ls)
  show ?case
  proof (cases "isSectionHeader l \<or> l = []")
    case True
    with 2 show ?thesis by (fastforce split: if_splits)
  next
    case False
    with "2.prems" obtain hl m1 r1 where t: "take_hunk_lines (n + 1) ls = Inr (hl, m1, r1)"
      and ne: "list_ex (\<lambda>x. fst x \<noteq> CHR ''+'') hl" "hl \<noteq> []" "starts_with ''@@'' l"
      by (auto simp: res_bind_Inr_iff split: if_splits)
    with False "2.prems" obtain hs' where p: "parse_hunks m1 r1 = Inr (hs', m, r)"
      and hs: "hs = \<lparr>header = trim (drop 2 l), hunk_lines = hl\<rparr> # hs'"
      by (auto simp: res_bind_Inr_iff split: if_splits)
    have "list_all hunk_wf hs'"
      using "2.IH"(2) [OF _ _ _ t] False ne p by auto
    moreover have "hunk_wf \<lparr>header = trim (drop 2 l), hunk_lines = hl\<rparr>"
      using ne take_hunk_lines_types [OF t] by (simp add: hunk_wf_def)
    ultimately show ?thesis using hs by simp
  qed
qed simp

lemma parse_move_wf: "parse_move n ls = Inr (mv, m, r) \<Longrightarrow> mv \<noteq> Some []"
  by (auto simp: parse_move_def Let_def split: list.splits if_splits)

lemma parse_add_wf: "path \<noteq> [] \<Longrightarrow> parse_add path n ls = Inr (p, m, r) \<Longrightarrow> op_wf p"
  by (auto simp: parse_add_def res_bind_Inr_iff op_wf_def)

lemma parse_delete_wf: "path \<noteq> [] \<Longrightarrow> parse_delete path n ls = Inr (p, m, r) \<Longrightarrow> op_wf p"
  by (auto simp: parse_delete_def op_wf_def split: list.splits if_splits)

lemma parse_update_wf: "path \<noteq> [] \<Longrightarrow> parse_update path n ls = Inr (p, m, r) \<Longrightarrow> op_wf p"
  by (force simp: parse_update_def res_bind_Inr_iff op_wf_def split: if_splits
      dest: parse_move_wf parse_hunks_wf)

lemma parse_section_wf: "parse_section n h ls = Inr (p, m, r) \<Longrightarrow> op_wf p"
  unfolding parse_section_def Let_def
  by (auto split: if_splits dest: parse_add_wf [rotated] parse_delete_wf [rotated] parse_update_wf [rotated])

lemma parse_sections_wf: "parse_sections n ls = Inr ps \<Longrightarrow> list_all op_wf ps"
proof (induction n ls arbitrary: ps rule: parse_sections.induct)
  case (2 n l ls)
  show ?case
  proof (cases "l = []")
    case False
    with "2.prems" obtain p m r qs where s: "parse_section n l ls = Inr (p, m, r)"
      and q: "parse_sections m r = Inr qs" and ps: "ps = p # qs"
      by (auto simp: res_bind_Inr_iff)
    have "list_all op_wf qs" using "2.IH"(2) [OF False s] q by simp
    with ps parse_section_wf [OF s] show ?thesis by simp
  qed (use 2 in simp)
qed simp

lemma touched_once_iff: "touched_once seen ps \<longleftrightarrow> distinct ps \<and> set seen \<inter> set ps = {}"
  by (induction seen ps rule: touched_once.induct) auto

definition plain :: "string \<Rightarrow> bool" where
  "plain s = (LF \<notin> set s \<and> CR \<notin> set s)"

definition plain_name :: "string \<Rightarrow> bool" where
  "plain_name s = (plain s \<and> trim s = s \<and> s \<noteq> [])"

definition hunk_printable :: "hunk \<Rightarrow> bool" where
  "hunk_printable h = (hunk_wf h \<and> plain (header h) \<and> trim (header h) = header h
     \<and> list_all (\<lambda>x. plain (snd x)) (hunk_lines h))"

text \<open>An operation together with the lines of an added file, so that its content is their join.\<close>

definition add_content :: "string list \<Rightarrow> string" where
  "add_content cs = (if cs \<noteq> [] then join [LF] cs @ [LF] else [])"

definition op_printable :: "patch_op \<Rightarrow> bool" where
  "op_printable p = (case p of
     PAdd a c \<Rightarrow> plain_name a \<and> CR \<notin> set c \<and> (c = [] \<or> last c = LF)
   | PDelete a \<Rightarrow> plain_name a
   | PUpdate a mv hs \<Rightarrow> plain_name a \<and> (case mv of None \<Rightarrow> True | Some b \<Rightarrow> plain_name b)
       \<and> hs \<noteq> [] \<and> list_all hunk_printable hs)"

definition content_lines :: "string \<Rightarrow> string list" where
  "content_lines c = (if c = [] then [] else split_on LF (butlast c))"

definition render_hunk :: "hunk \<Rightarrow> string list" where
  "render_hunk h = (''@@'' @ header h) # map (\<lambda>x. fst x # snd x) (hunk_lines h)"

definition render_op :: "patch_op \<Rightarrow> string list" where
  "render_op p = (case p of
     PAdd a c \<Rightarrow> (ADD_PREFIX @ a) # map (\<lambda>l. CHR ''+'' # l) (content_lines c)
   | PDelete a \<Rightarrow> [DELETE_PREFIX @ a]
   | PUpdate a mv hs \<Rightarrow> (UPDATE_PREFIX @ a)
        # (case mv of None \<Rightarrow> [] | Some b \<Rightarrow> [MOVE_PREFIX @ b]) @ concat (map render_hunk hs))"

definition render_patch :: "patch_op list \<Rightarrow> string" where
  "render_patch ps = join [LF] (BEGIN_MARK # concat (map render_op ps) @ [END_MARK])"

definition patch_printable :: "patch_op list \<Rightarrow> bool" where
  "patch_printable ps = (ps \<noteq> [] \<and> list_all op_printable ps \<and> distinct (concat (map op_paths ps)))"

section \<open>Round trip\<close>

definition stops :: "string list \<Rightarrow> bool" where
  "stops r = (case r of [] \<Rightarrow> True | l # _ \<Rightarrow> isSectionHeader l)"

definition hunk_stops :: "string list \<Rightarrow> bool" where
  "hunk_stops r = (case r of [] \<Rightarrow> True | l # _ \<Rightarrow> isSectionHeader l \<or> starts_with ''@@'' l)"

lemma isSectionHeader_simps [simp]:
  "isSectionHeader (ADD_PREFIX @ a)" "isSectionHeader (UPDATE_PREFIX @ a)" "isSectionHeader (DELETE_PREFIX @ a)"
  "\<not> isSectionHeader []"
  "c \<noteq> CHR ''*'' \<Longrightarrow> \<not> isSectionHeader (c # s)"
  by (simp_all add: isSectionHeader_def)

lemma take_add_lines_render:
  "stops r \<Longrightarrow> take_add_lines n (map (\<lambda>l. CHR ''+'' # l) cs @ r) = Inr (cs, n + length cs, r)"
proof (induction cs arbitrary: n)
  case Nil
  then show ?case by (cases r) (auto simp: stops_def)
qed simp

lemma take_hunk_lines_render:
  "hunk_stops r \<Longrightarrow> list_all (\<lambda>x. fst x \<in> set '' +-'') hl \<Longrightarrow>
   take_hunk_lines n (map (\<lambda>x. fst x # snd x) hl @ r) = Inr (hl, n + length hl, r)"
proof (induction hl arbitrary: n)
  case Nil
  then show ?case by (cases r) (auto simp: hunk_stops_def)
next
  case (Cons x hl)
  then show ?case by (cases x) (auto simp: starts_with_def)
qed

lemma hunk_stops_render: "stops r \<Longrightarrow> hunk_stops (concat (map render_hunk hs) @ r)"
  by (cases hs) (auto simp: render_hunk_def stops_def hunk_stops_def split: list.splits)

lemma parse_hunks_stop: "stops r \<Longrightarrow> parse_hunks n r = Inr ([], n, r)"
  by (cases r) (auto simp: stops_def)

lemma parse_hunks_render:
  "stops r \<Longrightarrow> list_all hunk_printable hs \<Longrightarrow>
   \<exists>m. parse_hunks n (concat (map render_hunk hs) @ r) = Inr (hs, m, r)"
proof (induction hs arbitrary: n)
  case Nil
  then show ?case by (simp add: parse_hunks_stop)
next
  case (Cons h hs)
  let ?rest = "concat (map render_hunk hs) @ r"
  have w: "hunk_wf h" "trim (header h) = header h" using Cons.prems by (simp_all add: hunk_printable_def)
  have ne: "hunk_lines h \<noteq> []" using w(1) by (auto simp: hunk_wf_def)
  have t: "take_hunk_lines (n + 1) (map (\<lambda>x. fst x # snd x) (hunk_lines h) @ ?rest)
      = Inr (hunk_lines h, n + 1 + length (hunk_lines h), ?rest)"
    using w(1) hunk_stops_render [OF Cons.prems(1)] by (intro take_hunk_lines_render) (auto simp: hunk_wf_def)
  obtain m where m: "parse_hunks (n + 1 + length (hunk_lines h)) ?rest = Inr (hs, m, r)"
    using Cons by auto
  show ?case
    using w ne t m by (auto simp: render_hunk_def [of h] hunk_wf_def [of h] intro!: exI [of _ m])
qed

lemma content_lines_add_content:
  assumes "c = [] \<or> last c = LF"
  shows "add_content (content_lines c) = c"
proof (cases "c = []")
  case False
  with assms have "c = butlast c @ [LF]" by (metis append_butlast_last_id)
  with False show ?thesis by (simp add: add_content_def content_lines_def join_split_on)
qed (simp add: add_content_def content_lines_def)

lemma parse_add_render:
  "stops r \<Longrightarrow> op_printable (PAdd a c) \<Longrightarrow>
   \<exists>m. parse_add a n (map (\<lambda>l. CHR ''+'' # l) (content_lines c) @ r) = Inr (PAdd a c, m, r)"
  using content_lines_add_content [of c]
  by (simp add: parse_add_def take_add_lines_render op_printable_def add_content_def)

lemma parse_delete_render: "stops r \<Longrightarrow> parse_delete a n r = Inr (PDelete a, n, r)"
  by (cases r) (auto simp: parse_delete_def stops_def)

lemma parse_move_None: "hs \<noteq> [] \<Longrightarrow> parse_move n (concat (map render_hunk hs) @ r) = Inr (None, n, concat (map render_hunk hs) @ r)"
  by (cases hs) (auto simp: parse_move_def render_hunk_def)

lemma parse_move_Some: "plain_name b \<Longrightarrow> parse_move n ((MOVE_PREFIX @ b) # r) = Inr (Some b, n + 1, r)"
  by (simp add: parse_move_def plain_name_def)

lemma parse_update_render:
  assumes "stops r" "op_printable (PUpdate a mv hs)"
  shows "\<exists>m. parse_update a n ((case mv of None \<Rightarrow> [] | Some b \<Rightarrow> [MOVE_PREFIX @ b]) @ concat (map render_hunk hs) @ r)
           = Inr (PUpdate a mv hs, m, r)"
proof (cases mv)
  case None
  obtain m where "parse_hunks n (concat (map render_hunk hs) @ r) = Inr (hs, m, r)"
    using parse_hunks_render [OF assms(1)] assms(2) by (auto simp: op_printable_def)
  with None assms show ?thesis by (simp add: parse_update_def parse_move_None op_printable_def)
next
  case (Some b)
  obtain m where "parse_hunks (n + 1) (concat (map render_hunk hs) @ r) = Inr (hs, m, r)"
    using parse_hunks_render [OF assms(1)] assms(2) by (auto simp: op_printable_def)
  moreover have "parse_move n ([MOVE_PREFIX @ b] @ concat (map render_hunk hs) @ r)
      = Inr (Some b, n + 1, concat (map render_hunk hs) @ r)"
    using assms Some parse_move_Some [of b n "concat (map render_hunk hs) @ r"] by (simp add: op_printable_def)
  ultimately show ?thesis using Some assms by (simp add: parse_update_def op_printable_def)
qed

lemma parse_section_render:
  assumes "stops r" "op_printable p"
  shows "\<exists>l ls m. render_op p = l # ls \<and> l \<noteq> [] \<and> parse_section n l (ls @ r) = Inr (p, m, r)"
proof (cases p)
  case (PAdd a c)
  with parse_add_render [OF assms(1), of a c "n + 1"] assms(2) show ?thesis
    by (auto simp: render_op_def parse_section_def Let_def op_printable_def plain_name_def)
next
  case (PDelete a)
  with parse_delete_render [OF assms(1), of a "n + 1"] assms(2) show ?thesis
    by (auto simp: render_op_def parse_section_def Let_def op_printable_def plain_name_def)
next
  case (PUpdate a mv hs)
  with parse_update_render [OF assms(1), of a mv hs "n + 1"] assms(2) show ?thesis
    by (auto simp: render_op_def parse_section_def Let_def op_printable_def plain_name_def)
qed

lemma render_stops: "stops (concat (map render_op ps))"
  by (cases ps) (auto simp: stops_def render_op_def isSectionHeader_def split: patch_op.splits)

lemma parse_sections_render:
  "list_all op_printable ps \<Longrightarrow> parse_sections n (concat (map render_op ps)) = Inr ps"
proof (induction ps arbitrary: n)
  case (Cons p ps)
  obtain l ls m where "render_op p = l # ls" "l \<noteq> []"
    "parse_section n l (ls @ concat (map render_op ps)) = Inr (p, m, concat (map render_op ps))"
    using parse_section_render [OF render_stops] Cons.prems by force
  with Cons show ?case by simp
qed simp

text \<open>The envelope: the rendered text has no carriage return, so normalisation keeps it.\<close>

lemma crlf_to_lf_id: "CR \<notin> set s \<Longrightarrow> crlf_to_lf s = s"
  by (induction s rule: crlf_to_lf.induct) auto

lemma last_index_snoc: "last_index x (ys @ [x]) = Some (length ys)"
  by (induction ys) auto

lemma set_join: "set (join sep ws) \<subseteq> set sep \<union> \<Union> (set ` set ws)"
  by (induction sep ws rule: join.induct) auto

lemma plain_append [simp]: "plain (a @ b) = (plain a \<and> plain b)"
  by (auto simp: plain_def)

lemma content_lines_plain: "CR \<notin> set c \<Longrightarrow> l \<in> set (content_lines c) \<Longrightarrow> plain l"
proof -
  assume c: "CR \<notin> set c" and l: "l \<in> set (content_lines c)"
  then have l': "l \<in> set (split_on LF (butlast c))" by (auto simp: content_lines_def split: if_splits)
  have sub: "w \<in> set (split_on LF s) \<Longrightarrow> set w \<subseteq> set s" for w s
  proof (induction s arbitrary: w)
    case (Cons d s)
    obtain v vs where "split_on LF s = v # vs" by (cases "split_on LF s") auto
    with Cons show ?case by (fastforce split: if_splits)
  qed simp
  have "set l \<subseteq> set (butlast c)" using l' by (rule sub)
  then have "CR \<notin> set l" using c by (meson in_set_butlastD subset_iff)
  with split_on_no_sep [OF l'] show "plain l" by (simp add: plain_def)
qed

lemma plain_Cons [simp]: "plain (c # s) = (c \<noteq> LF \<and> c \<noteq> CR \<and> plain s)"
  by (auto simp: plain_def)

lemma render_hunk_plain:
  assumes "hunk_printable h" "l \<in> set (render_hunk h)"
  shows "plain l"
proof -
  have "plain (fst x # snd x)" if "x \<in> set (hunk_lines h)" for x
  proof -
    have "fst x \<in> set '' +-''" "plain (snd x)"
      using assms(1) that by (auto simp: hunk_printable_def hunk_wf_def list_all_iff)
    then show ?thesis by auto
  qed
  with assms show ?thesis by (auto simp: render_hunk_def hunk_printable_def)
qed

lemma render_op_plain:
  assumes "op_printable p" "l \<in> set (render_op p)"
  shows "plain l"
proof (cases p)
  case (PAdd a c)
  with assms show ?thesis by (auto simp: op_printable_def render_op_def plain_name_def dest: content_lines_plain)
next
  case (PDelete a)
  with assms show ?thesis by (auto simp: op_printable_def render_op_def plain_name_def)
next
  case (PUpdate a mv hs)
  with assms show ?thesis
    by (auto simp: op_printable_def render_op_def plain_name_def list_all_iff split: option.splits
        dest: render_hunk_plain)
qed

section \<open>Properties\<close>

text \<open>
  Every patch the parser accepts has at least one operation, only operations with non-empty paths,
  update sections whose hunks all carry a removed or context line, and touches no path twice.
\<close>

lemma parse_patch_wf: "parsePatchEnvelope s = Inr ps \<Longrightarrow> patch_wf ps"
  by (auto simp: parsePatchEnvelope_def Let_def res_bind_Inr_iff patch_wf_def touched_once_iff
      split: if_splits option.splits dest: parse_sections_wf)

section \<open>Rendering\<close>

lemma parse_patch_wf_sample:
  "parsePatchEnvelope (join [LF] [BEGIN_MARK, ''*** Delete File: a'', END_MARK]) = Inr [PDelete ''a'']
   \<and> patch_wf [PDelete ''a'']"
proof -
  have "parsePatchEnvelope (join [LF] [BEGIN_MARK, ''*** Delete File: a'', END_MARK]) = Inr [PDelete ''a'']"
    by code_simp
  then show ?thesis using parse_patch_wf by blast
qed

text \<open>\<close>

text \<open>
  C6. Round trip: an envelope written from a list of operations (names and hunk lines without line
  breaks, no path used twice) parses back to exactly that list.
\<close>

lemma parse_render:
  assumes "patch_printable ps"
  shows "parsePatchEnvelope (render_patch ps) = Inr ps"
proof -
  let ?ls = "BEGIN_MARK # concat (map render_op ps) @ [END_MARK]"
  have body: "\<forall>l \<in> set ?ls. plain l"
    using assms render_op_plain by (fastforce simp: patch_printable_def list_all_iff plain_def)
  have "CR \<notin> set (join [LF] ?ls)"
    using set_join [of "[LF]" ?ls] body by (auto simp: plain_def)
  then have cr: "crlf_to_lf (join [LF] ?ls) = join [LF] ?ls" by (rule crlf_to_lf_id)
  have sp: "split_on LF (join [LF] ?ls) = ?ls"
    using body by (intro split_on_join) (auto simp: plain_def)
  have li: "last_index END_MARK ?ls = Some (Suc (length (concat (map render_op ps))))"
    using last_index_snoc [of END_MARK "BEGIN_MARK # concat (map render_op ps)"] by simp
  have sec: "parse_sections (Suc 0) (concat (map render_op ps)) = Inr ps"
    using assms by (intro parse_sections_render) (simp add: patch_printable_def)
  show ?thesis
    unfolding parsePatchEnvelope_def render_patch_def cr sp Let_def li
    using assms sec by (simp add: patch_printable_def touched_once_iff del: length_concat)
qed

lemma parse_render_witness:
  "patch_printable [PDelete ''a'', PUpdate ''b'' None [\<lparr>header = ''f'', hunk_lines = [(CHR ''-'', ''x''), (CHR ''+'', ''y'')]\<rparr>]]
   \<and> parsePatchEnvelope (render_patch [PDelete ''a'', PUpdate ''b'' None [\<lparr>header = ''f'', hunk_lines = [(CHR ''-'', ''x''), (CHR ''+'', ''y'')]\<rparr>]])
     = Inr [PDelete ''a'', PUpdate ''b'' None [\<lparr>header = ''f'', hunk_lines = [(CHR ''-'', ''x''), (CHR ''+'', ''y'')]\<rparr>]]"
proof -
  have "patch_printable [PDelete ''a'', PUpdate ''b'' None [\<lparr>header = ''f'', hunk_lines = [(CHR ''-'', ''x''), (CHR ''+'', ''y'')]\<rparr>]]"
    by code_simp
  with parse_render show ?thesis by blast
qed

end
