(* ===== verification/PatchApply.thy ===== *)
theory PatchApply
  imports PatchParse
begin

text \<open>
  The application of update hunks of \<open>src/local/patch.mjs\<close> (\<open>applyUpdateHunks\<close>).  A file is the
  pair of its lines and their terminators, two lists of the same length, as in the source; the
  write to \<open>terminators[at - 1]\<close> inside \<open>replacementLineTerminators\<close> is the second component of its
  result.
\<close>

section \<open>Lines and terminators\<close>

abbreviation CRLF :: string where "CRLF \<equiv> [CR, LF]"

text \<open>The loop of \<open>splitLinesWithTerminators\<close>; \<open>acc\<close> is the source from \<open>lineStart\<close> to the index.\<close>

fun split_loop :: "string \<Rightarrow> string \<Rightarrow> (string \<times> string) list" where
  "split_loop acc [] = (if acc = [] then [] else [(acc, [])])"
| "split_loop acc (c # s) =
     (if c \<noteq> LF then split_loop (acc @ [c]) s
      else if acc \<noteq> [] \<and> last acc = CR then (butlast acc, CRLF) # split_loop [] s
      else (acc, [LF]) # split_loop [] s)"

definition splitLinesWithTerminators :: "string \<Rightarrow> string list \<times> string list" where
  "splitLinesWithTerminators source =
     (if source = [] then ([[]], [[]])
      else (map fst (split_loop [] source), map snd (split_loop [] source)))"

definition preferredLineEnding :: "string list \<Rightarrow> string" where
  "preferredLineEnding ts =
     (let crlf = length (filter (\<lambda>v. v = CRLF) ts); lf = length (filter (\<lambda>v. v = [LF]) ts)
      in if crlf > lf then CRLF else [LF])"

definition leadingSpaces :: "string \<Rightarrow> nat" where
  "leadingSpaces l = length (takeWhile (\<lambda>c. c = CHR '' '') l)"

definition shiftLineIndent :: "string \<Rightarrow> int \<Rightarrow> string" where
  "shiftLineIndent l delta =
     (if trim l = [] \<or> delta = 0 then l
      else if delta > 0 then replicate (nat delta) CHR '' '' @ l
      else drop (min (nat (- delta)) (leadingSpaces l)) l)"

section \<open>Terminators of the replacement lines\<close>

definition first_nonempty :: "string list \<Rightarrow> string" where
  "first_nonempty xs = (case filter (\<lambda>x. x \<noteq> []) xs of [] \<Rightarrow> [] | x # _ \<Rightarrow> x)"

definition replacementLineTerminators ::
  "string list \<Rightarrow> nat \<Rightarrow> string list \<Rightarrow> nat \<Rightarrow> string \<Rightarrow> string list \<times> string list" where
  "replacementLineTerminators removed newLineCount terminators pos defaultEol =
     (if newLineCount = 0 then ([], terminators)
      else if removed = [] then
        (let before = (if pos > 0 then terminators ! (pos - 1) else []);
             after = (if pos < length terminators then terminators ! pos else []);
             fill = first_nonempty [before, after, defaultEol];
             terminators' = (if pos > 0 \<and> before = [] then terminators[pos - 1 := defaultEol] else terminators)
         in (map (\<lambda>i. if pos = length terminators \<and> i = newLineCount - 1 \<and> before = [] then [] else fill)
               [0..<newLineCount], terminators'))
      else
        (let fill = (if last removed \<noteq> [] then last removed else defaultEol);
             base = take newLineCount removed;
             replacement = base @ replicate (newLineCount - length base) fill
         in if last removed = []
            then (map (\<lambda>i. if i = newLineCount - 1 then []
                           else if replacement ! i = [] then defaultEol else replacement ! i) [0..<newLineCount],
                  terminators)
            else (replacement, terminators)))"

section \<open>Locating a hunk\<close>

text \<open>The three passes of \<open>findSequenceMatches\<close>: exact, up to trailing white space, up to a common shift.\<close>

definition window :: "string list \<Rightarrow> nat \<Rightarrow> nat \<Rightarrow> string list" where
  "window ls i n = take n (drop i ls)"

definition positions :: "string list \<Rightarrow> string list \<Rightarrow> nat \<Rightarrow> nat list" where
  "positions ls sq start = (if length sq \<le> length ls then [start..<Suc (length ls - length sq)] else [])"

definition match_exact :: "string list \<Rightarrow> string list \<Rightarrow> nat \<Rightarrow> bool" where
  "match_exact ls sq i = list_all2 (\<lambda>f s. f = s) (window ls i (length sq)) sq"

definition match_trim_end :: "string list \<Rightarrow> string list \<Rightarrow> nat \<Rightarrow> bool" where
  "match_trim_end ls sq i = list_all2 (\<lambda>f s. trim_end f = trim_end s) (window ls i (length sq)) sq"

fun indent_delta :: "(string \<times> string) list \<Rightarrow> int option \<Rightarrow> int option option" where
  "indent_delta [] d = Some d"
| "indent_delta ((f, s) # r) d =
     (if trim f \<noteq> trim s then None
      else if length (trim s) > 0 then
        (if starts_with [TAB] f \<or> starts_with [TAB] s then None
         else (let delta = int (leadingSpaces f) - int (leadingSpaces s)
               in case d of None \<Rightarrow> indent_delta r (Some delta)
                  | Some e \<Rightarrow> if delta \<noteq> e then None else indent_delta r d))
      else indent_delta r d)"

definition match_indent :: "string list \<Rightarrow> string list \<Rightarrow> nat \<Rightarrow> int option" where
  "match_indent ls sq i = (case indent_delta (zip (window ls i (length sq)) sq) None of Some (Some d) \<Rightarrow> Some d | _ \<Rightarrow> None)"

definition findSequenceMatches :: "string list \<Rightarrow> string list \<Rightarrow> nat \<Rightarrow> (nat \<times> int) list" where
  "findSequenceMatches ls sq start =
     (if sq = [] then []
      else
        (let m1 = filter (match_exact ls sq) (positions ls sq start) in
         if m1 \<noteq> [] then map (\<lambda>i. (i, 0)) m1
         else (let m2 = filter (match_trim_end ls sq) (positions ls sq start) in
           if m2 \<noteq> [] then map (\<lambda>i. (i, 0)) m2
           else if length (filter (\<lambda>l. length (trim l) > 0) sq) \<ge> 2
             then List.map_filter (\<lambda>i. map_option (\<lambda>d. (i, d)) (match_indent ls sq i)) (positions ls sq start)
           else [])))"

section \<open>Applying the hunks\<close>

definition old_lines :: "hunk \<Rightarrow> string list" where
  "old_lines h = map snd (filter (\<lambda>x. fst x \<noteq> CHR ''+'') (hunk_lines h))"

definition raw_new_lines :: "hunk \<Rightarrow> string list" where
  "raw_new_lines h = map snd (filter (\<lambda>x. fst x \<noteq> CHR ''-'') (hunk_lines h))"

text \<open>\<open>array.splice(at, count, ...items)\<close>.\<close>

definition js_splice :: "nat \<Rightarrow> nat \<Rightarrow> 'a list \<Rightarrow> 'a list \<Rightarrow> 'a list" where
  "js_splice i n new xs = take i xs @ new @ drop (i + n) xs"

record file_state =
  lines :: "string list"
  terminators :: "string list"
  searchFrom :: nat

definition apply_hunk :: "string \<Rightarrow> nat \<Rightarrow> hunk \<Rightarrow> file_state \<Rightarrow> bridge_error + file_state" where
  "apply_hunk defaultEol hunkIndex h st =
     (let ms = findSequenceMatches (lines st) (old_lines h) (searchFrom st) in
      case ms of
        [] \<Rightarrow> Inl (berr_with ''conflict'' ''context_not_found'' [(''hunk'', JNum (Fin (of_nat (hunkIndex + 1))))])
      | (i, delta) # others \<Rightarrow>
          if others \<noteq> []
          then Inl (berr_with ''conflict'' ''context_ambiguous'' [(''hunk'', JNum (Fin (of_nat (hunkIndex + 1))))])
          else
            (let n = length (old_lines h);
                 newLines = (if delta = 0 then raw_new_lines h else map (\<lambda>l. shiftLineIndent l delta) (raw_new_lines h));
                 removed = window (terminators st) i n;
                 (repl, ts) = replacementLineTerminators removed (length newLines) (terminators st) i defaultEol
             in Inr \<lparr>lines = js_splice i n newLines (lines st),
                     terminators = js_splice i n repl ts,
                     searchFrom = i + length newLines\<rparr>))"

fun apply_hunks :: "string \<Rightarrow> nat \<Rightarrow> hunk list \<Rightarrow> file_state \<Rightarrow> bridge_error + file_state" where
  "apply_hunks eol k [] st = Inr st"
| "apply_hunks eol k (h # hs) st = res_bind (apply_hunk eol k h st) (apply_hunks eol (k + 1) hs)"

definition render_file :: "string list \<Rightarrow> string list \<Rightarrow> string" where
  "render_file ls ts = concat (map2 (@) ls ts)"

definition applyUpdateHunks :: "string \<Rightarrow> hunk list \<Rightarrow> bridge_error + string" where
  "applyUpdateHunks content hunks =
     (let (ls, ts) = splitLinesWithTerminators content
      in res_bind (apply_hunks (preferredLineEnding ts) 0 hunks \<lparr>lines = ls, terminators = ts, searchFrom = 0\<rparr>)
           (\<lambda>st. Inr (render_file (lines st) (terminators st))))"

section \<open>Splitting and rejoining\<close>

lemma split_loop_render: "concat (map (\<lambda>p. fst p @ snd p) (split_loop acc s)) = acc @ s"
proof (induction acc s rule: split_loop.induct)
  case (2 acc c s)
  have "acc \<noteq> [] \<Longrightarrow> last acc = CR \<Longrightarrow> butlast acc @ [CR] = acc" by (metis append_butlast_last_id)
  with 2 show ?case by (auto simp flip: append_assoc)
qed simp

lemma render_pairs: "render_file (map fst ps) (map snd ps) = concat (map (\<lambda>p. fst p @ snd p) ps)"
  by (induction ps) (auto simp: render_file_def)

lemma render_split: "render_file (fst (splitLinesWithTerminators s)) (snd (splitLinesWithTerminators s)) = s"
  by (simp add: splitLinesWithTerminators_def render_pairs split_loop_render) (simp add: render_file_def)

lemma split_lengths: "length (fst (splitLinesWithTerminators s)) = length (snd (splitLinesWithTerminators s))"
  by (simp add: splitLinesWithTerminators_def)

lemma split_loop_lines_clean: "LF \<notin> set acc \<Longrightarrow> p \<in> set (split_loop acc s) \<Longrightarrow> LF \<notin> set (fst p)"
  by (induction acc s arbitrary: p rule: split_loop.induct) (auto split: if_splits dest: in_set_butlastD)

section \<open>Locating: what a match is\<close>

lemma positions_bound: "i \<in> set (positions ls sq start) \<Longrightarrow> start \<le> i \<and> i + length sq \<le> length ls"
  by (auto simp: positions_def split: if_splits)

lemma positions_distinct: "distinct (positions ls sq start)"
  by (simp add: positions_def)

lemma matches_bound: "(i, d) \<in> set (findSequenceMatches ls sq start) \<Longrightarrow> start \<le> i \<and> i + length sq \<le> length ls"
  using positions_bound
  by (fastforce simp: findSequenceMatches_def Let_def List.map_filter_def split: if_splits)

lemma exact_match_iff:
  "i + length sq \<le> length ls \<Longrightarrow> match_exact ls sq i \<longleftrightarrow> window ls i (length sq) = sq"
  by (simp add: match_exact_def list.rel_eq)

lemma matches_nonempty_sq: "findSequenceMatches ls sq start \<noteq> [] \<Longrightarrow> sq \<noteq> []"
  by (auto simp: findSequenceMatches_def)

text \<open>An exact occurrence takes precedence: then every reported match is exact and unshifted.\<close>

lemma exact_matches:
  assumes "sq \<noteq> []" "start \<le> j" "j + length sq \<le> length ls" "window ls j (length sq) = sq"
  shows "findSequenceMatches ls sq start = map (\<lambda>i. (i, 0)) (filter (match_exact ls sq) (positions ls sq start))"
proof -
  have "j \<in> set (filter (match_exact ls sq) (positions ls sq start))"
    using assms by (auto simp: positions_def exact_match_iff)
  then have "filter (match_exact ls sq) (positions ls sq start) \<noteq> []"
    by (metis empty_iff list.set(1))
  with assms(1) show ?thesis unfolding findSequenceMatches_def Let_def by simp
qed

lemma window_nonempty: "sq \<noteq> [] \<Longrightarrow> i + length sq \<le> length xs \<Longrightarrow> window xs i (length sq) \<noteq> []"
  by (cases sq) (auto simp: window_def)

section \<open>Alignment and locality of one hunk\<close>

definition aligned :: "file_state \<Rightarrow> bool" where
  "aligned st = (length (lines st) = length (terminators st) \<and> searchFrom st \<le> length (lines st))"

lemma replacement_lengths:
  assumes "replacementLineTerminators removed n ts i eol = (repl, ts')"
  shows "length repl = n \<and> length ts' = length ts"
  using assms by (auto simp: replacementLineTerminators_def Let_def min_def split: if_splits)

lemma replacement_removed:
  assumes "replacementLineTerminators removed n ts i eol = (repl, ts')" "removed \<noteq> []"
  shows "ts' = ts"
  using assms by (auto simp: replacementLineTerminators_def Let_def split: if_splits)

lemma apply_hunk_cases:
  assumes "apply_hunk eol k h st = Inr st'" "aligned st"
  obtains i delta new repl where
    "findSequenceMatches (lines st) (old_lines h) (searchFrom st) = [(i, delta)]"
    "old_lines h \<noteq> []"
    "searchFrom st \<le> i" "i + length (old_lines h) \<le> length (lines st)"
    "new = (if delta = 0 then raw_new_lines h else map (\<lambda>l. shiftLineIndent l delta) (raw_new_lines h))"
    "replacementLineTerminators (window (terminators st) i (length (old_lines h))) (length new) (terminators st) i eol
       = (repl, terminators st)"
    "lines st' = js_splice i (length (old_lines h)) new (lines st)"
    "terminators st' = js_splice i (length (old_lines h)) repl (terminators st)"
    "searchFrom st' = i + length new" "length repl = length new"
proof -
  from assms(1) obtain i delta where m: "findSequenceMatches (lines st) (old_lines h) (searchFrom st) = [(i, delta)]"
    by (auto simp: apply_hunk_def Let_def split: list.splits if_splits)
  have ne: "old_lines h \<noteq> []" using m matches_nonempty_sq [of "lines st" "old_lines h" "searchFrom st"] by simp
  have bd: "searchFrom st \<le> i" "i + length (old_lines h) \<le> length (lines st)"
    using matches_bound [of i delta "lines st" "old_lines h" "searchFrom st"] m by simp_all
  define new where "new = (if delta = 0 then raw_new_lines h else map (\<lambda>l. shiftLineIndent l delta) (raw_new_lines h))"
  obtain repl ts where r: "replacementLineTerminators (window (terminators st) i (length (old_lines h))) (length new)
      (terminators st) i eol = (repl, ts)" by fastforce
  have "window (terminators st) i (length (old_lines h)) \<noteq> []"
    using ne bd assms(2) by (intro window_nonempty) (auto simp: aligned_def)
  then have ts: "ts = terminators st" using replacement_removed [OF r] by simp
  have st': "st' = \<lparr>lines = js_splice i (length (old_lines h)) new (lines st),
      terminators = js_splice i (length (old_lines h)) repl (terminators st), searchFrom = i + length new\<rparr>"
    using assms(1) m r ts by (auto simp: apply_hunk_def Let_def new_def)
  show thesis
    using r ts replacement_lengths [OF r] by (intro that [OF m ne bd new_def, of repl]) (simp_all add: st')
qed

lemma apply_hunk_aligned: "apply_hunk eol k h st = Inr st' \<Longrightarrow> aligned st \<Longrightarrow> aligned st'"
  by (erule apply_hunk_cases, assumption) (auto simp: aligned_def js_splice_def)

lemma apply_hunks_aligned: "apply_hunks eol k hs st = Inr st' \<Longrightarrow> aligned st \<Longrightarrow> aligned st'"
  by (induction hs arbitrary: k st) (auto simp: res_bind_Inr_iff dest: apply_hunk_aligned)

text \<open>
  A hunk replaces one window: everything before and after it, text and terminators, is kept, and
  nothing before \<open>searchFrom\<close> is ever touched again.
\<close>

lemma js_splice_frame:
  assumes "i + n \<le> length xs"
  shows "take i (js_splice i n new xs) = take i xs"
    and "drop (i + length new) (js_splice i n new xs) = drop (i + n) xs"
    and "j \<le> i \<Longrightarrow> take j (js_splice i n new xs) = take j xs"
  using assms by (auto simp: js_splice_def min_def)

lemma apply_hunk_prefix:
  assumes "apply_hunk eol k h st = Inr st'" "aligned st"
  shows "take (searchFrom st) (lines st') = take (searchFrom st) (lines st)
       \<and> take (searchFrom st) (terminators st') = take (searchFrom st) (terminators st)
       \<and> searchFrom st \<le> searchFrom st'"
  using assms
proof (rule apply_hunk_cases)
  fix i delta new repl
  assume a: "searchFrom st \<le> i" "i + length (old_lines h) \<le> length (lines st)"
    "lines st' = js_splice i (length (old_lines h)) new (lines st)"
    "terminators st' = js_splice i (length (old_lines h)) repl (terminators st)" "searchFrom st' = i + length new"
  then have "i + length (old_lines h) \<le> length (terminators st)" using assms(2) by (simp add: aligned_def)
  with a show ?thesis by (simp add: js_splice_frame)
qed

lemma apply_hunks_prefix:
  assumes "apply_hunks eol k hs st = Inr st'" "aligned st"
  shows "take (searchFrom st) (lines st') = take (searchFrom st) (lines st)
       \<and> take (searchFrom st) (terminators st') = take (searchFrom st) (terminators st)
       \<and> searchFrom st \<le> searchFrom st'"
  using assms
proof (induction hs arbitrary: k st)
  case (Cons h hs)
  then obtain st1 where 1: "apply_hunk eol k h st = Inr st1" "apply_hunks eol (k + 1) hs st1 = Inr st'"
    by (auto simp: res_bind_Inr_iff)
  have p: "take (searchFrom st) (lines st1) = take (searchFrom st) (lines st)"
    "take (searchFrom st) (terminators st1) = take (searchFrom st) (terminators st)" "searchFrom st \<le> searchFrom st1"
    using apply_hunk_prefix [OF 1(1) Cons.prems(2)] by simp_all
  have q: "take (searchFrom st1) (lines st') = take (searchFrom st1) (lines st1)"
    "take (searchFrom st1) (terminators st') = take (searchFrom st1) (terminators st1)" "searchFrom st1 \<le> searchFrom st'"
    using Cons.IH [OF 1(2) apply_hunk_aligned [OF 1(1) Cons.prems(2)]] by simp_all
  have sub: "take (searchFrom st) xs = take (searchFrom st) (take (searchFrom st1) xs)" for xs :: "string list"
    using p(3) by (simp add: min_def)
  show ?case using p q by (metis sub order_trans)
qed simp

section \<open>Uniform line endings\<close>

text \<open>A file all of whose lines end the same way keeps that ending in every line.\<close>

definition uniform :: "string \<Rightarrow> string list \<Rightarrow> bool" where
  "uniform e ts = list_all (\<lambda>t. t = e) ts"

lemma replacement_uniform:
  assumes "replacementLineTerminators removed n ts i eol = (repl, ts')" "removed \<noteq> []"
    and "uniform e removed" "e \<noteq> []"
  shows "uniform e repl"
proof -
  have all: "\<And>t. t \<in> set removed \<Longrightarrow> t = e" using assms(3) by (simp add: uniform_def list_all_iff)
  then have l: "last removed = e" using assms(2) last_in_set by blast
  then have ne: "last removed \<noteq> []" using assms(4) by simp
  have "uniform e (take n removed @ replicate m e)" for m
    using all by (auto simp: uniform_def list_all_iff dest: in_set_takeD)
  with assms(1,2) ne l show ?thesis
    by (auto simp: replacementLineTerminators_def Let_def uniform_def split: if_splits)
qed

lemma apply_hunk_uniform:
  assumes "apply_hunk eol k h st = Inr st'" "aligned st" "uniform e (terminators st)" "e \<noteq> []"
  shows "uniform e (terminators st')"
  using assms(1,2)
proof (rule apply_hunk_cases)
  fix i delta new repl
  let ?w = "window (terminators st) i (length (old_lines h))"
  assume a: "old_lines h \<noteq> []" "i + length (old_lines h) \<le> length (lines st)"
    and r: "replacementLineTerminators ?w (length new) (terminators st) i eol = (repl, terminators st)"
    and t: "terminators st' = js_splice i (length (old_lines h)) repl (terminators st)"
  have "?w \<noteq> []" using a assms(2) by (intro window_nonempty) (auto simp: aligned_def)
  moreover have "uniform e ?w"
    using assms(3) by (auto simp: uniform_def list_all_iff window_def dest!: in_set_takeD in_set_dropD)
  ultimately have "uniform e repl" using replacement_uniform [OF r] assms(4) by blast
  with t assms(3) show ?thesis
    by (auto simp: uniform_def list_all_iff js_splice_def dest!: in_set_takeD in_set_dropD)
qed

lemma apply_hunks_uniform:
  "apply_hunks eol k hs st = Inr st' \<Longrightarrow> aligned st \<Longrightarrow> uniform e (terminators st) \<Longrightarrow> e \<noteq> [] \<Longrightarrow>
   uniform e (terminators st')"
  by (induction hs arbitrary: k st)
    (auto simp: res_bind_Inr_iff dest: apply_hunk_uniform apply_hunk_aligned)

lemma aligned_start:
  "aligned \<lparr>lines = fst (splitLinesWithTerminators s), terminators = snd (splitLinesWithTerminators s), searchFrom = 0\<rparr>"
  by (simp add: aligned_def split_lengths)

lemma render_append: "length a = length b \<Longrightarrow> render_file (a @ c) (b @ d) = render_file a b @ render_file c d"
  by (simp add: render_file_def)

lemma render_uniform: "length ls = length ts \<Longrightarrow> uniform e ts \<Longrightarrow> render_file ls ts = concat (map (\<lambda>l. l @ e) ls)"
  by (induction ls ts rule: list_induct2) (auto simp: render_file_def uniform_def)

text \<open>The exact occurrences of a line sequence from a position on.\<close>

definition occurrences :: "string list \<Rightarrow> string list \<Rightarrow> nat \<Rightarrow> nat list" where
  "occurrences ls sq start = filter (\<lambda>i. window ls i (length sq) = sq) (positions ls sq start)"

lemma exact_filter: "filter (match_exact ls sq) (positions ls sq start) = occurrences ls sq start"
  unfolding occurrences_def by (rule filter_cong [OF refl]) (simp add: exact_match_iff positions_bound)

lemma occurrences_matches:
  "sq \<noteq> [] \<Longrightarrow> occurrences ls sq start \<noteq> [] \<Longrightarrow>
   findSequenceMatches ls sq start = map (\<lambda>i. (i, 0)) (occurrences ls sq start)"
  by (simp add: findSequenceMatches_def exact_filter Let_def)

section \<open>Properties\<close>

text \<open>
  Splitting a file into lines and terminators and joining them gives the file back, so every byte
  outside the changed windows survives an update.
\<close>

lemma split_join_identity:
  "concat (map2 (@) (fst (splitLinesWithTerminators s)) (snd (splitLinesWithTerminators s))) = s"
  using render_split [of s] by (simp add: render_file_def)

text \<open>
  C7. A one-hunk update is local: the hunk matched at exactly one place, and the new text is the old
  one with only the matched lines replaced; lines and line endings before and after are unchanged.
\<close>

lemma single_hunk_local:
  assumes "applyUpdateHunks content [h] = Inr out"
  shows "\<exists>i delta mid. findSequenceMatches (fst (splitLinesWithTerminators content)) (old_lines h) 0 = [(i, delta)]
     \<and> out = render_file (take i (fst (splitLinesWithTerminators content))) (take i (snd (splitLinesWithTerminators content)))
         @ mid @ render_file (drop (i + length (old_lines h)) (fst (splitLinesWithTerminators content)))
                   (drop (i + length (old_lines h)) (snd (splitLinesWithTerminators content)))"
proof -
  obtain ls ts where s: "splitLinesWithTerminators content = (ls, ts)" by fastforce
  define st where "st = \<lparr>lines = ls, terminators = ts, searchFrom = 0\<rparr>"
  have al: "aligned st" using aligned_start [of content] by (simp add: s st_def)
  then have len: "length ls = length ts" by (simp add: aligned_def st_def)
  obtain st' where a: "apply_hunk (preferredLineEnding ts) 0 h st = Inr st'"
    and out: "out = render_file (lines st') (terminators st')"
    using assms by (auto simp: applyUpdateHunks_def s st_def res_bind_Inr_iff)
  show ?thesis
    using a al
  proof (rule apply_hunk_cases)
    fix i delta new repl
    let ?n = "length (old_lines h)"
    assume m: "findSequenceMatches (lines st) (old_lines h) (searchFrom st) = [(i, delta)]"
      and b: "i + ?n \<le> length (lines st)" and r: "length repl = length new"
      and l: "lines st' = js_splice i ?n new (lines st)" "terminators st' = js_splice i ?n repl (terminators st)"
    have "out = render_file (take i ls) (take i ts) @ render_file new repl @ render_file (drop (i + ?n) ls) (drop (i + ?n) ts)"
      using b r len by (simp add: out l js_splice_def st_def render_append)
    with m show ?thesis by (auto simp: s st_def)
  qed
qed

lemma single_hunk_local_witness:
  "\<exists>i delta mid. findSequenceMatches (fst (splitLinesWithTerminators (''a'' @ [LF]))) [''a''] 0 = [(i, delta)]
     \<and> ''b'' @ [LF] = render_file (take i [''a'']) (take i [[LF]]) @ mid @ render_file (drop (i + 1) [''a'']) (drop (i + 1) [[LF]])"
proof -
  let ?h = "\<lparr>header = [], hunk_lines = [(CHR ''-'', ''a''), (CHR ''+'', ''b'')]\<rparr>"
  have "applyUpdateHunks (''a'' @ [LF]) [?h] = Inr (''b'' @ [LF])" "old_lines ?h = [''a'']"
    "splitLinesWithTerminators (''a'' @ [LF]) = ([''a''], [[LF]])"
    by code_simp+
  then show ?thesis using single_hunk_local [of "''a'' @ [LF]" ?h "''b'' @ [LF]"] by simp
qed

text \<open>
  Exact context decides a hunk: where its old lines occur exactly once from the search position on,
  it is applied there, unshifted; where they occur more than once it is refused as ambiguous and
  nothing is changed.
\<close>

lemma exact_hunk_decides:
  assumes "old_lines h \<noteq> []"
  shows "(occurrences (lines st) (old_lines h) (searchFrom st) = [i] \<longrightarrow>
            (\<exists>st'. apply_hunk eol k h st = Inr st'
              \<and> lines st' = js_splice i (length (old_lines h)) (raw_new_lines h) (lines st)
              \<and> searchFrom st' = i + length (raw_new_lines h)))
       \<and> (length (occurrences (lines st) (old_lines h) (searchFrom st)) \<ge> 2 \<longrightarrow>
            apply_hunk eol k h st
              = Inl (berr_with ''conflict'' ''context_ambiguous'' [(''hunk'', JNum (Fin (of_nat (k + 1))))]))"
proof (intro conjI impI)
  assume "occurrences (lines st) (old_lines h) (searchFrom st) = [i]"
  then show "\<exists>st'. apply_hunk eol k h st = Inr st'
      \<and> lines st' = js_splice i (length (old_lines h)) (raw_new_lines h) (lines st)
      \<and> searchFrom st' = i + length (raw_new_lines h)"
    using occurrences_matches [OF assms, of "lines st" "searchFrom st"]
    by (simp add: apply_hunk_def Let_def case_prod_beta)
next
  assume "length (occurrences (lines st) (old_lines h) (searchFrom st)) \<ge> 2"
  then obtain x y zs where "occurrences (lines st) (old_lines h) (searchFrom st) = x # y # zs"
    by (metis Suc_le_length_iff numeral_2_eq_2)
  then show "apply_hunk eol k h st
      = Inl (berr_with ''conflict'' ''context_ambiguous'' [(''hunk'', JNum (Fin (of_nat (k + 1))))])"
    using occurrences_matches [OF assms, of "lines st" "searchFrom st"] by (simp add: apply_hunk_def)
qed

lemma exact_hunk_decides_sample:
  "\<exists>st'. apply_hunk [LF] 0 \<lparr>header = [], hunk_lines = [(CHR ''-'', ''x'')]\<rparr>
      \<lparr>lines = [''a'', ''x''], terminators = [[LF], [LF]], searchFrom = 0\<rparr> = Inr st' \<and> lines st' = [''a'']"
proof -
  let ?h = "\<lparr>header = [], hunk_lines = [(CHR ''-'', ''x'')]\<rparr>"
  let ?st = "\<lparr>lines = [''a'', ''x''], terminators = [[LF], [LF]], searchFrom = 0\<rparr>"
  have "old_lines ?h \<noteq> []" "occurrences (lines ?st) (old_lines ?h) (searchFrom ?st) = [1]"
    "js_splice 1 (length (old_lines ?h)) (raw_new_lines ?h) (lines ?st) = [''a'']"
    by code_simp+
  then show ?thesis using exact_hunk_decides [of ?h ?st 1 "[LF]" 0] by auto
qed

text \<open>
  A file whose lines all end in the same non-empty terminator (LF or CRLF) keeps it: after any list
  of hunks every line of the result ends in that terminator.
\<close>

lemma uniform_endings:
  assumes "applyUpdateHunks content hs = Inr out" "uniform e (snd (splitLinesWithTerminators content))" "e \<noteq> []"
  shows "\<exists>ls. out = concat (map (\<lambda>l. l @ e) ls)"
proof -
  let ?s = "\<lparr>lines = fst (splitLinesWithTerminators content), terminators = snd (splitLinesWithTerminators content), searchFrom = 0\<rparr>"
  obtain eol st where a: "apply_hunks eol 0 hs ?s = Inr st" and out: "out = render_file (lines st) (terminators st)"
    using assms(1) by (auto simp: applyUpdateHunks_def res_bind_Inr_iff split: prod.splits)
  have "aligned st" using apply_hunks_aligned [OF a aligned_start] .
  moreover have "uniform e (terminators st)"
    using apply_hunks_uniform [OF a aligned_start] assms(2,3) by simp
  ultimately show ?thesis using out render_uniform by (auto simp: aligned_def)
qed

lemma uniform_endings_sample:
  "\<exists>ls. ''b'' @ CRLF = concat (map (\<lambda>l. l @ CRLF) ls)"
  by (rule uniform_endings [where content = "''a'' @ CRLF"
        and hs = "[\<lparr>header = [], hunk_lines = [(CHR ''-'', ''a''), (CHR ''+'', ''b'')]\<rparr>]"]) (code_simp, code_simp, simp)

end
