(* ===== verification/Interfaces.thy ===== *)
theory Interfaces
  imports Prelude
begin

text \<open>
  The interfaces the components rely on, as locales: a state machine whose steps keep an invariant,
  an operation that only narrows a capability, and a keyed store with its lookup laws.  Every one
  is interpreted on the definitions of the components that provide it.
\<close>

section \<open>A machine that keeps an invariant\<close>

locale step_machine =
  fixes step :: "'s \<Rightarrow> 'e \<Rightarrow> 's"
    and inv :: "'s \<Rightarrow> bool"
  assumes step_inv: "inv s \<Longrightarrow> inv (step s e)"
begin

lemma run_inv: "inv s \<Longrightarrow> inv (foldl step s es)"
  by (induction es arbitrary: s) (auto intro: step_inv)

lemma prefix_inv: "inv s \<Longrightarrow> inv (foldl step s (take n es))"
  by (rule run_inv)

end

section \<open>A machine that never undoes what it has recorded\<close>

locale monotone_machine = step_machine +
  fixes le :: "'s \<Rightarrow> 's \<Rightarrow> bool"
  assumes le_refl: "le s s"
    and le_trans: "le s t \<Longrightarrow> le t u \<Longrightarrow> le s u"
    and step_le: "inv s \<Longrightarrow> le s (step s e)"
begin

lemma run_le: "inv s \<Longrightarrow> le s (foldl step s es)"
proof (induction es arbitrary: s)
  case Nil
  show ?case by (simp add: le_refl)
next
  case (Cons e es)
  have "le s (step s e)" using Cons.prems by (rule step_le)
  moreover have "le (step s e) (foldl step (step s e) es)"
    using Cons.prems by (intro Cons.IH step_inv)
  ultimately show ?case by (simp add: le_trans [of s "step s e"])
qed

end

section \<open>Restriction of an authority\<close>

locale restriction =
  fixes le :: "'p \<Rightarrow> 'p \<Rightarrow> bool"
    and meet :: "'p \<Rightarrow> 'p \<Rightarrow> 'p"
  assumes r_refl: "le a a"
    and r_trans: "le a b \<Longrightarrow> le b c \<Longrightarrow> le a c"
    and meet_left: "le (meet a b) a"
    and meet_right: "le (meet a b) b"
    and meet_greatest: "le c a \<Longrightarrow> le c b \<Longrightarrow> le c (meet a b)"
begin

lemma meet_mono: "le a a' \<Longrightarrow> le b b' \<Longrightarrow> le (meet a b) (meet a' b')"
  by (meson meet_greatest meet_left meet_right r_trans)

lemma meet_chain: "le (foldl meet a bs) a"
proof (induction bs arbitrary: a)
  case Nil
  show ?case by (simp add: r_refl)
next
  case (Cons b bs)
  have "le (foldl meet (meet a b) bs) (meet a b)" by (rule Cons.IH)
  then show ?case using meet_left [of a b] r_trans by auto
qed

lemma meet_chain_member: "b \<in> set bs \<Longrightarrow> le (foldl meet a bs) b"
proof (induction bs arbitrary: a)
  case (Cons c bs)
  show ?case
  proof (cases "b = c")
    case True
    have "le (foldl meet (meet a c) bs) (meet a c)" by (rule meet_chain)
    with True show ?thesis using meet_right [of a c] r_trans by auto
  next
    case False
    with Cons show ?thesis by simp
  qed
qed simp

end

section \<open>A keyed store\<close>

locale keyed_store =
  fixes get :: "'m \<Rightarrow> 'k \<Rightarrow> 'v option"
    and put :: "'k \<Rightarrow> 'v \<Rightarrow> 'm \<Rightarrow> 'm"
    and del :: "'k \<Rightarrow> 'm \<Rightarrow> 'm"
    and ok :: "'m \<Rightarrow> bool"
    and keys :: "'m \<Rightarrow> 'k list"
  assumes get_put: "ok m \<Longrightarrow> get (put k v m) j = (if j = k then Some v else get m j)"
    and get_del: "ok m \<Longrightarrow> get (del k m) j = (if j = k then None else get m j)"
    and ok_put: "ok m \<Longrightarrow> ok (put k v m)"
    and ok_del: "ok m \<Longrightarrow> ok (del k m)"
    and keys_distinct: "ok m \<Longrightarrow> distinct (keys m)"
    and keys_get: "ok m \<Longrightarrow> k \<in> set (keys m) \<longleftrightarrow> get m k \<noteq> None"
begin

lemma keys_put: "ok m \<Longrightarrow> set (keys (put k v m)) = insert k (set (keys m))"
  by (auto simp: keys_get ok_put get_put split: if_splits)

lemma keys_del: "ok m \<Longrightarrow> set (keys (del k m)) = set (keys m) - {k}"
  by (auto simp: keys_get ok_del get_del split: if_splits)

lemma size_keys: "ok m \<Longrightarrow> length (keys m) = card (set (keys m))"
  by (simp add: distinct_card keys_distinct)

lemma size_put_new: "ok m \<Longrightarrow> get m k = None \<Longrightarrow> length (keys (put k v m)) = Suc (length (keys m))"
  by (simp add: size_keys ok_put keys_put keys_get)

lemma size_put_old: "ok m \<Longrightarrow> get m k \<noteq> None \<Longrightarrow> length (keys (put k v m)) = length (keys m)"
  by (simp add: size_keys ok_put keys_put insert_absorb keys_get)

lemma size_del: "ok m \<Longrightarrow> get m k \<noteq> None \<Longrightarrow> Suc (length (keys (del k m))) = length (keys m)"
proof -
  assume m: "ok m" and k: "get m k \<noteq> None"
  then have "k \<in> set (keys m)" by (simp add: keys_get)
  then have "Suc (card (set (keys m) - {k})) = card (set (keys m))"
    by (meson List.finite_set card_Suc_Diff1)
  with m show ?thesis by (simp add: size_keys ok_del keys_del)
qed

end

section \<open>JavaScript maps as association lists\<close>

text \<open>
  \<open>Map.set\<close> keeps the position of an existing key and appends a new one; \<open>Map.delete\<close> removes it.
\<close>

fun map_set :: "'k \<Rightarrow> 'v \<Rightarrow> ('k \<times> 'v) list \<Rightarrow> ('k \<times> 'v) list" where
  "map_set k v [] = [(k, v)]"
| "map_set k v ((a, w) # m) = (if a = k then (a, v) # m else (a, w) # map_set k v m)"

definition map_del :: "'k \<Rightarrow> ('k \<times> 'v) list \<Rightarrow> ('k \<times> 'v) list" where
  "map_del k m = filter (\<lambda>p. fst p \<noteq> k) m"

definition map_ok :: "('k \<times> 'v) list \<Rightarrow> bool" where
  "map_ok m = distinct (map fst m)"

definition map_keys :: "('k \<times> 'v) list \<Rightarrow> 'k list" where
  "map_keys m = map fst m"

lemma map_of_map_set: "map_of (map_set k v m) j = (if j = k then Some v else map_of m j)"
  by (induction m) auto

lemma keys_map_set: "set (map fst (map_set k v m)) = insert k (set (map fst m))"
proof (induction m)
  case (Cons p m)
  obtain a w where p: "p = (a, w)" by fastforce
  show ?case
    using Cons.IH by (cases "a = k") (simp_all add: p insert_commute)
qed simp

lemma distinct_map_set: "distinct (map fst m) \<Longrightarrow> distinct (map fst (map_set k v m))"
proof (induction m)
  case (Cons p m)
  obtain a w where p: "p = (a, w)" by fastforce
  from Cons show ?case by (auto simp: p keys_map_set simp del: set_map)
qed simp

lemma map_of_map_del: "map_of (map_del k m) j = (if j = k then None else map_of m j)"
  by (induction m) (auto simp: map_del_def)

lemma distinct_map_del: "distinct (map fst m) \<Longrightarrow> distinct (map fst (map_del k m))"
  by (simp add: map_del_def distinct_map_fst_filter)

interpretation js_map: keyed_store map_of map_set map_del map_ok map_keys
  by unfold_locales
    (simp_all only: map_of_map_set map_of_map_del map_ok_def map_keys_def distinct_map_set
      distinct_map_del map_of_eq_None_iff set_map not_not simp_thms)

lemma map_del_same [simp]: "map_of (map_del k m) k = None"
  by (simp add: map_of_map_del)

lemma map_set_new: "k \<notin> set (map fst m) \<Longrightarrow> map_set k v m = m @ [(k, v)]"
  by (induction m) auto

lemma map_set_length_bound: "length (map_set k v m) \<le> Suc (length m)"
  by (induction m) auto

lemma map_set_mem: "(k, v) \<in> set (map_set k v m)"
  by (induction m) auto

lemma map_set_mem_cases: "(j, w) \<in> set (map_set k v m) \<Longrightarrow> (j = k \<and> w = v) \<or> (j, w) \<in> set m"
  by (induction m) (auto split: if_splits)

lemma map_del_subset: "set (map_del k m) \<subseteq> set m"
  by (auto simp: map_del_def)

lemma map_del_absent: "k \<notin> set (map fst m) \<Longrightarrow> map_del k m = m"
  by (induction m) (auto simp: map_del_def)

section \<open>Object spread\<close>

text \<open>The object literal \<open>{ ...r, ...fields }\<close>.\<close>

definition spread :: "jsv \<Rightarrow> (string \<times> jsv) list \<Rightarrow> jsv" where
  "spread r fs = JObj (foldl (\<lambda>m (k, v). map_set k v m) (obj_entries r) fs)"

lemma map_of_spread:
  "map_of (foldl (\<lambda>m (k, v). map_set k v m) m fs) j = (case map_of (rev fs) j of Some v \<Rightarrow> Some v | None \<Rightarrow> map_of m j)"
proof (induction fs arbitrary: m)
  case (Cons f fs)
  then show ?case by (cases f) (simp add: map_of_map_set map_add_def split: option.split)
qed simp

lemma js_get_spread: "js_get (spread r fs) k = (case map_of (rev fs) k of Some v \<Rightarrow> v | None \<Rightarrow> js_get r k)"
  by (cases r) (auto simp: js_get_def obj_entries_def spread_def map_of_spread split: option.splits)

end
