(* ===== verification/Policy.thy ===== *)
theory Policy
  imports Errors Interfaces
begin

text \<open>
  The policy contract (\<open>src/shared/policy-contract.json\<close>, the name and availability of every tool of
  \<open>src/shared/tool-catalog.json\<close>) and the policy functions of \<open>src/local/policy.mjs\<close>: profiles,
  normalisation of an untrusted policy object, intersection of two policies, and the tool gate.
\<close>

section \<open>The contract\<close>

datatype exec_mode = Off | Direct | Shell

record caps =
  allowWrite :: bool
  execMode :: exec_mode
  unrestrictedPaths :: bool
  minimalEnv :: bool
  exposeAbsolutePaths :: bool

record policy = caps +
  profile :: string
  origin :: string
  revision :: int
  allowExec :: bool

definition DEFAULT_POLICY_PROFILE :: string where
  "DEFAULT_POLICY_PROFILE = ''full''"

definition DEFAULT_POLICY_REVISION :: int where
  "DEFAULT_POLICY_REVISION = 5"

definition POLICY_ORIGINS :: "string list" where
  "POLICY_ORIGINS = [''default'', ''explicit'', ''custom'']"

definition POLICY_PROFILES :: "(string \<times> caps) list" where
  "POLICY_PROFILES = [
     (''review'', \<lparr>allowWrite = False, execMode = Off, unrestrictedPaths = False, minimalEnv = True, exposeAbsolutePaths = False\<rparr>),
     (''edit'', \<lparr>allowWrite = True, execMode = Off, unrestrictedPaths = False, minimalEnv = True, exposeAbsolutePaths = False\<rparr>),
     (''agent'', \<lparr>allowWrite = True, execMode = Direct, unrestrictedPaths = False, minimalEnv = True, exposeAbsolutePaths = False\<rparr>),
     (''full'', \<lparr>allowWrite = True, execMode = Shell, unrestrictedPaths = True, minimalEnv = False, exposeAbsolutePaths = True\<rparr>)]"

definition POLICY_PROFILE_NAMES :: "string list" where
  "POLICY_PROFILE_NAMES = map fst POLICY_PROFILES"

record requirements =
  req_profile :: "string option"
  req_allowWrite :: "bool option"
  req_execModes :: "exec_mode list option"
  req_unrestrictedPaths :: "bool option"
  req_minimalEnv :: "bool option"
  req_exposeAbsolutePaths :: "bool option"

definition no_requirements :: requirements where
  "no_requirements = \<lparr>req_profile = None, req_allowWrite = None, req_execModes = None,
     req_unrestrictedPaths = None, req_minimalEnv = None, req_exposeAbsolutePaths = None\<rparr>"

definition POLICY_AVAILABILITY :: "(string \<times> requirements) list" where
  "POLICY_AVAILABILITY = [
     (''always'', no_requirements),
     (''write'', no_requirements\<lparr>req_allowWrite := Some True\<rparr>),
     (''direct-exec'', no_requirements\<lparr>req_execModes := Some [Direct, Shell]\<rparr>),
     (''write+direct-exec'', no_requirements\<lparr>req_allowWrite := Some True, req_execModes := Some [Direct, Shell]\<rparr>),
     (''shell-exec'', no_requirements\<lparr>req_execModes := Some [Shell]\<rparr>),
     (''full'', \<lparr>req_profile = Some ''full'', req_allowWrite = Some True, req_execModes = Some [Shell],
        req_unrestrictedPaths = Some True, req_minimalEnv = Some False, req_exposeAbsolutePaths = Some True\<rparr>)]"

definition TOOLS :: "(string \<times> string) list" where
  "TOOLS = [
     (''server_info'', ''always''), (''project_overview'', ''always''),
     (''session_bootstrap'', ''always''), (''resolve_task_capabilities'', ''always''),
     (''list_local_applications'', ''always''), (''open_local_application'', ''full''),
     (''inspect_local_application'', ''full''), (''operate_local_application'', ''full''),
     (''computer_observe'', ''full''), (''computer_act'', ''full''), (''browser_status'', ''full''),
     (''pair_browser_extension'', ''full''), (''browser_list_tabs'', ''full''),
     (''browser_manage_tabs'', ''full''), (''browser_get_source'', ''full''),
     (''browser_inspect_page'', ''full''), (''browser_wait'', ''full''),
     (''browser_action'', ''full''), (''browser_fill_form'', ''full''),
     (''browser_screenshot'', ''full''), (''browser_upload_files'', ''full''),
     (''agent_context'', ''always''), (''list_local_skills'', ''always''),
     (''load_local_skill'', ''always''), (''list_local_commands'', ''always''),
     (''run_local_command'', ''direct-exec''), (''list_roots'', ''always''),
     (''list_dir'', ''always''), (''list_files'', ''always''), (''read_file'', ''always''),
     (''view_image'', ''always''), (''write_file'', ''write''), (''edit_file'', ''write''),
     (''apply_patch'', ''write''), (''search_text'', ''always''), (''git_status'', ''always''),
     (''git_diff'', ''always''), (''git_log'', ''always''), (''git_show'', ''always''),
     (''git_commit'', ''direct-exec''), (''run_process'', ''direct-exec''),
     (''start_process'', ''direct-exec''), (''read_process'', ''direct-exec''),
     (''write_process'', ''direct-exec''), (''kill_process'', ''direct-exec''),
     (''diagnose_runtime'', ''always''), (''list_local_resources'', ''always''),
     (''generate_ssh_key_resource'', ''full''), (''stage_job'', ''write''),
     (''start_job'', ''write+direct-exec''), (''list_jobs'', ''always''),
     (''read_job'', ''always''), (''cancel_job'', ''write''), (''exec_command'', ''shell-exec'')]"

section \<open>Normalisation\<close>

fun exec_js :: "exec_mode \<Rightarrow> string" where
  "exec_js Off = ''off''"
| "exec_js Direct = ''direct''"
| "exec_js Shell = ''shell''"

definition exec_of_js :: "jsv \<Rightarrow> exec_mode option" where
  "exec_of_js v = (if v = JStr ''off'' then Some Off else if v = JStr ''direct'' then Some Direct
     else if v = JStr ''shell'' then Some Shell else None)"

definition normal_exec :: "jsv \<Rightarrow> exec_mode" where
  "normal_exec v = (case exec_of_js (js_get v ''execMode'') of
     Some m \<Rightarrow> m
   | None \<Rightarrow> if js_get v ''allowExec'' = JBool True then Shell else Off)"

definition normal_origin :: "jsv \<Rightarrow> string" where
  "normal_origin v = (let requested = (case js_get v ''origin'' of JStr s \<Rightarrow> s | _ \<Rightarrow> [])
     in if requested \<in> set POLICY_ORIGINS then requested else ''custom'')"

definition normal_revision :: "jsv \<Rightarrow> int" where
  "normal_revision v = (case js_get v ''revision'' of
     JNum x \<Rightarrow> (case fin_of x of
         Some q \<Rightarrow> if rat_is_int q \<and> q > 0 then \<lfloor>q\<rfloor> else DEFAULT_POLICY_REVISION
       | None \<Rightarrow> DEFAULT_POLICY_REVISION)
   | _ \<Rightarrow> DEFAULT_POLICY_REVISION)"

definition normal_profile :: "jsv \<Rightarrow> string" where
  "normal_profile v =
     (let raw = (case js_get v ''profile'' of JStr s \<Rightarrow> if s \<noteq> [] then s else ''custom'' | _ \<Rightarrow> ''custom'')
      in if raw \<in> set POLICY_PROFILE_NAMES then raw else ''custom'')"

text \<open>\<open>normalizePolicy\<close>: a canonical profile name overrides every requested capability.\<close>

definition normalizePolicy :: "jsv \<Rightarrow> policy" where
  "normalizePolicy v =
     (let m = normal_exec v;
          requested = \<lparr>allowWrite = (js_get v ''allowWrite'' = JBool True), execMode = m,
             unrestrictedPaths = (js_get v ''unrestrictedPaths'' = JBool True),
             minimalEnv = (js_get v ''minimalEnv'' \<noteq> JBool False),
             exposeAbsolutePaths = (js_get v ''exposeAbsolutePaths'' = JBool True)\<rparr>;
          c = (case map_of POLICY_PROFILES (normal_profile v) of Some canonical \<Rightarrow> canonical | None \<Rightarrow> requested)
      in \<lparr>allowWrite = allowWrite c, execMode = execMode c, unrestrictedPaths = unrestrictedPaths c,
          minimalEnv = minimalEnv c, exposeAbsolutePaths = exposeAbsolutePaths c,
          profile = normal_profile v, origin = normal_origin v, revision = normal_revision v,
          allowExec = (execMode c \<noteq> Off)\<rparr>)"

text \<open>A policy as the plain object the other functions receive it as.\<close>

definition policy_js :: "policy \<Rightarrow> jsv" where
  "policy_js p = JObj [(''profile'', JStr (profile p)), (''origin'', JStr (origin p)),
     (''revision'', JNum (Fin (of_int (revision p)))), (''allowWrite'', JBool (allowWrite p)),
     (''allowExec'', JBool (allowExec p)), (''execMode'', JStr (exec_js (execMode p))),
     (''unrestrictedPaths'', JBool (unrestrictedPaths p)), (''minimalEnv'', JBool (minimalEnv p)),
     (''exposeAbsolutePaths'', JBool (exposeAbsolutePaths p))]"

definition caps_of :: "policy \<Rightarrow> caps" where
  "caps_of p = \<lparr>allowWrite = allowWrite p, execMode = execMode p, unrestrictedPaths = unrestrictedPaths p,
     minimalEnv = minimalEnv p, exposeAbsolutePaths = exposeAbsolutePaths p\<rparr>"

definition canonical_js :: "string \<Rightarrow> caps \<Rightarrow> string \<Rightarrow> jsv" where
  "canonical_js name c o' = JObj [(''profile'', JStr name), (''allowWrite'', JBool (allowWrite c)),
     (''execMode'', JStr (exec_js (execMode c))), (''unrestrictedPaths'', JBool (unrestrictedPaths c)),
     (''minimalEnv'', JBool (minimalEnv c)), (''exposeAbsolutePaths'', JBool (exposeAbsolutePaths c)),
     (''origin'', JStr o'), (''revision'', JNum (Fin (of_int DEFAULT_POLICY_REVISION)))]"

definition policyProfile :: "string \<Rightarrow> string \<Rightarrow> bridge_error + policy" where
  "policyProfile name o' =
     (let p = to_lower (trim name) in
      case map_of POLICY_PROFILES p of
        None \<Rightarrow> Inl (berr ''invalid_request'')
      | Some canonical \<Rightarrow> Inr (normalizePolicy (canonical_js p canonical o')))"

section \<open>Intersection\<close>

fun exec_rank :: "exec_mode \<Rightarrow> nat" where
  "exec_rank Off = 0"
| "exec_rank Direct = 1"
| "exec_rank Shell = 2"

definition policyCapabilitiesEqual :: "caps \<Rightarrow> caps \<Rightarrow> bool" where
  "policyCapabilitiesEqual l r = (allowWrite l = allowWrite r \<and> execMode l = execMode r
     \<and> unrestrictedPaths l = unrestrictedPaths r \<and> minimalEnv l = minimalEnv r
     \<and> exposeAbsolutePaths l = exposeAbsolutePaths r)"

fun matching_in :: "(string \<times> caps) list \<Rightarrow> caps \<Rightarrow> string" where
  "matching_in [] c = ''custom''"
| "matching_in ((n, p) # ps) c = (if policyCapabilitiesEqual c p then n else matching_in ps c)"

definition matchingProfile :: "caps \<Rightarrow> string" where
  "matchingProfile c = matching_in POLICY_PROFILES c"

definition intersect_caps :: "caps \<Rightarrow> caps \<Rightarrow> caps" where
  "intersect_caps a b =
     \<lparr>allowWrite = (allowWrite a \<and> allowWrite b),
      execMode = (if exec_rank (execMode a) \<le> exec_rank (execMode b) then execMode a else execMode b),
      unrestrictedPaths = (unrestrictedPaths a \<and> unrestrictedPaths b),
      minimalEnv = (minimalEnv a \<or> minimalEnv b),
      exposeAbsolutePaths = (exposeAbsolutePaths a \<and> exposeAbsolutePaths b)\<rparr>"

text \<open>The options object has an optional \<open>profile\<close> and an optional \<open>origin\<close>.\<close>

definition intersectPolicies :: "jsv \<Rightarrow> jsv \<Rightarrow> string option \<Rightarrow> string option \<Rightarrow> policy" where
  "intersectPolicies l r opt_profile opt_origin =
     (let a = normalizePolicy l; b = normalizePolicy r; c = intersect_caps (caps_of a) (caps_of b)
      in \<lparr>allowWrite = allowWrite c, execMode = execMode c, unrestrictedPaths = unrestrictedPaths c,
          minimalEnv = minimalEnv c, exposeAbsolutePaths = exposeAbsolutePaths c,
          profile = (case opt_profile of Some s \<Rightarrow> if s \<noteq> [] then s else matchingProfile c | None \<Rightarrow> matchingProfile c),
          origin = (case opt_origin of Some s \<Rightarrow> if s \<noteq> [] then s else ''custom'' | None \<Rightarrow> ''custom''),
          revision = max (revision a) (revision b),
          allowExec = (execMode c \<noteq> Off)\<rparr>)"

section \<open>Availability and the gate\<close>

definition requirements_met :: "policy \<Rightarrow> requirements \<Rightarrow> bool" where
  "requirements_met p q =
     ((case req_profile q of Some s \<Rightarrow> s = [] \<or> profile p = s | None \<Rightarrow> True)
      \<and> (req_allowWrite q = Some True \<longrightarrow> allowWrite p)
      \<and> (case req_execModes q of Some ms \<Rightarrow> execMode p \<in> set ms | None \<Rightarrow> True)
      \<and> (case req_unrestrictedPaths q of Some b \<Rightarrow> unrestrictedPaths p = b | None \<Rightarrow> True)
      \<and> (case req_minimalEnv q of Some b \<Rightarrow> minimalEnv p = b | None \<Rightarrow> True)
      \<and> (case req_exposeAbsolutePaths q of Some b \<Rightarrow> exposeAbsolutePaths p = b | None \<Rightarrow> True))"

definition policyAllowsAvailability :: "jsv \<Rightarrow> string \<Rightarrow> bool" where
  "policyAllowsAvailability v availability =
     (case map_of POLICY_AVAILABILITY availability of
        None \<Rightarrow> False
      | Some q \<Rightarrow> requirements_met (normalizePolicy v) q)"

definition toolDefinition :: "string \<Rightarrow> (string \<times> string) option" where
  "toolDefinition name = map_option (\<lambda>a. (name, a)) (map_of TOOLS name)"

definition policyAllowsTool :: "jsv \<Rightarrow> string \<Rightarrow> bool" where
  "policyAllowsTool v name = (case toolDefinition name of None \<Rightarrow> False | Some t \<Rightarrow> policyAllowsAvailability v (snd t))"

definition assertToolAllowed :: "jsv \<Rightarrow> string \<Rightarrow> bridge_error + (string \<times> string)" where
  "assertToolAllowed v name =
     (case toolDefinition name of
        None \<Rightarrow> Inl (berr ''not_found'')
      | Some t \<Rightarrow>
          if \<not> policyAllowsAvailability v (snd t)
          then Inl (BridgeError ''policy_denied'' None None
                     (Some [(''tool'', JStr (fst t)), (''availability'', JStr (snd t))]))
          else Inr t)"

definition toolNamesForPolicy :: "jsv \<Rightarrow> string list" where
  "toolNamesForPolicy v =
     (let n = policy_js (normalizePolicy v) in map fst (filter (\<lambda>t. policyAllowsAvailability n (snd t)) TOOLS))"

definition allToolNames :: "string list" where
  "allToolNames = map fst TOOLS"

definition FULL_CAPS :: caps where
  "FULL_CAPS = the (map_of POLICY_PROFILES ''full'')"

definition isCanonicalFullPolicy :: "jsv \<Rightarrow> bool" where
  "isCanonicalFullPolicy v = policyCapabilitiesEqual (caps_of (normalizePolicy v)) FULL_CAPS"

definition assertCanonicalFullPolicy :: "jsv \<Rightarrow> bridge_error + policy" where
  "assertCanonicalFullPolicy v =
     (let n = normalizePolicy v in
      if profile n \<noteq> ''full'' \<or> \<not> isCanonicalFullPolicy (policy_js n) then Inl (berr ''policy_denied'')
      else if length (toolNamesForPolicy (policy_js n)) \<noteq> length TOOLS then Inl (berr ''integrity_error'')
      else Inr n)"

record policy_gate =
  gate_policy :: policy
  allowedNames :: "string list"

definition PolicyGate :: "jsv \<Rightarrow> policy_gate" where
  "PolicyGate v = \<lparr>gate_policy = normalizePolicy v, allowedNames = toolNamesForPolicy (policy_js (normalizePolicy v))\<rparr>"

definition gate_allows :: "policy_gate \<Rightarrow> string \<Rightarrow> bool" where
  "gate_allows g name = (name \<in> set (allowedNames g))"

definition gate_assert :: "policy_gate \<Rightarrow> string \<Rightarrow> bridge_error + (string \<times> string)" where
  "gate_assert g name = assertToolAllowed (policy_js (gate_policy g)) name"

section \<open>Normal policies\<close>

text \<open>A normal policy: known origin, positive revision, and a profile name that fixes the capabilities.\<close>

definition normal :: "policy \<Rightarrow> bool" where
  "normal p = (origin p \<in> set POLICY_ORIGINS \<and> revision p > 0 \<and> allowExec p = (execMode p \<noteq> Off)
     \<and> (profile p = ''custom'' \<or> map_of POLICY_PROFILES (profile p) = Some (caps_of p)))"

lemma profile_names: "n \<in> set POLICY_PROFILE_NAMES \<longleftrightarrow> map_of POLICY_PROFILES n \<noteq> None"
  by (auto simp: POLICY_PROFILE_NAMES_def map_of_eq_None_iff)

lemma custom_no_profile [simp]: "map_of POLICY_PROFILES ''custom'' = None"
  by (simp add: POLICY_PROFILES_def)

lemma empty_no_profile [simp]: "map_of POLICY_PROFILES [] = None"
  by (simp add: POLICY_PROFILES_def)

lemma normal_profile_cases:
  "normal_profile v = ''custom'' \<or> map_of POLICY_PROFILES (normal_profile v) \<noteq> None"
  by (auto simp: normal_profile_def Let_def profile_names)

lemma normal_revision_pos: "normal_revision v > 0"
proof -
  have "0 < \<lfloor>q\<rfloor>" if "rat_is_int q" "q > 0" for q :: rat
    using that by (metis of_int_0_less_iff rat_is_int_def)
  then show ?thesis by (auto simp: normal_revision_def DEFAULT_POLICY_REVISION_def split: jsv.split option.split)
qed

lemma normalizePolicy_normal: "normal (normalizePolicy v)"
  using normal_profile_cases [of v] normal_revision_pos [of v]
  by (auto simp: normal_def normalizePolicy_def Let_def caps_of_def normal_origin_def POLICY_ORIGINS_def
      split: option.splits)

lemma js_get_policy_js [simp]:
  "js_get (policy_js p) ''profile'' = JStr (profile p)"
  "js_get (policy_js p) ''origin'' = JStr (origin p)"
  "js_get (policy_js p) ''revision'' = JNum (Fin (of_int (revision p)))"
  "js_get (policy_js p) ''allowWrite'' = JBool (allowWrite p)"
  "js_get (policy_js p) ''allowExec'' = JBool (allowExec p)"
  "js_get (policy_js p) ''execMode'' = JStr (exec_js (execMode p))"
  "js_get (policy_js p) ''unrestrictedPaths'' = JBool (unrestrictedPaths p)"
  "js_get (policy_js p) ''minimalEnv'' = JBool (minimalEnv p)"
  "js_get (policy_js p) ''exposeAbsolutePaths'' = JBool (exposeAbsolutePaths p)"
  by (simp_all add: policy_js_def)

lemma exec_of_js_exec_js [simp]: "exec_of_js (JStr (exec_js m)) = Some m"
  by (cases m) (simp_all add: exec_of_js_def)

lemma normal_exec_policy_js [simp]: "normal_exec (policy_js p) = execMode p"
  by (simp add: normal_exec_def)

lemma normal_profile_policy_js: "normal p \<Longrightarrow> normal_profile (policy_js p) = profile p"
  by (auto simp: normal_profile_def normal_def profile_names Let_def split: list.splits)

lemma normal_revision_policy_js: "normal p \<Longrightarrow> normal_revision (policy_js p) = revision p"
  by (simp add: normal_revision_def normal_def)

lemma normalizePolicy_fixed: "normal p \<Longrightarrow> normalizePolicy (policy_js p) = p"
  by (cases p) (auto simp: normalizePolicy_def normal_profile_policy_js normal_revision_policy_js
      normal_origin_def Let_def caps_of_def normal_def split: option.splits)

lemma normalizePolicy_idem: "normalizePolicy (policy_js (normalizePolicy v)) = normalizePolicy v"
  by (rule normalizePolicy_fixed) (rule normalizePolicy_normal)

section \<open>The order on capabilities\<close>

definition le_caps :: "caps \<Rightarrow> caps \<Rightarrow> bool" where
  "le_caps a b = ((allowWrite a \<longrightarrow> allowWrite b) \<and> exec_rank (execMode a) \<le> exec_rank (execMode b)
     \<and> (unrestrictedPaths a \<longrightarrow> unrestrictedPaths b) \<and> (minimalEnv b \<longrightarrow> minimalEnv a)
     \<and> (exposeAbsolutePaths a \<longrightarrow> exposeAbsolutePaths b))"

interpretation policy_meet: restriction le_caps intersect_caps
  by unfold_locales (auto simp: le_caps_def intersect_caps_def)

lemma exec_rank_inj: "exec_rank a = exec_rank b \<Longrightarrow> a = b"
  by (cases a; cases b) auto

lemma le_caps_antisym: "le_caps a b \<Longrightarrow> le_caps b a \<Longrightarrow> a = b"
  by (cases a; cases b) (auto simp: le_caps_def dest: exec_rank_inj)

lemma policyCapabilitiesEqual_iff: "policyCapabilitiesEqual a b \<longleftrightarrow> a = b"
  by (cases a; cases b) (simp add: policyCapabilitiesEqual_def)

lemma matching_in_Some: "distinct (map fst ps) \<Longrightarrow> ''custom'' \<notin> set (map fst ps) \<Longrightarrow>
   matching_in ps c \<noteq> ''custom'' \<Longrightarrow> map_of ps (matching_in ps c) = Some c"
proof (induction ps)
  case (Cons p ps)
  obtain n d where p: "p = (n, d)" by fastforce
  show ?case
  proof (cases "c = d")
    case False
    with Cons p have "map_of ps (matching_in ps c) = Some c" by (simp add: policyCapabilitiesEqual_iff)
    then have "matching_in ps c \<in> fst ` set ps" by (metis domI dom_map_of_conv_image_fst)
    with Cons p False \<open>map_of ps (matching_in ps c) = Some c\<close> show ?thesis
      by (auto simp: policyCapabilitiesEqual_iff)
  qed (simp add: p policyCapabilitiesEqual_iff)
qed simp

lemma matchingProfile_sound: "matchingProfile c \<noteq> ''custom'' \<Longrightarrow> map_of POLICY_PROFILES (matchingProfile c) = Some c"
  unfolding matchingProfile_def by (rule matching_in_Some) (simp_all add: POLICY_PROFILES_def)

lemma matching_in_complete: "distinct (map snd ps) \<Longrightarrow> map_of ps n = Some c \<Longrightarrow> matching_in ps c = n"
proof (induction ps)
  case (Cons p ps)
  obtain m d where p: "p = (m, d)" by fastforce
  show ?case
  proof (cases "m = n")
    case True
    with Cons.prems p show ?thesis by (simp add: policyCapabilitiesEqual_iff)
  next
    case False
    with Cons.prems p have n: "map_of ps n = Some c" by simp
    then have "c \<noteq> d" using Cons.prems p by (auto dest!: map_of_SomeD simp: image_iff)
    with Cons p n show ?thesis by (simp add: policyCapabilitiesEqual_iff)
  qed
qed simp

lemma matchingProfile_complete: "map_of POLICY_PROFILES n = Some c \<Longrightarrow> matchingProfile c = n"
  unfolding matchingProfile_def by (rule matching_in_complete) (simp_all add: POLICY_PROFILES_def)

lemma caps_of_intersect [simp]:
  "caps_of (intersectPolicies l r a b) = intersect_caps (caps_of (normalizePolicy l)) (caps_of (normalizePolicy r))"
  by (simp add: intersectPolicies_def Let_def caps_of_def)

text \<open>
  Re-normalising an intersection, as every consumer of the effective policy does, keeps its
  capabilities: its profile name is the canonical one exactly when its capabilities are.
\<close>

lemma normalize_intersection_caps:
  "caps_of (normalizePolicy (policy_js (intersectPolicies l r None o'))) = caps_of (intersectPolicies l r None o')"
proof -
  let ?p = "intersectPolicies l r None o'"
  have prof: "profile ?p = matchingProfile (caps_of ?p)"
    by (simp only: caps_of_intersect) (simp add: intersectPolicies_def Let_def)
  have np: "normal_profile (policy_js ?p) = profile ?p"
    using matchingProfile_sound [of "caps_of ?p"]
    by (cases "matchingProfile (caps_of ?p) = ''custom''")
      (auto simp: normal_profile_def prof profile_names Let_def simp del: caps_of_intersect split: if_splits)
  show ?thesis
  proof (cases "profile ?p = ''custom''")
    case True
    then show ?thesis by (simp add: normalizePolicy_def np Let_def caps_of_def)
  next
    case False
    then have "map_of POLICY_PROFILES (profile ?p) = Some (caps_of ?p)"
      using matchingProfile_sound [of "caps_of ?p"] prof by simp
    then show ?thesis by (simp add: normalizePolicy_def np Let_def) (simp add: caps_of_def)
  qed
qed

section \<open>Tools under a policy\<close>

lemma TOOLS_distinct: "distinct (map fst TOOLS)"
  by (simp add: TOOLS_def)

lemma availability_norm [simp]: "policyAllowsAvailability (policy_js (normalizePolicy v)) a = policyAllowsAvailability v a"
  by (simp add: policyAllowsAvailability_def normalizePolicy_idem split: option.splits)

lemma toolDefinition_Some: "toolDefinition name = Some t \<Longrightarrow> fst t = name \<and> map_of TOOLS name = Some (snd t)"
  by (auto simp: toolDefinition_def)

lemma toolNames_iff: "name \<in> set (toolNamesForPolicy v) \<longleftrightarrow> policyAllowsTool v name"
proof -
  have "name \<in> set (toolNamesForPolicy v) \<longleftrightarrow> (\<exists>a. (name, a) \<in> set TOOLS \<and> policyAllowsAvailability v a)"
    by (force simp: toolNamesForPolicy_def Let_def)
  also have "\<dots> \<longleftrightarrow> (\<exists>a. map_of TOOLS name = Some a \<and> policyAllowsAvailability v a)"
    using map_of_eq_Some_iff [OF TOOLS_distinct] by blast
  also have "\<dots> \<longleftrightarrow> policyAllowsTool v name"
    by (auto simp: policyAllowsTool_def toolDefinition_def split: option.splits)
  finally show ?thesis .
qed

lemma assert_iff: "is_ok (assertToolAllowed v name) \<longleftrightarrow> policyAllowsTool v name"
  by (simp add: assertToolAllowed_def policyAllowsTool_def split: option.splits)

lemma toolNames_norm [simp]: "toolNamesForPolicy (policy_js (normalizePolicy v)) = toolNamesForPolicy v"
  by (simp add: toolNamesForPolicy_def normalizePolicy_idem)

lemma gate_agrees: "gate_allows (PolicyGate v) name \<longleftrightarrow> is_ok (gate_assert (PolicyGate v) name)"
  by (simp add: gate_allows_def gate_assert_def PolicyGate_def assert_iff toolNames_iff
      policyAllowsTool_def split: option.splits)

text \<open>
  Every availability class but \<open>full\<close> is upward closed in the capabilities; \<open>full\<close> also asks for the
  profile name, so it is upward closed on policies named after their capabilities.
\<close>

definition named :: "policy \<Rightarrow> bool" where
  "named p = (profile p = matchingProfile (caps_of p))"

definition upward :: "requirements \<Rightarrow> bool" where
  "upward q = ((case req_execModes q of None \<Rightarrow> True | Some ms \<Rightarrow>
       list_all (\<lambda>m. list_all (\<lambda>n. exec_rank m \<le> exec_rank n \<longrightarrow> n \<in> set ms) [Off, Direct, Shell]) ms)
     \<and> req_unrestrictedPaths q \<noteq> Some False \<and> req_minimalEnv q \<noteq> Some True \<and> req_exposeAbsolutePaths q \<noteq> Some False)"

lemma availability_upward: "list_all (\<lambda>(a, q). upward q \<and> (a \<noteq> ''full'' \<longrightarrow> req_profile q = None)) POLICY_AVAILABILITY"
  by (simp add: POLICY_AVAILABILITY_def upward_def no_requirements_def)

lemma requirements_mono:
  assumes up: "upward q" and met: "requirements_met p q" and le: "le_caps (caps_of p) (caps_of r)"
    and prof: "\<And>s. req_profile q = Some s \<Longrightarrow> s \<noteq> [] \<Longrightarrow> profile r = s"
  shows "requirements_met r q"
proof -
  have "execMode r \<in> set ms" if ms: "req_execModes q = Some ms" for ms
  proof -
    have p: "execMode p \<in> set ms" using met ms by (simp add: requirements_met_def)
    have "exec_rank (execMode p) \<le> exec_rank (execMode r)" using le by (simp add: le_caps_def caps_of_def)
    with up ms p show ?thesis by (cases "execMode r") (auto simp: upward_def list_all_iff)
  qed
  moreover have "unrestrictedPaths r = b" if "req_unrestrictedPaths q = Some b" for b
    using that up met le by (cases b) (auto simp: upward_def requirements_met_def le_caps_def caps_of_def)
  moreover have "minimalEnv r = b" if "req_minimalEnv q = Some b" for b
    using that up met le by (cases b) (auto simp: upward_def requirements_met_def le_caps_def caps_of_def)
  moreover have "exposeAbsolutePaths r = b" if "req_exposeAbsolutePaths q = Some b" for b
    using that up met le by (cases b) (auto simp: upward_def requirements_met_def le_caps_def caps_of_def)
  moreover have "allowWrite r" if "req_allowWrite q = Some True"
    using that met le by (auto simp: requirements_met_def le_caps_def caps_of_def)
  moreover have "s = [] \<or> profile r = s" if "req_profile q = Some s" for s
    using prof [OF that] by blast
  ultimately show ?thesis unfolding requirements_met_def by (auto split: option.splits)
qed

lemma availability_mono:
  assumes "policyAllowsAvailability v a" "le_caps (caps_of (normalizePolicy v)) (caps_of (normalizePolicy w))"
    and full: "a = ''full'' \<Longrightarrow> profile (normalizePolicy w) = ''full''"
  shows "policyAllowsAvailability w a"
proof -
  from assms(1) obtain q where q: "map_of POLICY_AVAILABILITY a = Some q" and m: "requirements_met (normalizePolicy v) q"
    by (auto simp: policyAllowsAvailability_def split: option.splits)
  have up: "upward q" "a \<noteq> ''full'' \<Longrightarrow> req_profile q = None"
    using availability_upward map_of_SomeD [OF q] by (auto simp: list_all_iff)
  have "a = ''full'' \<Longrightarrow> req_profile q = Some ''full''" using q by (auto simp: POLICY_AVAILABILITY_def)
  with up full have "profile (normalizePolicy w) = s" if "req_profile q = Some s" for s
    using that by (cases "a = ''full''") auto
  with requirements_mono [OF up(1) m assms(2)] q show ?thesis
    by (simp add: policyAllowsAvailability_def)
qed

lemma allowed_list:
  "policyAllowsAvailability v a \<longleftrightarrow>
     a \<in> set (map fst (filter (\<lambda>x. requirements_met (normalizePolicy v) (snd x)) POLICY_AVAILABILITY))"
proof -
  have "distinct (map fst POLICY_AVAILABILITY)" by (simp add: POLICY_AVAILABILITY_def)
  then have "map_of POLICY_AVAILABILITY a = Some q \<longleftrightarrow> (a, q) \<in> set POLICY_AVAILABILITY" for q
    by (rule map_of_eq_Some_iff)
  moreover have "policyAllowsAvailability v a \<longleftrightarrow>
      (\<exists>q. map_of POLICY_AVAILABILITY a = Some q \<and> requirements_met (normalizePolicy v) q)"
    unfolding policyAllowsAvailability_def by (cases "map_of POLICY_AVAILABILITY a") simp_all
  ultimately show ?thesis by force
qed

lemma allowsTool_entry: "policyAllowsTool v name \<longleftrightarrow> (\<exists>a. (name, a) \<in> set TOOLS \<and> policyAllowsAvailability v a)"
  unfolding policyAllowsTool_def toolDefinition_def map_of_eq_Some_iff [OF TOOLS_distinct, symmetric]
  by (cases "map_of TOOLS name") simp_all

section \<open>Properties\<close>

text \<open>
  Normalisation is canonical: whatever object it is given, the result is a normal policy (known origin,
  positive revision, a canonical profile name fixes its capabilities) and normalising it again changes nothing.
\<close>

lemma normalizePolicy_canonical:
  "normal (normalizePolicy v) \<and> normalizePolicy (policy_js (normalizePolicy v)) = normalizePolicy v"
  by (simp add: normalizePolicy_normal normalizePolicy_idem)

text \<open>
  C9. The intersection of two policies, also after the normalisation its consumers apply, is their greatest
  lower bound: a capability set is below it exactly when it is below both.
\<close>

lemma intersection_is_meet:
  "le_caps d (caps_of (normalizePolicy (policy_js (intersectPolicies l r None o'))))
   \<longleftrightarrow> le_caps d (caps_of (normalizePolicy l)) \<and> le_caps d (caps_of (normalizePolicy r))"
  unfolding normalize_intersection_caps caps_of_intersect
  by (meson policy_meet.meet_greatest policy_meet.meet_left policy_meet.meet_right policy_meet.r_trans)

text \<open>
  The daemon's tool gate is consistent: the listed tools, the boolean test and the asserting check agree, and
  a tool passes exactly when the catalog lists it with an availability the policy meets.
\<close>

lemma tool_gate_consistent:
  "(gate_allows (PolicyGate v) name \<longleftrightarrow> is_ok (gate_assert (PolicyGate v) name))
   \<and> (gate_allows (PolicyGate v) name \<longleftrightarrow> (\<exists>a. (name, a) \<in> set TOOLS \<and> policyAllowsAvailability v a))"
  unfolding gate_agrees
  by (simp only: gate_assert_def PolicyGate_def policy_gate.select_convs assert_iff allowsTool_entry availability_norm simp_thms)

text \<open>
  Every availability class is monotone: a policy with at least the capabilities of an allowed one is allowed
  too (the class \<open>full\<close> also asks for the profile name).
\<close>

lemma availability_monotone:
  assumes "policyAllowsAvailability v a" "le_caps (caps_of (normalizePolicy v)) (caps_of (normalizePolicy w))"
    and "a = ''full'' \<longrightarrow> profile (normalizePolicy w) = ''full''"
  shows "policyAllowsAvailability w a"
  using availability_mono [OF assms(1,2)] assms(3) by blast

lemma availability_monotone_sample:
  "policyAllowsAvailability (JObj [(''profile'', JStr ''agent'')]) ''write''"
proof (rule availability_monotone)
  show "policyAllowsAvailability (JObj [(''profile'', JStr ''edit'')]) ''write''" by code_simp
  show "le_caps (caps_of (normalizePolicy (JObj [(''profile'', JStr ''edit'')])))
     (caps_of (normalizePolicy (JObj [(''profile'', JStr ''agent'')])))" by code_simp
qed simp

end
