(* ===== verification/Authority.thy ===== *)
theory Authority
  imports Policy
begin

text \<open>
  Who an operation acts for: \<open>src/local/authority-context.mjs\<close> (the authority of a local or relayed
  call, ownership of records), \<open>src/local/account-access.mjs\<close> (account roles and the tools they reach),
  \<open>src/shared/authority-revocation.mjs\<close> and \<open>src/local/call-authority.mjs\<close> (which records a revocation
  covers).  Untrusted inputs are JavaScript values; a record that carries an owner is a plain object
  with the fields \<open>owner_kind\<close>, \<open>owner_account_id\<close> and so on.
\<close>

section \<open>Identifiers\<close>

definition ACCOUNT_ID :: "string \<Rightarrow> bool" where
  "ACCOUNT_ID s = (starts_with ''acct_'' s \<and> list_all is_id_char (drop 5 s)
     \<and> 20 \<le> length (drop 5 s) \<and> length (drop 5 s) \<le> 96)"

definition CLIENT_ID :: "string \<Rightarrow> bool" where
  "CLIENT_ID s = (starts_with ''mcp_client_'' s \<and> list_all is_id_char (drop 11 s) \<and> length (drop 11 s) = 43)"

definition FAMILY_ID :: "string \<Rightarrow> bool" where
  "FAMILY_ID s = (starts_with ''mcp_family_'' s \<and> list_all is_id_char (drop 11 s) \<and> length (drop 11 s) = 43)"

definition is_str :: "(string \<Rightarrow> bool) \<Rightarrow> jsv \<Rightarrow> bool" where
  "is_str P v = (case v of JStr s \<Rightarrow> P s | _ \<Rightarrow> False)"

definition str_of :: "jsv \<Rightarrow> string" where
  "str_of v = (case v of JStr s \<Rightarrow> s | _ \<Rightarrow> [])"

definition int_of :: "jsv \<Rightarrow> int" where
  "int_of v = (case v of JNum x \<Rightarrow> (case fin_of x of Some q \<Rightarrow> \<lfloor>q\<rfloor> | None \<Rightarrow> 0) | _ \<Rightarrow> 0)"

text \<open>\<open>Number.isSafeInteger(v) && v > 0\<close>, which \<open>accountVersion\<close> must satisfy.\<close>

definition positive_safe :: "jsv \<Rightarrow> bool" where
  "positive_safe v = (isSafeInteger v \<and> int_of v > 0)"

section \<open>Principals and contexts\<close>

record account =
  accountId :: string
  accountVersion :: int
  clientId :: string
  familyId :: string
  role :: string

datatype principal = PLocal string | PAccount account | POther string

record authority =
  auth_origin :: string
  auth_principal :: principal
  daemonPolicy :: policy
  accountPolicy :: policy
  effectivePolicy :: policy
  owner :: bool

text \<open>
  The context of an operation: an optional origin and an optional authority object, in which the
  principal and the effective policy may be missing.
\<close>

record auth_view =
  v_principal :: "principal option"
  v_effective :: "policy option"
  v_owner :: bool

record op_context =
  c_origin :: "string option"
  c_authority :: "auth_view option"

definition view_of :: "authority \<Rightarrow> auth_view" where
  "view_of a = \<lparr>v_principal = Some (auth_principal a), v_effective = Some (effectivePolicy a), v_owner = owner a\<rparr>"

definition isAccountRole :: "jsv \<Rightarrow> bool" where
  "isAccountRole v = (v = JStr ''reviewer'' \<or> v = JStr ''editor'' \<or> v = JStr ''operator'' \<or> v = JStr ''owner'')"

definition roleProfile :: "string \<Rightarrow> string" where
  "roleProfile r = (if r = ''reviewer'' then ''review'' else if r = ''editor'' then ''edit''
     else if r = ''operator'' then ''agent'' else if r = ''owner'' then ''full'' else [])"

definition or_empty :: "jsv \<Rightarrow> jsv" where
  "or_empty v = (if truthy v then v else JObj [])"

definition local_authority :: "jsv \<Rightarrow> authority" where
  "local_authority daemon =
     (let p = normalizePolicy (or_empty daemon)
      in \<lparr>auth_origin = ''local'', auth_principal = PLocal ''owner'', daemonPolicy = p, accountPolicy = p,
          effectivePolicy = p, owner = True\<rparr>)"

definition buildAuthorityContext :: "jsv \<Rightarrow> jsv \<Rightarrow> string \<Rightarrow> bridge_error + authority" where
  "buildAuthorityContext authorization daemon org =
     (if org \<noteq> ''relay'' then Inr (local_authority daemon)
      else
        (let aid = js_get authorization ''account_id''; cid = js_get authorization ''client_id'';
             fid = js_get authorization ''family_id''; r = js_get authorization ''role'';
             ver = js_get authorization ''account_version''
         in if \<not> is_str ACCOUNT_ID aid \<or> \<not> is_str CLIENT_ID cid \<or> \<not> is_str FAMILY_ID fid
               \<or> \<not> isAccountRole r \<or> \<not> positive_safe ver
            then Inl (berr ''authorization_denied'')
            else res_bind (policyProfile (roleProfile (str_of r)) ''explicit'') (\<lambda>acc.
              let dp = normalizePolicy (or_empty daemon)
              in Inr \<lparr>auth_origin = ''relay'',
                      auth_principal = PAccount \<lparr>accountId = str_of aid, accountVersion = int_of ver,
                        clientId = str_of cid, familyId = str_of fid, role = str_of r\<rparr>,
                      daemonPolicy = dp, accountPolicy = acc,
                      effectivePolicy = intersectPolicies (policy_js dp) (policy_js acc) None (Some ''effective''),
                      owner = (str_of r = ''owner'')\<rparr>)))"

definition isDelegatedRelayContext :: "op_context \<Rightarrow> bool" where
  "isDelegatedRelayContext c =
     (c_origin c = Some ''relay'' \<and>
      (case c_authority c of None \<Rightarrow> False
       | Some a \<Rightarrow> (case v_principal a of Some (PAccount p) \<Rightarrow> role p \<noteq> ''owner'' | _ \<Rightarrow> False) \<and> \<not> v_owner a))"

definition policyForContext :: "op_context option \<Rightarrow> policy option \<Rightarrow> policy" where
  "policyForContext c fallback =
     normalizePolicy
       (case Option.bind (Option.bind c c_authority) v_effective of
          Some p \<Rightarrow> policy_js p
        | None \<Rightarrow> (case fallback of Some p \<Rightarrow> policy_js p | None \<Rightarrow> JObj []))"

definition principalForContext :: "op_context option \<Rightarrow> bridge_error + principal" where
  "principalForContext c =
     (let a = Option.bind c c_authority; p = Option.bind a v_principal in
      case p of
        Some (PAccount q) \<Rightarrow> Inr (PAccount q)
      | _ \<Rightarrow>
          if p = Some (PLocal ''owner'') then Inr (PLocal ''owner'')
          else if a \<noteq> None \<or> Option.bind c c_origin = Some ''relay''
          then Inl (berr ''authorization_denied'')
          else Inr (PLocal ''owner''))"

definition principalBinding :: "op_context option \<Rightarrow> bridge_error + jsv" where
  "principalBinding c = res_bind (principalForContext c) (\<lambda>p. case p of
     PAccount q \<Rightarrow> Inr (JObj [(''owner_kind'', JStr ''account''), (''owner_account_id'', JStr (accountId q)),
        (''owner_account_version'', JNum (Fin (of_int (accountVersion q)))),
        (''owner_client_id'', JStr (clientId q)), (''owner_family_id'', JStr (familyId q)),
        (''owner_role'', JStr (role q))])
   | _ \<Rightarrow> Inr (JObj [(''owner_kind'', JStr ''local'')]))"

definition owned_by :: "jsv \<Rightarrow> account \<Rightarrow> bool" where
  "owned_by r q = (js_get r ''owner_kind'' = JStr ''account''
     \<and> js_get r ''owner_account_id'' = JStr (accountId q)
     \<and> js_get r ''owner_account_version'' = JNum (Fin (of_int (accountVersion q)))
     \<and> js_get r ''owner_client_id'' = JStr (clientId q)
     \<and> js_get r ''owner_family_id'' = JStr (familyId q))"

definition assertOwnedByContext :: "jsv \<Rightarrow> op_context option \<Rightarrow> bridge_error + unit" where
  "assertOwnedByContext r c = res_bind (principalForContext c) (\<lambda>p. case p of
     PAccount q \<Rightarrow>
       if role q = ''owner'' then Inr ()
       else if \<not> owned_by r q then Inl (berr ''authorization_denied'') else Inr ()
   | _ \<Rightarrow> Inr ())"

definition visibleToContext :: "jsv \<Rightarrow> op_context option \<Rightarrow> bool" where
  "visibleToContext r c = is_ok (assertOwnedByContext r c)"

section \<open>Account roles\<close>

definition ownerOnlyTools :: "string list" where
  "ownerOnlyTools = [''diagnose_runtime'', ''list_local_resources'', ''exec_command'', ''run_process'',
     ''start_process'', ''run_local_command'', ''read_process'', ''write_process'', ''kill_process'',
     ''stage_job'', ''start_job'']"

definition ACCOUNT_ROLES :: "(string \<times> string) list" where
  "ACCOUNT_ROLES = [(''reviewer'', ''review''), (''editor'', ''edit''), (''operator'', ''agent''), (''owner'', ''full'')]"

definition OWNER_ACCOUNT_ROLE :: string where
  "OWNER_ACCOUNT_ROLE = ''owner''"

definition normalizeAccountRole :: "jsv \<Rightarrow> bridge_error + string" where
  "normalizeAccountRole v = (case v of
     JStr s \<Rightarrow> (let r = to_lower (trim s) in
        if r \<in> set (map fst ACCOUNT_ROLES) then Inr r else Inl (berr ''invalid_request''))
   | _ \<Rightarrow> Inl (berr ''invalid_request''))"

definition accountRolePolicy :: "jsv \<Rightarrow> bridge_error + policy" where
  "accountRolePolicy v = res_bind (normalizeAccountRole v) (\<lambda>r.
     policyProfile (the (map_of ACCOUNT_ROLES r)) ''explicit'')"

definition accountRoleToolNames :: "jsv \<Rightarrow> bridge_error + string list" where
  "accountRoleToolNames v = res_bind (normalizeAccountRole v) (\<lambda>r.
     res_bind (accountRolePolicy (JStr r)) (\<lambda>p.
       let names = toolNamesForPolicy (policy_js p)
       in Inr (if r = OWNER_ACCOUNT_ROLE then names else filter (\<lambda>n. n \<notin> set ownerOnlyTools) names)))"

definition access_assert :: "jsv \<Rightarrow> string \<Rightarrow> bridge_error + string" where
  "access_assert v tool = res_bind (normalizeAccountRole v) (\<lambda>r.
     if r \<noteq> OWNER_ACCOUNT_ROLE \<and> tool \<in> set ownerOnlyTools then Inl (berr ''authorization_denied'')
     else res_bind (accountRolePolicy (JStr r)) (\<lambda>p.
       res_bind (assertToolAllowed (policy_js p) tool) (\<lambda>_. Inr r)))"

text \<open>\<open>{ ...authorization, role }\<close>.\<close>

definition with_field :: "string \<Rightarrow> jsv \<Rightarrow> jsv \<Rightarrow> jsv" where
  "with_field k w v = JObj (map_set k w (obj_entries v))"

definition access_authority :: "jsv \<Rightarrow> jsv \<Rightarrow> string \<Rightarrow> bridge_error + authority" where
  "access_authority authorization daemon org =
     res_bind (if org = ''relay'' then normalizeAccountRole (js_get authorization ''role'') else Inr ''owner'') (\<lambda>r.
       buildAuthorityContext (with_field ''role'' (JStr r) authorization) daemon org)"

section \<open>Revocations\<close>

record revocation =
  rev_account :: string
  rev_version :: int
  rev_client :: "string option"
  rev_family :: "string option"

definition normalizeAuthorityRevocation :: "jsv \<Rightarrow> revocation option" where
  "normalizeAuthorityRevocation v =
     (if \<not> isRecord v then None
      else
        (let aid = js_get v ''account_id''; ver = js_get v ''account_version'';
             cid = js_get v ''client_id''; fid = js_get v ''family_id''
         in if \<not> is_str ACCOUNT_ID aid \<or> \<not> positive_safe ver then None
            else if cid \<noteq> JUndef \<and> \<not> is_str CLIENT_ID cid then None
            else if fid \<noteq> JUndef \<and> \<not> (is_str (\<lambda>_. True) fid \<and> truthy cid \<and> is_str FAMILY_ID fid) then None
            else Some \<lparr>rev_account = str_of aid, rev_version = int_of ver,
              rev_client = (if truthy cid then Some (str_of cid) else None),
              rev_family = (if truthy fid then Some (str_of fid) else None)\<rparr>))"

definition recordMatchesAuthorityRevocation :: "jsv \<Rightarrow> revocation option \<Rightarrow> bool" where
  "recordMatchesAuthorityRevocation r rv = (case rv of None \<Rightarrow> False | Some v \<Rightarrow>
     if \<not> truthy r \<or> js_get r ''owner_kind'' \<noteq> JStr ''account'' then False
     else if js_get r ''owner_account_id'' \<noteq> JStr (rev_account v)
        \<or> js_get r ''owner_account_version'' \<noteq> JNum (Fin (of_int (rev_version v))) then False
     else if (case rev_client v of Some c \<Rightarrow> c \<noteq> [] \<and> js_get r ''owner_client_id'' \<noteq> JStr c | None \<Rightarrow> False) then False
     else if (case rev_family v of Some f \<Rightarrow> f \<noteq> [] \<and> js_get r ''owner_family_id'' \<noteq> JStr f | None \<Rightarrow> False) then False
     else True)"

section \<open>Lemmas\<close>

lemma role_profile_known: "isAccountRole (JStr r) \<Longrightarrow> map_of POLICY_PROFILES (roleProfile r) \<noteq> None"
  by (auto simp: isAccountRole_def roleProfile_def POLICY_PROFILES_def)

lemma js_get_canonical [simp]:
  "js_get (canonical_js n c o') ''profile'' = JStr n"
  "js_get (canonical_js n c o') ''origin'' = JStr o'"
  by (simp_all add: canonical_js_def)

lemma normalize_canonical:
  assumes "map_of POLICY_PROFILES n = Some c"
  shows "profile (normalizePolicy (canonical_js n c o')) = n \<and> caps_of (normalizePolicy (canonical_js n c o')) = c"
proof -
  have np: "normal_profile (canonical_js n c o') = n"
    using assms by (auto simp: normal_profile_def profile_names Let_def)
  have "caps_of (normalizePolicy (canonical_js n c o')) = \<lparr>allowWrite = allowWrite c, execMode = execMode c,
      unrestrictedPaths = unrestrictedPaths c, minimalEnv = minimalEnv c, exposeAbsolutePaths = exposeAbsolutePaths c\<rparr>"
    using assms by (simp add: normalizePolicy_def np Let_def caps_of_def)
  also have "\<dots> = c" by (cases c) simp
  finally show ?thesis by (simp add: normalizePolicy_def np Let_def)
qed

lemma policyProfile_ok:
  assumes "policyProfile name o' = Inr p"
  shows "normal p \<and> profile p = to_lower (trim name) \<and> map_of POLICY_PROFILES (profile p) = Some (caps_of p)"
  using assms normalize_canonical
  by (auto simp: policyProfile_def Let_def normalizePolicy_normal split: option.splits)

lemma buildAuthority_relay:
  assumes "buildAuthorityContext authorization daemon ''relay'' = Inr a"
  obtains q where "auth_principal a = PAccount q" "isAccountRole (JStr (role q))"
    "ACCOUNT_ID (accountId q)" "CLIENT_ID (clientId q)" "FAMILY_ID (familyId q)" "accountVersion q > 0"
    "owner a = (role q = ''owner'')" "auth_origin a = ''relay''"
    "policyProfile (roleProfile (role q)) ''explicit'' = Inr (accountPolicy a)"
    "daemonPolicy a = normalizePolicy (or_empty daemon)"
    "effectivePolicy a = intersectPolicies (policy_js (daemonPolicy a)) (policy_js (accountPolicy a)) None (Some ''effective'')"
  using assms
  by (auto simp: buildAuthorityContext_def Let_def res_bind_Inr_iff is_str_def str_of_def positive_safe_def
      isAccountRole_def split: if_splits jsv.splits)

lemma effective_caps:
  assumes "buildAuthorityContext authorization daemon ''relay'' = Inr a"
  shows "caps_of (effectivePolicy a) = intersect_caps (caps_of (daemonPolicy a)) (caps_of (accountPolicy a))"
  using assms
proof (rule buildAuthority_relay)
  fix q
  assume p: "policyProfile (roleProfile (role q)) ''explicit'' = Inr (accountPolicy a)"
    and d: "daemonPolicy a = normalizePolicy (or_empty daemon)"
    and e: "effectivePolicy a = intersectPolicies (policy_js (daemonPolicy a)) (policy_js (accountPolicy a)) None (Some ''effective'')"
  have "normalizePolicy (policy_js (daemonPolicy a)) = daemonPolicy a" by (simp add: d normalizePolicy_idem)
  moreover have "normalizePolicy (policy_js (accountPolicy a)) = accountPolicy a"
    using policyProfile_ok [OF p] normalizePolicy_fixed by blast
  ultimately show ?thesis using e by simp
qed

lemma buildAuthority_narrow:
  assumes "buildAuthorityContext authorization daemon ''relay'' = Inr a"
  shows "le_caps (caps_of (effectivePolicy a)) (caps_of (daemonPolicy a))
       \<and> le_caps (caps_of (effectivePolicy a)) (caps_of (accountPolicy a))"
  unfolding effective_caps [OF assms] by (simp add: policy_meet.meet_left policy_meet.meet_right)

text \<open>The policy a service reads back from the context has the capabilities of the effective policy.\<close>

lemma policyForContext_caps:
  assumes "buildAuthorityContext authorization daemon ''relay'' = Inr a" "c_authority c = Some (view_of a)"
  shows "caps_of (policyForContext (Some c) fb) = caps_of (effectivePolicy a)"
  using assms(1)
proof (rule buildAuthority_relay)
  assume "effectivePolicy a = intersectPolicies (policy_js (daemonPolicy a)) (policy_js (accountPolicy a)) None (Some ''effective'')"
  then show ?thesis
    using normalize_intersection_caps [of "policy_js (daemonPolicy a)" "policy_js (accountPolicy a)" "Some ''effective''"]
      assms(2) by (simp add: policyForContext_def view_of_def)
qed

lemma roles_normal: "r \<in> set (map fst ACCOUNT_ROLES) \<Longrightarrow> to_lower (trim r) = r"
  by (auto simp: ACCOUNT_ROLES_def trim_def trim_start_def trim_end_def is_ws_def to_lower_def lower_char_def Let_def)

lemma normalizeAccountRole_ok: "normalizeAccountRole v = Inr r \<Longrightarrow> r \<in> set (map fst ACCOUNT_ROLES)"
  by (auto simp: normalizeAccountRole_def Let_def simp del: set_map split: jsv.splits if_splits)

lemma normalizeAccountRole_fixed: "r \<in> set (map fst ACCOUNT_ROLES) \<Longrightarrow> normalizeAccountRole (JStr r) = Inr r"
  by (simp add: normalizeAccountRole_def roles_normal Let_def del: set_map)

lemma normalizeAccountRole_idem: "normalizeAccountRole v = Inr r \<Longrightarrow> normalizeAccountRole (JStr r) = Inr r"
  by (rule normalizeAccountRole_fixed) (rule normalizeAccountRole_ok)

text \<open>The gate's verdict on a tool is membership in the list of tools the role is told about.\<close>

lemma access_assert_iff:
  assumes "accountRoleToolNames v = Inr names"
  shows "is_ok (access_assert v tool) \<longleftrightarrow> tool \<in> set names"
proof -
  from assms obtain r p where r: "normalizeAccountRole v = Inr r" and p: "accountRolePolicy (JStr r) = Inr p"
    and n: "names = (if r = OWNER_ACCOUNT_ROLE then toolNamesForPolicy (policy_js p)
        else filter (\<lambda>n. n \<notin> set ownerOnlyTools) (toolNamesForPolicy (policy_js p)))"
    by (auto simp: accountRoleToolNames_def res_bind_Inr_iff Let_def)
  have a: "is_ok (assertToolAllowed (policy_js p) tool) \<longleftrightarrow> tool \<in> set (toolNamesForPolicy (policy_js p))"
    by (simp add: assert_iff toolNames_iff)
  show ?thesis
  proof (cases "r \<noteq> OWNER_ACCOUNT_ROLE \<and> tool \<in> set ownerOnlyTools")
    case True
    then show ?thesis using r n by (simp add: access_assert_def)
  next
    case False
    then show ?thesis using r p n a
      by (cases "assertToolAllowed (policy_js p) tool") (auto simp: access_assert_def)
  qed
qed

lemma roleToolNames_total: "r \<in> set (map fst ACCOUNT_ROLES) \<Longrightarrow> \<exists>names. accountRoleToolNames (JStr r) = Inr names"
proof -
  assume r: "r \<in> set (map fst ACCOUNT_ROLES)"
  then have n: "normalizeAccountRole (JStr r) = Inr r" by (rule normalizeAccountRole_fixed)
  have "\<exists>p. policyProfile (the (map_of ACCOUNT_ROLES r)) ''explicit'' = Inr p"
    using r by (auto simp: ACCOUNT_ROLES_def policyProfile_def Let_def POLICY_PROFILES_def trim_def
        trim_start_def trim_end_def is_ws_def to_lower_def lower_char_def)
  with n show ?thesis by (auto simp: accountRoleToolNames_def accountRolePolicy_def Let_def)
qed

text \<open>Ownership.\<close>

lemma principal_account:
  "principalForContext c = Inr (PAccount q) \<longleftrightarrow> Option.bind (Option.bind c c_authority) v_principal = Some (PAccount q)"
  by (auto simp: principalForContext_def Let_def split: option.splits principal.splits if_splits)

lemma binding_visible:
  "principalBinding c = Inr r \<Longrightarrow> visibleToContext r c"
proof (cases "principalForContext c")
  case (Inr p)
  moreover assume "principalBinding c = Inr r"
  ultimately show ?thesis
    by (cases p) (auto simp: principalBinding_def visibleToContext_def assertOwnedByContext_def owned_by_def)
qed (simp add: principalBinding_def)

lemma binding_owner:
  assumes "principalBinding c = Inr r" "principalForContext c = Inr (PAccount q)"
  shows "owned_by r p \<longleftrightarrow> accountId p = accountId q \<and> accountVersion p = accountVersion q
     \<and> clientId p = clientId q \<and> familyId p = familyId q"
  using assms by (auto simp: principalBinding_def owned_by_def)

lemma visible_account:
  assumes "principalForContext c = Inr (PAccount q)" "role q \<noteq> ''owner''"
  shows "visibleToContext r c \<longleftrightarrow> owned_by r q"
  using assms by (simp add: visibleToContext_def assertOwnedByContext_def)

definition role_availability :: "string \<Rightarrow> string list" where
  "role_availability r =
     (if r = ''reviewer'' then [''always'']
      else if r = ''editor'' then [''always'', ''write'']
      else if r = ''operator'' then [''always'', ''write'', ''direct-exec'', ''write+direct-exec'']
      else map fst POLICY_AVAILABILITY)"

lemma role_requirements:
  assumes "r \<in> set (map fst ACCOUNT_ROLES)" "profile p = the (map_of ACCOUNT_ROLES r)"
    "caps_of p = the (map_of POLICY_PROFILES (profile p))"
  shows "map fst (filter (\<lambda>x. requirements_met p (snd x)) POLICY_AVAILABILITY) = role_availability r"
proof -
  have "r \<in> {''reviewer'', ''editor'', ''operator'', ''owner''}" using assms(1) by (simp add: ACCOUNT_ROLES_def)
  then consider "r = ''reviewer''" | "r = ''editor''" | "r = ''operator''" | "r = ''owner''" by blast
  then show ?thesis
    using assms(2,3)
    by cases (simp_all add: requirements_met_def POLICY_AVAILABILITY_def no_requirements_def
        ACCOUNT_ROLES_def POLICY_PROFILES_def role_availability_def caps_of_def)
qed

lemma role_allows_availability:
  assumes "r \<in> set (map fst ACCOUNT_ROLES)" "accountRolePolicy (JStr r) = Inr p"
  shows "policyAllowsAvailability (policy_js p) a \<longleftrightarrow> a \<in> set (role_availability r)"
proof -
  have pp: "policyProfile (the (map_of ACCOUNT_ROLES r)) ''explicit'' = Inr p"
    using assms by (simp add: accountRolePolicy_def normalizeAccountRole_fixed)
  then have n: "normalizePolicy (policy_js p) = p" using policyProfile_ok normalizePolicy_fixed by blast
  have t: "to_lower (trim (the (map_of ACCOUNT_ROLES r))) = the (map_of ACCOUNT_ROLES r)"
    using assms(1) by (auto simp: ACCOUNT_ROLES_def trim_def trim_start_def trim_end_def is_ws_def to_lower_def lower_char_def Let_def)
  have "profile p = the (map_of ACCOUNT_ROLES r)" "map_of POLICY_PROFILES (profile p) = Some (caps_of p)"
    using policyProfile_ok [OF pp] t by metis+
  then show ?thesis
    using role_requirements [OF assms(1), of p] unfolding allowed_list n by simp
qed

lemma role_tools_iff:
  assumes "r \<in> set (map fst ACCOUNT_ROLES)" "accountRoleToolNames (JStr r) = Inr names"
  shows "tool \<in> set names \<longleftrightarrow> (\<exists>a. (tool, a) \<in> set TOOLS \<and> a \<in> set (role_availability r))
     \<and> (r = ''owner'' \<or> tool \<notin> set ownerOnlyTools)"
proof -
  from assms obtain p where p: "accountRolePolicy (JStr r) = Inr p"
    and n: "names = (if r = OWNER_ACCOUNT_ROLE then toolNamesForPolicy (policy_js p)
        else filter (\<lambda>n. n \<notin> set ownerOnlyTools) (toolNamesForPolicy (policy_js p)))"
    by (auto simp: accountRoleToolNames_def normalizeAccountRole_fixed res_bind_Inr_iff Let_def)
  show ?thesis
    using toolNames_iff [of tool "policy_js p"]
    by (simp add: n allowsTool_entry role_allows_availability [OF assms(1) p] OWNER_ACCOUNT_ROLE_def)
qed

lemma CLIENT_ID_nonempty: "\<not> CLIENT_ID []" "\<not> FAMILY_ID []" "\<not> ACCOUNT_ID []"
  by (simp_all add: CLIENT_ID_def FAMILY_ID_def ACCOUNT_ID_def)

lemma positive_safe_int: "positive_safe v \<Longrightarrow> v = JNum (Fin (of_int k)) \<longleftrightarrow> int_of v = k"
  by (auto simp: positive_safe_def isSafeInteger_def int_of_def fin_of_def rat_is_int_def
      split: jsv.splits option.splits jnum.splits)

section \<open>A concrete account\<close>

definition sample_authorization :: "string \<Rightarrow> jsv" where
  "sample_authorization r = JObj [(''account_id'', JStr (''acct_'' @ replicate 20 CHR ''a'')),
     (''account_version'', JNum (Fin 3)), (''client_id'', JStr (''mcp_client_'' @ replicate 43 CHR ''b'')),
     (''family_id'', JStr (''mcp_family_'' @ replicate 43 CHR ''c'')), (''role'', JStr r)]"

definition sample_authority :: "string \<Rightarrow> authority option" where
  "sample_authority r = (case buildAuthorityContext (sample_authorization r) (JObj [(''profile'', JStr ''full'')]) ''relay'' of
     Inl _ \<Rightarrow> None | Inr a \<Rightarrow> Some a)"

definition sample_context :: "string \<Rightarrow> op_context option" where
  "sample_context r = map_option (\<lambda>a. \<lparr>c_origin = Some ''relay'', c_authority = Some (view_of a)\<rparr>) (sample_authority r)"

definition sample_account :: "string \<Rightarrow> account" where
  "sample_account r = \<lparr>accountId = ''acct_'' @ replicate 20 CHR ''a'', accountVersion = 3,
     clientId = ''mcp_client_'' @ replicate 43 CHR ''b'', familyId = ''mcp_family_'' @ replicate 43 CHR ''c'', role = r\<rparr>"

definition sample_record :: "string \<Rightarrow> jsv" where
  "sample_record r = (case principalBinding (sample_context r) of Inl _ \<Rightarrow> JUndef | Inr x \<Rightarrow> x)"

lemma sample_facts:
  "principalBinding (sample_context ''editor'') = Inr (sample_record ''editor'')"
  "principalForContext (sample_context ''editor'') = Inr (PAccount (sample_account ''editor''))"
  "principalForContext (sample_context ''reviewer'') = Inr (PAccount (sample_account ''reviewer''))"
  by code_simp+

section \<open>Properties\<close>



text \<open>
  C4. Ownership: a record bound by one account session is visible to another delegated session exactly when
  account, account version, client and token family are all the same.
\<close>

lemma ownership_isolation:
  assumes "principalBinding c = Inr r" "principalForContext c = Inr (PAccount p)"
    and "principalForContext c' = Inr (PAccount q)" "role q \<noteq> ''owner''"
  shows "visibleToContext r c' \<longleftrightarrow> accountId q = accountId p \<and> accountVersion q = accountVersion p
     \<and> clientId q = clientId p \<and> familyId q = familyId p"
  using visible_account [OF assms(3,4)] binding_owner [OF assms(1,2)] by simp

lemma ownership_isolation_witness:
  "visibleToContext (sample_record ''editor'') (sample_context ''reviewer'')"
  using ownership_isolation [OF sample_facts(1,2,3)] by (simp add: sample_account_def)

text \<open>
  A relayed context without an account principal is never taken for the local owner: it gets no
  principal, can bind no record and sees none.
\<close>

lemma relay_needs_principal:
  assumes "c_origin c = Some ''relay''" "\<forall>q. Option.bind (c_authority c) v_principal \<noteq> Some (PAccount q)"
    and "Option.bind (c_authority c) v_principal \<noteq> Some (PLocal ''owner'')"
  shows "principalForContext (Some c) = Inl (berr ''authorization_denied'')
     \<and> principalBinding (Some c) = Inl (berr ''authorization_denied'') \<and> \<not> visibleToContext r (Some c)"
proof -
  have "principalForContext (Some c) = Inl (berr ''authorization_denied'')"
    using assms by (simp add: principalForContext_def Let_def split: option.split principal.split)
  then show ?thesis by (simp add: principalBinding_def visibleToContext_def assertOwnedByContext_def)
qed

lemma relay_needs_principal_sample:
  "\<not> visibleToContext (JObj [(''owner_kind'', JStr ''local'')]) (Some \<lparr>c_origin = Some ''relay'', c_authority = None\<rparr>)"
  using relay_needs_principal [of "\<lparr>c_origin = Some ''relay'', c_authority = None\<rparr>" "JObj [(''owner_kind'', JStr ''local'')]"]
  by simp

text \<open>
  C11. A revocation covers a session's records exactly when it names the session's account and version, and the
  client and token family where it gives them.
\<close>

lemma revocation_exact:
  assumes "principalBinding c = Inr r" "principalForContext c = Inr (PAccount q)"
    and "normalizeAuthorityRevocation v = Some rv"
  shows "recordMatchesAuthorityRevocation r (Some rv) \<longleftrightarrow>
     js_get v ''account_id'' = JStr (accountId q) \<and> js_get v ''account_version'' = JNum (Fin (of_int (accountVersion q)))
     \<and> (truthy (js_get v ''client_id'') \<longrightarrow> js_get v ''client_id'' = JStr (clientId q))
     \<and> (truthy (js_get v ''family_id'') \<longrightarrow> js_get v ''family_id'' = JStr (familyId q))"
proof -
  have r: "r = JObj [(''owner_kind'', JStr ''account''), (''owner_account_id'', JStr (accountId q)),
        (''owner_account_version'', JNum (Fin (of_int (accountVersion q)))),
        (''owner_client_id'', JStr (clientId q)), (''owner_family_id'', JStr (familyId q)),
        (''owner_role'', JStr (role q))]"
    using assms(1,2) by (auto simp: principalBinding_def)
  have v: "is_str ACCOUNT_ID (js_get v ''account_id'')" "positive_safe (js_get v ''account_version'')"
    "js_get v ''client_id'' = JUndef \<or> is_str CLIENT_ID (js_get v ''client_id'')"
    "js_get v ''family_id'' = JUndef \<or> is_str FAMILY_ID (js_get v ''family_id'')"
    and rv: "rv = \<lparr>rev_account = str_of (js_get v ''account_id''), rev_version = int_of (js_get v ''account_version''),
              rev_client = (if truthy (js_get v ''client_id'') then Some (str_of (js_get v ''client_id'')) else None),
              rev_family = (if truthy (js_get v ''family_id'') then Some (str_of (js_get v ''family_id'')) else None)\<rparr>"
    using assms(3) by (auto simp: normalizeAuthorityRevocation_def Let_def split: if_splits)
  have s: "is_str P w \<Longrightarrow> \<not> P [] \<Longrightarrow> w = JStr (str_of w) \<and> str_of w \<noteq> []" for P w
    by (cases w) (auto simp: is_str_def str_of_def)
  obtain a where a: "js_get v ''account_id'' = JStr a" using s [OF v(1)] CLIENT_ID_nonempty by metis
  have cl: "js_get v ''client_id'' = JUndef \<or> (\<exists>x. js_get v ''client_id'' = JStr x \<and> x \<noteq> [])"
    using v(3) s CLIENT_ID_nonempty by metis
  have fl: "js_get v ''family_id'' = JUndef \<or> (\<exists>x. js_get v ''family_id'' = JStr x \<and> x \<noteq> [])"
    using v(4) s CLIENT_ID_nonempty by metis
  have n: "(js_get v ''account_version'' = JNum (Fin (of_int (accountVersion q)))) = (int_of (js_get v ''account_version'') = accountVersion q)"
    using v(2) by (rule positive_safe_int)
  show ?thesis
    unfolding n using cl fl by (auto simp: recordMatchesAuthorityRevocation_def r rv a str_of_def)
qed

lemma revocation_exact_witness:
  "\<exists>rv. normalizeAuthorityRevocation (sample_authorization ''editor'') = Some rv
     \<and> recordMatchesAuthorityRevocation (sample_record ''editor'') (Some rv)"
proof -
  have "normalizeAuthorityRevocation (sample_authorization ''editor'') \<noteq> None" by code_simp
  then obtain rv where rv: "normalizeAuthorityRevocation (sample_authorization ''editor'') = Some rv" by blast
  then show ?thesis using revocation_exact [OF sample_facts(1,2) rv]
    by (simp add: sample_authorization_def sample_account_def)
qed

text \<open>
  The account gate accepts a tool exactly when the tool is in the list the role is shown, and every
  defined role has such a list.
\<close>

lemma role_gate_matches_list:
  assumes "accountRoleToolNames v = Inr names"
  shows "(is_ok (access_assert v tool) \<longleftrightarrow> tool \<in> set names)
     \<and> list_all (\<lambda>r. is_ok (accountRoleToolNames (JStr r))) (map fst ACCOUNT_ROLES)"
  using access_assert_iff [OF assms] roleToolNames_total by (auto simp: list_all_iff is_ok_iff)

lemma role_gate_matches_list_sample:
  "\<exists>names. accountRoleToolNames (JStr ''editor'') = Inr names
     \<and> (is_ok (access_assert (JStr ''editor'') ''write_file'') \<longleftrightarrow> ''write_file'' \<in> set names)"
proof -
  obtain names where n: "accountRoleToolNames (JStr ''editor'') = Inr names"
    using roleToolNames_total [of "''editor''"] by (auto simp: ACCOUNT_ROLES_def)
  with role_gate_matches_list [OF n] show ?thesis by blast
qed

end
