(* ===== verification/PosixPath.thy ===== *)
theory PosixPath
  imports Interfaces
begin

text \<open>
  The part of Node's \<open>path\<close> module (POSIX flavour) the sources use: \<open>resolve\<close>, \<open>relative\<close>,
  \<open>isAbsolute\<close>, \<open>basename\<close> and \<open>dirname\<close>.  A resolved path is kept as its list of segments;
  \<open>render_path\<close> is its text.
\<close>

abbreviation SLASH :: char where "SLASH \<equiv> CHR ''/''"

definition isAbsolute :: "string \<Rightarrow> bool" where
  "isAbsolute p = starts_with [SLASH] p"

text \<open>Normalisation of a segment list: empty and \<open>.\<close> segments vanish, \<open>..\<close> removes its parent.\<close>

fun norm_segs :: "string list \<Rightarrow> string list \<Rightarrow> string list" where
  "norm_segs acc [] = rev acc"
| "norm_segs acc (s # ss) =
     (if s = [] \<or> s = ''.'' then norm_segs acc ss
      else if s = ''..'' then norm_segs (drop 1 acc) ss
      else norm_segs (s # acc) ss)"

definition render_path :: "string list \<Rightarrow> string" where
  "render_path segs = SLASH # join [SLASH] segs"

text \<open>\<open>path.resolve(base, p)\<close> for an absolute base.\<close>

definition resolve_segs :: "string \<Rightarrow> string \<Rightarrow> string list" where
  "resolve_segs base p =
     norm_segs [] (split_on SLASH (if isAbsolute p then p else base @ [SLASH] @ p))"

definition path_resolve :: "string \<Rightarrow> string \<Rightarrow> string" where
  "path_resolve base p = render_path (resolve_segs base p)"

fun common_prefix :: "'a list \<Rightarrow> 'a list \<Rightarrow> nat" where
  "common_prefix (x # xs) (y # ys) = (if x = y then Suc (common_prefix xs ys) else 0)"
| "common_prefix _ _ = 0"

text \<open>\<open>path.relative(from, to)\<close> between resolved paths.\<close>

definition relative_segs :: "string list \<Rightarrow> string list \<Rightarrow> string list" where
  "relative_segs from to =
     (let n = common_prefix from to in replicate (length from - n) ''..'' @ drop n to)"

definition path_relative :: "string \<Rightarrow> string \<Rightarrow> string \<Rightarrow> string" where
  "path_relative cwd from to = join [SLASH] (relative_segs (resolve_segs cwd from) (resolve_segs cwd to))"

definition basename :: "string \<Rightarrow> string" where
  "basename p = (case filter (\<lambda>s. s \<noteq> []) (split_on SLASH p) of [] \<Rightarrow> [] | s # ss \<Rightarrow> last (s # ss))"

text \<open>The containment test both authorisation modules use.\<close>

definition isWithin :: "string \<Rightarrow> string \<Rightarrow> string \<Rightarrow> bool" where
  "isWithin cwd base_dir target =
     (let relative = path_relative cwd base_dir target
      in relative = [] \<or> (\<not> starts_with ''../'' relative \<and> relative \<noteq> ''..'' \<and> \<not> isAbsolute relative))"

section \<open>What containment means\<close>

definition clean_seg :: "string \<Rightarrow> bool" where
  "clean_seg s = (s \<noteq> [] \<and> s \<noteq> ''.'' \<and> s \<noteq> ''..'' \<and> SLASH \<notin> set s)"

lemma norm_segs_clean:
  "list_all clean_seg acc \<Longrightarrow> \<forall>s \<in> set ss. SLASH \<notin> set s \<Longrightarrow> list_all clean_seg (norm_segs acc ss)"
proof (induction acc ss rule: norm_segs.induct)
  case (2 acc s ss)
  then show ?case by (cases acc) (auto simp: clean_seg_def)
qed (simp add: list_all_iff)

lemma resolve_segs_clean: "list_all clean_seg (resolve_segs base p)"
  unfolding resolve_segs_def using split_on_no_sep by (intro norm_segs_clean) (simp, blast)

lemma norm_segs_id: "list_all clean_seg ss \<Longrightarrow> norm_segs acc ss = rev acc @ ss"
  by (induction ss arbitrary: acc) (auto simp: clean_seg_def)

lemma resolve_render: "list_all clean_seg ss \<Longrightarrow> resolve_segs base (render_path ss) = ss"
proof -
  assume c: "list_all clean_seg ss"
  have s: "split_on SLASH (join [SLASH] ss) = (if ss = [] then [[]] else ss)"
    using c by (cases "ss = []") (simp_all add: split_on_join list_all_iff clean_seg_def)
  show ?thesis
    using c by (simp add: resolve_segs_def render_path_def isAbsolute_def s norm_segs_id)
qed

lemma path_resolve_idem: "path_resolve b (path_resolve base p) = path_resolve base p"
  by (simp add: path_resolve_def resolve_render resolve_segs_clean)

lemma common_prefix_append: "common_prefix xs (xs @ ys) = length xs"
  by (induction xs) auto

lemma common_prefix_le: "common_prefix xs ys \<le> length xs"
  by (induction xs ys rule: common_prefix.induct) auto

lemma common_prefix_full: "common_prefix xs ys = length xs \<Longrightarrow> \<exists>zs. ys = xs @ zs"
  by (induction xs ys rule: common_prefix.induct) (auto split: if_splits)

lemma join_head: "join [SLASH] (s # r) = s \<or> (\<exists>t. join [SLASH] (s # r) = s @ SLASH # t)"
  by (cases r) auto

lemma join_clean_abs: "list_all clean_seg ss \<Longrightarrow> \<not> isAbsolute (join [SLASH] ss)"
proof (cases ss)
  case (Cons s r)
  assume "list_all clean_seg ss"
  then obtain c u where "s = c # u" "c \<noteq> SLASH" using Cons by (cases s) (auto simp: clean_seg_def)
  then show ?thesis using join_head [of s r] Cons by (auto simp: isAbsolute_def)
qed (simp add: isAbsolute_def)

lemma clean_not_dots:
  assumes "clean_seg s"
  shows "\<not> starts_with ''../'' s" "\<not> starts_with ''../'' (s @ SLASH # t)" "s @ SLASH # t \<noteq> ''..''"
proof -
  have s: "SLASH \<notin> set s" "s \<noteq> ''..''" "s \<noteq> []" using assms by (auto simp: clean_seg_def)
  then show "\<not> starts_with ''../'' s" by (auto simp: starts_with_iff)
  show "\<not> starts_with ''../'' (s @ SLASH # t)"
    using s by (cases s; cases "tl s"; cases "tl (tl s)") (auto simp: starts_with_def)
  show "s @ SLASH # t \<noteq> ''..''"
  proof
    assume e: "s @ SLASH # t = ''..''"
    have "SLASH \<in> set (s @ SLASH # t)" by simp
    then show False unfolding e by simp
  qed
qed

lemma join_clean_dots: "list_all clean_seg ss \<Longrightarrow> join [SLASH] ss \<noteq> ''..'' \<and> \<not> starts_with ''../'' (join [SLASH] ss)"
proof (cases ss)
  case (Cons s r)
  assume "list_all clean_seg ss"
  then have s: "clean_seg s" using Cons by simp
  then have "s \<noteq> ''..''" by (simp add: clean_seg_def)
  then show ?thesis using join_head [of s r] clean_not_dots [OF s] Cons by metis
qed simp

text \<open>
  The string test is exactly the containment of the segment lists: a target is within a base_dir when
  the base_dir's segments are a prefix of the target's.
\<close>

lemma isWithin_iff: "isWithin cwd base_dir target \<longleftrightarrow> (\<exists>r. resolve_segs cwd target = resolve_segs cwd base_dir @ r)"
proof -
  let ?f = "resolve_segs cwd base_dir" and ?t = "resolve_segs cwd target"
  let ?n = "common_prefix ?f ?t"
  show ?thesis
  proof (cases "?n = length ?f")
    case True
    then obtain r where r: "?t = ?f @ r" using common_prefix_full by blast
    have "list_all clean_seg r" using resolve_segs_clean [of cwd target] unfolding r by simp
    then have "isWithin cwd base_dir target"
      using join_clean_abs join_clean_dots
      by (simp add: isWithin_def path_relative_def relative_segs_def Let_def r common_prefix_append)
    with r show ?thesis by blast
  next
    case False
    then have "?n < length ?f" using common_prefix_le [of ?f ?t] by simp
    then obtain k where k: "length ?f - ?n = Suc k" by (metis Suc_diff_Suc)
    have rel: "path_relative cwd base_dir target = join [SLASH] (''..'' # (replicate k ''..'' @ drop ?n ?t))"
      by (simp add: path_relative_def relative_segs_def Let_def k)
    have "path_relative cwd base_dir target = ''..'' \<or> starts_with ''../'' (path_relative cwd base_dir target)"
      unfolding rel by (cases "replicate k ''..'' @ drop ?n ?t") auto
    moreover have "path_relative cwd base_dir target \<noteq> []"
      unfolding rel by (cases "replicate k ''..'' @ drop ?n ?t") auto
    ultimately have "\<not> isWithin cwd base_dir target" by (auto simp: isWithin_def Let_def)
    moreover have "\<nexists>r. ?t = ?f @ r" using False common_prefix_append by metis
    ultimately show ?thesis by blast
  qed
qed

lemma isWithin_refl: "isWithin cwd base_dir base_dir"
  by (simp add: isWithin_iff)

lemma isWithin_trans: "isWithin cwd a b \<Longrightarrow> isWithin cwd b c \<Longrightarrow> isWithin cwd a c"
  by (auto simp: isWithin_iff)

end
