(* ===== verification/OperationRisk.thy ===== *)
theory OperationRisk
  imports PatchParse PosixPath
begin

text \<open>
  The risk classification of a tool call (\<open>src/local/operation-risk.mjs\<close>): the static security
  contract (\<open>src/shared/tool-security-contract.json\<close>), the recognition of sensitive paths, and
  \<open>classifyOperation\<close>, which names the scopes a call needs.  Paths follow the POSIX rules of
  \<open>PosixPath\<close>.  The path resolvers the runtime passes in, the digest of a target and the hash of a
  secret field are arguments (\<open>risk_env\<close>); arguments have passed schema validation, so text fields
  are strings.
\<close>

section \<open>The security contract\<close>

text \<open>Name, family and whether the effect is \<open>read-only\<close>, in the contract's order.\<close>

definition STATIC_TOOL_SECURITY :: "(string \<times> string \<times> bool) list" where
  "STATIC_TOOL_SECURITY = [
     (''server_info'', ''automatic'', True), (''project_overview'', ''automatic'', True),
     (''session_bootstrap'', ''file-read'', True),
     (''resolve_task_capabilities'', ''file-read'', True),
     (''list_local_applications'', ''automatic'', True),
     (''open_local_application'', ''application-control'', False),
     (''inspect_local_application'', ''application-control'', True),
     (''operate_local_application'', ''application-control'', False),
     (''computer_observe'', ''computer-use'', False), (''computer_act'', ''computer-use'', False),
     (''browser_status'', ''automatic'', False),
     (''pair_browser_extension'', ''browser-session'', False),
     (''browser_list_tabs'', ''browser-session'', True),
     (''browser_manage_tabs'', ''browser-session'', False),
     (''browser_get_source'', ''browser-session'', True),
     (''browser_inspect_page'', ''browser-session'', True),
     (''browser_wait'', ''browser-session'', True),
     (''browser_action'', ''browser-session'', False),
     (''browser_fill_form'', ''browser-session'', False),
     (''browser_screenshot'', ''browser-session'', False),
     (''browser_upload_files'', ''browser-upload'', False),
     (''agent_context'', ''file-read'', True), (''list_local_skills'', ''file-read'', True),
     (''load_local_skill'', ''file-read'', True), (''list_local_commands'', ''file-read'', True),
     (''run_local_command'', ''shell'', False), (''list_roots'', ''automatic'', True),
     (''list_dir'', ''file-read'', True), (''list_files'', ''file-read'', True),
     (''read_file'', ''file-read'', True), (''view_image'', ''file-read'', True),
     (''write_file'', ''file-write'', False), (''edit_file'', ''file-write'', False),
     (''apply_patch'', ''patch'', False), (''search_text'', ''file-read'', True),
     (''git_status'', ''file-read'', True), (''git_diff'', ''file-read'', True),
     (''git_log'', ''file-read'', True), (''git_show'', ''file-read'', True),
     (''git_commit'', ''file-write'', False), (''run_process'', ''shell'', False),
     (''start_process'', ''shell'', False), (''read_process'', ''shell'', True),
     (''write_process'', ''shell'', False), (''kill_process'', ''shell'', False),
     (''diagnose_runtime'', ''automatic'', True),
     (''list_local_resources'', ''protected-resource-inventory'', True),
     (''generate_ssh_key_resource'', ''credential-operation'', False),
     (''stage_job'', ''persistent-job'', False), (''start_job'', ''persistent-job'', False),
     (''list_jobs'', ''persistent-job'', True), (''read_job'', ''persistent-job'', True),
     (''cancel_job'', ''persistent-job'', False), (''exec_command'', ''shell'', False)]"

definition tool_family :: "string \<Rightarrow> string option" where
  "tool_family name = map_option fst (map_of STATIC_TOOL_SECURITY name)"

definition in_family :: "string \<Rightarrow> string \<Rightarrow> bool" where
  "in_family f name = (tool_family name = Some f)"

definition operationMayHaveSideEffects :: "string \<Rightarrow> bool" where
  "operationMayHaveSideEffects name =
     (case map_of STATIC_TOOL_SECURITY name of Some (f, readOnly) \<Rightarrow> \<not> readOnly | None \<Rightarrow> True)"

definition OPERATION_APPROVAL_SCOPES :: "string list" where
  "OPERATION_APPROVAL_SCOPES = [''shell'', ''external-write'', ''sensitive-write'', ''external-read'',
     ''sensitive-read'', ''browser-session'', ''data-export'', ''persistent-job'', ''application-control'',
     ''credential-operation'', ''full'']"

definition normalizeScopes :: "string list \<Rightarrow> string list" where
  "normalizeScopes scopes = filter (\<lambda>s. s \<in> set scopes) OPERATION_APPROVAL_SCOPES"

section \<open>Sensitive paths\<close>

definition SENSITIVE_SEGMENTS :: "string list" where
  "SENSITIVE_SEGMENTS = [''.git'', ''.ssh'', ''.aws'', ''.azure'', ''.gnupg'', ''.kube'', ''.docker'', ''.npmrc'',
     ''.pypirc'', ''keychains'', ''cookies'', ''login data'', ''credentials'', ''secrets'']"

definition SENSITIVE_CONFIG_SEGMENTS :: "string list" where
  "SENSITIVE_CONFIG_SEGMENTS = [''gh'', ''gcloud'', ''azure'', ''1password'']"

definition in_product :: "string list \<Rightarrow> string list \<Rightarrow> string \<Rightarrow> bool" where
  "in_product stems exts base = list_ex (\<lambda>s. list_ex (\<lambda>e. base = s @ e) exts) stems"

definition PRIVATE_KEY_BASENAME :: "string \<Rightarrow> bool" where
  "PRIVATE_KEY_BASENAME base =
     in_product [''id_rsa'', ''id_dsa'', ''id_ecdsa'', ''id_ed25519'', ''identity''] [[], ''.pem'', ''.key''] base"

definition PRIVATE_KEY_EXTENSION :: "string \<Rightarrow> bool" where
  "PRIVATE_KEY_EXTENSION base = list_ex (\<lambda>e. ends_with e base)
     [''.pem'', ''.key'', ''.p12'', ''.pfx'', ''.p8'', ''.jks'', ''.keystore'']"

text \<open>\<open>.*\<close> does not cross a line terminator.\<close>

definition SENSITIVE_STATE_BASENAME :: "string \<Rightarrow> bool" where
  "SENSITIVE_STATE_BASENAME base = list_ex
     (\<lambda>e. ends_with e base \<and> LF \<notin> set (take (length base - length e) base) \<and> CR \<notin> set (take (length base - length e) base))
     [''.tfstate'', ''.tfstate.backup'']"

definition credential_stems :: "string list" where
  "credential_stems =
     [''netrc'', ''.netrc'', ''_netrc'', ''.curlrc''] @
     concat (map (\<lambda>a. concat (map (\<lambda>sep. concat (map (\<lambda>b. [a @ sep @ b, a @ sep @ b @ ''s''])
         [''token'', ''key'', ''secret''])) [[], ''-'', ''_'']))
       [''access'', ''refresh'', ''auth'', ''oauth'', ''api'', ''client'']) @
     [''serviceaccount'', ''service-account'', ''service_account''] @
     [''token'', ''tokens'', ''secret'', ''secrets'', ''credential'', ''credentials'']"

definition SENSITIVE_CREDENTIAL_BASENAME :: "string \<Rightarrow> bool" where
  "SENSITIVE_CREDENTIAL_BASENAME base = in_product credential_stems
     [[], ''.json'', ''.yaml'', ''.yml'', ''.toml'', ''.ini'', ''.conf'', ''.cfg'', ''.txt'', ''.db'', ''.sqlite''] base"

definition isSensitiveEnvironmentFile :: "string \<Rightarrow> bool" where
  "isSensitiveEnvironmentFile base =
     (if base = ''.env'' then True
      else if \<not> starts_with ''.env.'' base then False
      else base \<notin> set [''.env.example'', ''.env.sample'', ''.env.template'', ''.env.defaults''])"

text \<open>\<open>lower.split(/[\\/]+/)\<close>: a run of separators is one separator.\<close>

fun split_seps :: "bool \<Rightarrow> string \<Rightarrow> string list" where
  "split_seps after [] = [[]]"
| "split_seps after (c # s) =
     (if c = SLASH \<or> c = CHR 0x5C
      then (if after then split_seps True s else [] # split_seps True s)
      else (case split_seps False s of [] \<Rightarrow> [[c]] | w # ws \<Rightarrow> (c # w) # ws))"

fun adjacent :: "('a \<Rightarrow> 'a \<Rightarrow> bool) \<Rightarrow> 'a list \<Rightarrow> bool" where
  "adjacent P (x # y # xs) = (P x y \<or> adjacent P (y # xs))"
| "adjacent P _ = False"

definition isSensitivePath :: "string \<Rightarrow> string \<Rightarrow> bool" where
  "isSensitivePath cwd target =
     (let lower = to_lower (path_resolve cwd target); segments = split_seps False lower; base = basename lower
      in if list_ex (\<lambda>s. s \<in> set SENSITIVE_SEGMENTS) segments then True
         else if adjacent (\<lambda>s t. s = ''.config'' \<and> t \<in> set SENSITIVE_CONFIG_SEGMENTS) segments then True
         else if isSensitiveEnvironmentFile base then True
         else if PRIVATE_KEY_BASENAME base \<or> PRIVATE_KEY_EXTENSION base \<or> SENSITIVE_STATE_BASENAME base then True
         else SENSITIVE_CREDENTIAL_BASENAME base
           \<or> base \<in> set [''authorized_keys'', ''known_hosts.old'', ''id_ecdsa_sk'', ''id_ed25519_sk''])"

definition isSensitiveWritePath :: "string \<Rightarrow> string \<Rightarrow> bool" where
  "isSensitiveWritePath cwd target =
     (let lower = to_lower (path_resolve cwd target); base = basename lower
      in if isSensitivePath cwd lower then True
         else if base \<in> set [''.zshrc'', ''.bashrc'', ''.bash_profile'', ''.profile'', ''.gitconfig'', ''.netrc'',
            ''.curlrc'', ''authorized_keys'', ''sshd_config'', ''sudoers''] then True
         else contains ''/.git/hooks/'' lower \<or> ends_with ''/.git/config'' lower
           \<or> ends_with ''/.config/git/config'' lower \<or> contains ''/library/launchagents/'' lower
           \<or> contains ''/library/launchdaemons/'' lower \<or> contains ''/.config/autostart/'' lower
           \<or> contains ''/.config/systemd/user/'' lower \<or> contains ''/start menu/programs/startup/'' lower
           \<or> ends_with ''/.config/fish/config.fish'' lower)"

section \<open>Requirements\<close>

record requirement =
  req_scopes :: "string list"
  req_category :: string
  req_targetHash :: string
  req_targets :: "string list"

record risk_env =
  env_cwd :: string
  env_workspace :: string
  env_resolveExisting :: "(jsv \<Rightarrow> thrown + string) option"
  env_resolveWrite :: "(jsv \<Rightarrow> thrown + string) option"
  env_digest :: "string \<Rightarrow> jsv \<Rightarrow> string"
  env_sha :: "string \<Rightarrow> string"

definition arg_text :: "jsv \<Rightarrow> string" where
  "arg_text v = (case v of JStr s \<Rightarrow> s | _ \<Rightarrow> [])"

definition SECRET_FIELDS :: "string list" where
  "SECRET_FIELDS = [''content'', ''command'', ''stdin'', ''value'', ''old_text'', ''new_text'', ''patch'']"

definition redactTarget :: "(string \<Rightarrow> string) \<Rightarrow> jsv \<Rightarrow> jsv" where
  "redactTarget sha v = (case v of
     JObj ps \<Rightarrow> JObj (map (\<lambda>(k, w). if k \<in> set SECRET_FIELDS
        then (k, JStr (''<sha256:'' @ sha (arg_text w) @ ''>'')) else (k, w)) ps)
   | JArr xs \<Rightarrow> v
   | _ \<Rightarrow> JStr (arg_text v))"

fun uniq :: "'a list \<Rightarrow> 'a list" where
  "uniq [] = []"
| "uniq (x # xs) = x # filter (\<lambda>y. y \<noteq> x) (uniq xs)"

definition canonicalTargetPaths :: "string \<Rightarrow> jsv \<Rightarrow> string list" where
  "canonicalTargetPaths cwd target = uniq
     ((case js_get target ''path'' of JStr p \<Rightarrow> if isAbsolute p then [path_resolve cwd p] else [] | _ \<Rightarrow> [])
      @ concat (map (\<lambda>v. case v of JStr p \<Rightarrow> if isAbsolute p then [path_resolve cwd p] else [] | _ \<Rightarrow> [])
           (arr_elems (js_get target ''paths''))))"

text \<open>An empty scope list is a plain \<open>Error\<close>; every call below passes a known scope.\<close>

definition mk_requirement :: "risk_env \<Rightarrow> string list \<Rightarrow> string \<Rightarrow> string \<Rightarrow> jsv \<Rightarrow> thrown + requirement option" where
  "mk_requirement env scopes category tool target =
     (let normalized = normalizeScopes scopes
      in if normalized = [] then Inl (OtherError [])
         else Inr (Some \<lparr>req_scopes = normalized, req_category = category,
           req_targetHash = env_digest env tool (redactTarget (env_sha env) target),
           req_targets = canonicalTargetPaths (env_cwd env) target\<rparr>))"

definition pathWriteScopes :: "risk_env \<Rightarrow> string \<Rightarrow> string list" where
  "pathWriteScopes env target =
     (if \<not> isWithin (env_cwd env) (env_workspace env) target then [''external-write''] else [])
     @ (if isSensitiveWritePath (env_cwd env) target then [''sensitive-write''] else [])"

definition pathWriteCategory :: "string list \<Rightarrow> string \<Rightarrow> string" where
  "pathWriteCategory scopes subject =
     (if ''external-write'' \<in> set scopes \<and> ''sensitive-write'' \<in> set scopes
      then subject @ '' outside the selected workspace to a credential or persistence-sensitive path''
      else if ''sensitive-write'' \<in> set scopes then subject @ '' to a credential or persistence-sensitive path''
      else subject @ '' outside the selected workspace'')"

definition pathReadCategory :: "string list \<Rightarrow> string" where
  "pathReadCategory scopes =
     (if ''external-read'' \<in> set scopes \<and> ''sensitive-read'' \<in> set scopes
      then ''read outside the selected workspace from a credential-sensitive location''
      else if ''sensitive-read'' \<in> set scopes then ''read from a credential-sensitive location''
      else ''read outside the selected workspace'')"

definition canonicalPath :: "(jsv \<Rightarrow> thrown + string) option \<Rightarrow> risk_env \<Rightarrow> jsv \<Rightarrow> thrown + string" where
  "canonicalPath resolver env v = (case resolver of
     Some f \<Rightarrow> f v
   | None \<Rightarrow> Inr (path_resolve (path_resolve (env_cwd env) (env_workspace env)) (if truthy v then arg_text v else ''.'')))"

section \<open>Managed jobs that use protected resources\<close>

definition name_rest :: "char \<Rightarrow> bool" where
  "name_rest c = (is_lower_az c \<or> is_digit c \<or> c = CHR ''.'' \<or> c = CHR ''_'' \<or> c = CHR ''-'')"

text \<open>A match of \<open>{{resource:[a-z][a-z0-9._-]{0,63}}}\<close> at the start of the text.\<close>

definition token_here :: "string \<Rightarrow> bool" where
  "token_here s =
     (starts_with ''{{resource:'' s \<and>
      (let r = drop 11 s; n = takeWhile name_rest r
       in n \<noteq> [] \<and> is_lower_az (hd n) \<and> length n \<le> 64 \<and> starts_with ''}}'' (drop (length n) r)))"

fun count_tokens :: "string \<Rightarrow> nat" where
  "count_tokens [] = 0"
| "count_tokens (c # s) = (if token_here (c # s) then 1 else 0) + count_tokens s"

definition job_steps :: "jsv \<Rightarrow> jsv list" where
  "job_steps args = arr_elems (js_get args ''steps'') @ arr_elems (js_get args ''finally_steps'')"

definition step_uses_resource :: "jsv \<Rightarrow> bool" where
  "step_uses_resource step =
     (truthy (js_get step ''stdin_resource'')
      \<or> obj_entries (js_get step ''env_resources'') \<noteq> []
      \<or> list_ex (\<lambda>v. count_tokens (arg_text v) > 0) (arr_elems (js_get step ''argv'')))"

definition jobUsesProtectedResources :: "jsv \<Rightarrow> bool" where
  "jobUsesProtectedResources args = list_ex step_uses_resource (job_steps args)"

definition step_references :: "jsv \<Rightarrow> nat" where
  "step_references step =
     (if truthy (js_get step ''stdin_resource'') then 1 else 0)
     + length (obj_entries (js_get step ''env_resources''))
     + sum_list (map (\<lambda>v. count_tokens (arg_text v)) (arr_elems (js_get step ''argv'')))"

definition protectedJobProjection :: "jsv \<Rightarrow> jsv" where
  "protectedJobProjection args = JObj
     [(''step_count'', JNum (Fin (of_nat (length (job_steps args))))),
      (''resource_reference_count'', JNum (Fin (of_nat (sum_list (map step_references (job_steps args))))))]"

section \<open>Classification\<close>

definition pick :: "jsv \<Rightarrow> string list \<Rightarrow> jsv" where
  "pick args ks = JObj (map (\<lambda>k. (k, js_get args k)) ks)"

definition sensitive_field :: "jsv \<Rightarrow> bool" where
  "sensitive_field f = (truthy (js_get f ''value_resource'') \<or> js_get f ''sensitive'' = JBool True)"

definition classify_computer_use :: "risk_env \<Rightarrow> string \<Rightarrow> jsv \<Rightarrow> thrown + requirement option" where
  "classify_computer_use env name args =
     (let surface = arg_text (js_get args ''surface'');
          base = (if surface = ''browser'' then [''browser-session'']
                  else if surface = ''application'' then [''application-control''] else []);
          scopes = (if name = ''computer_act'' \<and> truthy (js_get args ''value_resource'') then base @ [''data-export''] else base)
      in if base = [] then Inr None
         else mk_requirement env scopes
           (if surface = ''browser'' then ''verified computer use in the existing browser profile''
            else ''verified desktop computer use'') name
           (JObj [(''surface'', JStr surface), (''snapshot_id'', js_get args ''snapshot_id''),
              (''action'', js_get args ''action''), (''value_resource'', js_get args ''value_resource'')]))"

definition classify_write :: "risk_env \<Rightarrow> string \<Rightarrow> jsv \<Rightarrow> thrown + requirement option" where
  "classify_write env name args =
     res_bind (canonicalPath (env_resolveWrite env) env (js_get args ''path'')) (\<lambda>target.
       let scopes = pathWriteScopes env target
       in if scopes \<noteq> [] then mk_requirement env scopes (pathWriteCategory scopes ''write'') name
            (JObj [(''path'', JStr target)])
          else Inr None)"

definition lift_bridge :: "bridge_error + 'a \<Rightarrow> thrown + 'a" where
  "lift_bridge r = (case r of Inl e \<Rightarrow> Inl (Bridge e) | Inr x \<Rightarrow> Inr x)"

definition classify_patch :: "risk_env \<Rightarrow> string \<Rightarrow> jsv \<Rightarrow> thrown + requirement option" where
  "classify_patch env name args =
     res_bind (lift_bridge (parsePatchEnvelope (arg_text (js_get args ''patch'')))) (\<lambda>ops.
       res_bind (res_map (\<lambda>p. canonicalPath (env_resolveWrite env) env (JStr p)) (concat (map op_paths ops))) (\<lambda>targets.
         let scopes = normalizeScopes (concat (map (pathWriteScopes env) targets))
         in if scopes \<noteq> [] then mk_requirement env scopes (pathWriteCategory scopes ''patch'') name
              (JObj [(''paths'', JArr (map JStr targets))])
            else Inr None))"

definition classify_read :: "risk_env \<Rightarrow> string \<Rightarrow> jsv \<Rightarrow> thrown + requirement option" where
  "classify_read env name args =
     res_bind (canonicalPath (env_resolveExisting env) env (js_get args ''path'')) (\<lambda>target.
       let scopes = (if \<not> isWithin (env_cwd env) (env_workspace env) target then [''external-read''] else [])
                    @ (if isSensitivePath (env_cwd env) target then [''sensitive-read''] else [])
       in if scopes \<noteq> [] then mk_requirement env scopes (pathReadCategory scopes) name (JObj [(''path'', JStr target)])
          else Inr None)"

text \<open>The file families: a write or patch without a scope falls through to the next test.\<close>

definition classify_files :: "risk_env \<Rightarrow> string \<Rightarrow> jsv \<Rightarrow> thrown + requirement option" where
  "classify_files env name args =
     res_bind (if in_family ''file-write'' name then classify_write env name args else Inr None) (\<lambda>w.
       if w \<noteq> None then Inr w
       else res_bind (if in_family ''patch'' name then classify_patch env name args else Inr None) (\<lambda>p.
         if p \<noteq> None then Inr p
         else if in_family ''file-read'' name \<and> js_get args ''path'' \<noteq> JUndef then classify_read env name args
         else Inr None))"

definition classify_browser :: "risk_env \<Rightarrow> string \<Rightarrow> jsv \<Rightarrow> thrown + requirement option" where
  "classify_browser env name args =
     (if in_family ''browser-upload'' name
        then mk_requirement env [''browser-session'', ''data-export''] ''existing browser profile file upload'' name args
      else if name = ''browser_action'' \<and> truthy (js_get args ''value_resource'')
        then mk_requirement env [''browser-session'', ''data-export'']
          ''existing browser profile input from protected local data'' name
          (pick args [''action'', ''tab_id'', ''value_resource''])
      else if name = ''browser_fill_form'' \<and> list_ex sensitive_field (arr_elems (js_get args ''fields''))
        then mk_requirement env [''browser-session'', ''data-export'']
          ''existing browser profile form containing protected local data'' name
          (JObj [(''tab_id'', js_get args ''tab_id''),
             (''resource_fields'', JNum (Fin (of_nat (length (filter sensitive_field (arr_elems (js_get args ''fields'')))))) ),
             (''submit'', JBool (js_get args ''submit'' = JBool True))])
      else if in_family ''browser-session'' name
        then mk_requirement env [''browser-session''] ''access to the existing browser profile'' name
          (JObj [(''action'', js_get args ''action''), (''tab_id'', js_get args ''tab_id''),
             (''frame_id'', js_get args ''frame_id''), (''submit'', JBool (js_get args ''submit'' = JBool True))])
      else classify_files env name args)"

definition classifyOperation :: "risk_env \<Rightarrow> string \<Rightarrow> jsv \<Rightarrow> thrown + requirement option" where
  "classifyOperation env name args =
     (if map_of STATIC_TOOL_SECURITY name = None
        then Inl (Bridge (berr_reason ''invalid_request'' ''unclassified_tool''))
      else if in_family ''protected-resource-inventory'' name
        then mk_requirement env [''sensitive-read''] ''protected local resource inventory'' name (JObj [])
      else if in_family ''shell'' name
        then mk_requirement env [''shell''] ''remote shell or process control'' name args
      else if (name = ''stage_job'' \<or> name = ''start_job'') \<and> jobUsesProtectedResources args
        then mk_requirement env [''persistent-job'', ''sensitive-read'']
          ''managed job using protected local resources'' name (protectedJobProjection args)
      else if in_family ''persistent-job'' name
        then mk_requirement env [''persistent-job''] ''persistent managed job'' name args
      else if in_family ''computer-use'' name then classify_computer_use env name args
      else if name = ''operate_local_application'' \<and> truthy (js_get args ''value_resource'')
        then mk_requirement env [''application-control'', ''data-export'']
          ''desktop application control using protected local data'' name
          (pick args [''application'', ''action'', ''value_resource''])
      else if in_family ''application-control'' name
        then mk_requirement env [''application-control''] ''desktop application control'' name args
      else if in_family ''credential-operation'' name
        then mk_requirement env [''credential-operation''] ''credential or key operation'' name args
      else classify_browser env name args)"

section \<open>Lemmas\<close>

lemma normalizeScopes_set: "set (normalizeScopes ss) = set ss \<inter> set OPERATION_APPROVAL_SCOPES"
  by (auto simp: normalizeScopes_def)

lemma normalizeScopes_idem: "normalizeScopes (normalizeScopes ss) = normalizeScopes ss"
  unfolding normalizeScopes_def by (rule filter_cong) auto

lemma mk_requirement_Some:
  "mk_requirement env scopes category tool target = Inr r \<Longrightarrow> \<exists>q. r = Some q \<and> req_scopes q = normalizeScopes scopes
     \<and> req_targets q = canonicalTargetPaths (env_cwd env) target \<and> req_scopes q \<noteq> []"
  by (auto simp: mk_requirement_def Let_def split: if_splits)

lemma uniq_set [simp]: "set (uniq xs) = set xs"
  by (induction xs) auto

lemma uniq_distinct: "distinct (uniq xs)"
  by (induction xs) auto

text \<open>Every requirement names at least one scope, in canonical order, and only known scopes.\<close>

definition requirement_ok :: "requirement \<Rightarrow> bool" where
  "requirement_ok q = (req_scopes q \<noteq> [] \<and> normalizeScopes (req_scopes q) = req_scopes q)"

lemma mk_requirement_ok: "mk_requirement env scopes category tool target = Inr (Some q) \<Longrightarrow> requirement_ok q"
  by (auto simp: requirement_ok_def normalizeScopes_idem dest!: mk_requirement_Some)

lemma classify_files_ok: "classify_files env name args = Inr (Some q) \<Longrightarrow> requirement_ok q"
  by (auto simp: classify_files_def classify_write_def classify_patch_def classify_read_def res_bind_Inr_iff Let_def
      split: if_splits intro: mk_requirement_ok)

lemma classify_browser_ok: "classify_browser env name args = Inr (Some q) \<Longrightarrow> requirement_ok q"
  unfolding classify_browser_def
  by (auto split: if_splits intro: mk_requirement_ok classify_files_ok)

lemma classify_ok: "classifyOperation env name args = Inr (Some q) \<Longrightarrow> requirement_ok q"
  unfolding classifyOperation_def
  by (auto simp: classify_computer_use_def Let_def split: if_splits intro: mk_requirement_ok classify_browser_ok)

text \<open>An unknown tool is rejected: classification never treats it as harmless.\<close>

lemma classify_unknown: "map_of STATIC_TOOL_SECURITY name = None \<Longrightarrow> \<not> is_ok (classifyOperation env name args)"
  by (simp add: classifyOperation_def)

lemma classify_shell:
  "in_family ''shell'' name \<Longrightarrow> \<exists>q. classifyOperation env name args = Inr (Some q) \<and> req_scopes q = [''shell'']"
proof -
  assume f: "in_family ''shell'' name"
  then have "map_of STATIC_TOOL_SECURITY name \<noteq> None" "\<not> in_family ''protected-resource-inventory'' name"
    by (auto simp: in_family_def tool_family_def)
  with f show ?thesis
    by (simp add: classifyOperation_def mk_requirement_def normalizeScopes_def OPERATION_APPROVAL_SCOPES_def)
qed

text \<open>
  A file write that needs no scope is confined: the resolved target is inside the workspace and is no
  credential or persistence path.
\<close>

lemma classify_write_None:
  assumes "classify_write env name args = Inr None" "env_resolveWrite env = Some f" "f (js_get args ''path'') = Inr t"
  shows "isWithin (env_cwd env) (env_workspace env) t \<and> \<not> isSensitiveWritePath (env_cwd env) t"
proof -
  have "pathWriteScopes env t = []"
    using assms mk_requirement_Some
    by (fastforce simp: classify_write_def canonicalPath_def Let_def split: if_splits)
  then show ?thesis by (auto simp: pathWriteScopes_def split: if_splits)
qed

section \<open>Scopes by family\<close>

lemma family_not_name:
  "in_family f name \<Longrightarrow> tool_family n \<noteq> Some f \<Longrightarrow> name \<noteq> n"
  by (auto simp: in_family_def)

lemma in_family_unique: "in_family f name \<Longrightarrow> in_family g name \<Longrightarrow> f = g"
  by (simp add: in_family_def)

lemma special_families:
  "tool_family ''stage_job'' = Some ''persistent-job''" "tool_family ''start_job'' = Some ''persistent-job''"
  "tool_family ''operate_local_application'' = Some ''application-control''"
  "tool_family ''browser_action'' = Some ''browser-session''" "tool_family ''browser_fill_form'' = Some ''browser-session''"
  by code_simp+

definition file_family :: "string \<Rightarrow> bool" where
  "file_family name = (in_family ''file-write'' name \<or> in_family ''patch'' name \<or> in_family ''file-read'' name)"

lemma classify_file_family:
  assumes "file_family name"
  shows "classifyOperation env name args = classify_files env name args"
proof -
  obtain f where f: "in_family f name" "f \<in> {''file-write'', ''patch'', ''file-read''}"
    using assms by (auto simp: file_family_def)
  then obtain u where k: "map_of STATIC_TOOL_SECURITY name = Some u" by (auto simp: in_family_def tool_family_def)
  have n: "name \<notin> {''stage_job'', ''start_job'', ''operate_local_application'', ''browser_action'', ''browser_fill_form''}"
    using f special_families by (auto simp: in_family_def)
  have o': "\<not> in_family g name" if "g \<notin> {''file-write'', ''patch'', ''file-read''}" for g
    using f that in_family_unique by blast
  show ?thesis
    using k n by (simp add: classifyOperation_def classify_browser_def o')
qed

text \<open>The paths a file operation names, as the resolvers of the runtime return them.\<close>

definition names_target :: "risk_env \<Rightarrow> string \<Rightarrow> jsv \<Rightarrow> string \<Rightarrow> bool" where
  "names_target env tool args t =
     ((in_family ''file-read'' tool \<and> js_get args ''path'' \<noteq> JUndef
         \<and> canonicalPath (env_resolveExisting env) env (js_get args ''path'') = Inr t)
      \<or> (in_family ''file-write'' tool \<and> canonicalPath (env_resolveWrite env) env (js_get args ''path'') = Inr t)
      \<or> (in_family ''patch'' tool \<and> (case parsePatchEnvelope (arg_text (js_get args ''patch'')) of
           Inl e \<Rightarrow> False
         | Inr ops \<Rightarrow> list_ex (\<lambda>p. canonicalPath (env_resolveWrite env) env (JStr p) = Inr t) (concat (map op_paths ops)))))"

definition sensitive_for :: "risk_env \<Rightarrow> string \<Rightarrow> string \<Rightarrow> bool" where
  "sensitive_for env tool t =
     (if in_family ''file-read'' tool then isSensitivePath (env_cwd env) t else isSensitiveWritePath (env_cwd env) t)"

text \<open>Either every path the operation names is among the targets of its requirement, or it needs none and is ordinary.\<close>

definition target_covered :: "risk_env \<Rightarrow> string \<Rightarrow> string \<Rightarrow> requirement option \<Rightarrow> bool" where
  "target_covered env tool t req = (case req of
     None \<Rightarrow> isWithin (env_cwd env) (env_workspace env) t \<and> \<not> sensitive_for env tool t
   | Some q \<Rightarrow> path_resolve (env_cwd env) t \<in> set (req_targets q))"

lemma path_target: "isAbsolute t \<Longrightarrow> path_resolve cwd t \<in> set (canonicalTargetPaths cwd (JObj [(''path'', JStr t)]))"
  "isAbsolute t \<Longrightarrow> t \<in> set ts \<Longrightarrow> path_resolve cwd t \<in> set (canonicalTargetPaths cwd (JObj [(''paths'', JArr (map JStr ts))]))"
  by (auto simp: canonicalTargetPaths_def intro!: bexI [of _ t])

lemma res_map_mem: "res_map f xs = Inr ys \<Longrightarrow> x \<in> set xs \<Longrightarrow> f x = Inr y \<Longrightarrow> y \<in> set ys"
  by (induction xs arbitrary: ys) (auto simp: res_bind_Inr_iff)

lemma classify_targets:
  assumes "classifyOperation env tool args = Inr req" "names_target env tool args t" "isAbsolute t"
  shows "target_covered env tool t req"
proof -
  have f: "file_family tool" using assms(2) by (auto simp: names_target_def file_family_def)
  note c = assms(1) [unfolded classify_file_family [OF f] classify_files_def]
  from assms(2) consider (reading) "in_family ''file-read'' tool" "js_get args ''path'' \<noteq> JUndef"
        "canonicalPath (env_resolveExisting env) env (js_get args ''path'') = Inr t"
    | (writing) "in_family ''file-write'' tool" "canonicalPath (env_resolveWrite env) env (js_get args ''path'') = Inr t"
    | (patching) ops p where "in_family ''patch'' tool" "parsePatchEnvelope (arg_text (js_get args ''patch'')) = Inr ops"
        "p \<in> set (concat (map op_paths ops))" "canonicalPath (env_resolveWrite env) env (JStr p) = Inr t"
    unfolding names_target_def list_ex_iff by (auto split: sum.splits)
  then show ?thesis
  proof cases
    case reading
    have n: "\<not> in_family ''file-write'' tool" "\<not> in_family ''patch'' tool" using reading(1) in_family_unique by force+
    have "classify_read env tool args = Inr req" using c reading n by simp
    then show ?thesis using reading(3) path_target(1) [OF assms(3)]
      by (auto simp: classify_read_def Let_def target_covered_def sensitive_for_def reading(1) split: if_splits dest!: mk_requirement_Some)
  next
    case writing
    have n: "\<not> in_family ''file-read'' tool" "\<not> in_family ''patch'' tool" using writing(1) in_family_unique by force+
    have "classify_write env tool args = Inr req" using c writing(1) n by (cases "classify_write env tool args") (auto split: if_splits)
    then show ?thesis using writing(2) path_target(1) [OF assms(3)]
      by (auto simp: classify_write_def pathWriteScopes_def Let_def target_covered_def sensitive_for_def n split: if_splits dest!: mk_requirement_Some)
  next
    case (patching ops p)
    have n: "\<not> in_family ''file-read'' tool" "\<not> in_family ''file-write'' tool" using patching(1) in_family_unique by force+
    have "classify_patch env tool args = Inr req" using c patching(1) n by (cases "classify_patch env tool args") (auto split: if_splits)
    then obtain ts where ts: "res_map (\<lambda>p. canonicalPath (env_resolveWrite env) env (JStr p)) (concat (map op_paths ops)) = Inr ts"
      and q: "(let scopes = normalizeScopes (concat (map (pathWriteScopes env) ts))
         in if scopes \<noteq> [] then mk_requirement env scopes (pathWriteCategory scopes ''patch'') tool (JObj [(''paths'', JArr (map JStr ts))])
            else Inr None) = Inr req"
      using patching(2) by (auto simp: classify_patch_def lift_bridge_def res_bind_Inr_iff)
    have t: "t \<in> set ts" using res_map_mem [OF ts patching(3)] patching(4) by simp
    have "pathWriteScopes env t = []" if "normalizeScopes (concat (map (pathWriteScopes env) ts)) = []"
    proof -
      have "set (pathWriteScopes env t) \<subseteq> set (concat (map (pathWriteScopes env) ts)) \<inter> set OPERATION_APPROVAL_SCOPES"
        using t by (auto simp: pathWriteScopes_def OPERATION_APPROVAL_SCOPES_def)
      then have "set (pathWriteScopes env t) \<subseteq> {}" unfolding normalizeScopes_set [symmetric] that by simp
      then show ?thesis by simp
    qed
    then show ?thesis using q path_target(2) [OF assms(3) t, of "env_cwd env"]
      by (auto simp: Let_def target_covered_def sensitive_for_def n pathWriteScopes_def split: if_splits dest!: mk_requirement_Some)
  qed
qed

lemma classify_shell_scope:
  "classifyOperation env name args = Inr (Some q) \<Longrightarrow> ''shell'' \<in> set (req_scopes q) \<Longrightarrow> in_family ''shell'' name"
proof -
  have mk: "mk_requirement env ss c t tg = Inr (Some q) \<Longrightarrow> ''shell'' \<notin> set ss \<Longrightarrow> ''shell'' \<notin> set (req_scopes q)" for ss c t tg
    using mk_requirement_Some [of env ss c t tg "Some q"] by (auto simp: normalizeScopes_set)
  have w: "''shell'' \<notin> set (pathWriteScopes env t)" for t by (simp add: pathWriteScopes_def)
  have f: "classify_files env name args = Inr (Some q) \<Longrightarrow> ''shell'' \<notin> set (req_scopes q)"
    using w by (auto simp: classify_files_def classify_write_def classify_patch_def classify_read_def res_bind_Inr_iff
        Let_def normalizeScopes_set split: if_splits dest!: mk)
  have b: "classify_browser env name args = Inr (Some q) \<Longrightarrow> ''shell'' \<notin> set (req_scopes q)"
    unfolding classify_browser_def by (auto split: if_splits dest: mk f)
  have c: "classify_computer_use env name args = Inr (Some q) \<Longrightarrow> ''shell'' \<notin> set (req_scopes q)"
    unfolding classify_computer_use_def Let_def by (auto split: if_splits dest!: mk)
  assume c0: "classifyOperation env name args = Inr (Some q)" and sh: "''shell'' \<in> set (req_scopes q)"
  show ?thesis
  proof (rule ccontr)
    assume "\<not> in_family ''shell'' name"
    with c0 have "''shell'' \<notin> set (req_scopes q)"
      unfolding classifyOperation_def by (auto split: if_splits dest: b c mk)
    with sh show False by contradiction
  qed
qed

end
