(* ===== verification/OperationAuthorization.thy ===== *)
theory OperationAuthorization
  imports Authority OperationRisk
begin

text \<open>
  The authorisation of one operation (\<open>src/local/operation-authorization.mjs\<close>) and the authority stage
  of the tool pipeline (\<open>src/local/tool-executor.mjs\<close>).  The file system enters as \<open>realpath\<close>, which is
  \<open>None\<close> where \<open>realpathSync\<close> throws; the keyed fingerprint of a target is an argument.
\<close>

section \<open>Protected roots\<close>

definition dirname_segs :: "string list \<Rightarrow> string list" where
  "dirname_segs segs = butlast segs"

text \<open>
  \<open>canonicalizePathForPolicy\<close>: the nearest existing ancestor is canonicalised and the missing suffix
  appended; where not even the file-system root resolves, the lexical path is returned.
\<close>

function canonicalize_loop :: "(string \<Rightarrow> string option) \<Rightarrow> string \<Rightarrow> string list \<Rightarrow> string list \<Rightarrow> string list \<Rightarrow> string list" where
  "canonicalize_loop realpath cwd original candidate suffix =
     (case realpath (render_path candidate) of
        Some c \<Rightarrow> if suffix \<noteq> [] then norm_segs [] (resolve_segs cwd c @ suffix) else resolve_segs cwd c
      | None \<Rightarrow>
          if candidate = [] then original
          else canonicalize_loop realpath cwd original (dirname_segs candidate) (last candidate # suffix))"
  by pat_completeness auto
termination
  by (relation "measure (\<lambda>(r, w, orig, c, s). length c)") (auto simp: dirname_segs_def)

declare canonicalize_loop.simps [simp del]

definition canonicalizePathForPolicy :: "(string \<Rightarrow> string option) \<Rightarrow> string \<Rightarrow> string \<Rightarrow> string" where
  "canonicalizePathForPolicy realpath cwd p =
     render_path (canonicalize_loop realpath cwd (resolve_segs cwd p) (resolve_segs cwd p) [])"

record authorizer =
  az_env :: risk_env
  az_realpath :: "string \<Rightarrow> string option"
  az_protectedRoots :: "string list"
  az_fingerprint :: "string \<Rightarrow> string"

text \<open>The constructor keeps the non-empty roots in canonical form.\<close>

definition mk_authorizer :: "risk_env \<Rightarrow> (string \<Rightarrow> string option) \<Rightarrow> string list \<Rightarrow> (string \<Rightarrow> string) \<Rightarrow> authorizer" where
  "mk_authorizer env realpath roots fp =
     \<lparr>az_env = env\<lparr>env_workspace := path_resolve (env_cwd env) (env_workspace env)\<rparr>, az_realpath = realpath,
      az_protectedRoots = map (canonicalizePathForPolicy realpath (env_cwd env)) (filter (\<lambda>r. r \<noteq> []) roots),
      az_fingerprint = fp\<rparr>"

definition isProtectedPath :: "authorizer \<Rightarrow> string \<Rightarrow> bool" where
  "isProtectedPath az target =
     (let c = canonicalizePathForPolicy (az_realpath az) (env_cwd (az_env az)) target
      in list_ex (\<lambda>r. isWithin (env_cwd (az_env az)) r c) (az_protectedRoots az))"

section \<open>Decisions\<close>

record decision =
  d_allowed :: bool
  d_source :: string
  d_category :: string
  d_scopes :: "string list"
  d_targetHash :: string

definition operationDecision :: "requirement option \<Rightarrow> bool \<Rightarrow> (string \<Rightarrow> string) \<Rightarrow> bool \<Rightarrow> decision" where
  "operationDecision req own fp allowed =
     \<lparr>d_allowed = allowed,
      d_source = (if own then ''trusted-owner'' else ''role-ceiling''),
      d_category = (case req of Some q \<Rightarrow> if req_category q \<noteq> [] then req_category q else ''ordinary operation''
                    | None \<Rightarrow> ''ordinary operation''),
      d_scopes = (case req of Some q \<Rightarrow> normalizeScopes (req_scopes q) | None \<Rightarrow> []),
      d_targetHash = (case req of Some q \<Rightarrow> fp (req_targetHash q) | None \<Rightarrow> [])\<rparr>"

definition deny :: "string \<Rightarrow> string \<Rightarrow> string \<Rightarrow> bridge_error" where
  "deny reason tool r = berr_with ''authorization_denied'' reason [(''tool'', JStr tool), (''role'', JStr r)]"

definition assertRequirementWithinAuthority ::
  "requirement \<Rightarrow> policy \<Rightarrow> bool \<Rightarrow> string \<Rightarrow> string \<Rightarrow> bridge_error + unit" where
  "assertRequirementWithinAuthority q p own r tool =
     (let scopes = normalizeScopes (req_scopes q); has = (\<lambda>s. s \<in> set scopes) in
      if has ''full'' \<and> \<not> own then Inl (berr ''authorization_denied'')
      else if (has ''external-read'' \<or> has ''external-write'') \<and> \<not> unrestrictedPaths p
        then Inl (deny ''account_role_path_ceiling'' tool r)
      else if (has ''sensitive-read'' \<or> has ''sensitive-write'' \<or> has ''credential-operation'') \<and> \<not> own
        then Inl (deny ''account_role_sensitive_ceiling'' tool r)
      else if has ''shell'' \<and> \<not> allowExec p then Inl (deny ''account_role_execution_ceiling'' tool r)
      else if (has ''browser-session'' \<or> has ''application-control'' \<or> has ''data-export'') \<and> \<not> own
        then Inl (deny ''account_role_interactive_ceiling'' tool r)
      else Inr ())"

text \<open>
  \<open>authorize\<close> also writes its decision into the context (\<open>operationAuthorization\<close>); the model returns
  the last value written next to the result.
\<close>

definition local_decision :: decision where
  "local_decision = \<lparr>d_allowed = True, d_source = ''local'', d_category = ''local operation'', d_scopes = [], d_targetHash = []\<rparr>"

definition authorize ::
  "authorizer \<Rightarrow> string option \<Rightarrow> authority option \<Rightarrow> string \<Rightarrow> jsv \<Rightarrow> (thrown + decision) \<times> decision option" where
  "authorize az org auth tool args =
     (if org \<noteq> Some ''relay'' then (Inr local_decision, None)
      else (case auth of
          None \<Rightarrow> (Inl (Bridge (berr ''authorization_denied'')), None)
        | Some a \<Rightarrow>
          (case auth_principal a of
             PAccount p \<Rightarrow>
               if \<not> owner a \<and> tool \<in> set ownerOnlyTools
               then (Inl (Bridge (deny ''account_role_owner_only_tool_ceiling'' tool (role p))),
                     Some \<lparr>d_allowed = False, d_source = ''role-ceiling'', d_category = ''owner-only tool'',
                           d_scopes = [], d_targetHash = []\<rparr>)
               else
                 (case classifyOperation (az_env az) tool args of
                    Inl e \<Rightarrow> (Inl e, None)
                  | Inr req \<Rightarrow>
                     (let pending = operationDecision req (owner a) (az_fingerprint az) False;
                          granted = operationDecision req (owner a) (az_fingerprint az) True
                      in case req of
                           None \<Rightarrow> (Inr granted, Some pending)
                         | Some q \<Rightarrow>
                             if list_ex (isProtectedPath az) (req_targets q)
                             then (Inl (Bridge (berr_with ''authorization_denied'' ''control_plane_state_protected''
                                     [(''tool'', JStr tool)])), Some pending)
                             else (case assertRequirementWithinAuthority q (effectivePolicy a) (owner a) (role p) tool of
                                 Inl e \<Rightarrow> (Inl (Bridge e), Some pending)
                               | Inr _ \<Rightarrow> (Inr granted, Some pending))))
           | _ \<Rightarrow> (Inl (Bridge (berr ''authorization_denied'')), None))))"

section \<open>The authority stage of the pipeline\<close>

text \<open>
  \<open>authorityMiddleware\<close>: the daemon's policy gate first, then, for a relayed call, the account gate, then
  the authority that the rest of the pipeline reads.  A missing role is a plain \<open>Error\<close>.
\<close>

definition authority_stage :: "policy_gate \<Rightarrow> string \<Rightarrow> string option \<Rightarrow> jsv \<Rightarrow> thrown + authority" where
  "authority_stage gate tool org authorization =
     res_bind (lift_bridge (gate_assert gate tool)) (\<lambda>_.
       if org = Some ''relay'' then
         (if \<not> truthy (js_get authorization ''role'') then Inl (OtherError [])
          else res_bind (lift_bridge (access_assert (js_get authorization ''role'') tool)) (\<lambda>_.
            lift_bridge (access_authority authorization (policy_js (gate_policy gate)) ''relay'')))
       else lift_bridge (access_authority (JObj []) (policy_js (gate_policy gate)) ''local''))"

text \<open>Authority, then the validation of the arguments (a parameter here), then the authorisation of the operation.\<close>

definition admit_call ::
  "authorizer \<Rightarrow> policy_gate \<Rightarrow> (string \<Rightarrow> jsv \<Rightarrow> thrown + unit) \<Rightarrow> string \<Rightarrow> string option \<Rightarrow> jsv \<Rightarrow> jsv \<Rightarrow> thrown + authority \<times> decision option" where
  "admit_call az gate validate tool org authorization args =
     res_bind (authority_stage gate tool org authorization) (\<lambda>a.
       res_bind (validate tool args) (\<lambda>_.
         if org = Some ''relay''
         then res_bind (fst (authorize az org (Some a) tool args)) (\<lambda>d. Inr (a, Some d))
         else Inr (a, None)))"

section \<open>Lemmas\<close>

lemma lift_bridge_Inr [simp]: "lift_bridge r = Inr x \<longleftrightarrow> r = Inr x"
  by (cases r) (simp_all add: lift_bridge_def)

lemma within_authority:
  assumes "assertRequirementWithinAuthority q p own r tool = Inr ()" "requirement_ok q"
  shows "(\<not> unrestrictedPaths p \<longrightarrow> set (req_scopes q) \<inter> {''external-read'', ''external-write''} = {})
       \<and> (\<not> own \<longrightarrow> set (req_scopes q) \<inter> {''full'', ''sensitive-read'', ''sensitive-write'', ''credential-operation'',
             ''browser-session'', ''application-control'', ''data-export''} = {})
       \<and> (\<not> allowExec p \<longrightarrow> ''shell'' \<notin> set (req_scopes q))"
proof -
  have n: "normalizeScopes (req_scopes q) = req_scopes q" using assms(2) by (simp add: requirement_ok_def)
  show ?thesis
    using assms(1) unfolding assertRequirementWithinAuthority_def Let_def n by (auto split: if_splits)
qed

text \<open>The effect of an accepted relayed authorisation.\<close>

lemma authorize_relay_ok:
  assumes "fst (authorize az (Some ''relay'') (Some a) tool args) = Inr d"
  obtains p req where "auth_principal a = PAccount p" "owner a \<or> tool \<notin> set ownerOnlyTools"
    "classifyOperation (az_env az) tool args = Inr req"
    "d = operationDecision req (owner a) (az_fingerprint az) True"
    "\<And>q. req = Some q \<Longrightarrow> \<not> list_ex (isProtectedPath az) (req_targets q)
        \<and> assertRequirementWithinAuthority q (effectivePolicy a) (owner a) (role p) tool = Inr ()"
proof (cases "auth_principal a")
  case (PAccount p)
  have t: "owner a \<or> tool \<notin> set ownerOnlyTools"
    using assms PAccount by (auto simp: authorize_def split: if_splits)
  then have g: "\<not> (\<not> owner a \<and> tool \<in> set ownerOnlyTools)" by simp
  obtain req where c: "classifyOperation (az_env az) tool args = Inr req"
    using assms PAccount g by (cases "classifyOperation (az_env az) tool args") (auto simp: authorize_def)
  show thesis
  proof (cases req)
    case None
    then show thesis
      using that [OF PAccount t c] assms PAccount g c by (simp add: authorize_def Let_def)
  next
    case (Some q)
    have np: "\<not> list_ex (isProtectedPath az) (req_targets q)"
      using assms PAccount g c Some by (auto simp: authorize_def Let_def split: if_splits)
    obtain u where u: "assertRequirementWithinAuthority q (effectivePolicy a) (owner a) (role p) tool = Inr u"
      using assms PAccount g c Some np
      by (cases "assertRequirementWithinAuthority q (effectivePolicy a) (owner a) (role p) tool")
        (auto simp: authorize_def Let_def)
    show thesis
      using that [OF PAccount t c] assms PAccount g c Some np u by (simp add: authorize_def Let_def)
  qed
qed (use assms in \<open>simp_all add: authorize_def\<close>)

lemma authorize_no_authority: "fst (authorize az (Some ''relay'') None tool args) = Inl (Bridge (berr ''authorization_denied''))"
  by (simp add: authorize_def)

text \<open>What the authority stage has established for a relayed call.\<close>

lemma js_get_with_field [simp]: "js_get (with_field k w v) j = (if j = k then w else js_get v j)"
  by (auto simp: with_field_def js_get_def map_of_map_set obj_entries_def split: jsv.splits)

lemma access_authority_relay:
  assumes "access_authority authorization daemon ''relay'' = Inr a"
  obtains r where "normalizeAccountRole (js_get authorization ''role'') = Inr r"
    "buildAuthorityContext (with_field ''role'' (JStr r) authorization) daemon ''relay'' = Inr a"
  using assms by (auto simp: access_authority_def res_bind_Inr_iff)

lemma build_role:
  assumes "buildAuthorityContext (with_field ''role'' (JStr r) v) daemon ''relay'' = Inr a"
  shows "\<exists>q. auth_principal a = PAccount q \<and> role q = r"
  using assms by (auto simp: buildAuthorityContext_def Let_def res_bind_Inr_iff str_of_def split: if_splits)

lemma role_profiles_agree: "r \<in> set (map fst ACCOUNT_ROLES) \<Longrightarrow> the (map_of ACCOUNT_ROLES r) = roleProfile r"
  by (auto simp: ACCOUNT_ROLES_def roleProfile_def)

lemma stage_relay:
  assumes "authority_stage gate tool (Some ''relay'') authorization = Inr a"
  obtains q where "auth_principal a = PAccount q" "role q \<in> set (map fst ACCOUNT_ROLES)"
    "owner a = (role q = ''owner'')"
    "policyAllowsTool (policy_js (gate_policy gate)) tool"
    "policyAllowsTool (policy_js (accountPolicy a)) tool"
    "owner a \<or> tool \<notin> set ownerOnlyTools"
    "le_caps (caps_of (effectivePolicy a)) (caps_of (normalizePolicy (policy_js (gate_policy gate))))"
    "le_caps (caps_of (effectivePolicy a)) (caps_of (accountPolicy a))"
proof -
  from assms have g: "is_ok (gate_assert gate tool)"
    and acc: "is_ok (access_assert (js_get authorization ''role'') tool)"
    and au: "access_authority authorization (policy_js (gate_policy gate)) ''relay'' = Inr a"
    by (auto simp: authority_stage_def res_bind_Inr_iff is_ok_iff split: if_splits)
  from au obtain r where r: "normalizeAccountRole (js_get authorization ''role'') = Inr r"
    and b: "buildAuthorityContext (with_field ''role'' (JStr r) authorization) (policy_js (gate_policy gate)) ''relay'' = Inr a"
    by (rule access_authority_relay)
  obtain q where q: "auth_principal a = PAccount q" "role q = r" using build_role [OF b] by blast
  have rset: "r \<in> set (map fst ACCOUNT_ROLES)" using normalizeAccountRole_ok [OF r] .
  have own: "owner a = (role q = ''owner'')"
    and pol: "policyProfile (roleProfile (role q)) ''explicit'' = Inr (accountPolicy a)"
    and dp: "daemonPolicy a = normalizePolicy (or_empty (policy_js (gate_policy gate)))"
    using b q by (auto elim!: buildAuthority_relay)
  have oe: "or_empty (policy_js (gate_policy gate)) = policy_js (gate_policy gate)"
    by (simp add: or_empty_def policy_js_def)
  have "accountRolePolicy (JStr r) = Inr (accountPolicy a)"
    using pol q(2) rset role_profiles_agree [OF rset] normalizeAccountRole_fixed [OF rset]
    by (simp add: accountRolePolicy_def)
  then have acct: "policyAllowsTool (policy_js (accountPolicy a)) tool"
    and oo: "r = OWNER_ACCOUNT_ROLE \<or> tool \<notin> set ownerOnlyTools"
    using acc r by (auto simp: access_assert_def is_ok_iff res_bind_Inr_iff simp flip: assert_iff split: if_splits)
  show thesis
    using that [OF q(1)] rset own q(2) g acct oo buildAuthority_narrow [OF b] dp oe
    by (simp add: gate_assert_def assert_iff OWNER_ACCOUNT_ROLE_def del: set_map)
qed

section \<open>Delegated calls\<close>

lemma shell_owner_only: "in_family ''shell'' name \<Longrightarrow> name \<in> set ownerOnlyTools"
proof -
  have "list_all (\<lambda>(n, f, r). f = ''shell'' \<longrightarrow> n \<in> set ownerOnlyTools) STATIC_TOOL_SECURITY" by code_simp
  moreover assume "in_family ''shell'' name"
  then obtain r where "(name, ''shell'', r) \<in> set STATIC_TOOL_SECURITY"
    by (auto simp: in_family_def tool_family_def dest: map_of_SomeD)
  ultimately show ?thesis by (auto simp: list_all_iff)
qed

lemma admit_relay:
  assumes "admit_call az gate validate tool (Some ''relay'') authorization args = Inr (a, d)"
  obtains dec where "authority_stage gate tool (Some ''relay'') authorization = Inr a" "d = Some dec"
    "fst (authorize az (Some ''relay'') (Some a) tool args) = Inr dec"
  using assms by (auto simp: admit_call_def res_bind_Inr_iff)

lemma delegated_profiles:
  "\<forall>r \<in> {''reviewer'', ''editor'', ''operator''}.
     \<not> unrestrictedPaths (the (map_of POLICY_PROFILES (to_lower (trim (roleProfile r)))))"
  by code_simp

lemma delegated_restricted_paths:
  assumes "authority_stage gate tool (Some ''relay'') authorization = Inr a" "\<not> owner a"
  shows "\<not> unrestrictedPaths (effectivePolicy a)"
proof -
  from assms(1) have au: "access_authority authorization (policy_js (gate_policy gate)) ''relay'' = Inr a"
    by (auto simp: authority_stage_def res_bind_Inr_iff split: if_splits)
  then obtain r where r: "normalizeAccountRole (js_get authorization ''role'') = Inr r"
    and b: "buildAuthorityContext (with_field ''role'' (JStr r) authorization) (policy_js (gate_policy gate)) ''relay'' = Inr a"
    by (rule access_authority_relay)
  have "\<not> unrestrictedPaths (caps_of (accountPolicy a))"
    using b
  proof (rule buildAuthority_relay)
    fix q
    assume q: "owner a = (role q = ''owner'')" "isAccountRole (JStr (role q))"
      and p: "policyProfile (roleProfile (role q)) ''explicit'' = Inr (accountPolicy a)"
    have "role q \<in> {''reviewer'', ''editor'', ''operator''}" using q assms(2) by (auto simp: isAccountRole_def)
    moreover have "map_of POLICY_PROFILES (to_lower (trim (roleProfile (role q)))) = Some (caps_of (accountPolicy a))"
      using policyProfile_ok [OF p] by auto
    ultimately show ?thesis using delegated_profiles by force
  qed
  with buildAuthority_narrow [OF b] show ?thesis by (simp add: le_caps_def caps_of_def)
qed

lemma delegated_scopes:
  assumes "authority_stage gate tool (Some ''relay'') authorization = Inr a" "\<not> owner a"
    "fst (authorize az (Some ''relay'') (Some a) tool args) = Inr dec"
  obtains req where "classifyOperation (az_env az) tool args = Inr req"
    "dec = operationDecision req False (az_fingerprint az) True"
    "\<And>q. req = Some q \<Longrightarrow> set (req_scopes q) \<subseteq> {''persistent-job''} \<and> \<not> list_ex (isProtectedPath az) (req_targets q)"
proof -
  from assms(3) obtain p req where p: "auth_principal a = PAccount p" "owner a \<or> tool \<notin> set ownerOnlyTools"
    and c: "classifyOperation (az_env az) tool args = Inr req"
    and d: "dec = operationDecision req (owner a) (az_fingerprint az) True"
    and q: "\<And>q. req = Some q \<Longrightarrow> \<not> list_ex (isProtectedPath az) (req_targets q)
        \<and> assertRequirementWithinAuthority q (effectivePolicy a) (owner a) (role p) tool = Inr ()"
    by (rule authorize_relay_ok) blast
  have "set (req_scopes q) \<subseteq> {''persistent-job''}" if r: "req = Some q" for q
  proof -
    have ok: "requirement_ok q" using classify_ok c r by blast
    then have "set (req_scopes q) \<subseteq> set OPERATION_APPROVAL_SCOPES"
      unfolding requirement_ok_def by (metis Int_lower2 normalizeScopes_set)
    moreover have "''shell'' \<notin> set (req_scopes q)"
      using classify_shell_scope [of "az_env az" tool args q] shell_owner_only p(2) assms(2) c r by blast
    ultimately show ?thesis
      using within_authority [of q _ _ _ tool] q [OF r] ok delegated_restricted_paths [OF assms(1,2)] assms(2)
      by (fastforce simp: OPERATION_APPROVAL_SCOPES_def)
  qed
  with c d q assms(2) show thesis by (intro that [OF c]) auto
qed

section \<open>Catalog and security contract\<close>

lemma contract_names: "map fst STATIC_TOOL_SECURITY = map fst TOOLS"
  by (simp add: TOOLS_def STATIC_TOOL_SECURITY_def)

lemma contract_zip: "list_all2 (\<lambda>(n, a) (m, f, r). n = m \<and> (a = ''always'' \<longrightarrow> r)
    \<and> a \<in> set (map fst POLICY_AVAILABILITY)) TOOLS STATIC_TOOL_SECURITY"
  by (simp add: TOOLS_def STATIC_TOOL_SECURITY_def POLICY_AVAILABILITY_def)

lemma contract_lookup:
  assumes "(n, a) \<in> set TOOLS"
  shows "\<exists>f r. map_of STATIC_TOOL_SECURITY n = Some (f, r) \<and> (a = ''always'' \<longrightarrow> r) \<and> a \<in> set (map fst POLICY_AVAILABILITY)"
proof -
  obtain i where i: "i < length TOOLS" "TOOLS ! i = (n, a)" using assms by (auto simp: in_set_conv_nth)
  have len: "length TOOLS = length STATIC_TOOL_SECURITY" using contract_zip by (rule list_all2_lengthD)
  obtain m f r where s: "STATIC_TOOL_SECURITY ! i = (m, f, r)" by (metis prod_cases3)
  have p: "m = n" "a = ''always'' \<longrightarrow> r" "a \<in> set (map fst POLICY_AVAILABILITY)"
    using list_all2_nthD [OF contract_zip i(1)] i(2) s by (simp_all del: set_map)
  have "distinct (map fst STATIC_TOOL_SECURITY)" using TOOLS_distinct by (simp add: contract_names)
  moreover have "(n, f, r) \<in> set STATIC_TOOL_SECURITY" using s i(1) len p(1) by (metis nth_mem)
  ultimately have "map_of STATIC_TOOL_SECURITY n = Some (f, r)" by simp
  with p show ?thesis by blast
qed

end
