(* ===== verification/CallCapacity.thy ===== *)
theory CallCapacity
  imports Errors Interfaces
begin

text \<open>
  Integer coercion (\<open>src/shared/numbers.mjs\<close>) and the admission of tool calls against a capacity
  with slots reserved for control-plane tools (\<open>src/shared/tool-call-capacity.mjs\<close>,
  \<open>src/local/call-capacity.mjs\<close>).  The set of reserved tools is the list it is built from.
\<close>

section \<open>Integer coercion\<close>

definition clampInteger :: "jsv \<Rightarrow> int \<Rightarrow> int \<Rightarrow> int \<Rightarrow> int" where
  "clampInteger v fallback lo hi =
     (let parsed = (case v of JNum x \<Rightarrow> x | JStr s \<Rightarrow> if trim s \<noteq> [] then str_Number s else NaN | _ \<Rightarrow> NaN);
          number = (if num_isInteger parsed then \<lfloor>the (fin_of parsed)\<rfloor> else fallback)
      in min (max number lo) hi)"

definition positiveInteger :: "jsv \<Rightarrow> int \<Rightarrow> int" where
  "positiveInteger v fallback = (case fin_of (js_Number v) of
     Some q \<Rightarrow> if q > 0 then \<lfloor>q\<rfloor> else fallback | None \<Rightarrow> fallback)"

definition nonNegativeInteger :: "jsv \<Rightarrow> int \<Rightarrow> int" where
  "nonNegativeInteger v fallback = (case fin_of (js_Number v) of
     Some q \<Rightarrow> if q \<ge> 0 then \<lfloor>q\<rfloor> else fallback | None \<Rightarrow> fallback)"

lemma nonNegativeInteger_nonneg: "fallback \<ge> 0 \<Longrightarrow> nonNegativeInteger v fallback \<ge> 0"
  by (auto simp: nonNegativeInteger_def split: option.split)

lemma positiveInteger_nonneg: "fallback \<ge> 0 \<Longrightarrow> positiveInteger v fallback \<ge> 0"
  by (auto simp: positiveInteger_def split: option.split)

lemma integer_of_nat [simp]:
  "nonNegativeInteger (JNum (Fin (of_nat n))) d = int n"
  "0 < n \<Longrightarrow> positiveInteger (JNum (Fin (of_nat n))) d = int n"
  by (simp_all add: nonNegativeInteger_def positiveInteger_def)

section \<open>The capacity\<close>

definition CONTROL_PLANE_TOOL_NAMES :: "string list" where
  "CONTROL_PLANE_TOOL_NAMES = [''diagnose_runtime'', ''list_roots'']"

record capacity =
  cap_maximum :: int
  cap_reserved :: int
  cap_ordinaryMaximum :: int
  cap_reservedTools :: "string list"

definition toolCallCapacityConfig :: "jsv \<Rightarrow> jsv \<Rightarrow> string list \<Rightarrow> capacity" where
  "toolCallCapacityConfig maximumValue reservedValue reservedTools =
     (let maximum = positiveInteger maximumValue 1;
          reserved = min (nonNegativeInteger reservedValue 0) (max 0 (maximum - 1))
      in \<lparr>cap_maximum = maximum, cap_reserved = reserved, cap_ordinaryMaximum = maximum - reserved,
          cap_reservedTools = reservedTools\<rparr>)"

definition callCapacityConfig :: "jsv \<Rightarrow> jsv \<Rightarrow> string list \<Rightarrow> capacity" where
  "callCapacityConfig maximumValue reservedValue reservedTools =
     (let maximum = (case fin_of (js_Number maximumValue) of
            Some q \<Rightarrow> if q > 0 then \<lfloor>q\<rfloor> else 16 | None \<Rightarrow> 16)
      in toolCallCapacityConfig (JNum (Fin (of_int maximum))) reservedValue reservedTools)"

record usage =
  u_active :: int
  u_activeReserved :: int
  u_activeOrdinary :: int
  u_maximum :: int
  u_ordinaryMaximum :: int
  u_reserved :: int

definition toolCallCapacityUsage :: "jsv \<Rightarrow> capacity \<Rightarrow> usage" where
  "toolCallCapacityUsage snapshot config =
     (let active = nonNegativeInteger (js_get snapshot ''active'') 0;
          byTool = (if isRecord (js_get snapshot ''byTool'') then obj_entries (js_get snapshot ''byTool'') else []);
          sum = sum_list (map (\<lambda>(tool, rawCount).
            if tool \<in> set (cap_reservedTools config) then nonNegativeInteger rawCount 0 else 0) byTool);
          activeReserved = min active sum
      in \<lparr>u_active = active, u_activeReserved = activeReserved, u_activeOrdinary = active - activeReserved,
          u_maximum = cap_maximum config, u_ordinaryMaximum = cap_ordinaryMaximum config,
          u_reserved = cap_reserved config\<rparr>)"

datatype admission = Admitted | TotalCapacity | OrdinaryCapacity

definition toolCallAdmission :: "jsv \<Rightarrow> capacity \<Rightarrow> string \<Rightarrow> admission" where
  "toolCallAdmission snapshot config toolName =
     (let u = toolCallCapacityUsage snapshot config in
      if u_active u \<ge> cap_maximum config then TotalCapacity
      else if cap_reserved config \<le> 0 \<or> toolName \<in> set (cap_reservedTools config) then Admitted
      else if u_activeOrdinary u \<ge> cap_ordinaryMaximum config then OrdinaryCapacity
      else Admitted)"

section \<open>The snapshot of the calls in flight\<close>

text \<open>\<open>byTool[tool] = (byTool[tool] || 0) + 1\<close> over the tools of the calls.\<close>

definition bump :: "(string \<times> nat) list \<Rightarrow> string \<Rightarrow> (string \<times> nat) list" where
  "bump m t = map_set t (Suc (case map_of m t of Some n \<Rightarrow> n | None \<Rightarrow> 0)) m"

definition tool_counts :: "string list \<Rightarrow> (string \<times> nat) list" where
  "tool_counts tools = foldl bump [] tools"

definition callSnapshot :: "string list \<Rightarrow> jsv" where
  "callSnapshot tools = JObj [(''active'', JNum (Fin (of_nat (length tools)))),
     (''byTool'', JObj (map (\<lambda>(t, n). (t, JNum (Fin (of_nat n)))) (tool_counts tools)))]"

definition assertCallCapacity :: "string list \<Rightarrow> capacity \<Rightarrow> string \<Rightarrow> bridge_error + unit" where
  "assertCallCapacity tools config toolName =
     (case toolCallAdmission (callSnapshot tools) config toolName of
        Admitted \<Rightarrow> Inr ()
      | _ \<Rightarrow> Inl (berr_retry ''limit_exceeded''))"

definition callCapacitySnapshot :: "string list \<Rightarrow> capacity \<Rightarrow> int \<times> int \<times> int \<times> int \<times> int" where
  "callCapacitySnapshot tools config =
     (let u = toolCallCapacityUsage (callSnapshot tools) config
      in (u_maximum u, u_ordinaryMaximum u, u_reserved u, u_activeReserved u, u_activeOrdinary u))"

section \<open>Lemmas\<close>

lemma config_bounds:
  fixes m r ts
  defines "c \<equiv> toolCallCapacityConfig m r ts"
  shows "0 \<le> cap_reserved c" "0 \<le> cap_maximum c" "cap_reserved c \<le> cap_maximum c"
    "cap_ordinaryMaximum c = cap_maximum c - cap_reserved c" "0 < cap_maximum c \<Longrightarrow> 0 < cap_ordinaryMaximum c"
  using nonNegativeInteger_nonneg [of 0 r] positiveInteger_nonneg [of 1 m]
  by (auto simp: c_def toolCallCapacityConfig_def Let_def)

text \<open>Counting: the sum of the counts of the tools in a set is the number of calls to them.\<close>

definition count_in :: "string set \<Rightarrow> (string \<times> nat) list \<Rightarrow> nat" where
  "count_in A m = sum_list (map (\<lambda>(t, n). if t \<in> A then n else 0) m)"

lemma count_in_simps [simp]:
  "count_in A [] = 0" "count_in A ((t, n) # m) = (if t \<in> A then n else 0) + count_in A m"
  by (simp_all add: count_in_def)

definition count_of :: "(string \<times> nat) list \<Rightarrow> string \<Rightarrow> nat" where
  "count_of m t = (case map_of m t of Some n \<Rightarrow> n | None \<Rightarrow> 0)"

lemma count_of_simps [simp]:
  "count_of [] t = 0" "count_of ((u, n) # m) t = (if u = t then n else count_of m t)"
  by (simp_all add: count_of_def)

lemma count_in_map_set:
  "count_in A (map_set t k m) + (if t \<in> A then count_of m t else 0) = count_in A m + (if t \<in> A then k else 0)"
  by (induction t k m rule: map_set.induct) auto

lemma count_in_bump: "count_in A (bump m t) = count_in A m + (if t \<in> A then 1 else 0)"
  using count_in_map_set [of A t "Suc (count_of m t)" m] by (auto simp: bump_def count_of_def split: if_splits)

lemma count_in_foldl: "count_in A (foldl bump m tools) = count_in A m + length (filter (\<lambda>t. t \<in> A) tools)"
  by (induction tools arbitrary: m) (auto simp: count_in_bump)

lemma count_in_tools: "count_in A (tool_counts tools) = length (filter (\<lambda>t. t \<in> A) tools)"
  unfolding tool_counts_def by (simp add: count_in_foldl)

lemma snapshot_sum:
  "sum_list (map (\<lambda>(t, v). if t \<in> A then nonNegativeInteger v 0 else 0) (map (\<lambda>(t, n). (t, JNum (Fin (of_nat n)))) m))
     = int (count_in A m)"
  by (induction m) auto

lemma usage_snapshot:
  "u_active (toolCallCapacityUsage (callSnapshot tools) c) = int (length tools)"
  "u_activeOrdinary (toolCallCapacityUsage (callSnapshot tools) c)
     = int (length (filter (\<lambda>t. t \<notin> set (cap_reservedTools c)) tools))"
proof -
  let ?A = "set (cap_reservedTools c)"
  have l: "length tools = length (filter (\<lambda>t. t \<in> ?A) tools) + length (filter (\<lambda>t. t \<notin> ?A) tools)"
    by (rule sum_length_filter_compl [symmetric])
  show "u_active (toolCallCapacityUsage (callSnapshot tools) c) = int (length tools)"
    by (simp add: toolCallCapacityUsage_def callSnapshot_def Let_def)
  show "u_activeOrdinary (toolCallCapacityUsage (callSnapshot tools) c)
      = int (length (filter (\<lambda>t. t \<notin> ?A) tools))"
  proof -
    have "u_activeOrdinary (toolCallCapacityUsage (callSnapshot tools) c)
        = int (length tools) - min (int (length tools)) (int (length (filter (\<lambda>t. t \<in> ?A) tools)))"
      by (simp add: toolCallCapacityUsage_def callSnapshot_def Let_def snapshot_sum count_in_tools del: map_map)
    also have "\<dots> = int (length (filter (\<lambda>t. t \<notin> ?A) tools))" using l by linarith
    finally show ?thesis .
  qed
qed

text \<open>What admission means for the calls in flight.\<close>

lemma assertCallCapacity_iff:
  "assertCallCapacity tools c t = Inr () \<longleftrightarrow>
     int (length tools) < cap_maximum c
     \<and> (cap_reserved c \<le> 0 \<or> t \<in> set (cap_reservedTools c)
        \<or> int (length (filter (\<lambda>t. t \<notin> set (cap_reservedTools c)) tools)) < cap_ordinaryMaximum c)"
  by (auto simp: assertCallCapacity_def toolCallAdmission_def Let_def usage_snapshot split: admission.splits)

text \<open>
  A number strictly between 0 and 1 passes the positivity test and is then rounded down, so the result of
  \<open>positiveInteger\<close> need not be positive.
\<close>

lemma positiveInteger_fraction:
  "0 < q \<Longrightarrow> q < 1 \<Longrightarrow> positiveInteger (JNum (Fin q)) fallback = 0"
  by (auto simp: positiveInteger_def floor_eq_iff)

end
