(* ===== verification/CallRegistry.thy ===== *)
theory CallRegistry
  imports CallCapacity Authority
begin

text \<open>
  The registry of tool calls in flight (\<open>src/local/call-registry.mjs\<close>, \<open>call-registry-drain.mjs\<close>,
  \<open>call-authority.mjs\<close>).  A call's abort controller is the optional reason it was aborted with; the
  scheduler is the list of armed timers; the \<open>onCancel\<close> and \<open>onFinish\<close> callbacks are logs of the
  ids they were called with.  The clock value and the random id of a call are arguments of the event
  that opens it.  The state machine takes one registry operation, or one timer, per step.
\<close>

section \<open>State\<close>

record call =
  call_id :: string
  call_tool :: string
  call_origin :: string
  call_startedAt :: rat
  call_deadlineAt :: "rat option"
  call_abort :: "bridge_error option"
  call_cancelReason :: string
  call_timer :: bool
  call_owner :: "(string \<times> jsv) list"

record registry =
  reg_calls :: "(string \<times> call) list"
  reg_capacity :: capacity
  reg_draining :: bool
  reg_timers :: "(string \<times> int) list"
  reg_onCancel :: "string list"
  reg_onFinish :: "string list"

definition new_registry :: "jsv \<Rightarrow> jsv \<Rightarrow> string list \<Rightarrow> registry" where
  "new_registry maximum reserved reservedTools =
     \<lparr>reg_calls = [], reg_capacity = callCapacityConfig maximum reserved reservedTools, reg_draining = False,
      reg_timers = [], reg_onCancel = [], reg_onFinish = []\<rparr>"

definition reg_tools :: "registry \<Rightarrow> string list" where
  "reg_tools s = map (\<lambda>p. call_tool (snd p)) (reg_calls s)"

definition reg_ids :: "registry \<Rightarrow> string list" where
  "reg_ids s = map fst (reg_calls s)"

text \<open>A call record is a mutable object: an update keeps its place in the map.\<close>

definition upd_call :: "string \<Rightarrow> (call \<Rightarrow> call) \<Rightarrow> registry \<Rightarrow> registry" where
  "upd_call i f s = s\<lparr>reg_calls := map (\<lambda>p. if fst p = i then (fst p, f (snd p)) else p) (reg_calls s)\<rparr>"

section \<open>Operations\<close>

definition assertCallRegistryOpen :: "registry \<Rightarrow> bridge_error + unit" where
  "assertCallRegistryOpen s = (if \<not> reg_draining s then Inr () else Inl (berr_retry ''unavailable''))"

definition new_call :: "string \<Rightarrow> rat \<Rightarrow> string \<Rightarrow> string \<Rightarrow> int \<Rightarrow> call" where
  "new_call i now tool org timeout =
     \<lparr>call_id = i, call_tool = tool, call_origin = (if org \<noteq> [] then org else ''local''),
      call_startedAt = now, call_deadlineAt = (if timeout \<noteq> 0 then Some (now + of_int timeout) else None),
      call_abort = None, call_cancelReason = [], call_timer = (timeout \<noteq> 0), call_owner = []\<rparr>"

definition open_call :: "string \<Rightarrow> rat \<Rightarrow> string \<Rightarrow> string \<Rightarrow> string \<Rightarrow> jsv \<Rightarrow> registry \<Rightarrow> bridge_error + registry" where
  "open_call fresh now callId tool org timeoutMs s =
     res_bind (assertCallRegistryOpen s) (\<lambda>_.
       let i = (if callId \<noteq> [] then callId else ''call_'' @ fresh) in
       if i \<in> set (reg_ids s) then Inl (berr ''conflict'')
       else res_bind (assertCallCapacity (reg_tools s) (reg_capacity s) tool) (\<lambda>_.
         let timeout = positiveInteger timeoutMs 0
         in Inr (s\<lparr>reg_calls := map_set i (new_call i now tool org timeout) (reg_calls s),
                  reg_timers := (if timeout \<noteq> 0 then reg_timers s @ [(i, timeout)] else reg_timers s)\<rparr>)))"

definition cancel_call :: "string \<Rightarrow> string \<Rightarrow> string \<Rightarrow> registry \<Rightarrow> registry \<times> bool" where
  "cancel_call i reason c s =
     (case map_of (reg_calls s) i of
        None \<Rightarrow> (s, False)
      | Some r \<Rightarrow>
          if call_abort r \<noteq> None then (s, False)
          else ((upd_call i (\<lambda>r. r\<lparr>call_cancelReason := take 256 (if reason \<noteq> [] then reason else ''cancelled''),
                   call_abort := Some (berr c)\<rparr>) s)\<lparr>reg_onCancel := reg_onCancel s @ [i]\<rparr>, True))"

definition finish_call :: "string \<Rightarrow> registry \<Rightarrow> registry \<times> bool" where
  "finish_call i s =
     (case map_of (reg_calls s) i of
        None \<Rightarrow> (s, False)
      | Some r \<Rightarrow>
          (s\<lparr>reg_timers := (if call_timer r then map_del i (reg_timers s) else reg_timers s),
             reg_calls := map_del i (reg_calls s), reg_onFinish := reg_onFinish s @ [i]\<rparr>, True))"

definition idsByOrigin :: "string \<Rightarrow> registry \<Rightarrow> string list" where
  "idsByOrigin org s = map (\<lambda>p. call_id (snd p)) (filter (\<lambda>p. call_origin (snd p) = org) (reg_calls s))"

text \<open>The loops that cancel a list of ids and count the calls they cancelled.\<close>

definition cancel_all :: "string \<Rightarrow> string \<Rightarrow> string list \<Rightarrow> registry \<Rightarrow> registry \<times> nat" where
  "cancel_all reason c is s =
     foldl (\<lambda>(s, n) i. case cancel_call i reason c s of (s', b) \<Rightarrow> (s', if b then n + 1 else n)) (s, 0) is"

definition cancelOrigin :: "string \<Rightarrow> string \<Rightarrow> registry \<Rightarrow> registry \<times> nat" where
  "cancelOrigin org reason s = cancel_all reason ''cancelled'' (idsByOrigin org s) s"

definition set_fields :: "(string \<times> jsv) list \<Rightarrow> (string \<times> jsv) list \<Rightarrow> (string \<times> jsv) list" where
  "set_fields fs m = foldl (\<lambda>m (k, v). map_set k v m) m fs"

text \<open>The fields \<open>bindCallPrincipal\<close> writes, \<open>None\<close> where it refuses the principal.\<close>

definition principal_fields :: "jsv \<Rightarrow> (string \<times> jsv) list option" where
  "principal_fields p =
     (if \<not> isRecord p then None
      else if js_get p ''kind'' = JStr ''local'' then Some [(''owner_kind'', JStr ''local'')]
      else if js_get p ''kind'' \<noteq> JStr ''account'' then None
      else if \<not> is_str ACCOUNT_ID (js_get p ''accountId'') \<or> \<not> positive_safe (js_get p ''accountVersion'')
         \<or> \<not> is_str CLIENT_ID (js_get p ''clientId'') \<or> \<not> is_str FAMILY_ID (js_get p ''familyId'') then None
      else Some [(''owner_kind'', JStr ''account''), (''owner_account_id'', js_get p ''accountId''),
                 (''owner_account_version'', js_get p ''accountVersion''), (''owner_client_id'', js_get p ''clientId''),
                 (''owner_family_id'', js_get p ''familyId'')])"

definition bindPrincipal :: "string \<Rightarrow> jsv \<Rightarrow> registry \<Rightarrow> registry \<times> bool" where
  "bindPrincipal i p s =
     (case (map_of (reg_calls s) i, principal_fields p) of
        (Some _, Some fs) \<Rightarrow> (upd_call i (\<lambda>r. r\<lparr>call_owner := set_fields fs (call_owner r)\<rparr>) s, True)
      | _ \<Rightarrow> (s, False))"

definition callIdsForAuthority :: "call list \<Rightarrow> revocation option \<Rightarrow> string list" where
  "callIdsForAuthority rs rv = map call_id (filter (\<lambda>r. recordMatchesAuthorityRevocation (JObj (call_owner r)) rv) rs)"

definition cancelAuthority :: "revocation option \<Rightarrow> registry \<Rightarrow> registry \<times> nat" where
  "cancelAuthority rv s =
     cancel_all ''authority revoked'' ''authorization_denied'' (callIdsForAuthority (map snd (reg_calls s)) rv) s"

text \<open>
  The part of \<open>cancelAllAndWait\<close> before its wait, and its verdict when the wait ends; in between other
  steps run, and the wait ends as soon as no call is left.
\<close>

definition drain_start :: "string \<Rightarrow> registry \<Rightarrow> registry" where
  "drain_start reason s =
     (let s' = s\<lparr>reg_draining := True\<rparr> in fst (cancel_all reason ''cancelled'' (reg_ids s') s'))"

definition drain_verdict :: "registry \<Rightarrow> bridge_error + unit" where
  "drain_verdict s =
     (if reg_calls s \<noteq> []
      then Inl (BridgeError ''unavailable'' (Some True) None (Some [(''active_calls'', JNum (Fin (of_nat (length (reg_calls s)))))]))
      else Inr ())"

text \<open>\<open>throwIfCancelled\<close> for a context that carries the call id.\<close>

definition throwIfCancelled :: "string \<Rightarrow> registry \<Rightarrow> bridge_error + unit" where
  "throwIfCancelled i s =
     (case map_of (reg_calls s) i of
        None \<Rightarrow> Inr ()
      | Some r \<Rightarrow> (case call_abort r of None \<Rightarrow> Inr () | Some e \<Rightarrow> Inl e))"

record reg_snapshot =
  sn_active :: nat
  sn_capacity :: "int \<times> int \<times> int \<times> int \<times> int"
  sn_by_origin :: "(string \<times> nat) list"
  sn_oldest_ms :: rat

definition registry_snapshot :: "rat \<Rightarrow> registry \<Rightarrow> reg_snapshot" where
  "registry_snapshot now s =
     \<lparr>sn_active = length (reg_calls s),
      sn_capacity = callCapacitySnapshot (reg_tools s) (reg_capacity s),
      sn_by_origin = tool_counts (map (\<lambda>p. call_origin (snd p)) (reg_calls s)),
      sn_oldest_ms = foldl (\<lambda>m p. max m (now - call_startedAt (snd p))) 0 (reg_calls s)\<rparr>"

section \<open>The machine\<close>

datatype reg_event =
    EvOpen string rat string string string jsv
  | EvCancel string string string
  | EvFinish string
  | EvCancelOrigin string string
  | EvBind string jsv
  | EvCancelAuthority "revocation option"
  | EvTimer string
  | EvDrain string

fun reg_step :: "registry \<Rightarrow> reg_event \<Rightarrow> registry" where
  "reg_step s (EvOpen fresh now callId tool org timeoutMs) =
     (case open_call fresh now callId tool org timeoutMs s of Inl _ \<Rightarrow> s | Inr s' \<Rightarrow> s')"
| "reg_step s (EvCancel i reason c) = fst (cancel_call i reason c s)"
| "reg_step s (EvFinish i) = fst (finish_call i s)"
| "reg_step s (EvCancelOrigin org reason) = fst (cancelOrigin org reason s)"
| "reg_step s (EvBind i p) = fst (bindPrincipal i p s)"
| "reg_step s (EvCancelAuthority rv) = fst (cancelAuthority rv s)"
| "reg_step s (EvTimer i) =
     (if i \<in> set (map fst (reg_timers s))
      then fst (cancel_call i ''deadline exceeded'' ''timeout'' (s\<lparr>reg_timers := map_del i (reg_timers s)\<rparr>)) else s)"
| "reg_step s (EvDrain reason) = drain_start reason s"

section \<open>The invariant\<close>

definition aborted :: "call \<Rightarrow> bool" where
  "aborted r = (call_abort r \<noteq> None)"

definition reg_inv :: "registry \<Rightarrow> bool" where
  "reg_inv s = (distinct (reg_ids s) \<and> list_all (\<lambda>p. call_id (snd p) = fst p) (reg_calls s)
     \<and> int (length (reg_calls s)) \<le> cap_maximum (reg_capacity s)
     \<and> (0 < cap_reserved (reg_capacity s) \<longrightarrow>
          int (length (filter (\<lambda>t. t \<notin> set (cap_reservedTools (reg_capacity s))) (reg_tools s)))
            \<le> cap_ordinaryMaximum (reg_capacity s))
     \<and> (reg_draining s \<longrightarrow> list_all (\<lambda>p. aborted (snd p)) (reg_calls s)))"

text \<open>What never changes back: the capacity, draining, and, while draining, the calls only go.\<close>

definition reg_le :: "registry \<Rightarrow> registry \<Rightarrow> bool" where
  "reg_le s t = (reg_capacity t = reg_capacity s
     \<and> (reg_draining s \<longrightarrow> reg_draining t \<and> set (reg_ids t) \<subseteq> set (reg_ids s)))"

section \<open>Cancelling\<close>

text \<open>What cancelling leaves alone: everything but the abort state, and an aborted call altogether.\<close>

definition frame :: "registry \<Rightarrow> (string \<times> string \<times> string \<times> string \<times> (string \<times> jsv) list) list" where
  "frame s = map (\<lambda>p. (fst p, call_id (snd p), call_tool (snd p), call_origin (snd p), call_owner (snd p))) (reg_calls s)"

definition settles :: "registry \<Rightarrow> registry \<Rightarrow> bool" where
  "settles s t = (frame t = frame s \<and> reg_capacity t = reg_capacity s \<and> reg_draining t = reg_draining s
     \<and> (\<forall>k r. map_of (reg_calls s) k = Some r \<longrightarrow> aborted r \<longrightarrow> map_of (reg_calls t) k = Some r))"

lemma settles_refl: "settles s s"
  by (simp add: settles_def)

lemma settles_trans: "settles s t \<Longrightarrow> settles t u \<Longrightarrow> settles s u"
  by (simp add: settles_def)

lemma frame_ids: "frame t = frame s \<Longrightarrow> reg_ids t = reg_ids s"
proof -
  have "reg_ids u = map fst (frame u)" for u by (simp add: reg_ids_def frame_def)
  then show "frame t = frame s \<Longrightarrow> reg_ids t = reg_ids s" by simp
qed

lemma frame_tools: "frame t = frame s \<Longrightarrow> reg_tools t = reg_tools s"
proof -
  have "reg_tools u = map (\<lambda>(_, _, t, _). t) (frame u)" for u by (simp add: reg_tools_def frame_def)
  then show "frame t = frame s \<Longrightarrow> reg_tools t = reg_tools s" by simp
qed

lemma frame_call_ids:
  "frame t = frame s \<Longrightarrow> list_all (\<lambda>p. call_id (snd p) = fst p) (reg_calls t) = list_all (\<lambda>p. call_id (snd p) = fst p) (reg_calls s)"
proof -
  have "list_all (\<lambda>p. call_id (snd p) = fst p) (reg_calls u) = list_all (\<lambda>(k, i, _). i = k) (frame u)" for u
    by (simp add: frame_def list_all_iff)
  then show "frame t = frame s \<Longrightarrow> ?thesis" by simp
qed

lemma frame_length: "frame t = frame s \<Longrightarrow> length (reg_calls t) = length (reg_calls s)"
proof -
  have "length (reg_calls u) = length (frame u)" for u by (simp add: frame_def)
  then show "frame t = frame s \<Longrightarrow> length (reg_calls t) = length (reg_calls s)" by simp
qed

lemma map_of_upd_call:
  "map_of (reg_calls (upd_call i f s)) k = (if k = i then map_option f (map_of (reg_calls s) i) else map_of (reg_calls s) k)"
proof -
  have "map_of (map (\<lambda>p. if fst p = i then (fst p, f (snd p)) else p) m) k
      = (if k = i then map_option f (map_of m i) else map_of m k)" for m
    by (induction m) auto
  then show ?thesis by (simp add: upd_call_def)
qed

lemma upd_fst [simp]: "map fst (map (\<lambda>p. if fst p = i then (fst p, f (snd p)) else p) m) = map fst m"
  by (induction m) auto

lemma upd_call_fields [simp]:
  "reg_capacity (upd_call i f s) = reg_capacity s" "reg_draining (upd_call i f s) = reg_draining s"
  "reg_timers (upd_call i f s) = reg_timers s" "reg_ids (upd_call i f s) = reg_ids s"
  by (simp_all add: upd_call_def reg_ids_def del: map_map)

lemma cancel_call_settles: "settles s (fst (cancel_call i reason c s))"
proof (cases "map_of (reg_calls s) i")
  case (Some r)
  show ?thesis
  proof (cases "call_abort r")
    case None
    let ?f = "\<lambda>r. r\<lparr>call_cancelReason := take 256 (if reason \<noteq> [] then reason else ''cancelled''), call_abort := Some (berr c)\<rparr>"
    have "frame (upd_call i ?f s) = frame s" by (simp add: frame_def upd_call_def)
    moreover have "map_of (reg_calls (upd_call i ?f s)) k = Some q" if "map_of (reg_calls s) k = Some q" "aborted q" for k q
      using that Some None by (auto simp: map_of_upd_call aborted_def)
    ultimately show ?thesis using Some None by (simp add: cancel_call_def settles_def frame_def)
  qed (simp add: cancel_call_def Some settles_refl)
qed (simp add: cancel_call_def settles_refl)

lemma cancel_call_aborts:
  "map_of (reg_calls (fst (cancel_call i reason c s))) i = Some r \<Longrightarrow> aborted r"
  by (auto simp: cancel_call_def map_of_upd_call aborted_def split: option.splits if_splits)

lemma cancel_all_step:
  "fst (foldl (\<lambda>(s, n) i. case cancel_call i reason c s of (s', b) \<Rightarrow> (s', if b then n + 1 else n)) (s, n) is)
     = foldl (\<lambda>s i. fst (cancel_call i reason c s)) s is"
  by (induction "is" arbitrary: s n) (auto split: prod.splits)

lemma cancel_all_fst: "fst (cancel_all reason c is s) = foldl (\<lambda>s i. fst (cancel_call i reason c s)) s is"
  unfolding cancel_all_def by (rule cancel_all_step)

lemma cancel_all_settles: "settles s (fst (cancel_all reason c is s))"
proof -
  have "settles s (foldl (\<lambda>s i. fst (cancel_call i reason c s)) s is)"
    by (induction "is" arbitrary: s) (auto intro: settles_refl settles_trans cancel_call_settles)
  then show ?thesis by (simp add: cancel_all_fst)
qed

lemma settles_lookup: "settles s t \<Longrightarrow> (map_of (reg_calls t) k = None) = (map_of (reg_calls s) k = None)"
  by (metis frame_ids map_of_eq_None_iff reg_ids_def set_map settles_def)

lemma cancel_all_aborts:
  assumes "i \<in> set is" "map_of (reg_calls (fst (cancel_all reason c is s))) i = Some r"
  shows "aborted r"
proof -
  have "map_of (reg_calls (foldl (\<lambda>s i. fst (cancel_call i reason c s)) s is)) i = Some r \<Longrightarrow> i \<in> set is \<Longrightarrow> aborted r" for s
  proof (induction "is" arbitrary: s)
    case (Cons j js)
    let ?s = "fst (cancel_call j reason c s)"
    have st: "settles ?s (foldl (\<lambda>s i. fst (cancel_call i reason c s)) ?s js)"
      using cancel_all_settles [of ?s reason c js] by (simp add: cancel_all_fst)
    show ?case
    proof (cases "i \<in> set js")
      case True
      with Cons show ?thesis by simp
    next
      case False
      with Cons.prems have j: "j = i" by simp
      obtain q where q: "map_of (reg_calls ?s) i = Some q"
        using settles_lookup [OF st, of i] Cons.prems(1) by fastforce
      then have "aborted q" using cancel_call_aborts j by blast
      with q st have "map_of (reg_calls (foldl (\<lambda>s i. fst (cancel_call i reason c s)) ?s js)) i = Some q"
        by (simp add: settles_def)
      with Cons.prems(1) \<open>aborted q\<close> show ?thesis by simp
    qed
  qed simp
  with assms show ?thesis by (simp add: cancel_all_fst)
qed

section \<open>Every step keeps the invariant\<close>

lemma aborted_list: "distinct (map fst m) \<Longrightarrow> list_all (\<lambda>p. aborted (snd p)) m \<longleftrightarrow> (\<forall>k r. map_of m k = Some r \<longrightarrow> aborted r)"
  by (auto simp: list_all_iff)

lemma settles_inv: "reg_inv s \<Longrightarrow> settles s t \<Longrightarrow> reg_inv t"
proof -
  assume i: "reg_inv s" and st: "settles s t"
  then have f: "frame t = frame s" "reg_capacity t = reg_capacity s" "reg_draining t = reg_draining s"
    by (simp_all add: settles_def)
  have d: "distinct (map fst (reg_calls t))" "distinct (map fst (reg_calls s))"
    using i frame_ids [OF f(1)] by (simp_all add: reg_inv_def reg_ids_def)
  have "list_all (\<lambda>p. aborted (snd p)) (reg_calls t)" if "reg_draining s"
  proof -
    have a: "\<forall>k r. map_of (reg_calls s) k = Some r \<longrightarrow> aborted r"
      using i that aborted_list [OF d(2)] by (simp add: reg_inv_def)
    have "aborted r" if r: "map_of (reg_calls t) k = Some r" for k r
    proof -
      obtain q where q: "map_of (reg_calls s) k = Some q" using settles_lookup [OF st, of k] r by fastforce
      with a st have "map_of (reg_calls t) k = Some q" by (simp add: settles_def)
      with r q a show ?thesis by simp
    qed
    then show ?thesis using aborted_list [OF d(1)] by blast
  qed
  with i f show ?thesis
    by (simp add: reg_inv_def frame_ids [OF f(1)] frame_tools [OF f(1)] frame_call_ids [OF f(1)] frame_length [OF f(1)])
qed

lemma open_call_effect:
  assumes "open_call fresh now callId tool org timeoutMs s = Inr t"
  obtains r where "\<not> reg_draining s" "call_id r \<notin> set (reg_ids s)" "reg_calls t = reg_calls s @ [(call_id r, r)]"
    "call_tool r = tool" "reg_capacity t = reg_capacity s" "reg_draining t = reg_draining s"
    "assertCallCapacity (reg_tools s) (reg_capacity s) tool = Inr ()" "\<not> aborted r"
proof -
  let ?i = "if callId \<noteq> [] then callId else ''call_'' @ fresh"
  have n: "?i \<notin> set (reg_ids s)" and d: "\<not> reg_draining s"
    and a: "assertCallCapacity (reg_tools s) (reg_capacity s) tool = Inr ()"
    using assms by (auto simp: open_call_def assertCallRegistryOpen_def res_bind_Inr_iff Let_def split: if_splits)
  let ?r = "new_call ?i now tool org (positiveInteger timeoutMs 0)"
  have "reg_calls t = map_set ?i ?r (reg_calls s)" "reg_capacity t = reg_capacity s" "reg_draining t = reg_draining s"
    using assms n d a by (auto simp: open_call_def assertCallRegistryOpen_def Let_def)
  moreover have "call_id ?r = ?i" "call_tool ?r = tool" "\<not> aborted ?r" by (simp_all add: new_call_def aborted_def)
  ultimately show thesis using that [of ?r] d n a map_set_new [of ?i "reg_calls s" ?r] by (simp add: reg_ids_def)
qed

lemma open_call_inv:
  assumes "reg_inv s" "open_call fresh now callId tool org timeoutMs s = Inr t"
  shows "reg_inv t"
  using assms(2)
proof (rule open_call_effect)
  fix r
  assume h: "\<not> reg_draining s" "call_id r \<notin> set (reg_ids s)" "reg_calls t = reg_calls s @ [(call_id r, r)]"
    "call_tool r = tool" "reg_capacity t = reg_capacity s" "reg_draining t = reg_draining s"
    "assertCallCapacity (reg_tools s) (reg_capacity s) tool = Inr ()"
  have l: "length (reg_tools s) = length (reg_calls s)" by (simp add: reg_tools_def)
  have "reg_tools t = reg_tools s @ [tool]" "reg_ids t = reg_ids s @ [call_id r]"
    using h by (simp_all add: reg_tools_def reg_ids_def)
  with h assms(1) l show ?thesis
    by (auto simp: reg_inv_def assertCallCapacity_iff)
qed


lemma finish_call_inv: "reg_inv s \<Longrightarrow> reg_inv (fst (finish_call i s))"
proof (cases "map_of (reg_calls s) i")
  case (Some r)
  assume i: "reg_inv s"
  let ?m = "map_del i (reg_calls s)"
  have sub: "length ?m \<le> length (reg_calls s)" by (simp add: map_del_def)
  have "length (filter P (map (\<lambda>p. call_tool (snd p)) ?m)) \<le> length (filter P (reg_tools s))" for P
  proof -
    have "length (filter P (map f (filter Q m))) \<le> length (filter P (map f m))" for f :: "(string \<times> call) \<Rightarrow> string" and Q m
      by (induction m) auto
    then show ?thesis by (simp add: reg_tools_def map_del_def)
  qed
  then have "int (length (filter P (map (\<lambda>p. call_tool (snd p)) ?m))) \<le> int (length (filter P (reg_tools s)))" for P
    by simp
  moreover have "list_all P ?m" if "list_all P (reg_calls s)" for P
    using that by (auto simp: list_all_iff map_del_def)
  moreover have "distinct (map fst ?m)" using i by (simp add: reg_inv_def reg_ids_def distinct_map_del)
  moreover have "int (length ?m) \<le> int (length (reg_calls s))" using sub by simp
  ultimately have "reg_inv (s\<lparr>reg_calls := ?m\<rparr>)"
    using i unfolding reg_inv_def reg_ids_def reg_tools_def
    by (auto intro: order_trans simp del: of_nat_le_iff simp flip: reg_tools_def)
  then show ?thesis using Some by (simp add: finish_call_def reg_inv_def reg_ids_def reg_tools_def)
qed (simp add: finish_call_def)

lemma list_all_upd:
  "(\<And>k r. P (k, f r) = P (k, r)) \<Longrightarrow> list_all P (reg_calls (upd_call i f s)) = list_all P (reg_calls s)"
proof -
  assume "\<And>k r. P (k, f r) = P (k, r)"
  then have "list_all P (map (\<lambda>p. if fst p = i then (fst p, f (snd p)) else p) m) = list_all P m" for m
    by (induction m) auto
  then show ?thesis by (simp add: upd_call_def)
qed

lemma bindPrincipal_inv: "reg_inv s \<Longrightarrow> reg_inv (fst (bindPrincipal i p s))"
proof -
  assume inv: "reg_inv s"
  let ?u = "upd_call i (\<lambda>r. r\<lparr>call_owner := f (call_owner r)\<rparr>) s"
  have "reg_inv (upd_call i (\<lambda>r. r\<lparr>call_owner := f (call_owner r)\<rparr>) s)" for f
  proof -
    let ?u = "upd_call i (\<lambda>r. r\<lparr>call_owner := f (call_owner r)\<rparr>) s"
    have "reg_tools ?u = reg_tools s" "length (reg_calls ?u) = length (reg_calls s)"
      "list_all (\<lambda>p. call_id (snd p) = fst p) (reg_calls ?u) = list_all (\<lambda>p. call_id (snd p) = fst p) (reg_calls s)"
      "list_all (\<lambda>p. aborted (snd p)) (reg_calls ?u) = list_all (\<lambda>p. aborted (snd p)) (reg_calls s)"
      by (simp_all add: list_all_upd aborted_def) (auto simp: reg_tools_def upd_call_def)
    with inv show ?thesis by (simp add: reg_inv_def)
  qed
  with inv show ?thesis by (auto simp: bindPrincipal_def split: option.split)
qed

lemma timers_inv: "reg_inv (s\<lparr>reg_timers := ts\<rparr>) = reg_inv s"
  by (simp add: reg_inv_def reg_ids_def reg_tools_def)

lemma drain_aborts: "list_all (\<lambda>p. aborted (snd p)) (reg_calls (drain_start reason s)) \<or> \<not> distinct (reg_ids s)"
proof (cases "distinct (reg_ids s)")
  case True
  let ?s = "s\<lparr>reg_draining := True\<rparr>"
  let ?t = "fst (cancel_all reason ''cancelled'' (reg_ids ?s) ?s)"
  have st: "settles ?s ?t" by (rule cancel_all_settles)
  then have ids: "reg_ids ?t = reg_ids ?s" using frame_ids [of ?t ?s] by (simp add: settles_def)
  have "aborted r" if r: "map_of (reg_calls ?t) k = Some r" for k r
  proof -
    have "k \<in> set (reg_ids ?t)" using r by (force simp: reg_ids_def dest: map_of_SomeD)
    then show ?thesis using cancel_all_aborts [OF _ r] ids by simp
  qed
  moreover have "distinct (map fst (reg_calls ?t))" using True ids by (simp add: reg_ids_def)
  ultimately have "list_all (\<lambda>p. aborted (snd p)) (reg_calls ?t)" using aborted_list by blast
  then show ?thesis by (simp add: drain_start_def Let_def)
qed simp

lemma drain_start_fields:
  "reg_draining (drain_start reason s)" "reg_capacity (drain_start reason s) = reg_capacity s"
  "frame (drain_start reason s) = frame s"
  using cancel_all_settles [of "s\<lparr>reg_draining := True\<rparr>" reason "''cancelled''" "reg_ids (s\<lparr>reg_draining := True\<rparr>)"]
  by (simp_all add: drain_start_def Let_def settles_def frame_def)

lemma drain_inv: "reg_inv s \<Longrightarrow> reg_inv (drain_start reason s)"
proof -
  assume i: "reg_inv s"
  then have "list_all (\<lambda>p. aborted (snd p)) (reg_calls (drain_start reason s))"
    using drain_aborts by (auto simp: reg_inv_def)
  with i show ?thesis
    using drain_start_fields [of reason s]
    by (simp add: reg_inv_def frame_ids [OF drain_start_fields(3)] frame_tools [OF drain_start_fields(3)]
        frame_call_ids [OF drain_start_fields(3)] frame_length [OF drain_start_fields(3)])
qed

lemma reg_step_inv: "reg_inv s \<Longrightarrow> reg_inv (reg_step s e)"
proof (cases e)
  case (EvOpen fresh now callId tool org timeoutMs)
  assume "reg_inv s"
  then show ?thesis using open_call_inv EvOpen by (auto split: sum.split)
next
  case (EvTimer i)
  assume "reg_inv s"
  then show ?thesis
    using settles_inv [OF _ cancel_call_settles] EvTimer by (auto simp: timers_inv)
qed (auto simp: cancelOrigin_def cancelAuthority_def finish_call_inv bindPrincipal_inv drain_inv
    intro: settles_inv cancel_call_settles cancel_all_settles)


section \<open>The machine as an instance of the shared interfaces\<close>

lemma reg_le_settles: "settles s t \<Longrightarrow> reg_le s t"
  using frame_ids [of t s] by (simp add: reg_le_def settles_def)

lemma reg_le_refl: "reg_le s s"
  by (simp add: reg_le_def)

lemma reg_le_trans: "reg_le s t \<Longrightarrow> reg_le t u \<Longrightarrow> reg_le s u"
  by (auto simp: reg_le_def)

lemma reg_step_le: "reg_inv s \<Longrightarrow> reg_le s (reg_step s e)"
proof (cases e)
  case (EvOpen fresh now callId tool org timeoutMs)
  show ?thesis
  proof (cases "open_call fresh now callId tool org timeoutMs s")
    case (Inr t)
    then show ?thesis
      using EvOpen by (auto simp: reg_le_def elim: open_call_effect)
  qed (simp add: EvOpen reg_le_def)
next
  case (EvFinish i)
  then show ?thesis
    by (auto simp: reg_le_def finish_call_def reg_ids_def map_del_def split: option.split)
next
  case (EvBind i p)
  then show ?thesis by (auto simp: reg_le_def bindPrincipal_def split: option.split)
next
  case (EvTimer i)
  have "reg_le s (s\<lparr>reg_timers := ts\<rparr>)" for ts by (simp add: reg_le_def reg_ids_def)
  then have "reg_le s (fst (cancel_call i r c (s\<lparr>reg_timers := ts\<rparr>)))" for r c ts
    by (rule reg_le_trans) (rule reg_le_settles, rule cancel_call_settles)
  then show ?thesis using EvTimer by (simp add: reg_le_refl)
next
  case (EvDrain reason)
  then show ?thesis
    using drain_start_fields [of reason s] frame_ids [of "drain_start reason s" s] by (simp add: reg_le_def)
qed (auto simp: cancelOrigin_def cancelAuthority_def intro: reg_le_settles cancel_call_settles cancel_all_settles)

interpretation call_registry: monotone_machine reg_step reg_inv reg_le
proof unfold_locales
  show "reg_inv s \<Longrightarrow> reg_inv (reg_step s e)" for s e by (rule reg_step_inv)
  show "reg_le s s" for s by (rule reg_le_refl)
  show "reg_le s t \<Longrightarrow> reg_le t u \<Longrightarrow> reg_le s u" for s t u by (rule reg_le_trans)
  show "reg_inv s \<Longrightarrow> reg_le s (reg_step s e)" for s e by (rule reg_step_le)
qed

lemma cancel_call_other: "k \<noteq> i \<Longrightarrow> map_of (reg_calls (fst (cancel_call i r c s))) k = map_of (reg_calls s) k"
  by (auto simp: cancel_call_def map_of_upd_call split: option.split)

lemma cancel_all_other:
  "k \<notin> set is \<Longrightarrow> map_of (reg_calls (fst (cancel_all r c is s))) k = map_of (reg_calls s) k"
proof -
  have "k \<notin> set is \<Longrightarrow> map_of (reg_calls (foldl (\<lambda>s i. fst (cancel_call i r c s)) s is)) k = map_of (reg_calls s) k" for s
    by (induction "is" arbitrary: s) (auto simp: cancel_call_other)
  then show "k \<notin> set is \<Longrightarrow> ?thesis" by (simp add: cancel_all_fst)
qed

lemma settles_owner:
  assumes "settles s t" "map_of (reg_calls s) k = Some r" "map_of (reg_calls t) k = Some q"
  shows "call_owner q = call_owner r"
proof -
  have "map_of (map (\<lambda>p. (fst p, call_id (snd p), call_tool (snd p), call_origin (snd p), call_owner (snd p))) m) k
      = map_option (\<lambda>r. (call_id r, call_tool r, call_origin r, call_owner r)) (map_of m k)" for m
    by (induction m) auto
  then have f: "map_of (frame u) k = map_option (\<lambda>r. (call_id r, call_tool r, call_origin r, call_owner r)) (map_of (reg_calls u) k)" for u
    by (simp only: frame_def)
  have "frame t = frame s" using assms(1) by (simp add: settles_def)
  with f [of t] f [of s] assms(2,3) show ?thesis by simp
qed

lemma revoked_ids:
  assumes "reg_inv s" "map_of (reg_calls s) i = Some r"
  shows "i \<in> set (callIdsForAuthority (map snd (reg_calls s)) rv) \<longleftrightarrow> recordMatchesAuthorityRevocation (JObj (call_owner r)) rv"
proof -
  have d: "distinct (map fst (reg_calls s))" and k: "\<And>p. p \<in> set (reg_calls s) \<Longrightarrow> call_id (snd p) = fst p"
    using assms(1) by (auto simp: reg_inv_def reg_ids_def list_all_iff)
  have m: "(i, q) \<in> set (reg_calls s) \<longleftrightarrow> q = r" for q
    using map_of_eq_Some_iff [OF d, of i q] assms(2) by auto
  have "i \<in> set (callIdsForAuthority (map snd (reg_calls s)) rv) \<longleftrightarrow>
      (\<exists>p \<in> set (reg_calls s). call_id (snd p) = i \<and> recordMatchesAuthorityRevocation (JObj (call_owner (snd p))) rv)"
    by (auto simp: callIdsForAuthority_def image_iff)
  also have "\<dots> \<longleftrightarrow> (\<exists>q. (i, q) \<in> set (reg_calls s) \<and> recordMatchesAuthorityRevocation (JObj (call_owner q)) rv)"
    using k by force
  finally show ?thesis by (simp add: m)
qed

lemma new_registry_inv: "reg_inv (new_registry maximum reserved reservedTools)"
  using config_bounds(2,3,4) by (auto simp: reg_inv_def new_registry_def reg_ids_def reg_tools_def callCapacityConfig_def Let_def)


section \<open>Properties\<close>

text \<open>
  C12. Capacity: however the registry is used, from its creation on, it never holds more than the maximum number
  of calls, and calls to ordinary tools never use the reserved control-plane slots.
\<close>

lemma capacity_never_exceeded:
  "let s = foldl reg_step (new_registry maximum reserved reservedTools) es;
       c = callCapacityConfig maximum reserved reservedTools
   in reg_capacity s = c \<and> int (length (reg_calls s)) \<le> cap_maximum c
      \<and> (cap_reserved c = 0 \<or>
         int (length (filter (\<lambda>t. t \<notin> set reservedTools) (reg_tools s))) \<le> cap_maximum c - cap_reserved c)"
proof -
  let ?n = "new_registry maximum reserved reservedTools"
  have i: "reg_inv (foldl reg_step ?n es)" using new_registry_inv by (rule call_registry.run_inv)
  have "reg_le ?n (foldl reg_step ?n es)" using new_registry_inv by (rule call_registry.run_le)
  then have c: "reg_capacity (foldl reg_step ?n es) = callCapacityConfig maximum reserved reservedTools"
    by (simp add: reg_le_def new_registry_def)
  have "cap_reservedTools (callCapacityConfig maximum reserved reservedTools) = reservedTools"
    by (simp add: callCapacityConfig_def toolCallCapacityConfig_def Let_def)
  moreover have "0 \<le> cap_reserved (callCapacityConfig maximum reserved reservedTools)"
    by (simp add: callCapacityConfig_def Let_def config_bounds(1))
  then have "cap_reserved (callCapacityConfig maximum reserved reservedTools) = 0
      \<or> 0 < cap_reserved (callCapacityConfig maximum reserved reservedTools)" by linarith
  moreover have "cap_ordinaryMaximum (callCapacityConfig maximum reserved reservedTools)
       = cap_maximum (callCapacityConfig maximum reserved reservedTools)
         - cap_reserved (callCapacityConfig maximum reserved reservedTools)"
    by (simp add: callCapacityConfig_def Let_def config_bounds(4))
  ultimately show ?thesis using i c by (auto simp: reg_inv_def Let_def)
qed

text \<open>
  C14. A drained registry stays drained: after the drain every call is aborted, whatever happens next no call id
  appears that was not there when draining began, every remaining call is aborted, and opening fails.
\<close>

lemma drain_is_final:
  fixes es reason
  assumes "reg_inv s"
  defines "t \<equiv> foldl reg_step (drain_start reason s) es"
  shows "set (reg_ids t) \<subseteq> set (reg_ids s) \<and> (\<forall>p \<in> set (reg_calls t). call_abort (snd p) \<noteq> None)
     \<and> open_call fresh now i tool org timeout t = Inl (berr_retry ''unavailable'')"
proof -
  have i: "reg_inv (drain_start reason s)" using assms(1) by (rule drain_inv)
  have "reg_le (drain_start reason s) t" unfolding t_def using i by (rule call_registry.run_le)
  moreover have "reg_ids (drain_start reason s) = reg_ids s" using drain_start_fields(3) by (rule frame_ids)
  ultimately have l: "reg_draining t" "set (reg_ids t) \<subseteq> set (reg_ids s)"
    using drain_start_fields(1) by (auto simp: reg_le_def)
  have "reg_inv t" unfolding t_def using i by (rule call_registry.run_inv)
  with l show ?thesis by (auto simp: reg_inv_def list_all_iff aborted_def open_call_def assertCallRegistryOpen_def)
qed

lemma drain_is_final_witness:
  "\<not> is_ok (open_call ''f'' 0 ''a'' ''read_file'' ''relay'' JUndef
      (foldl reg_step (drain_start ''stop'' (new_registry JUndef JUndef [])) [EvFinish ''a'']))"
  using drain_is_final [OF new_registry_inv, of "''stop''" JUndef JUndef "[]" "[EvFinish ''a'']" "''f''" 0 "''a''" "''read_file''" "''relay''" JUndef]
  by simp

text \<open>
  C13. Revoking an authority aborts every call bound to it: no call in flight whose owner fields the revocation
  matches is left running, and calls of other owners are untouched.
\<close>

lemma revocation_aborts:
  assumes "reg_inv s" "map_of (reg_calls s) i = Some r"
  shows "\<exists>q. map_of (reg_calls (fst (cancelAuthority rv s))) i = Some q \<and> call_owner q = call_owner r
     \<and> (if recordMatchesAuthorityRevocation (JObj (call_owner r)) rv then call_abort q \<noteq> None else q = r)"
proof -
  let ?is = "callIdsForAuthority (map snd (reg_calls s)) rv"
  let ?t = "fst (cancelAuthority rv s)"
  have t: "?t = fst (cancel_all ''authority revoked'' ''authorization_denied'' ?is s)" by (simp add: cancelAuthority_def)
  have st: "settles s ?t" unfolding t by (rule cancel_all_settles)
  obtain q where q: "map_of (reg_calls ?t) i = Some q" using settles_lookup [OF st, of i] assms(2) by fastforce
  have "call_abort q \<noteq> None" if "i \<in> set ?is"
    using cancel_all_aborts [OF that] q unfolding t aborted_def by blast
  moreover have "q = r" if "i \<notin> set ?is"
    using cancel_all_other [OF that] q assms(2) unfolding t by simp
  ultimately show ?thesis
    using q settles_owner [OF st assms(2) q] revoked_ids [OF assms] by auto
qed

definition sample_registry :: registry where
  "sample_registry = foldl reg_step (new_registry JUndef JUndef [])
     [EvOpen ''f'' 0 ''a'' ''read_file'' ''relay'' JUndef,
      EvBind ''a'' (JObj [(''kind'', JStr ''account''), (''accountId'', JStr (accountId (sample_account ''editor''))),
        (''accountVersion'', JNum (Fin 3)), (''clientId'', JStr (clientId (sample_account ''editor''))),
        (''familyId'', JStr (familyId (sample_account ''editor'')))])]"

lemma revocation_aborts_witness:
  "\<exists>q. map_of (reg_calls (fst (cancelAuthority (normalizeAuthorityRevocation (sample_authorization ''editor'')) sample_registry))) ''a''
      = Some q \<and> call_abort q \<noteq> None"
proof -
  have i: "reg_inv sample_registry" unfolding sample_registry_def by (rule call_registry.run_inv) (rule new_registry_inv)
  have m: "case map_of (reg_calls sample_registry) ''a'' of None \<Rightarrow> False
     | Some r \<Rightarrow> recordMatchesAuthorityRevocation (JObj (call_owner r)) (normalizeAuthorityRevocation (sample_authorization ''editor''))"
    by code_simp
  then obtain r where r: "map_of (reg_calls sample_registry) ''a'' = Some r"
    and h: "recordMatchesAuthorityRevocation (JObj (call_owner r)) (normalizeAuthorityRevocation (sample_authorization ''editor''))"
    by (cases "map_of (reg_calls sample_registry) ''a''") simp_all
  from revocation_aborts [OF i r, of "normalizeAuthorityRevocation (sample_authorization ''editor'')"] h
  show ?thesis by auto
qed

end
