(* ===== verification/ToolSchema.thy ===== *)
theory ToolSchema
  imports Interfaces
begin

text \<open>
  Compilation of tool input schemas (\<open>src/shared/tool-argument-validation.mjs\<close>): the limits, the
  compiled node, and \<open>compileSchema\<close> with its node and depth limits.  A compiled node is a datatype over its
  children, so validators and specifications are maps over it.  A contract error is kept as the tag of
  the check that raised it; the labels in its text are not modelled.  The check that a pattern is a regular
  expression is an argument (\<open>validRegExp\<close>).
\<close>

section \<open>Limits\<close>

record limits =
  maximumDepth :: nat
  maximumNodes :: nat
  maximumIssues :: nat
  maximumPatternLength :: nat
  maximumValidationSteps :: nat

definition DEFAULT_LIMITS :: limits where
  "DEFAULT_LIMITS = \<lparr>maximumDepth = 32, maximumNodes = 4096, maximumIssues = 16, maximumPatternLength = 2048,
     maximumValidationSteps = 65536\<rparr>"

definition limit_value :: "jsv \<Rightarrow> string \<Rightarrow> nat \<Rightarrow> nat" where
  "limit_value v key fallback =
     (let candidate = js_Number (js_get v key)
      in if num_isInteger candidate \<and> num_lt (Fin 0) candidate then nat \<lfloor>the (fin_of candidate)\<rfloor> else fallback)"

definition normalizeLimits :: "jsv \<Rightarrow> limits" where
  "normalizeLimits v =
     \<lparr>maximumDepth = limit_value v ''maximumDepth'' (maximumDepth DEFAULT_LIMITS),
      maximumNodes = limit_value v ''maximumNodes'' (maximumNodes DEFAULT_LIMITS),
      maximumIssues = limit_value v ''maximumIssues'' (maximumIssues DEFAULT_LIMITS),
      maximumPatternLength = limit_value v ''maximumPatternLength'' (maximumPatternLength DEFAULT_LIMITS),
      maximumValidationSteps = limit_value v ''maximumValidationSteps'' (maximumValidationSteps DEFAULT_LIMITS)\<rparr>"

section \<open>Nodes\<close>

datatype 'c kws = Kws
  (k_types: "string list option")
  (k_const: "jsv option")
  (k_enum: "jsv list option")
  (k_pattern: "string option")
  (k_minLength: "nat option") (k_maxLength: "nat option")
  (k_minItems: "nat option") (k_maxItems: "nat option")
  (k_minProperties: "nat option") (k_maxProperties: "nat option")
  (k_minimum: "jnum option") (k_maximum: "jnum option")
  (k_exclusiveMinimum: "jnum option") (k_exclusiveMaximum: "jnum option")
  (k_multipleOf: "jnum option")
  (k_properties: "(string \<times> 'c) list option")
  (k_required: "string list option")
  (k_additional: "(bool + 'c) option")
  (k_items: "'c option")
  (k_allOf: "'c list option") (k_anyOf: "'c list option") (k_oneOf: "'c list option")
  (k_not: "'c option") (k_if: "'c option") (k_then: "'c option") (k_else: "'c option")

datatype node = BoolNode bool | Node "node kws"

section \<open>Equality of JSON values\<close>

text \<open>
  \<open>jsonEqual\<close>: the same number in the sense of \<open>Object.is\<close>, element-wise on arrays, and on objects the same
  keys with equal values, in any order.
\<close>

primrec jsonEqual :: "jsv \<Rightarrow> jsv \<Rightarrow> bool" where
  "jsonEqual JUndef = (\<lambda>r. r = JUndef)"
| "jsonEqual JNull = (\<lambda>r. r = JNull)"
| "jsonEqual (JBool b) = (\<lambda>r. r = JBool b)"
| "jsonEqual (JNum x) = (\<lambda>r. r = JNum x)"
| "jsonEqual (JStr s) = (\<lambda>r. r = JStr s)"
| "jsonEqual (JArr xs) = (\<lambda>r. case r of
     JArr ys \<Rightarrow> length xs = length ys \<and> list_all (\<lambda>(f, y). f y) (zip (map jsonEqual xs) ys) | _ \<Rightarrow> False)"
| "jsonEqual (JObj ps) = (\<lambda>r. case r of
     JObj qs \<Rightarrow> length ps = length qs
       \<and> list_all (\<lambda>(k, f). case map_of qs k of Some w \<Rightarrow> f w | None \<Rightarrow> False) (map (map_prod id jsonEqual) ps)
   | _ \<Rightarrow> False)"

section \<open>Compilation\<close>

definition SUPPORTED_TYPES :: "string list" where
  "SUPPORTED_TYPES = [''null'', ''boolean'', ''object'', ''array'', ''number'', ''integer'', ''string'']"

definition SUPPORTED_KEYWORDS :: "string list" where
  "SUPPORTED_KEYWORDS = [''$schema'', ''type'', ''enum'', ''const'', ''default'', ''title'', ''description'',
     ''properties'', ''required'', ''additionalProperties'', ''items'',
     ''minItems'', ''maxItems'', ''minLength'', ''maxLength'', ''pattern'',
     ''minimum'', ''maximum'', ''exclusiveMinimum'', ''exclusiveMaximum'', ''multipleOf'',
     ''minProperties'', ''maxProperties'', ''allOf'', ''anyOf'', ''oneOf'', ''not'',
     ''if'', ''then'', ''else'', ''x-mcp-header'']"

definition JSON_SCHEMA_2020_12 :: string where
  "JSON_SCHEMA_2020_12 = ''https://json-schema.org/draft/2020-12/schema''"

type_synonym contract_error = string

text \<open>The number of nodes compiled so far is threaded through.\<close>

type_synonym 'a compiled = "nat \<Rightarrow> contract_error + ('a \<times> nat)"

definition c_return :: "'a \<Rightarrow> 'a compiled" where
  "c_return x = (\<lambda>n. Inr (x, n))"

definition c_fail :: "contract_error \<Rightarrow> 'a compiled" where
  "c_fail e = (\<lambda>n. Inl e)"

definition c_bind :: "'a compiled \<Rightarrow> ('a \<Rightarrow> 'b compiled) \<Rightarrow> 'b compiled" where
  "c_bind m f = (\<lambda>n. case m n of Inl e \<Rightarrow> Inl e | Inr (x, n') \<Rightarrow> f x n')"

fun c_map :: "('a \<Rightarrow> 'b compiled) \<Rightarrow> 'a list \<Rightarrow> 'b list compiled" where
  "c_map f [] = c_return []"
| "c_map f (x # xs) = c_bind (f x) (\<lambda>y. c_bind (c_map f xs) (\<lambda>ys. c_return (y # ys)))"

text \<open>A keyword that is present only when its value is not undefined.\<close>

definition c_opt :: "(jsv \<Rightarrow> 'a compiled) \<Rightarrow> jsv \<Rightarrow> 'a option compiled" where
  "c_opt f v = (if v = JUndef then c_return None else c_bind (f v) (\<lambda>x. c_return (Some x)))"

definition compileTypes :: "jsv \<Rightarrow> string list option compiled" where
  "compileTypes v =
     (if v = JUndef then c_return None
      else (let values = (if isArray v then arr_elems v else [v]) in
        if values = [] \<or> \<not> list_all (\<lambda>t. case t of JStr s \<Rightarrow> s \<in> set SUPPORTED_TYPES | _ \<Rightarrow> False) values
        then c_fail ''type''
        else if \<not> distinct values then c_fail ''type_duplicates''
        else c_return (Some (map (\<lambda>t. case t of JStr s \<Rightarrow> s | _ \<Rightarrow> []) values))))"

fun enum_duplicates :: "jsv list \<Rightarrow> bool" where
  "enum_duplicates [] = False"
| "enum_duplicates (v # vs) = (list_ex (jsonEqual v) vs \<or> enum_duplicates vs)"

definition compileEnum :: "jsv \<Rightarrow> jsv list compiled" where
  "compileEnum v =
     (if \<not> isArray v \<or> arr_elems v = [] then c_fail ''enum''
      else if enum_duplicates (arr_elems v) then c_fail ''enum_duplicates''
      else c_return (arr_elems v))"

definition validateDialect :: "jsv \<Rightarrow> unit compiled" where
  "validateDialect v =
     (if v = JUndef \<or> v = JStr JSON_SCHEMA_2020_12 \<or> v = JStr (JSON_SCHEMA_2020_12 @ ''#'') then c_return ()
      else c_fail ''dialect'')"

definition compile_pattern :: "(string \<Rightarrow> bool) \<Rightarrow> limits \<Rightarrow> jsv \<Rightarrow> string compiled" where
  "compile_pattern validRegExp lm v = (case v of
     JStr s \<Rightarrow> if length s > maximumPatternLength lm then c_fail ''pattern''
               else if validRegExp s then c_return s else c_fail ''pattern_syntax''
   | _ \<Rightarrow> c_fail ''pattern'')"

definition compile_count :: "jsv \<Rightarrow> nat compiled" where
  "compile_count v = (case v of
     JNum x \<Rightarrow> if num_isInteger x \<and> \<not> num_lt x (Fin 0) then c_return (nat \<lfloor>the (fin_of x)\<rfloor>) else c_fail ''count''
   | _ \<Rightarrow> c_fail ''count'')"

definition finiteNumber :: "jsv \<Rightarrow> jnum compiled" where
  "finiteNumber v = (case v of JNum x \<Rightarrow> if isFinite x then c_return x else c_fail ''number'' | _ \<Rightarrow> c_fail ''number'')"

definition compile_multipleOf :: "jsv \<Rightarrow> jnum compiled" where
  "compile_multipleOf v = c_bind (finiteNumber v) (\<lambda>x. if num_le x (Fin 0) then c_fail ''multipleOf'' else c_return x)"

definition compile_required :: "jsv \<Rightarrow> string list compiled" where
  "compile_required v =
     (if \<not> isArray v \<or> \<not> list_all (\<lambda>x. case x of JStr _ \<Rightarrow> True | _ \<Rightarrow> False) (arr_elems v) then c_fail ''required''
      else if \<not> distinct (arr_elems v) then c_fail ''required_duplicates''
      else c_return (map (\<lambda>x. case x of JStr s \<Rightarrow> s | _ \<Rightarrow> []) (arr_elems v)))"

definition compile_properties :: "(jsv \<Rightarrow> node compiled) \<Rightarrow> jsv \<Rightarrow> (string \<times> node) list compiled" where
  "compile_properties rec v =
     (if \<not> isRecord v then c_fail ''properties''
      else c_map (\<lambda>(k, child). c_bind (rec child) (\<lambda>x. c_return (k, x))) (obj_entries v))"

definition compile_additional :: "(jsv \<Rightarrow> node compiled) \<Rightarrow> jsv \<Rightarrow> (bool + node) compiled" where
  "compile_additional rec v = (case v of
     JBool b \<Rightarrow> c_return (Inl b) | _ \<Rightarrow> c_bind (rec v) (\<lambda>x. c_return (Inr x)))"

definition compile_branches :: "(jsv \<Rightarrow> node compiled) \<Rightarrow> jsv \<Rightarrow> node list compiled" where
  "compile_branches rec v =
     (if \<not> isArray v \<or> arr_elems v = [] then c_fail ''branches'' else c_map rec (arr_elems v))"

text \<open>The keywords of a schema, in the order the source reads them; \<open>rec\<close> compiles a child one level deeper.\<close>

definition compile_keywords ::
  "(string \<Rightarrow> bool) \<Rightarrow> limits \<Rightarrow> (jsv \<Rightarrow> node compiled) \<Rightarrow> jsv \<Rightarrow> node compiled" where
  "compile_keywords validRegExp lm rec s =
     c_bind (validateDialect (js_get s ''$schema'')) (\<lambda>_.
     c_bind (compileTypes (js_get s ''type'')) (\<lambda>types.
     let const = (if hasOwn s ''const'' then Some (js_get s ''const'') else None) in
     c_bind (if hasOwn s ''enum'' then c_bind (compileEnum (js_get s ''enum'')) (\<lambda>x. c_return (Some x)) else c_return None) (\<lambda>enum.
     c_bind (c_opt (compile_pattern validRegExp lm) (js_get s ''pattern'')) (\<lambda>pattern.
     c_bind (c_opt compile_count (js_get s ''minLength'')) (\<lambda>minL.
     c_bind (c_opt compile_count (js_get s ''maxLength'')) (\<lambda>maxL.
     c_bind (c_opt compile_count (js_get s ''minItems'')) (\<lambda>minI.
     c_bind (c_opt compile_count (js_get s ''maxItems'')) (\<lambda>maxI.
     c_bind (c_opt compile_count (js_get s ''minProperties'')) (\<lambda>minP.
     c_bind (c_opt compile_count (js_get s ''maxProperties'')) (\<lambda>maxP.
     c_bind (c_opt finiteNumber (js_get s ''minimum'')) (\<lambda>mn.
     c_bind (c_opt finiteNumber (js_get s ''maximum'')) (\<lambda>mx.
     c_bind (c_opt finiteNumber (js_get s ''exclusiveMinimum'')) (\<lambda>emn.
     c_bind (c_opt finiteNumber (js_get s ''exclusiveMaximum'')) (\<lambda>emx.
     c_bind (c_opt compile_multipleOf (js_get s ''multipleOf'')) (\<lambda>mult.
     c_bind (c_opt (compile_properties rec) (js_get s ''properties'')) (\<lambda>props.
     c_bind (c_opt compile_required (js_get s ''required'')) (\<lambda>req.
     c_bind (c_opt (compile_additional rec) (js_get s ''additionalProperties'')) (\<lambda>addl.
     c_bind (c_opt rec (js_get s ''items'')) (\<lambda>items.
     c_bind (c_opt (compile_branches rec) (js_get s ''allOf'')) (\<lambda>allOf.
     c_bind (c_opt (compile_branches rec) (js_get s ''anyOf'')) (\<lambda>anyOf.
     c_bind (c_opt (compile_branches rec) (js_get s ''oneOf'')) (\<lambda>oneOf.
     c_bind (c_opt rec (js_get s ''not'')) (\<lambda>nt.
     c_bind (c_opt rec (js_get s ''if'')) (\<lambda>i.
     c_bind (c_opt rec (js_get s ''then'')) (\<lambda>t.
     c_bind (c_opt rec (js_get s ''else'')) (\<lambda>e.
       c_return (Node (Kws types const enum pattern minL maxL minI maxI minP maxP mn mx emn emx mult
         props req addl items allOf anyOf oneOf nt i t e))))))))))))))))))))))))))))"

text \<open>\<open>levels\<close> is how many levels may still be entered: the maximum depth plus one, less the depth of the schema.\<close>

primrec compileSchema :: "(string \<Rightarrow> bool) \<Rightarrow> limits \<Rightarrow> nat \<Rightarrow> jsv \<Rightarrow> node compiled" where
  "compileSchema validRegExp lm 0 s = (case s of
     JBool b \<Rightarrow> c_return (BoolNode b) | JObj _ \<Rightarrow> c_fail ''depth'' | _ \<Rightarrow> c_fail ''schema'')"
| "compileSchema validRegExp lm (Suc levels) s = (case s of
     JBool b \<Rightarrow> c_return (BoolNode b)
   | JObj _ \<Rightarrow> (\<lambda>n.
        if n + 1 > maximumNodes lm then Inl ''node_count''
        else if \<not> list_all (\<lambda>k. k \<in> set SUPPORTED_KEYWORDS) (map fst (obj_entries s)) then Inl ''keyword''
        else compile_keywords validRegExp lm (compileSchema validRegExp lm levels) s (n + 1))
   | _ \<Rightarrow> c_fail ''schema'')"

text \<open>The catalog: one compiled schema per tool, which must declare the type object.\<close>

definition has_object_type :: "node \<Rightarrow> bool" where
  "has_object_type x = (case x of
     Node k \<Rightarrow> (case k_types k of Some ts \<Rightarrow> ''object'' \<in> set ts | None \<Rightarrow> False) | BoolNode _ \<Rightarrow> False)"

definition compile_tool :: "(string \<Rightarrow> bool) \<Rightarrow> limits \<Rightarrow> (string \<times> node) list \<Rightarrow> jsv \<Rightarrow> (string \<times> node) list compiled" where
  "compile_tool validRegExp lm validators tool =
     (case js_get tool ''name'' of
        JStr name \<Rightarrow>
          if \<not> isRecord tool \<or> name = [] then c_fail ''tool''
          else if map_of validators name \<noteq> None then c_fail ''duplicate_tool''
          else (let s = (if js_get tool ''inputSchema'' \<in> {JUndef, JNull} then JObj [(''type'', JStr ''object'')]
                         else js_get tool ''inputSchema'')
                in c_bind (compileSchema validRegExp lm (maximumDepth lm + 1) s) (\<lambda>x.
                  if \<not> has_object_type x then c_fail ''object_type'' else c_return (map_set name x validators)))
      | _ \<Rightarrow> c_fail ''tool'')"

fun compile_tools :: "(string \<Rightarrow> bool) \<Rightarrow> limits \<Rightarrow> (string \<times> node) list \<Rightarrow> jsv list \<Rightarrow> (string \<times> node) list compiled" where
  "compile_tools validRegExp lm vs [] = c_return vs"
| "compile_tools validRegExp lm vs (t # ts) =
     c_bind (compile_tool validRegExp lm vs t) (\<lambda>vs'. compile_tools validRegExp lm vs' ts)"

definition compileToolArgumentValidators ::
  "(string \<Rightarrow> bool) \<Rightarrow> jsv \<Rightarrow> jsv \<Rightarrow> contract_error + (string \<times> node) list" where
  "compileToolArgumentValidators validRegExp tools options =
     (if \<not> isArray tools then Inl ''catalog''
      else map_sum id fst (compile_tools validRegExp (normalizeLimits options) [] (arr_elems tools) 0))"

end
