(* ===== verification/ToolValidation.thy ===== *)
theory ToolValidation
  imports ToolSchema
begin

text \<open>
  Validation of tool arguments against a compiled schema (\<open>validateNode\<close> and its helpers in
  \<open>src/shared/tool-argument-validation.mjs\<close>) with its bounded issue list and work budget.  The state of a
  run is the list of issues and the remaining budget; exhausting the budget throws, which is the left
  case and carries the issues found so far.  The text of an issue's message is not modelled; the regular
  expression test is an argument.
\<close>

section \<open>State and issues\<close>

record issue =
  instancePath :: string
  issue_keyword :: string

type_synonym vstate = "issue list \<times> nat"
type_synonym 'a vresult = "issue list + ('a \<times> vstate)"

text \<open>A validator takes the value, its path, the maximum number of issues and the state.\<close>

type_synonym validator = "jsv \<Rightarrow> string \<Rightarrow> nat \<Rightarrow> vstate \<Rightarrow> unit vresult"

definition pushIssue :: "nat \<Rightarrow> string \<Rightarrow> string \<Rightarrow> issue list \<Rightarrow> issue list" where
  "pushIssue m path kw issues =
     (if length issues \<ge> m then issues else issues @ [\<lparr>instancePath = path, issue_keyword = kw\<rparr>])"

text \<open>A check that only pushes an issue when its condition fails.\<close>

definition require :: "nat \<Rightarrow> string \<Rightarrow> string \<Rightarrow> bool \<Rightarrow> vstate \<Rightarrow> unit vresult" where
  "require m path kw holds st = Inr ((), (if holds then fst st else pushIssue m path kw (fst st)), snd st)"

definition v_seq :: "(vstate \<Rightarrow> unit vresult) \<Rightarrow> (vstate \<Rightarrow> unit vresult) \<Rightarrow> vstate \<Rightarrow> unit vresult" where
  "v_seq g h st = (case g st of Inl issues \<Rightarrow> Inl issues | Inr (_, st') \<Rightarrow> h st')"

definition v_skip :: "vstate \<Rightarrow> unit vresult" where
  "v_skip st = Inr ((), st)"

definition spend :: "vstate \<Rightarrow> unit vresult" where
  "spend st = (if snd st \<le> 0 then Inl (fst st) else Inr ((), fst st, snd st - 1))"

fun v_all :: "(vstate \<Rightarrow> unit vresult) list \<Rightarrow> vstate \<Rightarrow> unit vresult" where
  "v_all [] = v_skip"
| "v_all (g # gs) = v_seq g (v_all gs)"

definition escapePointer :: "string \<Rightarrow> string" where
  "escapePointer s = concat (map (\<lambda>c. if c = CHR ''~'' then ''~0'' else if c = CHR ''/'' then ''~1'' else [c]) s)"

section \<open>Types and scalars\<close>

definition matchesType :: "string \<Rightarrow> jsv \<Rightarrow> bool" where
  "matchesType t v =
     (if t = ''null'' then v = JNull
      else if t = ''array'' then isArray v
      else if t = ''object'' then isRecord v
      else if t = ''integer'' then isInteger v
      else if t = ''number'' then (case v of JNum x \<Rightarrow> isFinite x | _ \<Rightarrow> False)
      else (case v of JBool _ \<Rightarrow> t = ''boolean'' | JStr _ \<Rightarrow> t = ''string'' | _ \<Rightarrow> False))"

text \<open>
  \<open>boundedCodePointLength\<close> on UTF-16 code units: a leading surrogate followed by a trailing one is one
  code point of two units, and the loop stops as soon as the length decides both bounds.
\<close>

definition is_lead :: "nat \<Rightarrow> bool" where "is_lead u = (55296 \<le> u \<and> u \<le> 56319)"
definition is_trail :: "nat \<Rightarrow> bool" where "is_trail u = (56320 \<le> u \<and> u \<le> 57343)"

definition point_width :: "nat list \<Rightarrow> nat" where
  "point_width us = (case us of u # w # _ \<Rightarrow> if is_lead u \<and> is_trail w then 2 else 1 | _ \<Rightarrow> 1)"

function code_points :: "nat option \<Rightarrow> nat \<Rightarrow> nat list \<Rightarrow> nat" where
  "code_points stop n us =
     (if us = [] \<or> (case stop of None \<Rightarrow> False | Some k \<Rightarrow> n \<ge> k) then n
      else code_points stop (n + 1) (drop (point_width us) us))"
  by pat_completeness auto
termination
  by (relation "measure (\<lambda>(stop, n, us). length us)") (auto simp: point_width_def split: list.split)

declare code_points.simps [simp del]

definition boundedCodePointLength :: "nat list \<Rightarrow> nat option \<Rightarrow> nat option \<Rightarrow> nat" where
  "boundedCodePointLength us minimum maximum =
     code_points (case maximum of Some k \<Rightarrow> Some (k + 1) | None \<Rightarrow> minimum) 0 us"

definition units :: "string \<Rightarrow> nat list" where
  "units s = map of_char s"

definition validateString :: "(string \<Rightarrow> string \<Rightarrow> bool) \<Rightarrow> 'c kws \<Rightarrow> string \<Rightarrow> string \<Rightarrow> nat \<Rightarrow> vstate \<Rightarrow> unit vresult" where
  "validateString regexTest k s path m =
     (let len = boundedCodePointLength (units s) (k_minLength k) (k_maxLength k) in
      v_all
       [require m path ''minLength'' (case k_minLength k of Some n \<Rightarrow> \<not> len < n | None \<Rightarrow> True),
        require m path ''maxLength'' (case k_maxLength k of Some n \<Rightarrow> \<not> len > n | None \<Rightarrow> True),
        require m path ''pattern'' (case k_pattern k of Some p \<Rightarrow> regexTest p s | None \<Rightarrow> True)])"

text \<open>\<open>Math.round\<close> and the tolerance of \<open>isMultipleOf\<close>, on exact quotients.\<close>

definition math_round :: "rat \<Rightarrow> int" where
  "math_round q = \<lfloor>q + 1 / 2\<rfloor>"

definition isMultipleOf :: "jnum \<Rightarrow> jnum \<Rightarrow> bool" where
  "isMultipleOf v d = (case (fin_of v, fin_of d) of
     (Some q, Some e) \<Rightarrow>
       (let x = q / e in \<bar>x - of_int (math_round x)\<bar> \<le> (1 / 2 ^ 52) * max 1 \<bar>x\<bar> * 4)
   | _ \<Rightarrow> False)"

definition validateNumber :: "'c kws \<Rightarrow> jnum \<Rightarrow> string \<Rightarrow> nat \<Rightarrow> vstate \<Rightarrow> unit vresult" where
  "validateNumber k x path m =
     (if \<not> isFinite x then require m path ''type'' False
      else v_all
       [require m path ''minimum'' (case k_minimum k of Some y \<Rightarrow> \<not> num_lt x y | None \<Rightarrow> True),
        require m path ''maximum'' (case k_maximum k of Some y \<Rightarrow> \<not> num_lt y x | None \<Rightarrow> True),
        require m path ''exclusiveMinimum'' (case k_exclusiveMinimum k of Some y \<Rightarrow> \<not> num_le x y | None \<Rightarrow> True),
        require m path ''exclusiveMaximum'' (case k_exclusiveMaximum k of Some y \<Rightarrow> \<not> num_le y x | None \<Rightarrow> True),
        require m path ''multipleOf'' (case k_multipleOf k of Some d \<Rightarrow> isMultipleOf x d | None \<Rightarrow> True)])"

section \<open>Arrays and objects\<close>

definition validateArray :: "validator kws \<Rightarrow> jsv list \<Rightarrow> string \<Rightarrow> nat \<Rightarrow> vstate \<Rightarrow> unit vresult" where
  "validateArray k vs path m =
     v_all
      [require m path ''minItems'' (case k_minItems k of Some n \<Rightarrow> \<not> length vs < n | None \<Rightarrow> True),
       require m path ''maxItems'' (case k_maxItems k of Some n \<Rightarrow> \<not> length vs > n | None \<Rightarrow> True),
       (case k_items k of None \<Rightarrow> v_skip
        | Some f \<Rightarrow> v_all (map (\<lambda>(i, v). f v (path @ ''/'' @ nat_string i) m) (enumerate 0 vs)))]"

definition validate_property :: "validator kws \<Rightarrow> string \<times> jsv \<Rightarrow> string \<Rightarrow> nat \<Rightarrow> vstate \<Rightarrow> unit vresult" where
  "validate_property k p path m =
     (let here = path @ ''/'' @ escapePointer (fst p);
          child = Option.bind (k_properties k) (\<lambda>ps. map_of ps (fst p))
      in v_seq spend
          (case child of
             Some f \<Rightarrow> f (snd p) here m
           | None \<Rightarrow> (case k_additional k of
                 Some (Inl False) \<Rightarrow> require m here ''additionalProperties'' False
               | Some (Inr f) \<Rightarrow> f (snd p) here m
               | _ \<Rightarrow> v_skip)))"

definition validateObject :: "validator kws \<Rightarrow> (string \<times> jsv) list \<Rightarrow> string \<Rightarrow> nat \<Rightarrow> vstate \<Rightarrow> unit vresult" where
  "validateObject k ps path m =
     v_all
      [v_all (map (\<lambda>r. require m path ''required'' (r \<in> set (map fst ps))) (case k_required k of None \<Rightarrow> [] | Some rs \<Rightarrow> rs)),
       v_all (map (\<lambda>p. validate_property k p path m) ps),
       require m path ''minProperties'' (case k_minProperties k of Some n \<Rightarrow> \<not> length ps < n | None \<Rightarrow> True),
       require m path ''maxProperties'' (case k_maxProperties k of Some n \<Rightarrow> \<not> length ps > n | None \<Rightarrow> True)]"

section \<open>Composition\<close>

text \<open>\<open>isValid\<close> collects at most one issue of its own and shares the budget.\<close>

definition isValid :: "validator \<Rightarrow> jsv \<Rightarrow> vstate \<Rightarrow> bool vresult" where
  "isValid f v st = (case f v [] 1 ([], snd st) of
     Inl _ \<Rightarrow> Inl (fst st)
   | Inr (_, own, b) \<Rightarrow> Inr (own = [], fst st, b))"

fun some_valid :: "validator list \<Rightarrow> jsv \<Rightarrow> vstate \<Rightarrow> bool vresult" where
  "some_valid [] v st = Inr (False, st)"
| "some_valid (f # fs) v st = (case isValid f v st of
     Inl issues \<Rightarrow> Inl issues
   | Inr (ok, st') \<Rightarrow> if ok then Inr (True, st') else some_valid fs v st')"

fun count_valid :: "validator list \<Rightarrow> jsv \<Rightarrow> nat \<Rightarrow> vstate \<Rightarrow> nat vresult" where
  "count_valid [] v n st = Inr (n, st)"
| "count_valid (f # fs) v n st = (case isValid f v st of
     Inl issues \<Rightarrow> Inl issues
   | Inr (ok, st') \<Rightarrow> count_valid fs v (if ok then n + 1 else n) st')"

definition v_then :: "(vstate \<Rightarrow> 'a vresult) \<Rightarrow> ('a \<Rightarrow> vstate \<Rightarrow> unit vresult) \<Rightarrow> vstate \<Rightarrow> unit vresult" where
  "v_then g h st = (case g st of Inl issues \<Rightarrow> Inl issues | Inr (x, st') \<Rightarrow> h x st')"

definition validateComposition :: "validator kws \<Rightarrow> jsv \<Rightarrow> string \<Rightarrow> nat \<Rightarrow> vstate \<Rightarrow> unit vresult" where
  "validateComposition k v path m =
     v_all
      [(case k_allOf k of None \<Rightarrow> v_skip | Some fs \<Rightarrow> v_all (map (\<lambda>f. f v path m) fs)),
       (case k_anyOf k of None \<Rightarrow> v_skip
        | Some fs \<Rightarrow> v_then (some_valid fs v) (\<lambda>ok. require m path ''anyOf'' ok)),
       (case k_oneOf k of None \<Rightarrow> v_skip
        | Some fs \<Rightarrow> v_then (count_valid fs v 0) (\<lambda>n. require m path ''oneOf'' (n = 1))),
       (case k_not k of None \<Rightarrow> v_skip
        | Some f \<Rightarrow> v_then (isValid f v) (\<lambda>ok. require m path ''not'' (\<not> ok))),
       (case k_if k of None \<Rightarrow> v_skip
        | Some f \<Rightarrow> v_then (isValid f v) (\<lambda>ok.
            case (if ok then k_then k else k_else k) of None \<Rightarrow> v_skip | Some g \<Rightarrow> g v path m))]"

section \<open>Nodes\<close>

definition validate_value :: "(string \<Rightarrow> string \<Rightarrow> bool) \<Rightarrow> validator kws \<Rightarrow> validator" where
  "validate_value regexTest k v path m =
     v_all
      [require m path ''const'' (case k_const k of Some c \<Rightarrow> jsonEqual v c | None \<Rightarrow> True),
       require m path ''enum'' (case k_enum k of Some cs \<Rightarrow> list_ex (jsonEqual v) cs | None \<Rightarrow> True),
       (case v of JStr s \<Rightarrow> validateString regexTest k s path m | _ \<Rightarrow> v_skip),
       (case v of JNum x \<Rightarrow> validateNumber k x path m | _ \<Rightarrow> v_skip),
       (case v of JArr vs \<Rightarrow> validateArray k vs path m | JObj ps \<Rightarrow> validateObject k ps path m | _ \<Rightarrow> v_skip),
       validateComposition k v path m]"

definition validate_kws :: "(string \<Rightarrow> string \<Rightarrow> bool) \<Rightarrow> validator kws \<Rightarrow> validator" where
  "validate_kws regexTest k v path m =
     (case k_types k of
        Some ts \<Rightarrow> if \<not> list_ex (\<lambda>t. matchesType t v) ts then require m path ''type'' False
                   else validate_value regexTest k v path m
      | None \<Rightarrow> validate_value regexTest k v path m)"

text \<open>The entry of \<open>validateNode\<close>: nothing is done once the issue list is full; otherwise one step is spent.\<close>

definition entry :: "validator \<Rightarrow> validator" where
  "entry f v path m st = (if length (fst st) \<ge> m then Inr ((), st) else v_seq spend (f v path m) st)"

primrec validateNode :: "(string \<Rightarrow> string \<Rightarrow> bool) \<Rightarrow> node \<Rightarrow> validator" where
  "validateNode regexTest (BoolNode b) = entry (\<lambda>v path m. require m path ''falseSchema'' b)"
| "validateNode regexTest (Node k) = entry (validate_kws regexTest (map_kws (validateNode regexTest) k))"

record verdict =
  known :: bool
  valid :: bool
  issues :: "issue list"

definition validate :: "(string \<Rightarrow> string \<Rightarrow> bool) \<Rightarrow> limits \<Rightarrow> (string \<times> node) list \<Rightarrow> string \<Rightarrow> jsv \<Rightarrow> verdict" where
  "validate regexTest lm validators tool v =
     (case map_of validators tool of
        None \<Rightarrow> \<lparr>known = False, valid = False, issues = []\<rparr>
      | Some n \<Rightarrow>
         (let found = (case validateNode regexTest n v [] (maximumIssues lm) ([], maximumValidationSteps lm) of
              Inl is \<Rightarrow> pushIssue (maximumIssues lm) [] ''validationBudget'' is
            | Inr (_, is, _) \<Rightarrow> is)
          in \<lparr>known = True, valid = (found = []), issues = found\<rparr>))"

text \<open>The failures of \<open>assert\<close>: an unknown tool, or the issues found, which the error carries with the tool.\<close>

datatype validation_failure =
    UnknownToolSchema
  | ToolArgumentValidationError string "issue list"

definition assert_arguments :: "(string \<Rightarrow> string \<Rightarrow> bool) \<Rightarrow> limits \<Rightarrow> (string \<times> node) list \<Rightarrow> string \<Rightarrow> jsv \<Rightarrow> validation_failure + jsv" where
  "assert_arguments regexTest lm validators tool v =
     (let r = validate regexTest lm validators tool v in
      if \<not> known r then Inl UnknownToolSchema
      else if \<not> valid r then Inl (ToolArgumentValidationError tool (issues r))
      else Inr v)"

end
