(* ===== verification/ToolValidationSpec.thy ===== *)
theory ToolValidationSpec
  imports ToolValidation
begin

text \<open>
  What the tool argument validator of \<open>src/shared/tool-argument-validation.mjs\<close> promises: the relation \<open>sat\<close>
  between schemas and values, the proof that every stage of \<open>validateNode\<close> decides it within the issue limit,
  the work of a schema on a value, which bounds the budget a run needs, and the shape of a compiled catalog.
\<close>

section \<open>The specification\<close>

text \<open>What it means for a value to satisfy a schema, with no limits, issues or budget.\<close>

definition sat_number :: "'c kws \<Rightarrow> jnum \<Rightarrow> bool" where
  "sat_number k x = (isFinite x
     \<and> (case k_minimum k of Some y \<Rightarrow> \<not> num_lt x y | None \<Rightarrow> True)
     \<and> (case k_maximum k of Some y \<Rightarrow> \<not> num_lt y x | None \<Rightarrow> True)
     \<and> (case k_exclusiveMinimum k of Some y \<Rightarrow> \<not> num_le x y | None \<Rightarrow> True)
     \<and> (case k_exclusiveMaximum k of Some y \<Rightarrow> \<not> num_le y x | None \<Rightarrow> True)
     \<and> (case k_multipleOf k of Some d \<Rightarrow> isMultipleOf x d | None \<Rightarrow> True))"

definition sat_string :: "(string \<Rightarrow> string \<Rightarrow> bool) \<Rightarrow> 'c kws \<Rightarrow> string \<Rightarrow> bool" where
  "sat_string regexTest k s =
     (let len = boundedCodePointLength (units s) (k_minLength k) (k_maxLength k) in
        (case k_minLength k of Some n \<Rightarrow> \<not> len < n | None \<Rightarrow> True)
      \<and> (case k_maxLength k of Some n \<Rightarrow> \<not> len > n | None \<Rightarrow> True)
      \<and> (case k_pattern k of Some p \<Rightarrow> regexTest p s | None \<Rightarrow> True))"

definition sat_array :: "(jsv \<Rightarrow> bool) kws \<Rightarrow> jsv list \<Rightarrow> bool" where
  "sat_array k vs = ((case k_minItems k of Some n \<Rightarrow> \<not> length vs < n | None \<Rightarrow> True)
     \<and> (case k_maxItems k of Some n \<Rightarrow> \<not> length vs > n | None \<Rightarrow> True)
     \<and> (case k_items k of None \<Rightarrow> True | Some p \<Rightarrow> list_all p vs))"

definition sat_property :: "(jsv \<Rightarrow> bool) kws \<Rightarrow> string \<times> jsv \<Rightarrow> bool" where
  "sat_property k p = (case Option.bind (k_properties k) (\<lambda>ps. map_of ps (fst p)) of
     Some q \<Rightarrow> q (snd p)
   | None \<Rightarrow> (case k_additional k of Some (Inl False) \<Rightarrow> False | Some (Inr q) \<Rightarrow> q (snd p) | _ \<Rightarrow> True))"

definition sat_object :: "(jsv \<Rightarrow> bool) kws \<Rightarrow> (string \<times> jsv) list \<Rightarrow> bool" where
  "sat_object k ps = (list_all (\<lambda>r. r \<in> set (map fst ps)) (case k_required k of None \<Rightarrow> [] | Some rs \<Rightarrow> rs)
     \<and> list_all (sat_property k) ps
     \<and> (case k_minProperties k of Some n \<Rightarrow> \<not> length ps < n | None \<Rightarrow> True)
     \<and> (case k_maxProperties k of Some n \<Rightarrow> \<not> length ps > n | None \<Rightarrow> True))"

definition sat_composition :: "(jsv \<Rightarrow> bool) kws \<Rightarrow> jsv \<Rightarrow> bool" where
  "sat_composition k v = ((case k_allOf k of None \<Rightarrow> True | Some qs \<Rightarrow> list_all (\<lambda>q. q v) qs)
     \<and> (case k_anyOf k of None \<Rightarrow> True | Some qs \<Rightarrow> list_ex (\<lambda>q. q v) qs)
     \<and> (case k_oneOf k of None \<Rightarrow> True | Some qs \<Rightarrow> length (filter (\<lambda>q. q v) qs) = 1)
     \<and> (case k_not k of None \<Rightarrow> True | Some q \<Rightarrow> \<not> q v)
     \<and> (case k_if k of None \<Rightarrow> True | Some q \<Rightarrow>
          (case (if q v then k_then k else k_else k) of None \<Rightarrow> True | Some r \<Rightarrow> r v)))"

definition sat_value :: "(string \<Rightarrow> string \<Rightarrow> bool) \<Rightarrow> (jsv \<Rightarrow> bool) kws \<Rightarrow> jsv \<Rightarrow> bool" where
  "sat_value regexTest k v =
     ((case k_const k of Some c \<Rightarrow> jsonEqual v c | None \<Rightarrow> True)
      \<and> (case k_enum k of Some cs \<Rightarrow> list_ex (jsonEqual v) cs | None \<Rightarrow> True)
      \<and> (case v of JStr s \<Rightarrow> sat_string regexTest k s | _ \<Rightarrow> True)
      \<and> (case v of JNum x \<Rightarrow> sat_number k x | _ \<Rightarrow> True)
      \<and> (case v of JArr vs \<Rightarrow> sat_array k vs | JObj ps \<Rightarrow> sat_object k ps | _ \<Rightarrow> True)
      \<and> sat_composition k v)"

primrec sat :: "(string \<Rightarrow> string \<Rightarrow> bool) \<Rightarrow> node \<Rightarrow> jsv \<Rightarrow> bool" where
  "sat regexTest (BoolNode b) = (\<lambda>v. b)"
| "sat regexTest (Node k) = (\<lambda>v.
     (case k_types k of Some ts \<Rightarrow> list_ex (\<lambda>t. matchesType t v) ts | None \<Rightarrow> True)
     \<and> sat_value regexTest (map_kws (sat regexTest) k) v)"

section \<open>Stages\<close>

text \<open>
  A stage decides a condition: it only appends issues, keeps the list within its limit, never returns
  budget, and, when the list was not full, appends nothing exactly when the condition holds.
\<close>

definition decides :: "nat \<Rightarrow> bool \<Rightarrow> (vstate \<Rightarrow> unit vresult) \<Rightarrow> bool" where
  "decides m c g =
     ((\<forall>is b e. length is \<le> m \<longrightarrow> g (is, b) = Inl e \<longrightarrow> length e \<le> m)
      \<and> (\<forall>is b is' b'. length is \<le> m \<longrightarrow> g (is, b) = Inr ((), is', b') \<longrightarrow>
           b' \<le> b \<and> length is' \<le> m \<and> (\<exists>new. is' = is @ new \<and> (length is < m \<longrightarrow> (new = [] \<longleftrightarrow> c)))))"

lemma decidesI:
  assumes "\<And>is b e. length is \<le> m \<Longrightarrow> g (is, b) = Inl e \<Longrightarrow> length e \<le> m"
    and "\<And>is b is' b'. length is \<le> m \<Longrightarrow> g (is, b) = Inr ((), is', b') \<Longrightarrow>
       b' \<le> b \<and> length is' \<le> m \<and> (\<exists>new. is' = is @ new \<and> (length is < m \<longrightarrow> (new = [] \<longleftrightarrow> c)))"
  shows "decides m c g"
  unfolding decides_def using assms by blast

lemma decides_Inl: "decides m c g \<Longrightarrow> length is \<le> m \<Longrightarrow> g (is, b) = Inl e \<Longrightarrow> length e \<le> m"
  unfolding decides_def by blast

lemma decides_Inr:
  assumes "decides m c g" "length is \<le> m" "g (is, b) = Inr (u, is', b')"
  obtains new where "b' \<le> b" "length is' \<le> m" "is' = is @ new" "length is < m \<Longrightarrow> new = [] \<longleftrightarrow> c"
proof -
  from assms(1) have "\<forall>is b is' b'. length is \<le> m \<longrightarrow> g (is, b) = Inr ((), is', b') \<longrightarrow>
      b' \<le> b \<and> length is' \<le> m \<and> (\<exists>new. is' = is @ new \<and> (length is < m \<longrightarrow> (new = [] \<longleftrightarrow> c)))"
    unfolding decides_def by blast
  moreover have "g (is, b) = Inr ((), is', b')" using assms(3) by simp
  ultimately obtain new where "b' \<le> b" "length is' \<le> m" "is' = is @ new" "length is < m \<longrightarrow> (new = [] \<longleftrightarrow> c)"
    using assms(2) by blast
  then show thesis by (intro that) auto
qed

lemma decides_require: "decides m c (require m path kw c)"
  by (rule decidesI) (auto simp: require_def pushIssue_def split: if_splits)

lemma decides_require_False: "\<not> c \<Longrightarrow> decides m c (require m path kw False)"
  using decides_require [of m False] by simp

lemma decides_skip: "decides m True v_skip"
  by (rule decidesI) (auto simp: v_skip_def)

lemma decides_spend: "decides m True spend"
  by (rule decidesI) (auto simp: spend_def split: if_splits)

lemma decides_seq:
  assumes g: "decides m c g" and h: "decides m d h"
  shows "decides m (c \<and> d) (v_seq g h)"
proof (rule decidesI)
  fix "is" b e
  assume l: "length is \<le> m" and r: "v_seq g h (is, b) = Inl e"
  show "length e \<le> m"
  proof (cases "g (is, b)")
    case (Inl e')
    with r l decides_Inl [OF g l] show ?thesis by (simp add: v_seq_def)
  next
    case (Inr x)
    then obtain u is1 b1 where x: "g (is, b) = Inr (u, is1, b1)" by (cases x) auto
    with l have "length is1 \<le> m" using decides_Inr [OF g] by blast
    with r x decides_Inl [OF h] show ?thesis by (auto simp: v_seq_def)
  qed
next
  fix "is" b is' b'
  assume l: "length is \<le> m" and r: "v_seq g h (is, b) = Inr ((), is', b')"
  then obtain u1 is1 b1 where x: "g (is, b) = Inr (u1, is1, b1)" and y: "h (is1, b1) = Inr ((), is', b')"
    by (auto simp: v_seq_def split: sum.splits)
  obtain n1 where n1: "b1 \<le> b" "length is1 \<le> m" "is1 = is @ n1" "length is < m \<Longrightarrow> n1 = [] \<longleftrightarrow> c"
    using decides_Inr [OF g l x] by blast
  obtain n2 where n2: "b' \<le> b1" "length is' \<le> m" "is' = is1 @ n2" "length is1 < m \<Longrightarrow> n2 = [] \<longleftrightarrow> d"
    using decides_Inr [OF h n1(2) y] by blast
  show "b' \<le> b \<and> length is' \<le> m \<and> (\<exists>new. is' = is @ new \<and> (length is < m \<longrightarrow> (new = []) = (c \<and> d)))"
    using n1 n2 by (intro conjI exI [of _ "n1 @ n2"]) auto
qed

lemma decides_all_Nil: "decides m True (v_all [])"
  by (simp add: decides_skip)

lemma decides_all_Cons: "decides m c g \<Longrightarrow> decides m d (v_all gs) \<Longrightarrow> decides m (c \<and> d) (v_all (g # gs))"
  by (simp add: decides_seq)

lemma decides_all_map: "(\<And>x. x \<in> set xs \<Longrightarrow> decides m (c x) (g x)) \<Longrightarrow> decides m (list_all c xs) (v_all (map g xs))"
  by (induction xs) (simp_all add: decides_skip decides_seq)

text \<open>A validator implements a predicate.\<close>

definition implements :: "validator \<Rightarrow> (jsv \<Rightarrow> bool) \<Rightarrow> bool" where
  "implements f p = (\<forall>v path m. 0 < m \<longrightarrow> decides m (p v) (f v path m))"

lemma implementsD: "implements f p \<Longrightarrow> 0 < m \<Longrightarrow> decides m (p v) (f v path m)"
  by (simp add: implements_def)

text \<open>The trial validations leave the issues alone.\<close>

definition reports :: "'a \<Rightarrow> (vstate \<Rightarrow> 'a vresult) \<Rightarrow> bool" where
  "reports x g = ((\<forall>is b e. g (is, b) = Inl e \<longrightarrow> e = is)
     \<and> (\<forall>is b y is' b'. g (is, b) = Inr (y, is', b') \<longrightarrow> y = x \<and> is' = is \<and> b' \<le> b))"

lemma reports_Inl: "reports x g \<Longrightarrow> g (is, b) = Inl e \<Longrightarrow> e = is"
  unfolding reports_def by blast

lemma reports_Inr: "reports x g \<Longrightarrow> g (is, b) = Inr (y, is', b') \<Longrightarrow> y = x \<and> is' = is \<and> b' \<le> b"
  unfolding reports_def by blast

lemma reports_isValid: "implements f p \<Longrightarrow> reports (p v) (isValid f v)"
proof -
  assume f: "implements f p"
  then have d: "decides 1 (p v) (f v [] 1)" by (rule implementsD) simp
  have "y = p v \<and> is' = is \<and> b' \<le> b" if r: "isValid f v (is, b) = Inr (y, is', b')" for "is" b y is' b'
  proof -
    obtain u own where x: "f v [] 1 ([], b) = Inr (u, own, b')" and y: "y = (own = [])" "is' = is"
      using r by (auto simp: isValid_def split: sum.splits)
    from decides_Inr [OF d _ x] have "b' \<le> b" "own = [] \<longleftrightarrow> p v" by auto
    with y show ?thesis by simp
  qed
  moreover have "e = is" if "isValid f v (is, b) = Inl e" for "is" b e
    using that by (auto simp: isValid_def split: sum.splits)
  ultimately show ?thesis unfolding reports_def by blast
qed

lemma reports_bind:
  assumes "reports x g" "reports z (h x)"
  shows "reports z (\<lambda>st. case g st of Inl e \<Rightarrow> Inl e | Inr (y, st') \<Rightarrow> h y st')"
  unfolding reports_def
proof (intro conjI allI impI)
  fix "is" b e
  assume r: "(case g (is, b) of Inl e \<Rightarrow> Inl e | Inr (y, st') \<Rightarrow> h y st') = Inl e"
  show "e = is"
  proof (cases "g (is, b)")
    case (Inl e')
    with r reports_Inl [OF assms(1) Inl] show ?thesis by simp
  next
    case (Inr q)
    then obtain y is1 b1 where q: "g (is, b) = Inr (y, is1, b1)" by (cases q) auto
    with reports_Inr [OF assms(1) q] r reports_Inl [OF assms(2)] show ?thesis by fastforce
  qed
next
  fix "is" b y is' b'
  assume r: "(case g (is, b) of Inl e \<Rightarrow> Inl e | Inr (y, st') \<Rightarrow> h y st') = Inr (y, is', b')"
  then obtain y1 is1 b1 where q: "g (is, b) = Inr (y1, is1, b1)" and h: "h y1 (is1, b1) = Inr (y, is', b')"
    by (auto split: sum.splits)
  have a: "y1 = x" "is1 = is" "b1 \<le> b" using reports_Inr [OF assms(1) q] by simp_all
  with h reports_Inr [OF assms(2)] show "y = z" "is' = is" "b' \<le> b" by fastforce+
qed

lemma reports_return: "reports x (\<lambda>st. Inr (x, st))"
  by (simp add: reports_def)

lemma reports_some:
  "list_all2 implements fs ps \<Longrightarrow> reports (list_ex (\<lambda>p. p v) ps) (some_valid fs v)"
proof (induction rule: list_all2_induct)
  case Nil
  show ?case by (simp add: reports_def)
next
  case (Cons f fs p ps)
  have "reports (p v \<or> list_ex (\<lambda>p. p v) ps)
      (\<lambda>st. case isValid f v st of Inl e \<Rightarrow> Inl e
         | Inr (ok, st') \<Rightarrow> (if ok then (\<lambda>st. Inr (True, st)) else some_valid fs v) st')"
    using Cons.IH by (intro reports_bind [OF reports_isValid [OF Cons(1)]]) (cases "p v"; simp add: reports_def)
  moreover have "some_valid (f # fs) v = (\<lambda>st. case isValid f v st of Inl e \<Rightarrow> Inl e
         | Inr (ok, st') \<Rightarrow> (if ok then (\<lambda>st. Inr (True, st)) else some_valid fs v) st')"
    by (auto simp: fun_eq_iff split: sum.split)
  ultimately show ?case by simp
qed

lemma reports_count:
  "list_all2 implements fs ps \<Longrightarrow> reports (n + length (filter (\<lambda>p. p v) ps)) (count_valid fs v n)"
proof (induction arbitrary: n rule: list_all2_induct)
  case Nil
  show ?case by (simp add: reports_def)
next
  case (Cons f fs p ps)
  have "reports (n + length (filter (\<lambda>p. p v) (p # ps)))
      (\<lambda>st. case isValid f v st of Inl e \<Rightarrow> Inl e
         | Inr (ok, st') \<Rightarrow> (\<lambda>ok. count_valid fs v (if ok then n + 1 else n)) ok st')"
    using Cons.IH [of n] Cons.IH [of "n + 1"]
    by (intro reports_bind [OF reports_isValid [OF Cons(1)]]) (cases "p v"; simp)
  moreover have "count_valid (f # fs) v n = (\<lambda>st. case isValid f v st of Inl e \<Rightarrow> Inl e
         | Inr (ok, st') \<Rightarrow> (\<lambda>ok. count_valid fs v (if ok then n + 1 else n)) ok st')"
    by (simp add: fun_eq_iff)
  ultimately show ?case by (simp del: count_valid.simps)
qed

lemma decides_then:
  assumes "reports x g" "decides m c (h x)"
  shows "decides m c (v_then g h)"
proof (rule decidesI)
  fix "is" b e
  assume l: "length is \<le> m" and r: "v_then g h (is, b) = Inl e"
  show "length e \<le> m"
  proof (cases "g (is, b)")
    case (Inl e')
    with r l reports_Inl [OF assms(1) Inl] show ?thesis by (simp add: v_then_def)
  next
    case (Inr q)
    then obtain y is1 b1 where q: "g (is, b) = Inr (y, is1, b1)" by (cases q) auto
    with reports_Inr [OF assms(1) q] r have "h x (is, b1) = Inl e" by (simp add: v_then_def)
    then show ?thesis using decides_Inl [OF assms(2) l] by blast
  qed
next
  fix "is" b is' b'
  assume l: "length is \<le> m" and r: "v_then g h (is, b) = Inr ((), is', b')"
  then obtain y is1 b1 where q: "g (is, b) = Inr (y, is1, b1)" and h: "h y (is1, b1) = Inr ((), is', b')"
    by (auto simp: v_then_def split: sum.splits)
  have a: "y = x" "is1 = is" "b1 \<le> b" using reports_Inr [OF assms(1) q] by simp_all
  with h have h': "h x (is, b1) = Inr ((), is', b')" by simp
  obtain new where "b' \<le> b1" "length is' \<le> m" "is' = is @ new" "length is < m \<Longrightarrow> new = [] \<longleftrightarrow> c"
    using decides_Inr [OF assms(2) l h'] by blast
  with a(3) show "b' \<le> b \<and> length is' \<le> m \<and> (\<exists>new. is' = is @ new \<and> (length is < m \<longrightarrow> (new = []) = c))" by auto
qed


section \<open>Every helper decides its part of the specification\<close>

lemma kws_sels [simp]:
  "k_types (map_kws f k) = k_types k" "k_const (map_kws f k) = k_const k" "k_enum (map_kws f k) = k_enum k"
  "k_pattern (map_kws f k) = k_pattern k" "k_minLength (map_kws f k) = k_minLength k"
  "k_maxLength (map_kws f k) = k_maxLength k" "k_minItems (map_kws f k) = k_minItems k"
  "k_maxItems (map_kws f k) = k_maxItems k" "k_minProperties (map_kws f k) = k_minProperties k"
  "k_maxProperties (map_kws f k) = k_maxProperties k" "k_minimum (map_kws f k) = k_minimum k"
  "k_maximum (map_kws f k) = k_maximum k" "k_exclusiveMinimum (map_kws f k) = k_exclusiveMinimum k"
  "k_exclusiveMaximum (map_kws f k) = k_exclusiveMaximum k" "k_multipleOf (map_kws f k) = k_multipleOf k"
  "k_required (map_kws f k) = k_required k"
  "k_properties (map_kws f k) = map_option (map (map_prod id f)) (k_properties k)"
  "k_additional (map_kws f k) = map_option (map_sum id f) (k_additional k)"
  "k_items (map_kws f k) = map_option f (k_items k)"
  "k_allOf (map_kws f k) = map_option (map f) (k_allOf k)" "k_anyOf (map_kws f k) = map_option (map f) (k_anyOf k)"
  "k_oneOf (map_kws f k) = map_option (map f) (k_oneOf k)" "k_not (map_kws f k) = map_option f (k_not k)"
  "k_if (map_kws f k) = map_option f (k_if k)" "k_then (map_kws f k) = map_option f (k_then k)"
  "k_else (map_kws f k) = map_option f (k_else k)"
  by (cases k; simp)+

lemma kws_children:
  "k_properties k = Some ps \<Longrightarrow> (a, x) \<in> set ps \<Longrightarrow> x \<in> set_kws k"
  "k_additional k = Some (Inr x) \<Longrightarrow> x \<in> set_kws k"
  "k_items k = Some x \<Longrightarrow> x \<in> set_kws k"
  "k_allOf k = Some xs \<Longrightarrow> x \<in> set xs \<Longrightarrow> x \<in> set_kws k"
  "k_anyOf k = Some xs \<Longrightarrow> x \<in> set xs \<Longrightarrow> x \<in> set_kws k"
  "k_oneOf k = Some xs \<Longrightarrow> x \<in> set xs \<Longrightarrow> x \<in> set_kws k"
  "k_not k = Some x \<Longrightarrow> x \<in> set_kws k" "k_if k = Some x \<Longrightarrow> x \<in> set_kws k"
  "k_then k = Some x \<Longrightarrow> x \<in> set_kws k" "k_else k = Some x \<Longrightarrow> x \<in> set_kws k"
  by (cases k; force simp: setr.simps snds.simps)+

lemma decides_cong: "decides m c g \<Longrightarrow> c = d \<Longrightarrow> decides m d g"
  by simp

lemmas decides_intros = decides_all_Cons decides_all_Nil decides_require decides_skip

lemma decides_string: "decides m (sat_string R k s) (validateString R k s path m)"
  unfolding validateString_def Let_def
  by (rule decides_cong, (rule decides_intros)+) (simp add: sat_string_def Let_def)

lemma decides_number: "decides m (sat_number k x) (validateNumber k x path m)"
proof (cases "isFinite x")
  case True
  then have v: "validateNumber k x path m = v_all
       [require m path ''minimum'' (case k_minimum k of Some y \<Rightarrow> \<not> num_lt x y | None \<Rightarrow> True),
        require m path ''maximum'' (case k_maximum k of Some y \<Rightarrow> \<not> num_lt y x | None \<Rightarrow> True),
        require m path ''exclusiveMinimum'' (case k_exclusiveMinimum k of Some y \<Rightarrow> \<not> num_le x y | None \<Rightarrow> True),
        require m path ''exclusiveMaximum'' (case k_exclusiveMaximum k of Some y \<Rightarrow> \<not> num_le y x | None \<Rightarrow> True),
        require m path ''multipleOf'' (case k_multipleOf k of Some d \<Rightarrow> isMultipleOf x d | None \<Rightarrow> True)]"
    by (simp add: validateNumber_def)
  show ?thesis
    unfolding v by (rule decides_cong, (rule decides_intros)+) (simp add: sat_number_def True)
next
  case False
  then show ?thesis by (simp add: validateNumber_def sat_number_def decides_require)
qed

text \<open>In the rest of the section the children of a node implement their predicates.\<close>

definition children_ok :: "(node \<Rightarrow> validator) \<Rightarrow> (node \<Rightarrow> jsv \<Rightarrow> bool) \<Rightarrow> node kws \<Rightarrow> bool" where
  "children_ok V S k = (\<forall>x \<in> set_kws k. implements (V x) (S x))"

lemma child_decides: "children_ok V S k \<Longrightarrow> 0 < m \<Longrightarrow> x \<in> set_kws k \<Longrightarrow> decides m (S x v) (V x v path m)"
  by (simp add: children_ok_def implements_def)

lemma children_list:
  "children_ok V S k \<Longrightarrow> (\<And>x. x \<in> set xs \<Longrightarrow> x \<in> set_kws k) \<Longrightarrow> list_all2 implements (map V xs) (map S xs)"
  by (auto simp: children_ok_def list_all2_conv_all_nth)

lemma list_all_snd_enumerate: "list_all (\<lambda>iv. p (snd iv)) (enumerate n vs) = list_all p vs"
  by (induction vs arbitrary: n) auto

lemma decides_array:
  assumes "children_ok V S k" "0 < m"
  shows "decides m (sat_array (map_kws S k) vs) (validateArray (map_kws V k) vs path m)"
proof -
  have i: "decides m (case k_items (map_kws S k) of None \<Rightarrow> True | Some p \<Rightarrow> list_all p vs)
      (case k_items (map_kws V k) of None \<Rightarrow> v_skip
        | Some f \<Rightarrow> v_all (map (\<lambda>(i, v). f v (path @ ''/'' @ nat_string i) m) (enumerate 0 vs)))"
  proof (cases "k_items k")
    case (Some x)
    have "decides m (list_all (\<lambda>iv. S x (snd iv)) (enumerate 0 vs))
        (v_all (map (\<lambda>iv. V x (snd iv) (path @ ''/'' @ nat_string (fst iv)) m) (enumerate 0 vs)))"
      using child_decides [OF assms kws_children(3) [OF Some]] by (rule decides_all_map)
    then show ?thesis by (simp add: Some list_all_snd_enumerate case_prod_unfold)
  qed (simp add: decides_skip)
  show ?thesis
    unfolding validateArray_def
    by (rule decides_cong, (rule decides_all_Cons decides_all_Nil decides_require i)+) (simp add: sat_array_def)
qed

lemma map_of_map_prod: "map_of (map (map_prod id f) ps) k = map_option f (map_of ps k)"
  by (induction ps) auto

lemma decides_property:
  assumes "children_ok V S k" "0 < m"
  shows "decides m (sat_property (map_kws S k) p) (validate_property (map_kws V k) p path m)"
proof -
  have c: "Option.bind (k_properties (map_kws f k)) (\<lambda>ps. map_of ps (fst p))
      = map_option f (Option.bind (k_properties k) (\<lambda>ps. map_of ps (fst p)))" for f :: "node \<Rightarrow> 'z"
    by (cases "k_properties k") (simp_all add: map_of_map_prod)
  have "decides m (True \<and> sat_property (map_kws S k) p) (validate_property (map_kws V k) p path m)"
    unfolding validate_property_def Let_def
  proof (rule decides_seq [OF decides_spend])
    show "decides m (sat_property (map_kws S k) p)
       (case Option.bind (k_properties (map_kws V k)) (\<lambda>ps. map_of ps (fst p)) of
             Some f \<Rightarrow> f (snd p) (path @ ''/'' @ escapePointer (fst p)) m
           | None \<Rightarrow> (case k_additional (map_kws V k) of
                 Some (Inl False) \<Rightarrow> require m (path @ ''/'' @ escapePointer (fst p)) ''additionalProperties'' False
               | Some (Inr f) \<Rightarrow> f (snd p) (path @ ''/'' @ escapePointer (fst p)) m
               | _ \<Rightarrow> v_skip))"
    proof (cases "Option.bind (k_properties k) (\<lambda>ps. map_of ps (fst p))")
      case (Some x)
      then obtain ps where "k_properties k = Some ps" "map_of ps (fst p) = Some x"
        by (cases "k_properties k") auto
      then have "x \<in> set_kws k" using kws_children(1) by (metis map_of_SomeD)
      then show ?thesis
        unfolding c sat_property_def using child_decides [OF assms] by (simp add: Some)
    next
      case None
      show ?thesis
      proof (cases "k_additional k")
        case (Some a)
        then show ?thesis
          unfolding c sat_property_def using child_decides [OF assms kws_children(2)]
          by (cases a) (auto simp: None decides_skip decides_require split: bool.split)
      next
        case a: None
        show ?thesis unfolding c sat_property_def by (simp add: None a decides_skip)
      qed
    qed
  qed
  then show ?thesis by simp
qed

lemma decides_object:
  assumes "children_ok V S k" "0 < m"
  shows "decides m (sat_object (map_kws S k) ps) (validateObject (map_kws V k) ps path m)"
  unfolding validateObject_def
  by (rule decides_cong,
      (rule decides_all_Cons decides_all_Nil decides_all_map decides_require decides_property [OF assms])+)
    (simp add: sat_object_def)

lemma decides_option:
  "(\<And>x. o' = Some x \<Longrightarrow> decides m (c x) (g x)) \<Longrightarrow>
   decides m (case o' of None \<Rightarrow> True | Some x \<Rightarrow> c x) (case o' of None \<Rightarrow> v_skip | Some x \<Rightarrow> g x)"
  by (cases o') (simp_all add: decides_skip)

lemma composition_kws:
  fixes V :: "node \<Rightarrow> validator"
  shows "validateComposition (map_kws V k) v path m = v_all
      [(case k_allOf k of None \<Rightarrow> v_skip | Some xs \<Rightarrow> v_all (map (\<lambda>x. V x v path m) xs)),
       (case k_anyOf k of None \<Rightarrow> v_skip | Some xs \<Rightarrow> v_then (some_valid (map V xs) v) (\<lambda>ok. require m path ''anyOf'' ok)),
       (case k_oneOf k of None \<Rightarrow> v_skip | Some xs \<Rightarrow> v_then (count_valid (map V xs) v 0) (\<lambda>n. require m path ''oneOf'' (n = 1))),
       (case k_not k of None \<Rightarrow> v_skip | Some x \<Rightarrow> v_then (isValid (V x) v) (\<lambda>ok. require m path ''not'' (\<not> ok))),
       (case k_if k of None \<Rightarrow> v_skip | Some x \<Rightarrow> v_then (isValid (V x) v) (\<lambda>ok.
            case (if ok then k_then k else k_else k) of None \<Rightarrow> v_skip | Some y \<Rightarrow> V y v path m))]"
proof -
  have e: "(case (if b then map_option V a else map_option V a') of None \<Rightarrow> v_skip | Some g \<Rightarrow> g v path m)
      = (case (if b then a else a') of None \<Rightarrow> v_skip | Some y \<Rightarrow> V y v path m)" for b and a a' :: "node option"
    by (cases b; cases a; cases a') simp_all
  show ?thesis unfolding validateComposition_def kws_sels e
    by (cases "k_allOf k"; cases "k_anyOf k"; cases "k_oneOf k"; cases "k_not k"; cases "k_if k")
      (simp_all add: comp_def del: v_all.simps)
qed

lemma decides_composition:
  assumes "children_ok V S k" "0 < m"
  shows "decides m (sat_composition (map_kws S k) v) (validateComposition (map_kws V k) v path m)"
proof -
  note ch = child_decides [OF assms]
  have c1: "decides m (case k_allOf k of None \<Rightarrow> True | Some xs \<Rightarrow> list_all (\<lambda>x. S x v) xs)
      (case k_allOf k of None \<Rightarrow> v_skip | Some xs \<Rightarrow> v_all (map (\<lambda>x. V x v path m) xs))"
  proof (rule decides_option)
    fix xs
    assume "k_allOf k = Some xs"
    from kws_children(4) [OF this]
    show "decides m (list_all (\<lambda>x. S x v) xs) (v_all (map (\<lambda>x. V x v path m) xs))"
      by (intro decides_all_map ch)
  qed
  have c2: "decides m (case k_anyOf k of None \<Rightarrow> True | Some xs \<Rightarrow> list_ex (\<lambda>p. p v) (map S xs))
      (case k_anyOf k of None \<Rightarrow> v_skip | Some xs \<Rightarrow> v_then (some_valid (map V xs) v) (\<lambda>ok. require m path ''anyOf'' ok))"
  proof (rule decides_option)
    fix xs
    assume a: "k_anyOf k = Some xs"
    have l: "list_all2 implements (map V xs) (map S xs)"
      by (rule children_list [OF assms(1)], erule kws_children(5) [OF a])
    show "decides m (list_ex (\<lambda>p. p v) (map S xs)) (v_then (some_valid (map V xs) v) (\<lambda>ok. require m path ''anyOf'' ok))"
      by (rule decides_then [OF reports_some [OF l]]) (rule decides_require)
  qed
  have c3: "decides m (case k_oneOf k of None \<Rightarrow> True | Some xs \<Rightarrow> length (filter (\<lambda>p. p v) (map S xs)) = 1)
      (case k_oneOf k of None \<Rightarrow> v_skip | Some xs \<Rightarrow> v_then (count_valid (map V xs) v 0) (\<lambda>n. require m path ''oneOf'' (n = 1)))"
  proof (rule decides_option)
    fix xs
    assume a: "k_oneOf k = Some xs"
    have "list_all2 implements (map V xs) (map S xs)"
      by (rule children_list [OF assms(1)], erule kws_children(6) [OF a])
    from decides_then [OF reports_count [OF this, of 0 v], of m _ "\<lambda>n. require m path ''oneOf'' (n = 1)", OF decides_require]
    show "decides m (length (filter (\<lambda>p. p v) (map S xs)) = 1)
        (v_then (count_valid (map V xs) v 0) (\<lambda>n. require m path ''oneOf'' (n = 1)))" by simp
  qed
  have c4: "decides m (case k_not k of None \<Rightarrow> True | Some x \<Rightarrow> \<not> S x v)
      (case k_not k of None \<Rightarrow> v_skip | Some x \<Rightarrow> v_then (isValid (V x) v) (\<lambda>ok. require m path ''not'' (\<not> ok)))"
  proof (rule decides_option)
    fix x
    assume a: "k_not k = Some x"
    have i: "implements (V x) (S x)" using assms(1) kws_children(7) [OF a] by (simp add: children_ok_def)
    show "decides m (\<not> S x v) (v_then (isValid (V x) v) (\<lambda>ok. require m path ''not'' (\<not> ok)))"
      by (rule decides_then [OF reports_isValid [OF i]]) (rule decides_require)
  qed
  have c5: "decides m (case k_if k of None \<Rightarrow> True | Some x \<Rightarrow>
          (case (if S x v then k_then k else k_else k) of None \<Rightarrow> True | Some y \<Rightarrow> S y v))
      (case k_if k of None \<Rightarrow> v_skip | Some x \<Rightarrow> v_then (isValid (V x) v) (\<lambda>ok.
            case (if ok then k_then k else k_else k) of None \<Rightarrow> v_skip | Some y \<Rightarrow> V y v path m))"
  proof (rule decides_option)
    fix x
    assume a: "k_if k = Some x"
    have i: "implements (V x) (S x)" using assms(1) kws_children(8) [OF a] by (simp add: children_ok_def)
    have "decides m (case (if b then k_then k else k_else k) of None \<Rightarrow> True | Some y \<Rightarrow> S y v)
        (case (if b then k_then k else k_else k) of None \<Rightarrow> v_skip | Some y \<Rightarrow> V y v path m)" for b
      by (rule decides_option, rule ch) (cases b; simp add: kws_children(9,10))
    then show "decides m (case (if S x v then k_then k else k_else k) of None \<Rightarrow> True | Some y \<Rightarrow> S y v)
        (v_then (isValid (V x) v) (\<lambda>ok. case (if ok then k_then k else k_else k) of None \<Rightarrow> v_skip | Some y \<Rightarrow> V y v path m))"
      by (rule decides_then [OF reports_isValid [OF i]])
  qed
  note v = composition_kws [of V k v path m]
  have p: "sat_composition (map_kws S k) v \<longleftrightarrow>
      (case k_allOf k of None \<Rightarrow> True | Some xs \<Rightarrow> list_all (\<lambda>x. S x v) xs)
      \<and> (case k_anyOf k of None \<Rightarrow> True | Some xs \<Rightarrow> list_ex (\<lambda>p. p v) (map S xs))
      \<and> (case k_oneOf k of None \<Rightarrow> True | Some xs \<Rightarrow> length (filter (\<lambda>p. p v) (map S xs)) = 1)
      \<and> (case k_not k of None \<Rightarrow> True | Some x \<Rightarrow> \<not> S x v)
      \<and> (case k_if k of None \<Rightarrow> True | Some x \<Rightarrow>
          (case (if S x v then k_then k else k_else k) of None \<Rightarrow> True | Some y \<Rightarrow> S y v))"
  proof -
    have e: "(case (if b then map_option S a else map_option S a') of None \<Rightarrow> True | Some g \<Rightarrow> g v)
        = (case (if b then a else a') of None \<Rightarrow> True | Some y \<Rightarrow> S y v)" for b and a a' :: "node option"
      by (cases b; cases a; cases a') simp_all
    show ?thesis unfolding sat_composition_def kws_sels
      by (cases "k_allOf k"; cases "k_anyOf k"; cases "k_oneOf k"; cases "k_not k"; cases "k_if k")
        (simp_all add: e list_all_iff)
  qed
  show ?thesis
    unfolding v by (rule decides_cong, (rule c1 c2 c3 c4 c5 decides_all_Cons decides_all_Nil)+) (simp add: p)
qed

lemma decides_value:
  assumes "children_ok V S k" "0 < m"
  shows "decides m (sat_value R (map_kws S k) v) (validate_value R (map_kws V k) v path m)"
proof -
  have s: "decides m (case v of JStr s \<Rightarrow> sat_string R (map_kws S k) s | _ \<Rightarrow> True)
      (case v of JStr s \<Rightarrow> validateString R (map_kws V k) s path m | _ \<Rightarrow> v_skip)"
    using decides_string [of m R "map_kws V k"] by (simp add: sat_string_def decides_skip split: jsv.split)
  have n: "decides m (case v of JNum x \<Rightarrow> sat_number (map_kws S k) x | _ \<Rightarrow> True)
      (case v of JNum x \<Rightarrow> validateNumber (map_kws V k) x path m | _ \<Rightarrow> v_skip)"
    using decides_number [of m "map_kws V k"] by (simp add: sat_number_def decides_skip split: jsv.split)
  have c: "decides m (case v of JArr vs \<Rightarrow> sat_array (map_kws S k) vs | JObj ps \<Rightarrow> sat_object (map_kws S k) ps | _ \<Rightarrow> True)
      (case v of JArr vs \<Rightarrow> validateArray (map_kws V k) vs path m | JObj ps \<Rightarrow> validateObject (map_kws V k) ps path m | _ \<Rightarrow> v_skip)"
    using decides_array [OF assms] decides_object [OF assms] by (simp add: decides_skip split: jsv.split)
  show ?thesis
    unfolding validate_value_def
    by (rule decides_cong,
        (rule decides_all_Cons decides_all_Nil decides_require s n c decides_composition [OF assms])+)
      (simp add: sat_value_def)
qed

lemma implements_entry:
  assumes "implements f p"
  shows "implements (entry f) p"
  unfolding implements_def
proof (intro allI impI)
  fix v path and m :: nat
  assume m: "0 < m"
  then have d: "decides m (True \<and> p v) (v_seq spend (f v path m))"
    using assms by (intro decides_seq decides_spend) (simp add: implements_def)
  show "decides m (p v) (entry f v path m)"
  proof (rule decidesI)
    fix "is" b e
    assume "length is \<le> m" "entry f v path m (is, b) = Inl e"
    then show "length e \<le> m" using decides_Inl [OF d] by (auto simp: entry_def split: if_splits)
  next
    fix "is" b is' b'
    assume l: "length is \<le> m" and r: "entry f v path m (is, b) = Inr ((), is', b')"
    show "b' \<le> b \<and> length is' \<le> m \<and> (\<exists>new. is' = is @ new \<and> (length is < m \<longrightarrow> (new = []) = p v))"
    proof (cases "length is \<ge> m")
      case True
      with l r show ?thesis by (simp add: entry_def)
    next
      case False
      with r have "v_seq spend (f v path m) (is, b) = Inr ((), is', b')" by (simp add: entry_def)
      with decides_Inr [OF d l] show ?thesis by (metis (full_types))
    qed
  qed
qed

theorem validateNode_implements: "implements (validateNode R n) (sat R n)"
proof (induction n)
  case (BoolNode b)
  show ?case
    unfolding validateNode.simps
    by (rule implements_entry) (simp add: implements_def decides_require)
next
  case (Node k)
  then have ch: "children_ok (validateNode R) (sat R) k" by (simp add: children_ok_def)
  show ?case
    unfolding validateNode.simps
  proof (rule implements_entry, unfold implements_def, intro allI impI)
    fix v path and m :: nat
    assume "0 < m"
    then show "decides m (sat R (Node k) v) (validate_kws R (map_kws (validateNode R) k) v path m)"
      using decides_value [OF ch]
      by (cases "k_types k") (auto simp: validate_kws_def decides_require)
  qed
qed


section \<open>Work\<close>

text \<open>
  An upper bound on the steps a validation can take: one for the entry of a node, one for each property of an
  object, and the work of every child on every value it is given.
\<close>

definition opt_work :: "('c \<Rightarrow> nat) \<Rightarrow> 'c option \<Rightarrow> nat" where
  "opt_work f x = (case x of None \<Rightarrow> 0 | Some y \<Rightarrow> f y)"

definition property_work :: "(jsv \<Rightarrow> nat) kws \<Rightarrow> string \<times> jsv \<Rightarrow> nat" where
  "property_work k p = 1 + (case Option.bind (k_properties k) (\<lambda>ps. map_of ps (fst p)) of
     Some w \<Rightarrow> w (snd p)
   | None \<Rightarrow> (case k_additional k of Some (Inr w) \<Rightarrow> w (snd p) | _ \<Rightarrow> 0))"

definition work_kws :: "(jsv \<Rightarrow> nat) kws \<Rightarrow> jsv \<Rightarrow> nat" where
  "work_kws k v =
     (case v of JArr vs \<Rightarrow> opt_work (\<lambda>w. sum_list (map w vs)) (k_items k)
      | JObj ps \<Rightarrow> sum_list (map (property_work k) ps) | _ \<Rightarrow> 0)
     + opt_work (\<lambda>ws. sum_list (map (\<lambda>w. w v) ws)) (k_allOf k)
     + opt_work (\<lambda>ws. sum_list (map (\<lambda>w. w v) ws)) (k_anyOf k)
     + opt_work (\<lambda>ws. sum_list (map (\<lambda>w. w v) ws)) (k_oneOf k)
     + opt_work (\<lambda>w. w v) (k_not k) + opt_work (\<lambda>w. w v) (k_if k)
     + opt_work (\<lambda>w. w v) (k_then k) + opt_work (\<lambda>w. w v) (k_else k)"

primrec work :: "node \<Rightarrow> jsv \<Rightarrow> nat" where
  "work (BoolNode b) = (\<lambda>v. 1)"
| "work (Node k) = (\<lambda>v. 1 + work_kws (map_kws work k) v)"

definition costs :: "nat \<Rightarrow> (vstate \<Rightarrow> 'a vresult) \<Rightarrow> bool" where
  "costs n g = (\<forall>is b. n \<le> b \<longrightarrow> (\<exists>y is' b'. g (is, b) = Inr (y, is', b') \<and> b \<le> b' + n))"

lemma costsD: "costs n g \<Longrightarrow> n \<le> b \<Longrightarrow> \<exists>y is' b'. g (is, b) = Inr (y, is', b') \<and> b \<le> b' + n"
  unfolding costs_def by blast

lemma costs_require: "costs 0 (require m path kw c)"
  by (simp add: costs_def require_def)

lemma costs_skip: "costs 0 v_skip"
  by (simp add: costs_def v_skip_def)

lemma costs_spend: "costs 1 spend"
  by (auto simp: costs_def spend_def)

lemma costs_mono: "costs n g \<Longrightarrow> n \<le> k \<Longrightarrow> costs k g"
  unfolding costs_def by (meson add_le_mono le_trans order_refl)

lemma costs_then:
  assumes "costs a g" "\<And>y. costs b (h y)"
  shows "costs (a + b) (v_then g h)"
  unfolding costs_def
proof (intro allI impI)
  fix "is" c
  assume c: "a + b \<le> c"
  then obtain y is1 c1 where g: "g (is, c) = Inr (y, is1, c1)" "c \<le> c1 + a"
    using costsD [OF assms(1), of c] by fastforce
  with c have "b \<le> c1" by simp
  then obtain z is2 c2 where "h y (is1, c1) = Inr (z, is2, c2)" "c1 \<le> c2 + b"
    using costsD [OF assms(2), of c1] by blast
  with g show "\<exists>z is' b'. v_then g h (is, c) = Inr (z, is', b') \<and> c \<le> b' + (a + b)" by (simp add: v_then_def)
qed

lemma v_seq_then: "v_seq g h = v_then g (\<lambda>_. h)"
  by (auto simp: v_seq_def v_then_def fun_eq_iff split: sum.split)

lemma costs_seq: "costs a g \<Longrightarrow> costs b h \<Longrightarrow> costs (a + b) (v_seq g h)"
  unfolding v_seq_then by (rule costs_then)

lemma costs_all_Nil: "costs 0 (v_all [])"
  by (simp add: costs_skip)

lemma costs_all_Cons: "costs a g \<Longrightarrow> costs b (v_all gs) \<Longrightarrow> costs (a + b) (v_all (g # gs))"
  by (simp add: costs_seq)

lemma costs_all_map: "(\<And>x. x \<in> set xs \<Longrightarrow> costs (c x) (g x)) \<Longrightarrow> costs (sum_list (map c xs)) (v_all (map g xs))"
  by (induction xs) (simp_all add: costs_skip costs_seq)

lemma costs_isValid: "costs n (f v [] 1) \<Longrightarrow> costs n (isValid f v)"
proof -
  assume c: "costs n (f v [] 1)"
  have "\<exists>y is' b'. isValid f v (is, b) = Inr (y, is', b') \<and> b \<le> b' + n" if n: "n \<le> b" for "is" b
  proof -
    obtain u own b' where "f v [] 1 ([], b) = Inr (u, own, b')" "b \<le> b' + n" using costsD [OF c n, of "[]"] by blast
    then have "isValid f v (is, b) = Inr (own = [], is, b') \<and> b \<le> b' + n" by (simp add: isValid_def)
    then show ?thesis by (intro exI)
  qed
  then show ?thesis unfolding costs_def by blast
qed

definition affordable :: "validator \<Rightarrow> (jsv \<Rightarrow> nat) \<Rightarrow> bool" where
  "affordable f w = (\<forall>v path m. costs (w v) (f v path m))"

lemma costs_trial:
  assumes "affordable f w" "\<And>y. costs b (h y)"
  shows "costs (w v + b) (\<lambda>st. case isValid f v st of Inl e \<Rightarrow> Inl e | Inr (y, st') \<Rightarrow> h y st')"
  unfolding costs_def
proof (intro allI impI)
  fix "is" c
  assume c: "w v + b \<le> c"
  have "costs (w v) (isValid f v)" using assms(1) by (intro costs_isValid) (simp add: affordable_def)
  from costsD [OF this, of c "is"] c obtain y is1 c1 where g: "isValid f v (is, c) = Inr (y, is1, c1)" "c \<le> c1 + w v"
    by fastforce
  with c have "b \<le> c1" by simp
  then obtain z is2 c2 where "h y (is1, c1) = Inr (z, is2, c2)" "c1 \<le> c2 + b"
    using costsD [OF assms(2), of c1] by blast
  with g show "\<exists>z is' b'. (case isValid f v (is, c) of Inl e \<Rightarrow> Inl e | Inr (y, st') \<Rightarrow> h y st') = Inr (z, is', b')
      \<and> c \<le> b' + (w v + b)" by simp
qed

lemma costs_return: "costs n (\<lambda>st. Inr (y, st))"
  by (simp add: costs_def)

lemma costs_some: "list_all2 affordable fs ws \<Longrightarrow> costs (sum_list (map (\<lambda>w. w v) ws)) (some_valid fs v)"
proof (induction rule: list_all2_induct)
  case Nil
  have "some_valid [] v = (\<lambda>st. Inr (False, st))" by (simp add: fun_eq_iff)
  then show ?case by (simp only: list.map sum_list.Nil costs_return)
next
  case (Cons f fs w ws)
  have e: "some_valid (f # fs) v = (\<lambda>st. case isValid f v st of Inl e \<Rightarrow> Inl e
         | Inr (ok, st') \<Rightarrow> (\<lambda>ok. if ok then (\<lambda>st. Inr (True, st)) else some_valid fs v) ok st')"
    by (auto simp: fun_eq_iff split: sum.split)
  show ?case
    unfolding e by (simp only: list.map sum_list.Cons) (rule costs_trial [OF Cons(1)], simp add: Cons.IH costs_return)
qed

lemma costs_count: "list_all2 affordable fs ws \<Longrightarrow> costs (sum_list (map (\<lambda>w. w v) ws)) (count_valid fs v n)"
proof (induction arbitrary: n rule: list_all2_induct)
  case Nil
  show ?case by (simp add: costs_def)
next
  case (Cons f fs w ws)
  have e: "count_valid (f # fs) v n = (\<lambda>st. case isValid f v st of Inl e \<Rightarrow> Inl e
         | Inr (ok, st') \<Rightarrow> (\<lambda>ok. count_valid fs v (if ok then n + 1 else n)) ok st')"
    by (simp add: fun_eq_iff)
  show ?case
    unfolding e by (simp only: list.map sum_list.Cons) (rule costs_trial [OF Cons(1)], rule Cons.IH)
qed

definition children_affordable :: "(node \<Rightarrow> validator) \<Rightarrow> (node \<Rightarrow> jsv \<Rightarrow> nat) \<Rightarrow> node kws \<Rightarrow> bool" where
  "children_affordable V W k = (\<forall>x \<in> set_kws k. affordable (V x) (W x))"

lemma child_costs: "children_affordable V W k \<Longrightarrow> x \<in> set_kws k \<Longrightarrow> costs (W x v) (V x v path m)"
  by (simp add: children_affordable_def affordable_def)

lemma children_affordable_list:
  "children_affordable V W k \<Longrightarrow> (\<And>x. x \<in> set xs \<Longrightarrow> x \<in> set_kws k) \<Longrightarrow> list_all2 affordable (map V xs) (map W xs)"
  by (auto simp: children_affordable_def list_all2_conv_all_nth)

lemma costs_option:
  "(\<And>x. o' = Some x \<Longrightarrow> costs (c x) (g x)) \<Longrightarrow> costs (opt_work c o') (case o' of None \<Rightarrow> v_skip | Some x \<Rightarrow> g x)"
  by (cases o') (simp_all add: costs_skip opt_work_def)

lemma opt_work_simps [simp]: "opt_work f None = 0" "opt_work f (Some y) = f y"
  by (simp_all add: opt_work_def)

lemma opt_work_map [simp]: "opt_work f (map_option g x) = opt_work (\<lambda>y. f (g y)) x"
  by (cases x) (simp_all add: opt_work_def)

lemma costs_property:
  assumes "children_affordable V W k"
  shows "costs (property_work (map_kws W k) p) (validate_property (map_kws V k) p path m)"
proof -
  have c: "Option.bind (k_properties (map_kws f k)) (\<lambda>ps. map_of ps (fst p))
      = map_option f (Option.bind (k_properties k) (\<lambda>ps. map_of ps (fst p)))" for f :: "node \<Rightarrow> 'z"
    by (cases "k_properties k") (simp_all add: map_of_map_prod)
  show ?thesis
    unfolding validate_property_def Let_def property_work_def c
  proof (rule costs_seq [OF costs_spend])
    show "costs (case map_option W (Option.bind (k_properties k) (\<lambda>ps. map_of ps (fst p))) of
         None \<Rightarrow> (case k_additional (map_kws W k) of Some (Inr w) \<Rightarrow> w (snd p) | _ \<Rightarrow> 0) | Some w \<Rightarrow> w (snd p))
      (case map_option V (Option.bind (k_properties k) (\<lambda>ps. map_of ps (fst p))) of
         None \<Rightarrow> (case k_additional (map_kws V k) of
                 Some (Inl False) \<Rightarrow> require m (path @ ''/'' @ escapePointer (fst p)) ''additionalProperties'' False
               | Some (Inr f) \<Rightarrow> f (snd p) (path @ ''/'' @ escapePointer (fst p)) m
               | _ \<Rightarrow> v_skip)
       | Some f \<Rightarrow> f (snd p) (path @ ''/'' @ escapePointer (fst p)) m)"
    proof (cases "Option.bind (k_properties k) (\<lambda>ps. map_of ps (fst p))")
      case (Some x)
      then obtain ps where ps: "k_properties k = Some ps" "map_of ps (fst p) = Some x"
        by (cases "k_properties k") auto
      then have "x \<in> set_kws k" using kws_children(1) [OF ps(1)] by (metis map_of_SomeD)
      then show ?thesis using child_costs [OF assms] by (simp add: Some)
    next
      case None
      show ?thesis
      proof (cases "k_additional k")
        case (Some a)
        then show ?thesis
          using child_costs [OF assms kws_children(2)]
          by (cases a) (auto simp: None costs_skip costs_require split: bool.split)
      next
        case a: None
        show ?thesis by (simp add: None a costs_skip)
      qed
    qed
  qed
qed

lemma costs_cong: "costs n g \<Longrightarrow> n = k \<Longrightarrow> costs k g"
  by simp

lemma map_enumerate_snd: "map (\<lambda>iv. f (snd iv)) (enumerate n vs) = map f vs"
  by (induction vs arbitrary: n) auto

lemma costs_array:
  assumes "children_affordable V W k"
  shows "costs (opt_work (\<lambda>x. sum_list (map (W x) vs)) (k_items k)) (validateArray (map_kws V k) vs path m)"
proof -
  have i: "costs (opt_work (\<lambda>x. sum_list (map (W x) vs)) (k_items k)) (case k_items (map_kws V k) of None \<Rightarrow> v_skip
        | Some f \<Rightarrow> v_all (map (\<lambda>(i, v). f v (path @ ''/'' @ nat_string i) m) (enumerate 0 vs)))"
  proof (cases "k_items k")
    case (Some x)
    have "costs (sum_list (map (\<lambda>iv. W x (snd iv)) (enumerate 0 vs)))
        (v_all (map (\<lambda>iv. V x (snd iv) (path @ ''/'' @ nat_string (fst iv)) m) (enumerate 0 vs)))"
      using child_costs [OF assms kws_children(3) [OF Some]] by (rule costs_all_map)
    moreover have "map (\<lambda>iv. W x (snd iv)) (enumerate 0 vs) = map (W x) vs"
      by (rule map_enumerate_snd)
    ultimately show ?thesis by (simp add: Some opt_work_def case_prod_unfold)
  qed (simp add: costs_skip opt_work_def)
  show ?thesis
    unfolding validateArray_def
    by (rule costs_cong, (rule costs_all_Cons costs_all_Nil costs_require i)+) simp
qed

lemma costs_object:
  assumes "children_affordable V W k"
  shows "costs (sum_list (map (property_work (map_kws W k)) ps)) (validateObject (map_kws V k) ps path m)"
proof -
  have r: "costs 0 (v_all (map (\<lambda>r. require m path ''required'' (r \<in> set (map fst ps))) rs))" for rs
    using costs_all_map [of rs "\<lambda>_. 0" "\<lambda>r. require m path ''required'' (r \<in> set (map fst ps))"] by (simp add: costs_require)
  show ?thesis
    unfolding validateObject_def
    by (rule costs_cong, (rule costs_all_Cons costs_all_Nil r costs_require costs_all_map costs_property [OF assms])+) simp
qed


lemma costs_composition:
  assumes "children_affordable V W k"
  shows "costs (opt_work (\<lambda>xs. sum_list (map (\<lambda>x. W x v) xs)) (k_allOf k)
      + (opt_work (\<lambda>xs. sum_list (map (\<lambda>w. w v) (map W xs))) (k_anyOf k)
      + (opt_work (\<lambda>xs. sum_list (map (\<lambda>w. w v) (map W xs))) (k_oneOf k)
      + (opt_work (\<lambda>x. W x v) (k_not k)
      + (opt_work (\<lambda>x. W x v + (opt_work (\<lambda>y. W y v) (k_then k) + opt_work (\<lambda>y. W y v) (k_else k))) (k_if k) + 0)))))
    (validateComposition (map_kws V k) v path m)"
proof -
  note ch = child_costs [OF assms]
  have v: "validateComposition (map_kws V k) v path m = v_all
      [(case k_allOf k of None \<Rightarrow> v_skip | Some xs \<Rightarrow> v_all (map (\<lambda>x. V x v path m) xs)),
       (case k_anyOf k of None \<Rightarrow> v_skip | Some xs \<Rightarrow> v_then (some_valid (map V xs) v) (\<lambda>ok. require m path ''anyOf'' ok)),
       (case k_oneOf k of None \<Rightarrow> v_skip | Some xs \<Rightarrow> v_then (count_valid (map V xs) v 0) (\<lambda>n. require m path ''oneOf'' (n = 1))),
       (case k_not k of None \<Rightarrow> v_skip | Some x \<Rightarrow> v_then (isValid (V x) v) (\<lambda>ok. require m path ''not'' (\<not> ok))),
       (case k_if k of None \<Rightarrow> v_skip | Some x \<Rightarrow> v_then (isValid (V x) v) (\<lambda>ok.
            case (if ok then k_then k else k_else k) of None \<Rightarrow> v_skip | Some y \<Rightarrow> V y v path m))]"
    by (rule composition_kws)
  have c1: "costs (opt_work (\<lambda>xs. sum_list (map (\<lambda>x. W x v) xs)) (k_allOf k))
      (case k_allOf k of None \<Rightarrow> v_skip | Some xs \<Rightarrow> v_all (map (\<lambda>x. V x v path m) xs))"
  proof (rule costs_option)
    fix xs
    assume a: "k_allOf k = Some xs"
    show "costs (sum_list (map (\<lambda>x. W x v) xs)) (v_all (map (\<lambda>x. V x v path m) xs))"
      by (rule costs_all_map, rule ch, erule kws_children(4) [OF a])
  qed
  have c2: "costs (opt_work (\<lambda>xs. sum_list (map (\<lambda>w. w v) (map W xs))) (k_anyOf k))
      (case k_anyOf k of None \<Rightarrow> v_skip | Some xs \<Rightarrow> v_then (some_valid (map V xs) v) (\<lambda>ok. require m path ''anyOf'' ok))"
  proof (rule costs_option)
    fix xs
    assume a: "k_anyOf k = Some xs"
    have l: "list_all2 affordable (map V xs) (map W xs)"
      by (rule children_affordable_list [OF assms], erule kws_children(5) [OF a])
    show "costs (sum_list (map (\<lambda>w. w v) (map W xs))) (v_then (some_valid (map V xs) v) (\<lambda>ok. require m path ''anyOf'' ok))"
      by (rule costs_cong, rule costs_then [OF costs_some [OF l]], rule costs_require) simp
  qed
  have c3: "costs (opt_work (\<lambda>xs. sum_list (map (\<lambda>w. w v) (map W xs))) (k_oneOf k))
      (case k_oneOf k of None \<Rightarrow> v_skip | Some xs \<Rightarrow> v_then (count_valid (map V xs) v 0) (\<lambda>n. require m path ''oneOf'' (n = 1)))"
  proof (rule costs_option)
    fix xs
    assume a: "k_oneOf k = Some xs"
    have l: "list_all2 affordable (map V xs) (map W xs)"
      by (rule children_affordable_list [OF assms], erule kws_children(6) [OF a])
    show "costs (sum_list (map (\<lambda>w. w v) (map W xs))) (v_then (count_valid (map V xs) v 0) (\<lambda>n. require m path ''oneOf'' (n = 1)))"
      by (rule costs_cong, rule costs_then [OF costs_count [OF l]], rule costs_require) simp
  qed
  have c4: "costs (opt_work (\<lambda>x. W x v) (k_not k))
      (case k_not k of None \<Rightarrow> v_skip | Some x \<Rightarrow> v_then (isValid (V x) v) (\<lambda>ok. require m path ''not'' (\<not> ok)))"
  proof (rule costs_option)
    fix x
    assume a: "k_not k = Some x"
    show "costs (W x v) (v_then (isValid (V x) v) (\<lambda>ok. require m path ''not'' (\<not> ok)))"
      by (rule costs_cong, rule costs_then [OF costs_isValid [of _ "V x"]], rule ch [OF kws_children(7) [OF a]], rule costs_require) simp
  qed
  have c5: "costs (opt_work (\<lambda>x. W x v + (opt_work (\<lambda>y. W y v) (k_then k) + opt_work (\<lambda>y. W y v) (k_else k))) (k_if k))
      (case k_if k of None \<Rightarrow> v_skip | Some x \<Rightarrow> v_then (isValid (V x) v) (\<lambda>ok.
            case (if ok then k_then k else k_else k) of None \<Rightarrow> v_skip | Some y \<Rightarrow> V y v path m))"
  proof (rule costs_option)
    fix x
    assume a: "k_if k = Some x"
    have t: "costs (opt_work (\<lambda>y. W y v) (k_then k)) (case k_then k of None \<Rightarrow> v_skip | Some y \<Rightarrow> V y v path m)"
      by (rule costs_option) (rule ch [OF kws_children(9)])
    have e: "costs (opt_work (\<lambda>y. W y v) (k_else k)) (case k_else k of None \<Rightarrow> v_skip | Some y \<Rightarrow> V y v path m)"
      by (rule costs_option) (rule ch [OF kws_children(10)])
    have "costs (opt_work (\<lambda>y. W y v) (k_then k) + opt_work (\<lambda>y. W y v) (k_else k))
        (case (if b then k_then k else k_else k) of None \<Rightarrow> v_skip | Some y \<Rightarrow> V y v path m)" for b
      using costs_mono [OF t, of "opt_work (\<lambda>y. W y v) (k_then k) + opt_work (\<lambda>y. W y v) (k_else k)"]
        costs_mono [OF e, of "opt_work (\<lambda>y. W y v) (k_then k) + opt_work (\<lambda>y. W y v) (k_else k)"] by (cases b) simp_all
    then show "costs (W x v + (opt_work (\<lambda>y. W y v) (k_then k) + opt_work (\<lambda>y. W y v) (k_else k)))
        (v_then (isValid (V x) v) (\<lambda>ok. case (if ok then k_then k else k_else k) of None \<Rightarrow> v_skip | Some y \<Rightarrow> V y v path m))"
      by (rule costs_then [OF costs_isValid [OF ch [OF kws_children(8) [OF a]]]])
  qed
  show ?thesis
    unfolding v by (intro costs_all_Cons costs_all_Nil c1 c2 c3 c4 c5)
qed

lemma costs_entry: "costs n (f v path m) \<Longrightarrow> costs (1 + n) (entry f v path m)"
proof -
  assume c: "costs n (f v path m)"
  have "\<exists>y is' b'. entry f v path m (is, b) = Inr (y, is', b') \<and> b \<le> b' + (1 + n)" if n: "1 + n \<le> b" for "is" b
  proof (cases "length is \<ge> m")
    case True
    then show ?thesis by (simp add: entry_def)
  next
    case False
    then show ?thesis using costsD [OF costs_seq [OF costs_spend c] n, of "is"] by (simp add: entry_def)
  qed
  then show ?thesis unfolding costs_def by blast
qed

lemma work_composition:
  "opt_work (\<lambda>xs. sum_list (map (\<lambda>x. W x v) xs)) (k_allOf k)
      + (opt_work (\<lambda>xs. sum_list (map (\<lambda>w. w v) (map W xs))) (k_anyOf k)
      + (opt_work (\<lambda>xs. sum_list (map (\<lambda>w. w v) (map W xs))) (k_oneOf k)
      + (opt_work (\<lambda>x. W x v) (k_not k)
      + (opt_work (\<lambda>x. W x v + (opt_work (\<lambda>y. W y v) (k_then k) + opt_work (\<lambda>y. W y v) (k_else k))) (k_if k) + 0))))
    \<le> work_kws (map_kws W k) v - (case v of JArr vs \<Rightarrow> opt_work (\<lambda>w. sum_list (map w vs)) (k_items (map_kws W k))
      | JObj ps \<Rightarrow> sum_list (map (property_work (map_kws W k)) ps) | _ \<Rightarrow> 0)"
  by (cases "k_if k") (simp_all add: work_kws_def comp_def)

lemma affordable_node: "affordable (validateNode R n) (work n)"
proof (induction n)
  case (BoolNode b)
  have "costs (1 + 0) (entry (\<lambda>v path m. require m path ''falseSchema'' b) v path m)" for v path m
    by (rule costs_entry) (rule costs_require)
  then show ?case by (simp add: affordable_def)
next
  case (Node k)
  let ?V = "validateNode R" and ?W = work
  have ch: "children_affordable ?V ?W k" using Node by (simp add: children_affordable_def)
  have "costs (work_kws (map_kws ?W k) v) (validate_kws R (map_kws ?V k) v path m)" for v path m
  proof -
    let ?c = "case v of JArr vs \<Rightarrow> opt_work (\<lambda>w. sum_list (map w vs)) (k_items (map_kws ?W k))
      | JObj ps \<Rightarrow> sum_list (map (property_work (map_kws ?W k)) ps) | _ \<Rightarrow> 0"
    have s: "costs 0 (case v of JStr s \<Rightarrow> validateString R (map_kws ?V k) s path m | _ \<Rightarrow> v_skip)"
      by (simp add: validateString_def Let_def costs_skip costs_all_Cons [of 0 _ 0, simplified] costs_require costs_seq [of 0 _ 0, simplified] split: jsv.split)
    have n: "costs 0 (case v of JNum x \<Rightarrow> validateNumber (map_kws ?V k) x path m | _ \<Rightarrow> v_skip)"
      by (simp add: validateNumber_def costs_skip costs_require costs_seq [of 0 _ 0, simplified] split: jsv.split)
    have c: "costs ?c (case v of JArr vs \<Rightarrow> validateArray (map_kws ?V k) vs path m
        | JObj ps \<Rightarrow> validateObject (map_kws ?V k) ps path m | _ \<Rightarrow> v_skip)"
      using costs_array [OF ch] costs_object [OF ch] by (simp add: costs_skip comp_def split: jsv.split)
    have l: "?c \<le> work_kws (map_kws ?W k) v" unfolding work_kws_def by (intro trans_le_add1) (rule order_refl)
    have "costs (work_kws (map_kws ?W k) v) (validate_value R (map_kws ?V k) v path m)"
      unfolding validate_value_def
      by (rule costs_mono, (rule costs_all_Cons costs_all_Nil costs_require s n c costs_composition [OF ch])+)
        (use work_composition [of ?W v k] l in linarith)
    then show ?thesis
      by (cases "k_types k") (auto simp: validate_kws_def intro: costs_mono [OF costs_require])
  qed
  then have "costs (1 + work_kws (map_kws ?W k) v) (entry (validate_kws R (map_kws ?V k)) v path m)" for v path m
    by (rule costs_entry)
  then show ?case by (simp add: affordable_def)
qed


section \<open>Properties\<close>

lemma validate_facts:
  fixes v regexTest
  assumes "map_of validators tool = Some n" "0 < maximumIssues lm"
  defines "r \<equiv> validate regexTest lm validators tool v"
  shows "known r" "length (issues r) \<le> maximumIssues lm" "valid r \<Longrightarrow> sat regexTest n v"
    "work n v \<le> maximumValidationSteps lm \<Longrightarrow> valid r = sat regexTest n v"
proof -
  let ?m = "maximumIssues lm" and ?b = "maximumValidationSteps lm"
  have d: "decides ?m (sat regexTest n v) (validateNode regexTest n v [] ?m)"
    using validateNode_implements assms(2) by (rule implementsD)
  have c: "costs (work n v) (validateNode regexTest n v [] ?m)" using affordable_node by (simp add: affordable_def)
  have "known r \<and> length (issues r) \<le> ?m \<and> (valid r \<longrightarrow> sat regexTest n v) \<and> (work n v \<le> ?b \<longrightarrow> valid r = sat regexTest n v)"
  proof (cases "validateNode regexTest n v [] ?m ([], ?b)")
    case (Inl e)
    with decides_Inl [OF d _ Inl] have "length (pushIssue ?m [] ''validationBudget'' e) \<le> ?m"
      "pushIssue ?m [] ''validationBudget'' e \<noteq> []"
      using assms(2) by (auto simp: pushIssue_def)
    moreover have "\<not> work n v \<le> ?b" using costsD [OF c, of ?b "[]"] Inl by auto
    ultimately show ?thesis using Inl assms(1) by (simp add: r_def validate_def Let_def)
  next
    case (Inr q)
    then obtain u "is" b where q: "validateNode regexTest n v [] ?m ([], ?b) = Inr (u, is, b)" by (cases q) auto
    obtain new where "length is \<le> ?m" "is = new" "new = [] \<longleftrightarrow> sat regexTest n v"
      using decides_Inr [OF d _ q] assms(2) by auto
    then show ?thesis using q assms(1) by (simp add: r_def validate_def Let_def)
  qed
  then show "known r" "length (issues r) \<le> maximumIssues lm" "valid r \<Longrightarrow> sat regexTest n v"
    "work n v \<le> maximumValidationSteps lm \<Longrightarrow> valid r = sat regexTest n v" by blast+
qed

text \<open>
  C15. Validation implements the schema: a run reports at most the configured number of issues, never accepts a
  value that does not satisfy the schema, and, where the work budget covers the work of the schema on the
  value, accepts exactly the values that satisfy it.
\<close>

theorem validation_correct:
  fixes v regexTest
  assumes "map_of validators tool = Some n" "0 < maximumIssues lm"
  defines "r \<equiv> validate regexTest lm validators tool v"
  shows "known r \<and> length (issues r) \<le> maximumIssues lm \<and> (valid r \<longrightarrow> sat regexTest n v)
     \<and> (work n v \<le> maximumValidationSteps lm \<longrightarrow> valid r = sat regexTest n v)"
  unfolding r_def using validate_facts [OF assms(1,2)] by blast

definition string_node :: node where
  "string_node = Node (Kws (Some [''string'']) None None None (Some 1) None None None None None None None None None None
     None None None None None None None None None None None)"

definition sample_node :: node where
  "sample_node = Node (Kws (Some [''object'']) None None None None None None None None None None None None None None
     (Some [(''path'', string_node)]) (Some [''path'']) (Some (Inl False)) None None None None None None None None)"

lemma validation_correct_witness:
  "valid (validate (\<lambda>_ _. True) DEFAULT_LIMITS [(''read_file'', sample_node)] ''read_file'' (JObj [(''path'', JStr ''notes'')]))
   \<and> sat (\<lambda>_ _. True) sample_node (JObj [(''path'', JStr ''notes'')])"
proof -
  have w: "work sample_node (JObj [(''path'', JStr ''notes'')]) = 3"
    by (simp add: sample_node_def string_node_def work_kws_def property_work_def opt_work_def)
  have "boundedCodePointLength (units ''notes'') (Some 1) None = 1"
    by (simp add: boundedCodePointLength_def units_def code_points.simps point_width_def is_lead_def)
  then have s: "sat (\<lambda>_ _. True) sample_node (JObj [(''path'', JStr ''notes'')])"
    by (simp add: sample_node_def string_node_def sat_value_def sat_object_def sat_property_def sat_composition_def
        sat_string_def matchesType_def)
  from validation_correct [of "[(''read_file'', sample_node)]" "''read_file''" sample_node DEFAULT_LIMITS
      "\<lambda>_ _. True" "JObj [(''path'', JStr ''notes'')]"] w s
  show ?thesis by (simp add: DEFAULT_LIMITS_def del: sat.simps)
qed

section \<open>The compiled catalog\<close>

lemma c_bind_Inr: "c_bind m f n = Inr (y, n') \<longleftrightarrow> (\<exists>x k. m n = Inr (x, k) \<and> f x k = Inr (y, n'))"
  by (auto simp: c_bind_def split: sum.splits)

lemma c_return_Inr [simp]: "c_return x n = Inr (y, n') \<longleftrightarrow> y = x \<and> n' = n"
  by (auto simp: c_return_def)

lemma c_fail_Inr [simp]: "c_fail e n \<noteq> Inr r"
  by (simp add: c_fail_def)

definition catalog_ok :: "(string \<times> node) list \<Rightarrow> bool" where
  "catalog_ok vs = (distinct (map fst vs) \<and> list_all (\<lambda>(k, x). k \<noteq> [] \<and> has_object_type x) vs)"

definition tool_name :: "jsv \<Rightarrow> string" where
  "tool_name t = (case js_get t ''name'' of JStr s \<Rightarrow> s | _ \<Rightarrow> [])"

text \<open>The declared types of a compiled schema are those of its \<open>type\<close> keyword.\<close>

definition node_types :: "node \<Rightarrow> string list option" where
  "node_types x = (case x of Node k \<Rightarrow> k_types k | BoolNode b \<Rightarrow> None)"

lemma c_bind_elim: "c_bind m f n = Inr r \<Longrightarrow> (\<And>x k. m n = Inr (x, k) \<Longrightarrow> f x k = Inr r \<Longrightarrow> thesis) \<Longrightarrow> thesis"
  by (auto simp: c_bind_def split: sum.splits)

lemma compile_keywords_types:
  assumes "compile_keywords R lm rec s n = Inr (x, n')"
  shows "\<exists>m m'. compileTypes (js_get s ''type'') m = Inr (node_types x, m')"
  using assms unfolding compile_keywords_def Let_def
  by (elim c_bind_elim) (auto simp: node_types_def)

lemma compile_object_type:
  assumes "compileSchema R lm levels s n = Inr (x, n')" "js_get s ''type'' = JStr ''object''"
  shows "node_types x = Some [''object'']"
proof -
  have "\<exists>lm rec n. compile_keywords R lm rec s n = Inr (x, n')"
    using assms by (cases levels; cases s) (auto simp: js_get_def split: if_splits)
  then obtain lm rec n where "compile_keywords R lm rec s n = Inr (x, n')" by blast
  from compile_keywords_types [OF this] show ?thesis by (auto simp: assms(2) compileTypes_def SUPPORTED_TYPES_def)
qed

text \<open>A tool declares the type object alone: so do all tools of the catalog of the program, and those without a schema.\<close>

definition declares_object :: "jsv \<Rightarrow> bool" where
  "declares_object t = (js_get t ''inputSchema'' \<in> {JUndef, JNull} \<or> js_get (js_get t ''inputSchema'') ''type'' = JStr ''object'')"

definition compiled_as :: "jsv \<Rightarrow> string \<times> node \<Rightarrow> bool" where
  "compiled_as t e = (fst e = tool_name t \<and> (declares_object t \<longrightarrow> node_types (snd e) = Some [''object'']))"

lemma compile_tool_ok:
  assumes "compile_tool R lm vs t n = Inr (vs', n')" "catalog_ok vs"
  shows "catalog_ok vs' \<and> (\<exists>e. vs' = vs @ [e] \<and> compiled_as t e)"
proof -
  define s where "s = (if js_get t ''inputSchema'' \<in> {JUndef, JNull} then JObj [(''type'', JStr ''object'')] else js_get t ''inputSchema'')"
  from assms(1) obtain name x k where t: "js_get t ''name'' = JStr name" "name \<noteq> []" "map_of vs name = None"
    and c: "compileSchema R lm (maximumDepth lm + 1) s n = Inr (x, k)"
    and v: "vs' = map_set name x vs" and o': "has_object_type x"
    unfolding compile_tool_def s_def by (auto simp: Let_def c_bind_Inr split: jsv.splits if_splits)
  have v': "vs' = vs @ [(name, x)]" unfolding v using t(3) by (intro map_set_new) (simp add: map_of_eq_None_iff)
  have "declares_object t \<Longrightarrow> js_get s ''type'' = JStr ''object''" by (auto simp: declares_object_def s_def)
  then have "compiled_as t (name, x)" using compile_object_type [OF c] t(1) by (simp add: compiled_as_def tool_name_def)
  with assms(2) t o' v' show ?thesis by (auto simp: catalog_ok_def map_of_eq_None_iff)
qed

lemma compile_tools_ok:
  "compile_tools R lm vs ts n = Inr (vs', n') \<Longrightarrow> catalog_ok vs \<Longrightarrow>
   catalog_ok vs' \<and> (\<exists>es. vs' = vs @ es \<and> list_all2 compiled_as ts es)"
proof (induction ts arbitrary: vs n)
  case (Cons t ts)
  then obtain vs1 n1 where 1: "compile_tool R lm vs t n = Inr (vs1, n1)"
    and 2: "compile_tools R lm vs1 ts n1 = Inr (vs', n')"
    by (auto simp: c_bind_Inr)
  from compile_tool_ok [OF 1 Cons.prems(2)] obtain e where e: "catalog_ok vs1" "vs1 = vs @ [e]" "compiled_as t e" by blast
  from Cons.IH [OF 2 e(1)] obtain es where "catalog_ok vs'" "vs' = vs1 @ es" "list_all2 compiled_as ts es" by blast
  with e show ?case by (intro conjI exI [of _ "e # es"]) simp_all
qed simp

lemma object_only:
  assumes "map_of vs k = Some x" "node_types x = Some [''object'']" "0 < maximumIssues lm" "\<not> isRecord v"
  shows "\<not> valid (validate regexTest lm vs k v)"
  using validate_facts(3) [OF assms(1,3)] assms(2,4)
  by (cases x) (auto simp: node_types_def matchesType_def)

text \<open>
  C16. A catalog that compiles has one validator per tool, in its order, under distinct non-empty names; every one of
  them has object among its declared types; and the validator of a tool that declares the type object alone (or has no
  schema), as every tool of the program's catalog does, rejects every value that is no object
  (when it may report an issue at all).
\<close>

theorem catalog_compiles:
  assumes "compileToolArgumentValidators validRegExp (JArr tools) options = Inr vs"
  shows "map fst vs = map tool_name tools \<and> distinct (map fst vs)
     \<and> list_all (\<lambda>(k, x). k \<noteq> [] \<and> has_object_type x) vs
     \<and> (\<forall>t \<in> set tools. \<forall>regexTest lm v. declares_object t \<longrightarrow> 0 < maximumIssues lm \<longrightarrow> \<not> isRecord v \<longrightarrow>
          \<not> valid (validate regexTest lm vs (tool_name t) v))"
proof -
  obtain n where n: "compile_tools validRegExp (normalizeLimits options) [] tools 0 = Inr (vs, n)"
    using assms by (auto simp: compileToolArgumentValidators_def map_sum_def split: sum.splits)
  have "catalog_ok []" by (simp add: catalog_ok_def)
  from compile_tools_ok [OF n this] have c: "catalog_ok vs" and l: "list_all2 compiled_as tools vs" by auto
  have names: "map fst vs = map tool_name tools"
    using l by (induction rule: list_all2_induct) (simp_all add: compiled_as_def)
  have "\<not> valid (validate regexTest lm vs (tool_name t) v)"
    if t: "t \<in> set tools" and "declares_object t" "0 < maximumIssues lm" "\<not> isRecord v" for t regexTest lm v
  proof -
    obtain i where i: "i < length tools" "t = tools ! i" using t by (auto simp: in_set_conv_nth)
    define e where "e = vs ! i"
    have "e \<in> set vs" "compiled_as t e" using l i by (simp_all add: e_def list_all2_conv_all_nth)
    then have m: "(tool_name t, snd e) \<in> set vs" and "node_types (snd e) = Some [''object'']"
      using that(2) by (simp_all add: compiled_as_def) (metis prod.collapse)
    moreover have "map_of vs (tool_name t) = Some (snd e)" using c m by (simp add: catalog_ok_def)
    ultimately show ?thesis using that(3,4) object_only by blast
  qed
  then show ?thesis using c names unfolding catalog_ok_def by blast
qed

lemma compileSchema_object:
  "compileSchema R lm n (JObj ps) = (if n = 0 then c_fail ''depth'' else (\<lambda>k.
     if k + 1 > maximumNodes lm then Inl ''node_count''
     else if \<not> list_all (\<lambda>k. k \<in> set SUPPORTED_KEYWORDS) (map fst ps) then Inl ''keyword''
     else compile_keywords R lm (compileSchema R lm (n - 1)) (JObj ps) (k + 1)))"
  by (cases n) (simp_all add: fun_eq_iff)

lemma catalog_compiles_witness:
  "\<exists>vs. compileToolArgumentValidators (\<lambda>_. True) (JArr [JObj [(''name'', JStr ''list_roots'')]]) (JObj []) = Inr vs
     \<and> map fst vs = [''list_roots''] \<and> \<not> valid (validate (\<lambda>_ _. True) DEFAULT_LIMITS vs ''list_roots'' (JStr ''x''))"
proof -
  have "\<exists>vs. compileToolArgumentValidators (\<lambda>_. True) (JArr [JObj [(''name'', JStr ''list_roots'')]]) (JObj []) = Inr vs"
    by (simp add: compileToolArgumentValidators_def compile_tool_def compileSchema_object compile_keywords_def
        c_bind_def c_return_def validateDialect_def compileTypes_def SUPPORTED_TYPES_def SUPPORTED_KEYWORDS_def c_opt_def
        hasOwn_def Let_def has_object_type_def normalizeLimits_def limit_value_def DEFAULT_LIMITS_def num_isInteger_def)
  then obtain vs where vs: "compileToolArgumentValidators (\<lambda>_. True) (JArr [JObj [(''name'', JStr ''list_roots'')]]) (JObj []) = Inr vs" ..
  have "declares_object (JObj [(''name'', JStr ''list_roots'')])" "0 < maximumIssues DEFAULT_LIMITS" "\<not> isRecord (JStr ''x'')"
    by (simp_all add: declares_object_def DEFAULT_LIMITS_def)
  with catalog_compiles [OF vs] vs show ?thesis by (simp add: tool_name_def)
qed

section \<open>Equality of JSON values\<close>

lemma jsonEqual_refl: "wf_jsv v \<Longrightarrow> jsonEqual v v"
proof (induction v)
  case (JArr xs)
  have "list_all (\<lambda>(f, y). f y) (zip (map jsonEqual xs) xs)"
    using JArr by (auto simp: list_all_iff set_zip)
  then show ?case by simp
next
  case (JObj ps)
  then show ?case by (fastforce simp: list_all_iff)
qed simp_all

end
