(* ===== verification/ToolExecutor.thy ===== *)
theory ToolExecutor
  imports OperationAuthorization CallRegistry ToolValidationSpec
begin

text \<open>
  The pipeline of a tool call (\<open>src/local/tool-executor.mjs\<close>): lifecycle, observability, authority, argument
  validation, operation authorisation, the audit gate and the handler, composed as the code composes them.  With
  it the relay extensions of the input schemas (\<open>relay-tool-schema-extension.mjs\<close>), the foreground and durable
  timeouts (\<open>src/shared/foreground-timeout.mjs\<close>), the audit gate (\<open>security-audit-gate.mjs\<close>,
  \<open>security-audit-dispatch.mjs\<close>) and the bound on results (\<open>tool-result-boundary.mjs\<close>).

  A call is a mutable operation object and a world of registry, observations, audit records and handler runs,
  both threaded through the stages.  Where a stage awaits, other registry events of the daemon may happen:
  \<open>ex_during\<close> lists them.  The handlers, the outcome of the audit store, the clock readings and the length of
  a serialised result are part of the environment.
\<close>

section \<open>Timeouts\<close>

definition CONFIGURABLE_FOREGROUND_TOOLS :: "string list" where
  "CONFIGURABLE_FOREGROUND_TOOLS = [''exec_command'', ''run_process'', ''run_local_command'', ''open_local_application'',
     ''inspect_local_application'', ''operate_local_application'', ''browser_list_tabs'',
     ''browser_manage_tabs'', ''browser_wait'', ''browser_get_source'', ''browser_inspect_page'',
     ''browser_action'', ''browser_fill_form'', ''browser_screenshot'', ''browser_upload_files'',
     ''computer_observe'', ''computer_act'']"

definition REMOTE_DURABLE_PROCESS_TOOLS :: "string list" where
  "REMOTE_DURABLE_PROCESS_TOOLS = [''exec_command'', ''run_process'', ''run_local_command'']"

definition REMOTE_FOREGROUND_TIMEOUT_SECONDS :: int where
  "REMOTE_FOREGROUND_TIMEOUT_SECONDS = 45000 div 1000"

definition REMOTE_DURABLE_PROCESS_MAXIMUM_TIMEOUT_SECONDS :: int where
  "REMOTE_DURABLE_PROCESS_MAXIMUM_TIMEOUT_SECONDS = 600000 div 1000"

definition isRemoteDurableProcessTool :: "string \<Rightarrow> bool" where
  "isRemoteDurableProcessTool name = (name \<in> set REMOTE_DURABLE_PROCESS_TOOLS)"

definition remoteDurableProcessTimeoutSeconds :: "jsv \<Rightarrow> unit + int" where
  "remoteDurableProcessTimeoutSeconds v =
     (let parsed = (if v = JUndef then JNum (Fin (of_int REMOTE_DURABLE_PROCESS_MAXIMUM_TIMEOUT_SECONDS)) else v) in
      if \<not> isSafeInteger parsed \<or> int_of parsed < 1 \<or> int_of parsed > REMOTE_DURABLE_PROCESS_MAXIMUM_TIMEOUT_SECONDS
      then Inl () else Inr (int_of parsed))"

definition isConfigurableForegroundTool :: "string \<Rightarrow> bool" where
  "isConfigurableForegroundTool name = (name \<in> set CONFIGURABLE_FOREGROUND_TOOLS)"

definition remoteForegroundMaximumSeconds :: "string \<Rightarrow> int" where
  "remoteForegroundMaximumSeconds name = REMOTE_FOREGROUND_TIMEOUT_SECONDS"

definition remoteForegroundDefaultSeconds :: "string \<Rightarrow> int" where
  "remoteForegroundDefaultSeconds name =
     (if name \<in> set CONFIGURABLE_FOREGROUND_TOOLS then (if name \<in> {''computer_observe'', ''computer_act''} then 30 else 20)
      else min 60 (remoteForegroundMaximumSeconds name))"

definition effectiveForegroundTimeoutSeconds :: "string \<Rightarrow> jsv \<Rightarrow> bool \<Rightarrow> int \<Rightarrow> int \<Rightarrow> unit + int" where
  "effectiveForegroundTimeoutSeconds tool v remote localDefault localMaximum =
     (let fallback = (if remote then remoteForegroundDefaultSeconds tool else localDefault);
          top = (if remote then remoteForegroundMaximumSeconds tool else localMaximum);
          parsed = (if v = JUndef then JNum (Fin (of_int fallback)) else JNum (js_Number v))
      in if \<not> isSafeInteger parsed \<or> int_of parsed < 1 \<or> int_of parsed > top then Inl () else Inr (int_of parsed))"

section \<open>The schema extensions of relayed calls\<close>

definition issues_only :: "string \<Rightarrow> issue list \<Rightarrow> bool" where
  "issues_only path is = (is \<noteq> [] \<and> list_all (\<lambda>i. instancePath i = path \<and> issue_keyword i = ''maximum'') is)"

definition validRelayDurableProcessSchemaExtension :: "string \<Rightarrow> string \<Rightarrow> jsv \<Rightarrow> issue list \<Rightarrow> bool" where
  "validRelayDurableProcessSchemaExtension org tool args is =
     (org = ''relay'' \<and> isRemoteDurableProcessTool tool \<and> issues_only ''/timeout_seconds'' is
      \<and> is_ok (remoteDurableProcessTimeoutSeconds (js_get args ''timeout_seconds'')))"

definition maximumManagedJobReadWaitMs :: rat where
  "maximumManagedJobReadWaitMs = 60000"

definition validRelayManagedJobReadSchemaExtension :: "string \<Rightarrow> string \<Rightarrow> jsv \<Rightarrow> issue list \<Rightarrow> bool" where
  "validRelayManagedJobReadSchemaExtension org tool args is =
     (org = ''relay'' \<and> tool = ''read_job'' \<and> issues_only ''/wait_ms'' is
      \<and> (case js_get args ''wait_ms'' of
           JNum x \<Rightarrow> num_isInteger x \<and> num_le (Fin 0) x \<and> num_le x (Fin maximumManagedJobReadWaitMs)
         | _ \<Rightarrow> False))"

definition validRelayToolSchemaExtension :: "string \<Rightarrow> string \<Rightarrow> jsv \<Rightarrow> issue list \<Rightarrow> bool" where
  "validRelayToolSchemaExtension org tool args is =
     (validRelayDurableProcessSchemaExtension org tool args is \<or> validRelayManagedJobReadSchemaExtension org tool args is)"

section \<open>Results\<close>

definition MAX_TOOL_RESULT_BYTES :: int where
  "MAX_TOOL_RESULT_BYTES = 7 * 1024 * 1024"

text \<open>What \<open>JSON.stringify\<close> accepts with the replacer of the source, and what \<open>JSON.parse\<close> gives back.\<close>

primrec json_safe :: "jsv \<Rightarrow> bool" where
  "json_safe JUndef = False"
| "json_safe JNull = True"
| "json_safe (JBool b) = True"
| "json_safe (JNum x) = isFinite x"
| "json_safe (JStr s) = True"
| "json_safe (JArr xs) = list_all (\<lambda>b. b) (map json_safe xs)"
| "json_safe (JObj ps) = list_all (\<lambda>(k, b). b) (map (map_prod id json_safe) ps)"

primrec json_normal :: "jsv \<Rightarrow> jsv" where
  "json_normal JUndef = JUndef"
| "json_normal JNull = JNull"
| "json_normal (JBool b) = JBool b"
| "json_normal (JNum x) = JNum (if x = NegZero then Fin 0 else x)"
| "json_normal (JStr s) = JStr s"
| "json_normal (JArr xs) = JArr (map json_normal xs)"
| "json_normal (JObj ps) = JObj (map (map_prod id json_normal) ps)"

definition normalizeToolResult :: "(jsv \<Rightarrow> nat) \<Rightarrow> jsv \<Rightarrow> jsv \<Rightarrow> bridge_error + jsv \<times> nat" where
  "normalizeToolResult jsonBytes v maximumBytes =
     (let top = positiveInteger maximumBytes MAX_TOOL_RESULT_BYTES; bytes = jsonBytes v in
      if \<not> json_safe v then Inl (BridgeError ''internal_error'' None (Some False) None)
      else if int bytes > top
        then Inl (BridgeError ''limit_exceeded'' (Some False) None
          (Some [(''maximum_bytes'', JNum (Fin (of_int top))), (''actual_bytes'', JNum (Fin (of_nat bytes)))]))
      else Inr (json_normal v, bytes))"

section \<open>Operations and the world\<close>

record operation =
  op_tool :: string
  op_args :: jsv
  req_callId :: string
  req_origin :: string
  req_timeout :: jsv
  req_authorization :: jsv
  ctx_callId :: string
  ctx_origin :: string
  ctx_authority :: "authority option"
  ctx_decision :: "decision option"

datatype observation =
    ObsStarted string
  | ObsFinished string string string bool   \<comment> \<open>tool, status, error code, slow\<close>

record audit_event =
  au_outcome :: string
  au_tool :: string
  au_category :: string
  au_targetHash :: string
  au_principal :: "principal option"
  au_operationId :: string
  au_error :: string

record world =
  w_registry :: registry
  w_observed :: "observation list"
  w_audit :: "audit_event list"
  w_ran :: "(string \<times> jsv) list"
  w_activity :: "nat \<times> nat"   \<comment> \<open>relay activity started and ended\<close>

type_synonym outcome = "thrown + jsv"
type_synonym exec = "operation \<times> world \<Rightarrow> outcome \<times> operation \<times> world"
type_synonym middleware = "exec \<Rightarrow> exec"

record executor =
  ex_fresh :: string
  ex_now :: rat
  ex_duration :: rat
  ex_slowMs :: rat
  ex_gate :: policy_gate
  ex_authorizer :: "authorizer option"
  ex_regex :: "string \<Rightarrow> string \<Rightarrow> bool"
  ex_limits :: limits
  ex_validators :: "(string \<times> node) list"
  ex_handlers :: "(string \<times> (jsv \<Rightarrow> operation \<Rightarrow> outcome)) list"
  ex_during :: "string \<Rightarrow> reg_event list"
  ex_auditor :: bool
  ex_flushed :: bool
  ex_recorded :: bool
  ex_jsonBytes :: "jsv \<Rightarrow> nat"

definition composeMiddleware :: "middleware list \<Rightarrow> exec \<Rightarrow> exec" where
  "composeMiddleware ms terminal = foldr (\<lambda>m next. m next) ms terminal"

definition meanwhile :: "executor \<Rightarrow> string \<Rightarrow> world \<Rightarrow> world" where
  "meanwhile e stage w = w\<lparr>w_registry := foldl reg_step (w_registry w) (ex_during e stage)\<rparr>"

section \<open>The stages\<close>

definition lifecycleMiddleware :: "executor \<Rightarrow> middleware" where
  "lifecycleMiddleware e next = (\<lambda>(op, w).
     let org = (if req_origin op \<noteq> [] then req_origin op else ''local'') in
     case open_call (ex_fresh e) (ex_now e) (req_callId op) (op_tool op) org (req_timeout op) (w_registry w) of
       Inl err \<Rightarrow> (Inl (Bridge err), op, w)
     | Inr reg \<Rightarrow>
         (let i = (if req_callId op \<noteq> [] then req_callId op else ''call_'' @ ex_fresh e);
              op' = op\<lparr>ctx_callId := i, ctx_origin := org\<rparr>; w' = w\<lparr>w_registry := reg\<rparr>;
              (r, op2, w2) = (case throwIfCancelled i reg of Inl err \<Rightarrow> (Inl (Bridge err), op', w') | Inr _ \<Rightarrow> next (op', w'))
          in (r, op2, w2\<lparr>w_registry := fst (finish_call i (w_registry w2))\<rparr>)))"

definition audit_input :: "operation \<Rightarrow> string \<Rightarrow> string \<Rightarrow> audit_event" where
  "audit_input op out err =
     \<lparr>au_outcome = out, au_tool = op_tool op,
      au_category = (case ctx_decision op of Some d \<Rightarrow> (if d_category d \<noteq> [] then d_category d else ''ordinary operation'') | None \<Rightarrow> ''ordinary operation''),
      au_targetHash = (case ctx_decision op of Some d \<Rightarrow> d_targetHash d | None \<Rightarrow> []),
      au_principal = map_option auth_principal (ctx_authority op), au_operationId = ctx_callId op, au_error = err\<rparr>"

definition enqueueSecurityAudit :: "executor \<Rightarrow> operation \<Rightarrow> string \<Rightarrow> string \<Rightarrow> world \<Rightarrow> world" where
  "enqueueSecurityAudit e op out err w =
     (if \<not> ex_auditor e \<or> ctx_origin op \<noteq> ''relay'' then w else w\<lparr>w_audit := w_audit w @ [audit_input op out err]\<rparr>)"

definition observe :: "observation \<Rightarrow> world \<Rightarrow> world" where
  "observe ob w = w\<lparr>w_observed := w_observed w @ [ob]\<rparr>"

definition failure_status :: "string \<Rightarrow> string" where
  "failure_status c = (if c = ''cancelled'' then ''cancelled'' else if c = ''timeout'' then ''timeout'' else ''failed'')"

definition call_failed :: "executor \<Rightarrow> thrown \<Rightarrow> operation \<Rightarrow> world \<Rightarrow> outcome \<times> operation \<times> world" where
  "call_failed e err op w =
     (let n = normalizeBridgeError err ''execution_failed'' False None; c = code n; st = failure_status c
      in (Inl (Bridge n), op, enqueueSecurityAudit e op st c (observe (ObsFinished (op_tool op) st c (ex_duration e \<ge> ex_slowMs e)) w)))"

definition observabilityMiddleware :: "executor \<Rightarrow> middleware" where
  "observabilityMiddleware e next = (\<lambda>(op, w).
     case next (op, observe (ObsStarted (op_tool op)) w) of
       (Inl err, op', w') \<Rightarrow> call_failed e err op' w'
     | (Inr v, op', w') \<Rightarrow>
         (case normalizeToolResult (ex_jsonBytes e) v JUndef of
            Inl err \<Rightarrow> call_failed e (Bridge err) op' w'
          | Inr (v', bytes) \<Rightarrow>
              (Inr v', op', enqueueSecurityAudit e op' ''completed'' []
                 (observe (ObsFinished (op_tool op') ''completed'' [] (ex_duration e \<ge> ex_slowMs e)) w'))))"

definition principal_js :: "principal \<Rightarrow> jsv" where
  "principal_js p = (case p of
     PAccount a \<Rightarrow> JObj [(''kind'', JStr ''account''), (''accountId'', JStr (accountId a)),
       (''accountVersion'', JNum (Fin (of_int (accountVersion a)))), (''clientId'', JStr (clientId a)),
       (''familyId'', JStr (familyId a)), (''role'', JStr (role a))]
   | PLocal r \<Rightarrow> JObj [(''kind'', JStr ''local''), (''role'', JStr r)]
   | POther k \<Rightarrow> JObj [(''kind'', JStr k)])"

definition authorityMiddleware :: "executor \<Rightarrow> middleware" where
  "authorityMiddleware e next = (\<lambda>(op, w).
     case authority_stage (ex_gate e) (op_tool op) (Some (ctx_origin op)) (req_authorization op) of
       Inl err \<Rightarrow> (Inl err, op, w)
     | Inr a \<Rightarrow> next (op\<lparr>ctx_authority := Some a\<rparr>,
         w\<lparr>w_registry := fst (bindPrincipal (ctx_callId op) (principal_js (auth_principal a)) (w_registry w))\<rparr>))"

definition issue_js :: "issue \<Rightarrow> jsv" where
  "issue_js i = JObj [(''instancePath'', JStr (instancePath i)), (''keyword'', JStr (issue_keyword i))]"

definition validate_stage :: "executor \<Rightarrow> string \<Rightarrow> string \<Rightarrow> jsv \<Rightarrow> thrown + unit" where
  "validate_stage e org tool args =
     (let r = validate (ex_regex e) (ex_limits e) (ex_validators e) tool args in
      if \<not> known r then Inl (Bridge (berr ''not_found''))
      else if \<not> valid r \<and> \<not> validRelayToolSchemaExtension org tool args (issues r)
        then Inl (Bridge (BridgeError ''invalid_request'' None None (Some [(''tool'', JStr tool),
               (''validation_issues'', JArr (map issue_js (issues r)))])))
      else Inr ())"

definition validateArgumentsMiddleware :: "executor \<Rightarrow> middleware" where
  "validateArgumentsMiddleware e next = (\<lambda>(op, w).
     case validate_stage e (ctx_origin op) (op_tool op) (op_args op) of
       Inl err \<Rightarrow> (Inl err, op, w) | Inr _ \<Rightarrow> next (op, w))"

definition operationAuthorizationMiddleware :: "executor \<Rightarrow> middleware" where
  "operationAuthorizationMiddleware e next = (\<lambda>(op, w).
     if ctx_origin op \<noteq> ''relay'' then next (op, w)
     else (case ex_authorizer e of
         None \<Rightarrow> next (op, w)
       | Some az \<Rightarrow>
           (case authorize az (Some (ctx_origin op)) (ctx_authority op) (op_tool op) (op_args op) of
              (Inl err, pending) \<Rightarrow> (Inl err, op\<lparr>ctx_decision := pending\<rparr>, meanwhile e ''authorize'' w)
            | (Inr d, _) \<Rightarrow> next (op\<lparr>ctx_decision := Some d\<rparr>, meanwhile e ''authorize'' w))))"

definition persistSecurityAuditDispatchIntent :: "executor \<Rightarrow> operation \<Rightarrow> bool" where
  "persistSecurityAuditDispatchIntent e op = (ex_auditor e \<and> ctx_origin op = ''relay'' \<and> ex_flushed e \<and> ex_recorded e)"

definition securityAuditPreDispatchMiddleware :: "executor \<Rightarrow> middleware" where
  "securityAuditPreDispatchMiddleware e next = (\<lambda>(op, w).
     if ctx_origin op \<noteq> ''relay'' \<or> \<not> operationMayHaveSideEffects (op_tool op) then next (op, w)
     else (let w' = meanwhile e ''audit'' w in
       if \<not> persistSecurityAuditDispatchIntent e op
       then (Inl (Bridge (BridgeError ''unavailable'' (Some True) None (Some [(''reason'', JStr ''security_audit_unavailable'')]))), op, w')
       else next (op, w'\<lparr>w_audit := w_audit w' @ [audit_input op ''dispatch_intent'' []]\<rparr>)))"

definition invokeHandler :: "executor \<Rightarrow> exec" where
  "invokeHandler e = (\<lambda>(op, w).
     case map_of (ex_handlers e) (op_tool op) of
       None \<Rightarrow> (Inl (OtherError []), op, w)
     | Some h \<Rightarrow>
         (let relay = (ctx_origin op = ''relay'');
              w1 = w\<lparr>w_ran := w_ran w @ [(op_tool op, op_args op)],
                     w_activity := (if relay then (Suc (fst (w_activity w)), snd (w_activity w)) else w_activity w)\<rparr>;
              w2 = meanwhile e ''handler'' w1
          in (h (op_args op) op, op,
              w2\<lparr>w_activity := (if relay then (fst (w_activity w2), Suc (snd (w_activity w2))) else w_activity w2)\<rparr>)))"

definition execute :: "executor \<Rightarrow> operation \<Rightarrow> world \<Rightarrow> outcome \<times> operation \<times> world" where
  "execute e op w =
     composeMiddleware [lifecycleMiddleware e, observabilityMiddleware e, authorityMiddleware e,
       validateArgumentsMiddleware e, operationAuthorizationMiddleware e, securityAuditPreDispatchMiddleware e]
       (invokeHandler e) (op, w)"

end
