(* ===== verification/ToolExecutorSpec.thy ===== *)
theory ToolExecutorSpec
  imports ToolExecutor
begin

text \<open>
  What the tool pipeline guarantees: every call settles, its observations come in pairs, its registry entry and
  its relay activity end with it; and a handler runs only on a call that every stage has admitted.  The stages
  are handled uniformly: each one only appends to the records of the world, and the properties of the whole
  follow by composing the stages in the order of the code.
\<close>

section \<open>What the inner stages leave alone\<close>

text \<open>
  A quiet stage keeps the registry's invariant, observes nothing, and ends every relay activity it started.
\<close>

definition quiet :: "world \<Rightarrow> world \<Rightarrow> bool" where
  "quiet w w' = ((reg_inv (w_registry w) \<longrightarrow> reg_inv (w_registry w')) \<and> w_observed w' = w_observed w
     \<and> fst (w_activity w') + snd (w_activity w) = fst (w_activity w) + snd (w_activity w'))"

lemma quiet_refl [simp]: "quiet w w"
  by (simp add: quiet_def)

lemma quiet_trans: "quiet u v \<Longrightarrow> quiet v w \<Longrightarrow> quiet u w"
  by (auto simp: quiet_def)

lemma meanwhile_fields [simp]:
  "w_observed (meanwhile e st w) = w_observed w" "w_audit (meanwhile e st w) = w_audit w"
  "w_ran (meanwhile e st w) = w_ran w" "w_activity (meanwhile e st w) = w_activity w"
  by (simp_all add: meanwhile_def)

lemma meanwhile_inv: "reg_inv (w_registry w) \<Longrightarrow> reg_inv (w_registry (meanwhile e st w))"
  by (simp add: meanwhile_def call_registry.run_inv)

lemma quiet_meanwhile: "quiet w (meanwhile e st w)"
  by (simp add: quiet_def meanwhile_inv)

section \<open>The stages from the handler outwards\<close>

text \<open>
  Under the stages from some point on, either no handler ran, or exactly the handler of the operation ran and
  the stages admitted it, which shows in the audit records they append.  The tool of the operation never changes.
\<close>

definition ran_or_not :: "(operation \<Rightarrow> audit_event list \<Rightarrow> bool) \<Rightarrow> operation \<Rightarrow> world \<Rightarrow> world \<Rightarrow> bool" where
  "ran_or_not P op w w' = (\<exists>new. w_audit w' = w_audit w @ new
     \<and> (w_ran w' = w_ran w \<or> w_ran w' = w_ran w @ [(op_tool op, op_args op)] \<and> P op new))"

definition runs_only :: "(operation \<Rightarrow> audit_event list \<Rightarrow> bool) \<Rightarrow> exec \<Rightarrow> bool" where
  "runs_only P f = (\<forall>op w r op' w'. f (op, w) = (r, op', w') \<longrightarrow> quiet w w' \<and> op_tool op' = op_tool op \<and> ran_or_not P op w w')"

lemma runs_onlyI:
  assumes "\<And>op w r op' w'. f (op, w) = (r, op', w') \<Longrightarrow> quiet w w' \<and> op_tool op' = op_tool op \<and> ran_or_not P op w w'"
  shows "runs_only P f"
  using assms unfolding runs_only_def by blast

lemma runs_onlyD:
  assumes "runs_only P f" "f (op, w) = (r, op', w')"
  shows "quiet w w'" "op_tool op' = op_tool op" "ran_or_not P op w w'"
  using assms unfolding runs_only_def by blast+

lemma ran_or_not_refl [simp]: "ran_or_not P op w w"
  by (simp add: ran_or_not_def)

lemma ran_or_not_mono:
  assumes "ran_or_not P op v w'" "w_audit v = w_audit w @ pre" "w_ran v = w_ran w" "op_tool op = op_tool op2" "op_args op = op_args op2"
    and "\<And>new. P op new \<Longrightarrow> Q op2 (pre @ new)"
  shows "ran_or_not Q op2 w w'"
  using assms unfolding ran_or_not_def by (metis append.assoc)

lemmas ran_same = ran_or_not_mono [where pre = "[]", simplified]

lemma runs_handler: "runs_only (\<lambda>op new. op_tool op \<in> set (map fst (ex_handlers e))) (invokeHandler e)"
proof (rule runs_onlyI)
  fix op w r op' w'
  assume f: "invokeHandler e (op, w) = (r, op', w')"
  show "quiet w w' \<and> op_tool op' = op_tool op \<and> ran_or_not (\<lambda>op new. op_tool op \<in> set (map fst (ex_handlers e))) op w w'"
  proof (cases "map_of (ex_handlers e) (op_tool op)")
    case None
    with f show ?thesis by (auto simp: invokeHandler_def)
  next
    case (Some h)
    then have "op_tool op \<in> set (map fst (ex_handlers e))" by (auto dest: map_of_SomeD simp: rev_image_eqI)
    moreover from f Some have "w_ran w' = w_ran w @ [(op_tool op, op_args op)]" "op_tool op' = op_tool op" "quiet w w'" "w_audit w' = w_audit w"
      by (auto simp: invokeHandler_def Let_def quiet_def meanwhile_def call_registry.run_inv)
    ultimately show ?thesis by (simp add: ran_or_not_def)
  qed
qed

definition audited :: "executor \<Rightarrow> operation \<Rightarrow> audit_event list \<Rightarrow> bool" where
  "audited e op new = (ctx_origin op = ''relay'' \<and> operationMayHaveSideEffects (op_tool op) \<longrightarrow>
     audit_input op ''dispatch_intent'' [] \<in> set new)"

lemma runs_audit: "runs_only (audited e) (securityAuditPreDispatchMiddleware e (invokeHandler e))"
proof (rule runs_onlyI)
  fix op w r op' w'
  assume f: "securityAuditPreDispatchMiddleware e (invokeHandler e) (op, w) = (r, op', w')"
  let ?w = "meanwhile e ''audit'' w" and ?intent = "[audit_input op ''dispatch_intent'' []]"
  let ?v = "?w\<lparr>w_audit := w_audit ?w @ ?intent\<rparr>"
  consider (free) "ctx_origin op \<noteq> ''relay'' \<or> \<not> operationMayHaveSideEffects (op_tool op)" "invokeHandler e (op, w) = (r, op', w')"
    | (stop) "op' = op" "w' = ?w"
    | (go) "invokeHandler e (op, ?v) = (r, op', w')"
    using f by (auto simp: securityAuditPreDispatchMiddleware_def Let_def split: if_splits)
  then show "quiet w w' \<and> op_tool op' = op_tool op \<and> ran_or_not (audited e) op w w'"
  proof cases
    case free
    then have "ran_or_not (audited e) op w w'"
      by (intro ran_same [OF runs_onlyD(3) [OF runs_handler free(2)]]) (auto simp: audited_def)
    then show ?thesis using runs_onlyD(1,2) [OF runs_handler free(2)] by blast
  next
    case stop
    then show ?thesis by (simp add: quiet_meanwhile ran_or_not_def)
  next
    case go
    have "quiet w ?v" using quiet_meanwhile [of w e "''audit''"] by (simp add: quiet_def)
    then have "quiet w w'" using runs_onlyD(1) [OF runs_handler go] quiet_trans by blast
    moreover have "ran_or_not (audited e) op w w'"
      by (rule ran_or_not_mono [OF runs_onlyD(3) [OF runs_handler go], of w ?intent]) (simp_all add: audited_def)
    ultimately show ?thesis using runs_onlyD(2) [OF runs_handler go] by blast
  qed
qed

text \<open>The audit record is the one of the operation as the gate saw it, with its decision.\<close>

definition authorized :: "executor \<Rightarrow> operation \<Rightarrow> audit_event list \<Rightarrow> bool" where
  "authorized e op new = (ctx_origin op = ''relay'' \<longrightarrow>
     (\<forall>az. ex_authorizer e = Some az \<longrightarrow> (\<exists>d. fst (authorize az (Some ''relay'') (ctx_authority op) (op_tool op) (op_args op)) = Inr d))
     \<and> (operationMayHaveSideEffects (op_tool op) \<longrightarrow>
          (\<exists>a \<in> set new. au_outcome a = ''dispatch_intent'' \<and> au_tool a = op_tool op \<and> au_operationId a = ctx_callId op)))"

lemma audited_record:
  "audited e op new \<Longrightarrow> ctx_origin op = ''relay'' \<Longrightarrow> operationMayHaveSideEffects (op_tool op) \<Longrightarrow>
   \<exists>a \<in> set new. au_outcome a = ''dispatch_intent'' \<and> au_tool a = op_tool op \<and> au_operationId a = ctx_callId op"
  unfolding audited_def by (force simp: audit_input_def)

lemma runs_authorization:
  "runs_only (authorized e) (operationAuthorizationMiddleware e (securityAuditPreDispatchMiddleware e (invokeHandler e)))"
  (is "runs_only _ (operationAuthorizationMiddleware e ?next)")
proof (rule runs_onlyI)
  fix op w r op' w'
  assume f: "operationAuthorizationMiddleware e ?next (op, w) = (r, op', w')"
  let ?w = "meanwhile e ''authorize'' w"
  show "quiet w w' \<and> op_tool op' = op_tool op \<and> ran_or_not (authorized e) op w w'"
  proof (cases "ctx_origin op = ''relay''")
    case False
    then have n: "?next (op, w) = (r, op', w')" using f by (simp add: operationAuthorizationMiddleware_def)
    have "ran_or_not (authorized e) op w w'"
      by (rule ran_same [OF runs_onlyD(3) [OF runs_audit n]]) (use False in \<open>simp_all add: authorized_def\<close>)
    then show ?thesis using runs_onlyD(1,2) [OF runs_audit n] by blast
  next
    case relay: True
    show ?thesis
    proof (cases "ex_authorizer e")
      case None
      then have n: "?next (op, w) = (r, op', w')" using f relay by (simp add: operationAuthorizationMiddleware_def)
      have "ran_or_not (authorized e) op w w'"
        by (rule ran_same [OF runs_onlyD(3) [OF runs_audit n]]) (use None audited_record in \<open>auto simp: authorized_def\<close>)
      then show ?thesis using runs_onlyD(1,2) [OF runs_audit n] by blast
    next
      case (Some az)
      obtain x pending where au: "authorize az (Some ''relay'') (ctx_authority op) (op_tool op) (op_args op) = (x, pending)" by fastforce
      show ?thesis
      proof (cases x)
        case (Inl err)
        then show ?thesis using f relay Some au by (auto simp: operationAuthorizationMiddleware_def quiet_meanwhile ran_or_not_def)
      next
        case (Inr d)
        then have n: "?next (op\<lparr>ctx_decision := Some d\<rparr>, ?w) = (r, op', w')"
          using f relay Some au by (simp add: operationAuthorizationMiddleware_def)
        note i = runs_onlyD [OF runs_audit n]
        have "quiet w w'" using quiet_meanwhile i(1) by (rule quiet_trans)
        moreover have "authorized e op new" if "audited e (op\<lparr>ctx_decision := Some d\<rparr>) new" for new
          using audited_record [OF that] relay Some au Inr by (simp add: authorized_def)
        then have "ran_or_not (authorized e) op w w'" by (intro ran_same [OF i(3)]) simp_all
        ultimately show ?thesis using i(2) by simp
      qed
    qed
  qed
qed

lemma runs_validation:
  "runs_only (\<lambda>op new. validate_stage e (ctx_origin op) (op_tool op) (op_args op) = Inr () \<and> authorized e op new)
     (validateArgumentsMiddleware e (operationAuthorizationMiddleware e (securityAuditPreDispatchMiddleware e (invokeHandler e))))"
  (is "runs_only ?P (validateArgumentsMiddleware e ?next)")
proof (rule runs_onlyI)
  fix op w r op' w'
  assume f: "validateArgumentsMiddleware e ?next (op, w) = (r, op', w')"
  show "quiet w w' \<and> op_tool op' = op_tool op \<and> ran_or_not ?P op w w'"
  proof (cases "validate_stage e (ctx_origin op) (op_tool op) (op_args op)")
    case (Inl err)
    with f show ?thesis by (auto simp: validateArgumentsMiddleware_def)
  next
    case (Inr u)
    then have n: "?next (op, w) = (r, op', w')" using f by (simp add: validateArgumentsMiddleware_def)
    have "ran_or_not ?P op w w'" by (rule ran_same [OF runs_onlyD(3) [OF runs_authorization n]]) (use Inr in simp_all)
    then show ?thesis using runs_onlyD(1,2) [OF runs_authorization n] by blast
  qed
qed

definition authorised_run :: "executor \<Rightarrow> operation \<Rightarrow> audit_event list \<Rightarrow> bool" where
  "authorised_run e op new = (\<exists>a. authority_stage (ex_gate e) (op_tool op) (Some (ctx_origin op)) (req_authorization op) = Inr a
     \<and> validate_stage e (ctx_origin op) (op_tool op) (op_args op) = Inr () \<and> authorized e (op\<lparr>ctx_authority := Some a\<rparr>) new)"

definition inner_stages :: "executor \<Rightarrow> exec" where
  "inner_stages e = authorityMiddleware e (validateArgumentsMiddleware e (operationAuthorizationMiddleware e
     (securityAuditPreDispatchMiddleware e (invokeHandler e))))"

lemma runs_inner: "runs_only (authorised_run e) (inner_stages e)"
  unfolding inner_stages_def
proof (rule runs_onlyI)
  let ?next = "validateArgumentsMiddleware e (operationAuthorizationMiddleware e (securityAuditPreDispatchMiddleware e (invokeHandler e)))"
  fix op w r op' w'
  assume f: "authorityMiddleware e ?next (op, w) = (r, op', w')"
  show "quiet w w' \<and> op_tool op' = op_tool op \<and> ran_or_not (authorised_run e) op w w'"
  proof (cases "authority_stage (ex_gate e) (op_tool op) (Some (ctx_origin op)) (req_authorization op)")
    case (Inl err)
    with f show ?thesis by (auto simp: authorityMiddleware_def)
  next
    case (Inr a)
    let ?w = "w\<lparr>w_registry := fst (bindPrincipal (ctx_callId op) (principal_js (auth_principal a)) (w_registry w))\<rparr>"
    have n: "?next (op\<lparr>ctx_authority := Some a\<rparr>, ?w) = (r, op', w')" using f Inr by (simp add: authorityMiddleware_def)
    note i = runs_onlyD [OF runs_validation n]
    have "quiet w ?w" by (simp add: quiet_def bindPrincipal_inv)
    then have "quiet w w'" using i(1) by (rule quiet_trans)
    moreover have "ran_or_not (authorised_run e) op w w'" by (rule ran_same [OF i(3)]) (use Inr in \<open>auto simp: authorised_run_def\<close>)
    ultimately show ?thesis using i(2) by simp
  qed
qed

section \<open>The whole pipeline\<close>

lemma execute_stages: "execute e op w = lifecycleMiddleware e (observabilityMiddleware e (inner_stages e)) (op, w)"
  by (simp add: execute_def composeMiddleware_def inner_stages_def)

lemma enqueue_fields [simp]:
  "w_observed (enqueueSecurityAudit e op r c w) = w_observed w" "w_ran (enqueueSecurityAudit e op r c w) = w_ran w"
  "w_registry (enqueueSecurityAudit e op r c w) = w_registry w" "w_activity (enqueueSecurityAudit e op r c w) = w_activity w"
  "w_audit (enqueueSecurityAudit e op r c w) = w_audit w @ (if \<not> ex_auditor e \<or> ctx_origin op \<noteq> ''relay'' then [] else [audit_input op r c])"
  by (auto simp: enqueueSecurityAudit_def)

lemma observe_fields [simp]:
  "w_observed (observe ob w) = w_observed w @ [ob]" "w_ran (observe ob w) = w_ran w" "w_registry (observe ob w) = w_registry w"
  "w_activity (observe ob w) = w_activity w" "w_audit (observe ob w) = w_audit w"
  by (simp_all add: observe_def)

text \<open>Around the inner stages, the call is observed to start once and to finish once.\<close>

lemma observed_call:
  assumes "observabilityMiddleware e (inner_stages e) (op, w) = (r, op', w')"
  obtains st c slow where "w_observed w' = w_observed w @ [ObsStarted (op_tool op), ObsFinished (op_tool op) st c slow]"
    and "reg_inv (w_registry w) \<Longrightarrow> reg_inv (w_registry w')"
    and "fst (w_activity w') + snd (w_activity w) = fst (w_activity w) + snd (w_activity w')"
    and "\<exists>new. w_audit w' = w_audit w @ new \<and> (w_ran w' = w_ran w \<or> w_ran w' = w_ran w @ [(op_tool op, op_args op)]
       \<and> (\<exists>own ys. new = own @ ys \<and> authorised_run e op own))"
proof -
  obtain r1 op1 w1 where n: "inner_stages e (op, observe (ObsStarted (op_tool op)) w) = (r1, op1, w1)"
    by (metis prod_cases3)
  note i = runs_onlyD [OF runs_inner n]
  have t: "op_tool op1 = op_tool op" by (rule i(2))
  have "\<exists>st c slow xs. w_observed w' = w_observed w1 @ [ObsFinished (op_tool op) st c slow] \<and> w_registry w' = w_registry w1
      \<and> w_activity w' = w_activity w1 \<and> w_ran w' = w_ran w1 \<and> w_audit w' = w_audit w1 @ xs"
    using assms n t
    by (fastforce simp: observabilityMiddleware_def call_failed_def Let_def split: sum.splits)
  then obtain st c slow xs where o: "w_observed w' = w_observed w1 @ [ObsFinished (op_tool op) st c slow]"
    "w_registry w' = w_registry w1" "w_activity w' = w_activity w1" "w_ran w' = w_ran w1" "w_audit w' = w_audit w1 @ xs"
    by blast
  obtain own where own: "w_audit w1 = w_audit w @ own" "w_ran w1 = w_ran w \<or> w_ran w1 = w_ran w @ [(op_tool op, op_args op)] \<and> authorised_run e op own"
    using i(3) by (auto simp: ran_or_not_def)
  show thesis
  proof (rule that [of st c slow])
    show "\<exists>new. w_audit w' = w_audit w @ new \<and> (w_ran w' = w_ran w \<or> w_ran w' = w_ran w @ [(op_tool op, op_args op)]
       \<and> (\<exists>own ys. new = own @ ys \<and> authorised_run e op own))"
      using o own by (intro exI [of _ "own @ xs"]) auto
  qed (use o i in \<open>auto simp: quiet_def\<close>)
qed

lemma open_fresh:
  assumes "open_call f now i tool org t s = Inr s'"
  shows "throwIfCancelled (if i \<noteq> [] then i else ''call_'' @ f) s' = Inr ()"
  using assms by (auto simp: open_call_def res_bind_Inr_iff Let_def throwIfCancelled_def map_of_map_set new_call_def split: if_splits)

lemma finish_gone: "i \<notin> set (reg_ids (fst (finish_call i s)))"
proof (cases "map_of (reg_calls s) i")
  case None
  then have "fst (finish_call i s) = s" by (simp add: finish_call_def)
  with None show ?thesis by (simp add: reg_ids_def map_of_eq_None_iff)
qed (auto simp: finish_call_def reg_ids_def map_del_def)

definition call_identity :: "executor \<Rightarrow> operation \<Rightarrow> string" where
  "call_identity e op = (if req_callId op \<noteq> [] then req_callId op else ''call_'' @ ex_fresh e)"

definition request_origin :: "operation \<Rightarrow> string" where
  "request_origin op = (if req_origin op \<noteq> [] then req_origin op else ''local'')"

lemma execute_cases:
  assumes "execute e op w = (r, op', w')"
  obtains (refused) err where "open_call (ex_fresh e) (ex_now e) (req_callId op) (op_tool op) (request_origin op) (req_timeout op) (w_registry w) = Inl err"
      "r = Inl (Bridge err)" "w' = w"
    | (opened) reg w2 where "open_call (ex_fresh e) (ex_now e) (req_callId op) (op_tool op) (request_origin op) (req_timeout op) (w_registry w) = Inr reg"
      "observabilityMiddleware e (inner_stages e) (op\<lparr>ctx_callId := call_identity e op, ctx_origin := request_origin op\<rparr>, w\<lparr>w_registry := reg\<rparr>)
         = (r, op', w2)"
      "w' = w2\<lparr>w_registry := fst (finish_call (call_identity e op) (w_registry w2))\<rparr>"
proof (cases "open_call (ex_fresh e) (ex_now e) (req_callId op) (op_tool op) (request_origin op) (req_timeout op) (w_registry w)")
  case (Inl err)
  then show thesis using assms
    by (intro refused [of err]) (auto simp: execute_stages lifecycleMiddleware_def Let_def request_origin_def)
next
  case (Inr reg)
  obtain r2 op2 w2 where n: "observabilityMiddleware e (inner_stages e)
      (op\<lparr>ctx_callId := call_identity e op, ctx_origin := request_origin op\<rparr>, w\<lparr>w_registry := reg\<rparr>) = (r2, op2, w2)"
    by (metis prod_cases3)
  have "throwIfCancelled (call_identity e op) reg = Inr ()" using open_fresh [OF Inr] by (simp add: call_identity_def)
  then have "execute e op w = (r2, op2, w2\<lparr>w_registry := fst (finish_call (call_identity e op) (w_registry w2))\<rparr>)"
    using Inr n by (simp add: execute_stages lifecycleMiddleware_def Let_def request_origin_def call_identity_def)
  with assms n Inr show thesis by (intro opened [of reg w2]) auto
qed

text \<open>
  C19. Every call settles: it is either refused at the registry, which changes nothing, or it is observed to start
  and to finish exactly once, is gone from the registry at the end whatever happened in between, leaves the
  registry within its capacity, and ends the relay activity it started.
\<close>

theorem call_settles:
  assumes "execute e op w = (r, op', w')" "reg_inv (w_registry w)"
  shows "(\<exists>err. r = Inl (Bridge err) \<and> w' = w)
     \<or> (\<exists>st c slow. w_observed w' = w_observed w @ [ObsStarted (op_tool op), ObsFinished (op_tool op) st c slow]
          \<and> (if req_callId op \<noteq> [] then req_callId op else ''call_'' @ ex_fresh e) \<notin> set (reg_ids (w_registry w'))
          \<and> reg_inv (w_registry w')
          \<and> fst (w_activity w') + snd (w_activity w) = fst (w_activity w) + snd (w_activity w'))"
  using assms(1)
proof (cases rule: execute_cases)
  case (refused err)
  then show ?thesis by blast
next
  case (opened reg w2)
  have "reg_inv reg" using opened(1) assms(2) by (auto intro: open_call_inv)
  show ?thesis
  proof (rule observed_call [OF opened(2)])
    fix st c slow
    assume "w_observed w2 = w_observed (w\<lparr>w_registry := reg\<rparr>) @ [ObsStarted (op_tool (op\<lparr>ctx_callId := call_identity e op, ctx_origin := request_origin op\<rparr>)),
        ObsFinished (op_tool (op\<lparr>ctx_callId := call_identity e op, ctx_origin := request_origin op\<rparr>)) st c slow]"
      "reg_inv (w_registry (w\<lparr>w_registry := reg\<rparr>)) \<Longrightarrow> reg_inv (w_registry w2)"
      "fst (w_activity w2) + snd (w_activity (w\<lparr>w_registry := reg\<rparr>)) = fst (w_activity (w\<lparr>w_registry := reg\<rparr>)) + snd (w_activity w2)"
    with \<open>reg_inv reg\<close> show ?thesis using opened(3) finish_gone finish_call_inv by (auto simp: call_identity_def)
  qed
qed

lemma validate_stage_ok:
  assumes "validate_stage e org tool args = Inr ()" "0 < maximumIssues (ex_limits e)"
  shows "\<exists>n. map_of (ex_validators e) tool = Some n
     \<and> (sat (ex_regex e) n args
        \<or> validRelayToolSchemaExtension org tool args (issues (validate (ex_regex e) (ex_limits e) (ex_validators e) tool args)))"
proof (cases "map_of (ex_validators e) tool")
  case None
  with assms(1) show ?thesis by (simp add: validate_stage_def validate_def)
next
  case (Some n)
  with validate_facts(3) [OF Some assms(2)] assms(1) show ?thesis
    by (auto simp: validate_stage_def Let_def split: if_splits)
qed

text \<open>
  C20. When the validator may report issues, a handler runs only when every stage admitted the call: it runs once, with the tool and the arguments of
  the request; the arguments satisfy the tool's schema, a relay extension of a time limit apart; the daemon's
  policy allows the tool; a relayed call has an authority, and where an operation authoriser is installed (as the
  runtime does) it has passed the authority, the validation and the authorisation stages together; and when it may
  have side effects, this call has appended its own intent, under its tool and its call id, to the audit records.
\<close>

theorem handler_admitted:
  assumes "execute e op w = (r, op', w')" "w_ran w' \<noteq> w_ran w" "0 < maximumIssues (ex_limits e)"
  shows "w_ran w' = w_ran w @ [(op_tool op, op_args op)]
     \<and> (\<exists>n. map_of (ex_validators e) (op_tool op) = Some n \<and> (sat (ex_regex e) n (op_args op)
          \<or> validRelayToolSchemaExtension (req_origin op) (op_tool op) (op_args op)
              (issues (validate (ex_regex e) (ex_limits e) (ex_validators e) (op_tool op) (op_args op)))))
     \<and> is_ok (gate_assert (ex_gate e) (op_tool op))
     \<and> (req_origin op = ''relay'' \<longrightarrow>
          is_ok (authority_stage (ex_gate e) (op_tool op) (Some ''relay'') (req_authorization op))
          \<and> (\<forall>az. ex_authorizer e = Some az \<longrightarrow>
             (\<exists>a d. admit_call az (ex_gate e) (validate_stage e ''relay'') (op_tool op) (Some ''relay'') (req_authorization op) (op_args op) = Inr (a, d)))
          \<and> (operationMayHaveSideEffects (op_tool op) \<longrightarrow>
               (\<exists>new. w_audit w' = w_audit w @ new \<and> (\<exists>a \<in> set new. au_outcome a = ''dispatch_intent'' \<and> au_tool a = op_tool op
                  \<and> au_operationId a = (if req_callId op \<noteq> [] then req_callId op else ''call_'' @ ex_fresh e)))))"
  using assms(1)
proof (cases rule: execute_cases)
  case (refused err)
  with assms(2) show ?thesis by simp
next
  case (opened reg w2)
  let ?op = "op\<lparr>ctx_callId := call_identity e op, ctx_origin := request_origin op\<rparr>"
  show ?thesis
  proof (rule observed_call [OF opened(2)])
    assume "\<exists>new. w_audit w2 = w_audit (w\<lparr>w_registry := reg\<rparr>) @ new \<and> (w_ran w2 = w_ran (w\<lparr>w_registry := reg\<rparr>)
       \<or> w_ran w2 = w_ran (w\<lparr>w_registry := reg\<rparr>) @ [(op_tool ?op, op_args ?op)] \<and> (\<exists>own ys. new = own @ ys \<and> authorised_run e ?op own))"
    then obtain own ys a where run: "w_ran w' = w_ran w @ [(op_tool op, op_args op)]" and au: "w_audit w' = w_audit w @ (own @ ys)"
      and st: "authority_stage (ex_gate e) (op_tool op) (Some (request_origin op)) (req_authorization op) = Inr a"
      and vs: "validate_stage e (request_origin op) (op_tool op) (op_args op) = Inr ()"
      and ok: "authorized e (?op\<lparr>ctx_authority := Some a\<rparr>) own"
      using assms(2) opened(3) by (auto simp: authorised_run_def)
    have relay: "request_origin op = ''relay'' \<longleftrightarrow> req_origin op = ''relay''" by (simp add: request_origin_def)
    have ext: "validRelayToolSchemaExtension (request_origin op) t x is = validRelayToolSchemaExtension (req_origin op) t x is" for t x "is"
      using relay by (simp add: validRelayToolSchemaExtension_def validRelayDurableProcessSchemaExtension_def validRelayManagedJobReadSchemaExtension_def)
    have gate: "is_ok (gate_assert (ex_gate e) (op_tool op))"
      using st by (auto simp: authority_stage_def res_bind_Inr_iff is_ok_iff)
    have "\<exists>a d. admit_call az (ex_gate e) (validate_stage e ''relay'') (op_tool op) (Some ''relay'') (req_authorization op) (op_args op) = Inr (a, d)"
      if "req_origin op = ''relay''" "ex_authorizer e = Some az" for az
      using that relay st vs ok by (auto simp: admit_call_def authorized_def)
    moreover have "is_ok (authority_stage (ex_gate e) (op_tool op) (Some ''relay'') (req_authorization op))" if "req_origin op = ''relay''"
      using that relay st by (simp add: is_ok_iff)
    moreover have "\<exists>new. w_audit w' = w_audit w @ new \<and> (\<exists>a \<in> set new. au_outcome a = ''dispatch_intent'' \<and> au_tool a = op_tool op
        \<and> au_operationId a = (if req_callId op \<noteq> [] then req_callId op else ''call_'' @ ex_fresh e))"
      if "req_origin op = ''relay''" "operationMayHaveSideEffects (op_tool op)"
      unfolding au using that relay ok by (intro exI [of _ "own @ ys"]) (auto simp: authorized_def call_identity_def)
    ultimately show ?thesis using run gate validate_stage_ok [OF vs assms(3)] unfolding ext by blast
  qed
qed

section \<open>A concrete pipeline\<close>

definition sample_authorizer :: authorizer where
  "sample_authorizer = mk_authorizer
     \<lparr>env_cwd = ''/'', env_workspace = ''/w'',
      env_resolveExisting = Some (\<lambda>v. Inr (path_resolve ''/w'' (arg_text v))),
      env_resolveWrite = Some (\<lambda>v. Inr (path_resolve ''/w'' (arg_text v))),
      env_digest = (\<lambda>t v. t), env_sha = (\<lambda>s. s)\<rparr> (\<lambda>p. Some p) [''/state''] (\<lambda>s. s)"

definition sample_gate :: policy_gate where
  "sample_gate = PolicyGate (JObj [(''profile'', JStr ''full'')])"

definition path_node :: node where
  "path_node = Node (Kws (Some [''object'']) None None None None None None None None None None None None None None
     None (Some [''path'']) None None None None None None None None None)"

definition sample_executor :: executor where
  "sample_executor =
     \<lparr>ex_fresh = ''f'', ex_now = 0, ex_duration = 5, ex_slowMs = 1000, ex_gate = sample_gate,
      ex_authorizer = Some sample_authorizer, ex_regex = (\<lambda>_ _. True), ex_limits = DEFAULT_LIMITS,
      ex_validators = [(''write_file'', path_node)],
      ex_handlers = [(''write_file'', \<lambda>args op. Inr args)], ex_during = (\<lambda>_. []), ex_auditor = True,
      ex_flushed = True, ex_recorded = True, ex_jsonBytes = (\<lambda>_. 20)\<rparr>"

definition sample_operation :: operation where
  "sample_operation =
     \<lparr>op_tool = ''write_file'', op_args = JObj [(''path'', JStr ''notes'')], req_callId = ''a'', req_origin = ''relay'',
      req_timeout = JUndef, req_authorization = sample_authorization ''editor'', ctx_callId = [], ctx_origin = [],
      ctx_authority = None, ctx_decision = None\<rparr>"

definition sample_world :: world where
  "sample_world = \<lparr>w_registry = new_registry JUndef JUndef [], w_observed = [], w_audit = [], w_ran = [], w_activity = (0, 0)\<rparr>"

lemma sample_world_inv: "reg_inv (w_registry sample_world)"
  by (simp add: sample_world_def new_registry_inv)

lemma sample_run:
  "w_ran (snd (snd (execute sample_executor sample_operation sample_world))) = [(''write_file'', JObj [(''path'', JStr ''notes'')])]"
proof -
  let ?args = "JObj [(''path'', JStr ''notes'')]" and ?new = "new_registry JUndef JUndef []"
  have "is_ok (open_call ''f'' 0 ''a'' ''write_file'' ''relay'' JUndef ?new)" by code_simp
  then obtain reg where reg: "open_call ''f'' 0 ''a'' ''write_file'' ''relay'' JUndef ?new = Inr reg" by (auto simp: is_ok_iff)
  from open_fresh [OF this] have alive: "throwIfCancelled ''a'' reg = Inr ()" by simp
  have "case authority_stage sample_gate ''write_file'' (Some ''relay'') (sample_authorization ''editor'') of Inl _ \<Rightarrow> False
     | Inr a \<Rightarrow> is_ok (fst (authorize sample_authorizer (Some ''relay'') (Some a) ''write_file'' ?args))" by code_simp
  then obtain a d p where au: "authority_stage sample_gate ''write_file'' (Some ''relay'') (sample_authorization ''editor'') = Inr a"
    "authorize sample_authorizer (Some ''relay'') (Some a) ''write_file'' ?args = (Inr d, p)"
    by (auto simp: is_ok_iff split: sum.splits prod.splits) (metis prod.collapse)
  have w: "work path_node ?args \<le> 9"
    by (simp add: path_node_def work_kws_def property_work_def opt_work_def)
  have "sat (\<lambda>_ _. True) path_node ?args"
    by (simp add: path_node_def sat_value_def sat_object_def sat_property_def sat_property_def sat_composition_def matchesType_def)
  with w validate_facts(1) [where validators = "[(''write_file'', path_node)]" and tool = "''write_file''" and n = path_node and lm = DEFAULT_LIMITS
      and regexTest = "\<lambda>_ _. True" and v = ?args]
    validate_facts(4) [where validators = "[(''write_file'', path_node)]" and tool = "''write_file''" and n = path_node and lm = DEFAULT_LIMITS
      and regexTest = "\<lambda>_ _. True" and v = ?args]
  have ok: "known (validate (\<lambda>_ _. True) DEFAULT_LIMITS [(''write_file'', path_node)] ''write_file'' ?args)"
    "valid (validate (\<lambda>_ _. True) DEFAULT_LIMITS [(''write_file'', path_node)] ''write_file'' ?args)"
    by (simp_all add: DEFAULT_LIMITS_def del: sat.simps)
  have side: "operationMayHaveSideEffects ''write_file''" by code_simp
  have fine: "is_ok (normalizeToolResult (\<lambda>_. 20) ?args JUndef)" by code_simp
  then obtain v b where fine: "normalizeToolResult (\<lambda>_. 20) ?args JUndef = Inr (v, b)" by (auto simp: is_ok_iff)
  show ?thesis
    using reg alive au ok side fine
    by (simp add: execute_stages lifecycleMiddleware_def observabilityMiddleware_def inner_stages_def authorityMiddleware_def
      validateArgumentsMiddleware_def validate_stage_def operationAuthorizationMiddleware_def persistSecurityAuditDispatchIntent_def
      securityAuditPreDispatchMiddleware_def invokeHandler_def sample_executor_def sample_operation_def sample_world_def
      observe_def meanwhile_def enqueueSecurityAudit_def Let_def)
qed

lemma call_settles_witness:
  "\<exists>r op' w'. execute sample_executor sample_operation sample_world = (r, op', w')
     \<and> ''a'' \<notin> set (reg_ids (w_registry w')) \<and> reg_inv (w_registry w')"
proof -
  obtain r op' w' where x: "execute sample_executor sample_operation sample_world = (r, op', w')" by (metis prod_cases3)
  have "w' \<noteq> sample_world" using sample_run x by (auto simp: sample_world_def)
  with call_settles [OF x sample_world_inv] x show ?thesis by (auto simp: sample_operation_def)
qed

lemma handler_admitted_witness:
  "\<exists>r op' w'. execute sample_executor sample_operation sample_world = (r, op', w')
     \<and> w_ran w' = w_ran sample_world @ [(op_tool sample_operation, op_args sample_operation)]
     \<and> (\<exists>a \<in> set (w_audit w'). au_outcome a = ''dispatch_intent'' \<and> au_tool a = ''write_file'' \<and> au_operationId a = ''a'')"
proof -
  obtain r op' w' where x: "execute sample_executor sample_operation sample_world = (r, op', w')" by (metis prod_cases3)
  have ran: "w_ran w' \<noteq> w_ran sample_world" using sample_run x by (auto simp: sample_world_def)
  have pos: "0 < maximumIssues (ex_limits sample_executor)" by (simp add: sample_executor_def DEFAULT_LIMITS_def)
  have side: "req_origin sample_operation = ''relay''" "operationMayHaveSideEffects (op_tool sample_operation)"
    "op_tool sample_operation = ''write_file''" "req_callId sample_operation = ''a''"
    by code_simp+
  from handler_admitted [OF x ran pos] x side show ?thesis by auto
qed

end
