(* ===== verification/JsDate.thy ===== *)
theory JsDate
  imports Prelude
begin

text \<open>
  \<open>Date.parse\<close> on the strings the sources store, which \<open>Date.prototype.toISOString\<close> writes
  (\<open>YYYY-MM-DDTHH:mm:ss.sssZ\<close>); any other string counts as unparseable (NaN).  Times are
  milliseconds since the epoch.
\<close>

definition leap_year :: "int \<Rightarrow> bool" where
  "leap_year y = (y mod 4 = 0 \<and> (y mod 100 \<noteq> 0 \<or> y mod 400 = 0))"

definition days_in_month :: "int \<Rightarrow> int \<Rightarrow> int" where
  "days_in_month y m = (if m = 2 then (if leap_year y then 29 else 28) else if m \<in> {4, 6, 9, 11} then 30 else 31)"

text \<open>Days from 1970-01-01 of the proleptic Gregorian calendar, with years that start in March.\<close>

definition days_from_civil :: "int \<Rightarrow> int \<Rightarrow> int \<Rightarrow> int" where
  "days_from_civil y m d =
     (let y' = (if m \<le> 2 then y - 1 else y); m' = (if m \<le> 2 then m + 9 else m - 3)
      in 365 * y' + y' div 4 - y' div 100 + y' div 400 + (153 * m' + 2) div 5 + d - 1 - 719468)"

definition digits_int :: "string \<Rightarrow> int option" where
  "digits_int s = (if list_all is_digit s then Some (foldl (\<lambda>a c. 10 * a + int (digit_val c)) 0 s) else None)"

definition date_fields :: "string \<Rightarrow> int list option" where
  "date_fields s =
     (if length s = 24 \<and> s ! 4 = CHR ''-'' \<and> s ! 7 = CHR ''-'' \<and> s ! 10 = CHR ''T'' \<and> s ! 13 = CHR '':''
         \<and> s ! 16 = CHR '':'' \<and> s ! 19 = CHR ''.'' \<and> s ! 23 = CHR ''Z''
      then those (map digits_int [take 4 s, take 2 (drop 5 s), take 2 (drop 8 s), take 2 (drop 11 s),
         take 2 (drop 14 s), take 2 (drop 17 s), take 3 (drop 20 s)])
      else None)"

definition dateParse :: "string \<Rightarrow> int option" where
  "dateParse s = (case date_fields s of
     Some [y, m, d, h, mi, sec, ms] \<Rightarrow>
       (if 1 \<le> m \<and> m \<le> 12 \<and> 1 \<le> d \<and> d \<le> days_in_month y m \<and> h \<le> 23 \<and> mi \<le> 59 \<and> sec \<le> 59
        then Some ((((days_from_civil y m d * 24 + h) * 60 + mi) * 60 + sec) * 1000 + ms) else None)
   | _ \<Rightarrow> None)"

text \<open>\<open>Date.parse(String(v || ""))\<close>: only a string can be a stored time.\<close>

definition parse_time :: "jsv \<Rightarrow> int option" where
  "parse_time v = (case v of JStr s \<Rightarrow> dateParse s | _ \<Rightarrow> None)"

lemma dateParse_epoch: "dateParse ''1970-01-01T00:00:00.000Z'' = Some 0"
  by code_simp

lemma dateParse_leap: "dateParse ''2024-02-29T12:30:15.250Z'' = Some 1709209815250"
  by code_simp

lemma dateParse_invalid: "dateParse ''2023-02-29T00:00:00.000Z'' = None"
  by code_simp

end
