(* ===== verification/ResourceAccounting.thy ===== *)
theory ResourceAccounting
  imports Interfaces JsDate
begin

text \<open>
  The accounting of resource leases (\<open>src/local/resource-lease-accounting.mjs\<close>), the CPU window and the
  disk floors (\<open>resource-cpu-window.mjs\<close>, \<open>resource-disk-headroom.mjs\<close>), and the accounting view of the
  coordinator (\<open>resource-coordinator-accounting.mjs\<close>).

  A lease whose process descends from the process of another lease is nested in it: the parent's reservation
  covers its children, so a tree of leases counts for the larger of the parent's own request and the sum of
  its children, resource by resource.  Leases and the table of process parents are JSON values; quantities
  are exact rationals, and an infinite number counts as absent.
\<close>

section \<open>Resource vectors\<close>

record resource_vector =
  cpu :: rat
  io :: rat
  memory_mb :: rat
  disk_reserve_bytes :: rat

definition emptyVector :: resource_vector where
  "emptyVector = \<lparr>cpu = 0, io = 0, memory_mb = 0, disk_reserve_bytes = 0\<rparr>"

definition finite_number :: "jsv \<Rightarrow> rat" where
  "finite_number v = (case fin_of (js_Number v) of Some q \<Rightarrow> q | None \<Rightarrow> 0)"

definition requestVector :: "jsv \<Rightarrow> resource_vector" where
  "requestVector r =
     \<lparr>cpu = max 0 (finite_number (js_get r ''cpu'')),
      io = max 0 (finite_number (js_get r ''io'')),
      memory_mb = max 0 (finite_number (js_get r ''memory_mb'')),
      disk_reserve_bytes = max 0 (finite_number (js_get r ''disk_reserve_bytes''))\<rparr>"

definition addVector :: "resource_vector \<Rightarrow> resource_vector \<Rightarrow> resource_vector" where
  "addVector a b =
     \<lparr>cpu = cpu a + cpu b, io = io a + io b, memory_mb = memory_mb a + memory_mb b,
      disk_reserve_bytes = disk_reserve_bytes a + disk_reserve_bytes b\<rparr>"

definition max_vector :: "resource_vector \<Rightarrow> resource_vector \<Rightarrow> resource_vector" where
  "max_vector a b =
     \<lparr>cpu = max (cpu a) (cpu b), io = max (io a) (io b), memory_mb = max (memory_mb a) (memory_mb b),
      disk_reserve_bytes = max (disk_reserve_bytes a) (disk_reserve_bytes b)\<rparr>"

definition excess :: "resource_vector \<Rightarrow> resource_vector \<Rightarrow> resource_vector" where
  "excess a b =
     \<lparr>cpu = max 0 (cpu a - cpu b), io = max 0 (io a - io b), memory_mb = max 0 (memory_mb a - memory_mb b),
      disk_reserve_bytes = max 0 (disk_reserve_bytes a - disk_reserve_bytes b)\<rparr>"

text \<open>The totals of \<open>emptyAggregate\<close>: a vector and the number of roots.\<close>

record aggregate =
  used_vector :: resource_vector
  heavy_leases :: nat

definition emptyAggregate :: aggregate where
  "emptyAggregate = \<lparr>used_vector = emptyVector, heavy_leases = 0\<rparr>"

definition add_root :: "aggregate \<Rightarrow> resource_vector \<Rightarrow> aggregate" where
  "add_root t v = \<lparr>used_vector = addVector (used_vector t) v, heavy_leases = Suc (heavy_leases t)\<rparr>"

section \<open>Leases\<close>

definition leaseId :: "jsv \<Rightarrow> string option" where
  "leaseId l = (case js_get l ''lease_id'' of JStr s \<Rightarrow> if s \<noteq> [] then Some s else None | _ \<Rightarrow> None)"

definition lease_request :: "jsv \<Rightarrow> jsv" where
  "lease_request l = js_get l ''request''"

definition normalizePid :: "jsv \<Rightarrow> nat" where
  "normalizePid v = (let x = js_Number v in
     if isSafeInteger (JNum x) \<and> num_lt (Fin 0) x then nat \<lfloor>the (fin_of x)\<rfloor> else 0)"

definition processOwnerPid :: "jsv \<Rightarrow> nat" where
  "processOwnerPid l = (let w = js_get l ''owner'' in
     if js_get w ''kind'' = JStr ''process'' then normalizePid (js_get w ''pid'') else 0)"

definition parentPid :: "jsv \<Rightarrow> nat \<Rightarrow> nat" where
  "parentPid parents pid = normalizePid (js_get parents (nat_string pid))"

text \<open>
  \<open>nearestLease\<close> climbs the process table, at most 2048 steps and never twice through a process, to the first
  process that owns a lease other than the excluded one.
\<close>

fun nearest_loop :: "nat \<Rightarrow> nat list \<Rightarrow> jsv \<Rightarrow> (nat \<times> string) list \<Rightarrow> nat \<Rightarrow> string option \<Rightarrow> string option" where
  "nearest_loop 0 seen parents owners pid excluded = None"
| "nearest_loop (Suc n) seen parents owners pid excluded =
     (if pid = 0 \<or> pid \<in> set seen then None
      else (case map_of owners pid of
          Some i \<Rightarrow> if Some i \<noteq> excluded then Some i
                    else nearest_loop n (pid # seen) parents owners (parentPid parents pid) excluded
        | None \<Rightarrow> nearest_loop n (pid # seen) parents owners (parentPid parents pid) excluded))"

definition nearestLease :: "jsv \<Rightarrow> (nat \<times> string) list \<Rightarrow> nat \<Rightarrow> string option \<Rightarrow> string option" where
  "nearestLease parents owners pid excluded = nearest_loop 2048 [] parents owners pid excluded"

fun lease_owners :: "(nat \<times> string) list \<Rightarrow> jsv list \<Rightarrow> (nat \<times> string) list option" where
  "lease_owners m [] = Some m"
| "lease_owners m (l # ls) = (case leaseId l of
     None \<Rightarrow> lease_owners m ls
   | Some i \<Rightarrow> (let pid = processOwnerPid l in
       if pid = 0 then lease_owners m ls
       else if pid \<in> set (map fst m) then None
       else lease_owners (m @ [(pid, i)]) ls))"

section \<open>The forest of leases\<close>

type_synonym parents = "(string \<times> string) list"

definition parent_of :: "parents \<Rightarrow> string \<Rightarrow> string option" where
  "parent_of ps i = (case map_of ps i of Some p \<Rightarrow> if p \<noteq> [] then Some p else None | None \<Rightarrow> None)"

function climb_ok :: "string list \<Rightarrow> parents \<Rightarrow> string list \<Rightarrow> string option \<Rightarrow> bool" where
  "climb_ok ids ps seen cur = (case cur of None \<Rightarrow> True | Some c \<Rightarrow>
     if c \<notin> set ids then True else if c \<in> set seen then False
     else climb_ok ids ps (c # seen) (parent_of ps c))"
  by pat_completeness auto
termination
proof (relation "measure (\<lambda>(ids, ps, seen, cur). card (set ids - set seen))")
  fix ids :: "string list" and ps seen and cur :: "string option" and c
  assume "\<not> c \<notin> set ids" "c \<notin> set seen"
  then have "set ids - set (c # seen) \<subset> set ids - set seen" by auto
  then show "((ids, ps, c # seen, parent_of ps c), ids, ps, seen, cur) \<in> measure (\<lambda>(ids, ps, seen, cur). card (set ids - set seen))"
    by (simp add: psubset_card_mono del: set_simps)
qed simp

declare climb_ok.simps [simp del]

definition lease_ids :: "jsv list \<Rightarrow> string list" where
  "lease_ids ls = List.map_filter leaseId ls"

definition validParentForest :: "jsv list \<Rightarrow> parents \<Rightarrow> bool" where
  "validParentForest ls ps = list_all (\<lambda>s. s \<notin> set (lease_ids ls) \<or> climb_ok (lease_ids ls) ps [] (Some s)) (map fst ps)"

text \<open>\<open>indexLeases\<close> names a lease without an identifier by its position, and fails on a duplicate.\<close>

fun index_from :: "nat \<Rightarrow> (string \<times> jsv) list \<Rightarrow> jsv list \<Rightarrow> (string \<times> jsv) list option" where
  "index_from n m [] = Some m"
| "index_from n m (l # ls) =
     (let i = (case leaseId l of Some s \<Rightarrow> s | None \<Rightarrow> ''__anonymous_'' @ nat_string n) in
      if i \<in> set (map fst m) then None else index_from (Suc n) (m @ [(i, l)]) ls)"

definition indexLeases :: "jsv list \<Rightarrow> (string \<times> jsv) list option" where
  "indexLeases ls = index_from 0 [] ls"

definition naiveAggregate :: "jsv list \<Rightarrow> aggregate" where
  "naiveAggregate ls =
     foldl (\<lambda>t l. if js_get (lease_request l) ''heavy'' = JBool False then t else add_root t (requestVector (lease_request l)))
       emptyAggregate ls"

definition children_of :: "(string \<times> jsv) list \<Rightarrow> parents \<Rightarrow> string \<Rightarrow> string list" where
  "children_of idx ps i = map fst (filter (\<lambda>(c, p). p = i \<and> c \<in> set (map fst idx) \<and> p \<in> set (map fst idx)) ps)"

text \<open>
  The recursion of \<open>effective\<close> over the children, bounded by the number of levels: in a valid forest a branch
  is never longer than the number of leases (\<open>effective_enough\<close> below).
\<close>

fun effective :: "nat \<Rightarrow> (string \<times> jsv) list \<Rightarrow> parents \<Rightarrow> string \<Rightarrow> resource_vector" where
  "effective 0 idx ps i = emptyVector"
| "effective (Suc n) idx ps i =
     (let own = requestVector (case map_of idx i of Some l \<Rightarrow> lease_request l | None \<Rightarrow> JUndef);
          childSum = foldl addVector emptyVector (map (effective n idx ps) (children_of idx ps i))
      in max_vector own childSum)"

definition forest_roots :: "(string \<times> jsv) list \<Rightarrow> parents \<Rightarrow> string list" where
  "forest_roots idx ps =
     filter (\<lambda>i. case parent_of ps i of None \<Rightarrow> True | Some p \<Rightarrow> p \<notin> set (map fst idx)) (map fst idx)"

definition aggregateEffective :: "jsv list \<Rightarrow> parents \<Rightarrow> aggregate" where
  "aggregateEffective ls ps = (case indexLeases ls of
     None \<Rightarrow> naiveAggregate ls
   | Some idx \<Rightarrow>
       if \<not> validParentForest ls ps then naiveAggregate ls
       else foldl (\<lambda>t i. add_root t (effective (length idx) idx ps i)) emptyAggregate (forest_roots idx ps))"

section \<open>The accounting context\<close>

record accounting =
  parentByLeaseId :: parents
  parentLeaseId :: "string option"
  ancestorLeaseIds :: "string list"

definition no_accounting :: accounting where
  "no_accounting = \<lparr>parentByLeaseId = [], parentLeaseId = None, ancestorLeaseIds = []\<rparr>"

function leaseAncestors :: "parents \<Rightarrow> string list \<Rightarrow> string option \<Rightarrow> string list" where
  "leaseAncestors ps seen cur = (case cur of None \<Rightarrow> rev seen | Some c \<Rightarrow>
     if c \<in> set seen then rev seen
     else if c \<notin> set (map fst ps) then rev (c # seen)
     else leaseAncestors ps (c # seen) (parent_of ps c))"
  by pat_completeness auto
termination
proof (relation "measure (\<lambda>(ps, seen, cur). card (set (map fst ps) - set seen))")
  fix ps :: parents and seen and cur :: "string option" and c
  assume "c \<notin> set seen" "\<not> c \<notin> set (map fst ps)"
  then have "set (map fst ps) - set (c # seen) \<subset> set (map fst ps) - set seen" by auto
  then show "((ps, c # seen, parent_of ps c), ps, seen, cur) \<in> measure (\<lambda>(ps, seen, cur). card (set (map fst ps) - set seen))"
    by (simp add: psubset_card_mono del: set_simps set_map)
qed simp

declare leaseAncestors.simps [simp del]

fun lease_parents :: "jsv \<Rightarrow> (nat \<times> string) list \<Rightarrow> parents \<Rightarrow> jsv list \<Rightarrow> parents" where
  "lease_parents table owners m [] = m"
| "lease_parents table owners m (l # ls) = (case leaseId l of
     None \<Rightarrow> lease_parents table owners m ls
   | Some i \<Rightarrow> (let pid = processOwnerPid l in
       if pid = 0 then lease_parents table owners m ls
       else (case nearestLease table owners (parentPid table pid) (Some i) of
           None \<Rightarrow> lease_parents table owners m ls
         | Some p \<Rightarrow> lease_parents table owners (map_set i p m) ls)))"

definition resourceLeaseAccountingContext :: "jsv list \<Rightarrow> jsv \<Rightarrow> jsv \<Rightarrow> accounting" where
  "resourceLeaseAccountingContext ls table requester =
     (if \<not> isRecord table then no_accounting
      else (case lease_owners [] ls of
          None \<Rightarrow> no_accounting
        | Some owners \<Rightarrow>
            (let ps = lease_parents table owners [] ls in
             if \<not> validParentForest ls ps then no_accounting
             else (let p = nearestLease table owners (normalizePid requester) None in
               \<lparr>parentByLeaseId = ps, parentLeaseId = p, ancestorLeaseIds = leaseAncestors ps [] p\<rparr>))))"

definition aggregateResourceLeases :: "jsv list \<Rightarrow> accounting \<Rightarrow> aggregate" where
  "aggregateResourceLeases ls a = aggregateEffective ls (parentByLeaseId a)"

definition pendingId :: string where
  "pendingId = ''__pending_resource_request__''"

definition pending_lease :: "jsv \<Rightarrow> jsv" where
  "pending_lease request = JObj [(''lease_id'', JStr pendingId), (''request'', request)]"

definition pending_parents :: "accounting \<Rightarrow> parents" where
  "pending_parents a = (case parentLeaseId a of
     Some p \<Rightarrow> if p \<noteq> [] then map_set pendingId p (parentByLeaseId a) else parentByLeaseId a
   | None \<Rightarrow> parentByLeaseId a)"

definition resourceRequestIncrement :: "jsv list \<Rightarrow> jsv \<Rightarrow> accounting \<Rightarrow> resource_vector" where
  "resourceRequestIncrement ls request a =
     (let before = aggregateEffective ls (parentByLeaseId a);
          after = aggregateEffective (ls @ [pending_lease request]) (pending_parents a)
      in excess (used_vector after) (used_vector before))"

section \<open>The CPU window, the disk floors and the coordinator's view\<close>

definition leaseObservedBySample :: "rat \<Rightarrow> jsv \<Rightarrow> bool" where
  "leaseObservedBySample sampledAt l = (case parse_time (js_get l ''bound_at'') of
     Some t \<Rightarrow> of_int t \<le> sampledAt
   | None \<Rightarrow>
       (if js_get (js_get l ''owner'') ''kind'' \<noteq> JStr ''process'' then False
        else (case parse_time (js_get l ''acquired_at'') of Some t \<Rightarrow> of_int t \<le> sampledAt | None \<Rightarrow> False)))"

definition unobservedResourceCpu :: "jsv list \<Rightarrow> accounting \<Rightarrow> jsv \<Rightarrow> rat" where
  "unobservedResourceCpu ls a sampledAtMs = (case fin_of (js_Number sampledAtMs) of
     None \<Rightarrow> 0
   | Some t \<Rightarrow> if t \<le> 0 then 0
       else max 0 (cpu (used_vector (aggregateResourceLeases ls a))
           - cpu (used_vector (aggregateResourceLeases (filter (leaseObservedBySample t) ls) a))))"

definition GIB :: rat where
  "GIB = 1024 ^ 3"

definition resourceDiskHardFloorBytes :: "jsv \<Rightarrow> rat" where
  "resourceDiskHardFloorBytes totalBytes = (case fin_of (js_Number totalBytes) of
     None \<Rightarrow> 0
   | Some bytes \<Rightarrow> if bytes \<le> 0 then 0 else min (50 * GIB) (max (5 * GIB) (bytes / 10)))"

definition resourceDiskSoftFloorBytes :: "jsv \<Rightarrow> rat" where
  "resourceDiskSoftFloorBytes totalBytes = (case fin_of (js_Number totalBytes) of
     None \<Rightarrow> 0
   | Some bytes \<Rightarrow> if bytes \<le> 0 then 0 else min (80 * GIB) (max (8 * GIB) (bytes * 15 / 100)))"

text \<open>The evaluator the coordinator passes on derives the accounting of every candidate afresh.\<close>

definition resourceCoordinatorEvaluator ::
  "(jsv \<Rightarrow> jsv list \<Rightarrow> jsv \<Rightarrow> accounting \<Rightarrow> 'd) \<Rightarrow> jsv \<Rightarrow> jsv \<Rightarrow> jsv \<Rightarrow> jsv list \<Rightarrow> jsv \<Rightarrow> jsv \<Rightarrow> 'd" where
  "resourceCoordinatorEvaluator evaluate table fallbackPid host ls request candidate =
     (let pid = js_get (js_get candidate ''owner'') ''pid'' in
      evaluate host ls request (resourceLeaseAccountingContext ls table (if truthy pid then pid else fallbackPid)))"

definition resourceCoordinatorAccounting :: "jsv list \<Rightarrow> jsv \<Rightarrow> jsv \<Rightarrow> accounting \<times> resource_vector" where
  "resourceCoordinatorAccounting ls table requester =
     (let a = resourceLeaseAccountingContext ls table requester in (a, used_vector (aggregateResourceLeases ls a)))"

end
