(* ===== verification/ResourceAccountingSpec.thy ===== *)
theory ResourceAccountingSpec
  imports ResourceAccounting
begin

text \<open>
  Correctness of the lease accounting: the recursion over the lease forest needs no more levels than there
  are leases, the increment of a request is exact, and no reservation is lost by nesting.
\<close>

section \<open>The order of resource vectors\<close>

definition vec_le :: "resource_vector \<Rightarrow> resource_vector \<Rightarrow> bool" where
  "vec_le a b = (cpu a \<le> cpu b \<and> io a \<le> io b \<and> memory_mb a \<le> memory_mb b \<and> disk_reserve_bytes a \<le> disk_reserve_bytes b)"

lemma vec_le_refl [simp]: "vec_le a a"
  by (simp add: vec_le_def)

lemma vec_le_trans: "vec_le a b \<Longrightarrow> vec_le b c \<Longrightarrow> vec_le a c"
  by (auto simp: vec_le_def)

lemma vec_le_antisym: "vec_le a b \<Longrightarrow> vec_le b a \<Longrightarrow> a = b"
  by (cases a; cases b) (simp add: vec_le_def)

lemma vec_zero [simp]: "addVector emptyVector a = a" "addVector a emptyVector = a"
  by (cases a; simp add: addVector_def emptyVector_def)+

lemma addVector_assoc: "addVector (addVector a b) c = addVector a (addVector b c)"
  by (simp add: addVector_def add.assoc)

lemma addVector_mono: "vec_le a b \<Longrightarrow> vec_le c d \<Longrightarrow> vec_le (addVector a c) (addVector b d)"
  by (simp add: vec_le_def addVector_def add_mono)

lemma max_vector_mono: "vec_le a b \<Longrightarrow> vec_le c d \<Longrightarrow> vec_le (max_vector a c) (max_vector b d)"
  by (auto simp: vec_le_def max_vector_def intro: max.mono)

lemma max_vector_ub: "vec_le a (max_vector a b)" "vec_le b (max_vector a b)"
  by (auto simp: vec_le_def max_vector_def)

abbreviation nonneg :: "resource_vector \<Rightarrow> bool" where
  "nonneg v \<equiv> vec_le emptyVector v"

lemma nonneg_request [simp]: "nonneg (requestVector r)"
  by (simp add: vec_le_def emptyVector_def requestVector_def)

lemma nonneg_add: "nonneg a \<Longrightarrow> nonneg b \<Longrightarrow> nonneg (addVector a b)"
  using addVector_mono [of emptyVector a emptyVector b] by simp

lemma vec_le_add: "nonneg b \<Longrightarrow> vec_le a (addVector a b)" "nonneg b \<Longrightarrow> vec_le a (addVector b a)"
  using addVector_mono [of a a emptyVector b] addVector_mono [of emptyVector b a a] by simp_all

lemma excess_exact: "vec_le b a \<Longrightarrow> addVector b (excess a b) = a"
  by (cases a; cases b) (simp add: vec_le_def addVector_def excess_def)

lemma nonneg_excess: "nonneg (excess a b)"
  by (simp add: vec_le_def emptyVector_def excess_def)

text \<open>Sums of vectors.\<close>

definition vec_sum :: "resource_vector list \<Rightarrow> resource_vector" where
  "vec_sum vs = foldl addVector emptyVector vs"

lemma foldl_addVector: "foldl addVector a vs = addVector a (vec_sum vs)"
proof (induction vs arbitrary: a)
  case (Cons v vs)
  have "foldl addVector (addVector a v) vs = addVector (addVector a v) (vec_sum vs)" by (rule Cons.IH)
  moreover have "vec_sum (v # vs) = addVector v (vec_sum vs)"
    using Cons.IH [of v] by (simp add: vec_sum_def)
  ultimately show ?case by (simp add: addVector_assoc)
qed (simp add: vec_sum_def)

lemma vec_sum_simps [simp]: "vec_sum [] = emptyVector" "vec_sum (v # vs) = addVector v (vec_sum vs)"
  using foldl_addVector [of v vs] by (simp_all add: vec_sum_def)

lemma vec_sum_append [simp]: "vec_sum (vs @ ws) = addVector (vec_sum vs) (vec_sum ws)"
  by (induction vs) (simp_all add: addVector_assoc)

lemma vec_sum_mono: "(\<And>x. x \<in> set xs \<Longrightarrow> vec_le (f x) (g x)) \<Longrightarrow> vec_le (vec_sum (map f xs)) (vec_sum (map g xs))"
  by (induction xs) (simp_all add: addVector_mono)

lemma nonneg_sum: "(\<And>x. x \<in> set xs \<Longrightarrow> nonneg (f x)) \<Longrightarrow> nonneg (vec_sum (map f xs))"
  by (induction xs) (simp_all add: nonneg_add)

lemma vec_sum_member: "x \<in> set xs \<Longrightarrow> (\<And>x. x \<in> set xs \<Longrightarrow> nonneg (f x)) \<Longrightarrow> vec_le (f x) (vec_sum (map f xs))"
proof (induction xs)
  case (Cons y ys)
  have n: "nonneg (f y)" "nonneg (vec_sum (map f ys))" using Cons.prems(2) by (simp_all add: nonneg_sum)
  show ?case
  proof (cases "x = y")
    case True
    with n show ?thesis by (simp add: vec_le_add)
  next
    case False
    with Cons have "vec_le (f x) (vec_sum (map f ys))" by simp
    with n show ?thesis using vec_le_trans [OF _ vec_le_add(2)] by auto
  qed
qed simp

section \<open>The recursion over the forest\<close>

definition own_request :: "(string \<times> jsv) list \<Rightarrow> string \<Rightarrow> resource_vector" where
  "own_request idx i = requestVector (case map_of idx i of Some l \<Rightarrow> lease_request l | None \<Rightarrow> JUndef)"

lemma effective_Suc:
  "effective (Suc n) idx ps i =
     max_vector (own_request idx i) (vec_sum (map (effective n idx ps) (children_of idx ps i)))"
  by (simp add: own_request_def vec_sum_def Let_def)

declare effective.simps(2) [simp del]

lemma nonneg_effective [simp]: "nonneg (effective n idx ps i)"
  by (cases n) (auto simp: effective_Suc own_request_def intro: vec_le_trans [OF nonneg_request max_vector_ub(1)])

lemma effective_more: "vec_le (effective n idx ps i) (effective (Suc n) idx ps i)"
proof (induction n arbitrary: i)
  case (Suc n)
  show ?case
    unfolding effective_Suc [of n idx ps i] effective_Suc [of "Suc n" idx ps i]
    by (intro max_vector_mono vec_sum_mono vec_le_refl Suc.IH)
qed simp

text \<open>The members of a branch, from a lease down to its ancestors, are distinct; no branch outlasts the fuel.\<close>

lemma children_of_iff: "c \<in> set (children_of idx ps i) \<longleftrightarrow> (c, i) \<in> set ps \<and> c \<in> set (map fst idx) \<and> i \<in> set (map fst idx)"
  unfolding children_of_def set_map [of fst "filter _ ps"] by (force simp del: set_map)

definition grounded :: "(string \<times> jsv) list \<Rightarrow> parents \<Rightarrow> bool" where
  "grounded idx ps = (distinct (map fst ps) \<and> list_all (\<lambda>(c, p). p \<noteq> []) ps
     \<and> list_all (\<lambda>s. climb_ok (map fst idx) ps [] (Some s)) (map fst ps))"

lemma parent_of_iff:
  assumes "distinct (map fst ps)"
  shows "parent_of ps c = Some p \<longleftrightarrow> (c, p) \<in> set ps \<and> p \<noteq> []"
proof (cases "map_of ps c")
  case None
  then have "(c, p) \<notin> set ps" by (auto simp: map_of_eq_None_iff rev_image_eqI)
  with None show ?thesis by (simp add: parent_of_def)
next
  case (Some q)
  then have "(c, q) \<in> set ps" by (rule map_of_SomeD)
  then have "(c, p) \<in> set ps \<longleftrightarrow> p = q" using eq_key_imp_eq_value [OF assms] by blast
  with Some show ?thesis by (simp add: parent_of_def) blast
qed

text \<open>A branch is a list of leases, each the parent of the one before.\<close>

fun branch :: "parents \<Rightarrow> string list \<Rightarrow> bool" where
  "branch ps (c # p # r) = (parent_of ps c = Some p \<and> branch ps (p # r))"
| "branch ps _ = True"

lemma climb_branch:
  "climb_ok ids ps seen (Some c) \<Longrightarrow> branch ps (c # r) \<Longrightarrow> set (c # r) \<subseteq> set ids \<Longrightarrow> set seen \<inter> set (c # r) = {} \<and> distinct (c # r)"
proof (induction r arbitrary: c seen)
  case Nil
  then show ?case by (auto simp: climb_ok.simps [of _ _ _ "Some _"] split: if_splits)
next
  case (Cons p r)
  have c: "c \<in> set ids" "parent_of ps c = Some p" "branch ps (p # r)" using Cons.prems by auto
  with Cons.prems(1) have "c \<notin> set seen" "climb_ok ids ps (c # seen) (Some p)"
    by (auto simp: climb_ok.simps [of _ _ _ "Some _"] split: if_splits)
  with Cons.IH [of "c # seen" p] c Cons.prems(3) show ?case by auto
qed

lemma effective_stable:
  assumes g: "grounded idx ps" and d: "distinct (map fst idx)"
  shows "branch ps (i # r) \<Longrightarrow> set (i # r) \<subseteq> set (map fst idx) \<Longrightarrow> distinct (i # r) \<Longrightarrow> length idx < n + length (i # r) \<Longrightarrow>
     effective n idx ps i = effective (Suc n) idx ps i"
proof (induction n arbitrary: i r)
  case 0
  have "length (i # r) = card (set (i # r))" using 0(3) distinct_card by metis
  also have "\<dots> \<le> card (set (map fst idx))" using 0(2) by (intro card_mono) simp_all
  also have "\<dots> \<le> length idx" using card_length [of "map fst idx"] by simp
  finally show ?case using 0(4) by simp
next
  case (Suc n)
  have "effective n idx ps c = effective (Suc n) idx ps c" if c: "c \<in> set (children_of idx ps i)" for c
  proof -
    have ci: "(c, i) \<in> set ps" "c \<in> set (map fst idx)" using c by (auto simp: children_of_iff)
    moreover have "i \<noteq> []" using ci g by (auto simp: grounded_def list_all_iff)
    ultimately have p: "parent_of ps c = Some i" using g by (simp add: grounded_def parent_of_iff)
    have b: "branch ps (c # i # r)" using p Suc.prems(1) by simp
    have "climb_ok (map fst idx) ps [] (Some c)" using g ci by (force simp: grounded_def list_all_iff)
    from climb_branch [OF this b] have "distinct (c # i # r)" using ci Suc.prems(2) by auto
    then show ?thesis using Suc.IH [OF b] ci Suc.prems(2,4) by auto
  qed
  then have "map (effective n idx ps) (children_of idx ps i) = map (effective (Suc n) idx ps) (children_of idx ps i)"
    by simp
  then show ?case unfolding effective_Suc [of n idx ps i] effective_Suc [of "Suc n" idx ps i] by (simp only:)
qed

lemma effective_enough:
  assumes "grounded idx ps" "distinct (map fst idx)" "i \<in> set (map fst idx)" "length idx \<le> n"
  shows "effective n idx ps i = effective (length idx) idx ps i"
  using assms(4)
proof (induction n rule: dec_induct)
  case (step n)
  with effective_stable [OF assms(1,2), of i "[]" n] assms(3) show ?case by simp
qed simp

section \<open>The index and the accounting context\<close>

lemma in_fst [intro]: "(a, b) \<in> set xs \<Longrightarrow> a \<in> fst ` set xs"
  by force

lemma in_snd [intro]: "(a, b) \<in> set xs \<Longrightarrow> b \<in> snd ` set xs"
  by force

lemma lease_ids_simps [simp]:
  "lease_ids [] = []" "lease_ids (l # ls) = (case leaseId l of Some i \<Rightarrow> i # lease_ids ls | None \<Rightarrow> lease_ids ls)"
  "lease_ids (ls @ ms) = lease_ids ls @ lease_ids ms"
proof -
  show 1: "lease_ids [] = []" for ls by (simp add: lease_ids_def map_filter_simps)
  show 2: "lease_ids (l # ls) = (case leaseId l of Some i \<Rightarrow> i # lease_ids ls | None \<Rightarrow> lease_ids ls)" for l ls
    by (simp add: lease_ids_def map_filter_simps split: option.split)
  show "lease_ids (ls @ ms) = lease_ids ls @ lease_ids ms" by (induction ls) (auto simp: 1 2 split: option.split)
qed

definition anonymous :: "string \<Rightarrow> bool" where
  "anonymous i = starts_with ''__anonymous_'' i"

lemma index_from_facts:
  "index_from n m ls = Some idx \<Longrightarrow> distinct (map fst m) \<Longrightarrow>
     distinct (map fst idx) \<and> map snd idx = map snd m @ ls
     \<and> set (map fst idx) \<subseteq> set (map fst m) \<union> set (lease_ids ls) \<union> Collect anonymous
     \<and> set (map fst m) \<union> set (lease_ids ls) \<subseteq> set (map fst idx)"
proof (induction ls arbitrary: n m)
  case (Cons l ls)
  define i where "i = (case leaseId l of Some s \<Rightarrow> s | None \<Rightarrow> ''__anonymous_'' @ nat_string n)"
  have s: "i \<notin> set (map fst m)" "index_from (Suc n) (m @ [(i, l)]) ls = Some idx"
    using Cons.prems(1) by (auto simp: i_def Let_def split: if_splits)
  have "distinct (map fst (m @ [(i, l)]))" using s Cons.prems(2) by simp
  note ih = Cons.IH [OF s(2) this]
  have "leaseId l = Some i \<or> leaseId l = None \<and> anonymous i"
    by (auto simp: i_def anonymous_def split: option.split)
  with ih show ?case by (auto simp: subset_iff)
qed simp

lemma index_from_append:
  "index_from n m (ls @ [l]) = (case index_from n m ls of None \<Rightarrow> None | Some idx \<Rightarrow> index_from (n + length ls) idx [l])"
proof (induction ls arbitrary: n m)
  case (Cons a ls)
  have "n + length (a # ls) = Suc n + length ls" by simp
  then show ?case by (simp only: append_Cons index_from.simps Let_def Cons.IH) simp
qed simp

lemma leaseId_pending [simp]: "leaseId (pending_lease r) = Some pendingId"
  by (simp add: leaseId_def pending_lease_def pendingId_def)

lemma lease_request_pending [simp]: "lease_request (pending_lease r) = r"
  by (simp add: lease_request_def pending_lease_def)

lemma pending_not_anonymous: "\<not> anonymous pendingId" "pendingId \<noteq> []"
  by (simp_all add: anonymous_def pendingId_def starts_with_def)

lemma indexLeases_pending:
  assumes "pendingId \<notin> set (lease_ids ls)"
  shows "indexLeases (ls @ [pending_lease r]) = map_option (\<lambda>idx. idx @ [(pendingId, pending_lease r)]) (indexLeases ls)"
proof (cases "indexLeases ls")
  case (Some idx)
  from index_from_facts [OF Some [unfolded indexLeases_def]] assms pending_not_anonymous
  have "pendingId \<notin> set (map fst idx)" by auto
  with Some show ?thesis by (auto simp: indexLeases_def index_from_append)
qed (simp add: indexLeases_def index_from_append)

lemma nearest_loop_owner: "nearest_loop n seen t owners pid ex = Some i \<Longrightarrow> i \<in> set (map snd owners)"
proof (induction n seen t owners pid ex rule: nearest_loop.induct)
  case (2 n seen parents owners pid excluded)
  then show ?case
    by (auto split: if_splits option.splits dest: map_of_SomeD simp: rev_image_eqI)
qed simp

lemma lease_owners_ids:
  "lease_owners m ls = Some owners \<Longrightarrow> set (map snd m) \<subseteq> I \<Longrightarrow> set (lease_ids ls) \<subseteq> I \<Longrightarrow> set (map snd owners) \<subseteq> I"
  by (induction ls arbitrary: m) (auto simp: Let_def split: option.splits if_splits)

lemma leaseId_nonempty: "leaseId l = Some i \<Longrightarrow> i \<noteq> []"
  by (auto simp: leaseId_def split: jsv.splits if_splits)

lemma lease_ids_nonempty: "i \<in> set (lease_ids ls) \<Longrightarrow> i \<noteq> []"
  by (induction ls) (auto split: option.splits dest: leaseId_nonempty)

definition parents_within :: "string set \<Rightarrow> parents \<Rightarrow> bool" where
  "parents_within I ps = (distinct (map fst ps) \<and> set (map fst ps) \<subseteq> I \<and> set (map snd ps) \<subseteq> I)"

lemma map_set_values: "set (map snd (map_set k v m)) \<subseteq> insert v (set (map snd m))"
  by (induction k v m rule: map_set.induct) auto

lemma parents_within_map_set: "parents_within I ps \<Longrightarrow> i \<in> I \<Longrightarrow> p \<in> I \<Longrightarrow> parents_within I (map_set i p ps)"
  unfolding parents_within_def keys_map_set using map_set_values [of i p ps] by (auto simp: distinct_map_set simp del: set_map)

lemma lease_parents_within:
  "parents_within I m \<Longrightarrow> set (map snd owners) \<subseteq> I \<Longrightarrow> set (lease_ids ls) \<subseteq> I \<Longrightarrow> parents_within I (lease_parents t owners m ls)"
proof (induction ls arbitrary: m)
  case (Cons l ls)
  have "p \<in> I" if "nearestLease t owners pid ex = Some p" for p pid ex
    using that Cons.prems(2) nearest_loop_owner unfolding nearestLease_def by blast
  with Cons show ?case by (auto simp: Let_def parents_within_map_set split: option.split)
qed simp

text \<open>What the accounting context promises: parents are among the leases and form a forest.\<close>

definition accounting_ok :: "jsv list \<Rightarrow> accounting \<Rightarrow> bool" where
  "accounting_ok ls a = (parents_within (set (lease_ids ls)) (parentByLeaseId a)
     \<and> (case parentLeaseId a of Some p \<Rightarrow> p \<in> set (lease_ids ls) | None \<Rightarrow> True)
     \<and> validParentForest ls (parentByLeaseId a))"

lemma accounting_context_ok: "accounting_ok ls (resourceLeaseAccountingContext ls table req)"
proof -
  let ?I = "set (lease_ids ls)"
  have none: "accounting_ok ls no_accounting"
    by (simp add: accounting_ok_def no_accounting_def parents_within_def validParentForest_def)
  show ?thesis
  proof (cases "lease_owners [] ls")
    case (Some owners)
    then have o': "set (map snd owners) \<subseteq> ?I" by (rule lease_owners_ids) simp_all
    then have "parents_within ?I (lease_parents table owners [] ls)"
      by (rule lease_parents_within [rotated]) (simp_all add: parents_within_def)
    moreover have "p \<in> ?I" if "nearestLease table owners pid ex = Some p" for p pid ex
      using that o' nearest_loop_owner unfolding nearestLease_def by blast
    ultimately show ?thesis using Some none
      by (auto simp: resourceLeaseAccountingContext_def accounting_ok_def Let_def split: option.split)
  qed (simp add: resourceLeaseAccountingContext_def none)
qed

section \<open>A new lease in the forest\<close>

lemma map_of_fresh: "c \<notin> set (map fst ps) \<Longrightarrow> map_of ps c = None"
  by (simp add: map_of_eq_None_iff)

lemma parent_of_fresh: "c \<notin> set (map fst ps) \<Longrightarrow> parent_of ps c = None"
  by (drule map_of_fresh) (simp add: parent_of_def)

lemma climb_fresh:
  "P \<notin> set ids \<Longrightarrow> set extra \<subseteq> {P} \<Longrightarrow> (\<And>c. c \<noteq> P \<Longrightarrow> parent_of ps' c = parent_of ps c) \<Longrightarrow> (\<And>c. parent_of ps c \<noteq> Some P) \<Longrightarrow>
   cur \<noteq> Some P \<Longrightarrow> climb_ok (ids @ [P]) ps' (seen @ extra) cur = climb_ok ids ps seen cur"
proof (induction ids ps seen cur rule: climb_ok.induct)
  case (1 ids ps seen cur)
  show ?case
  proof (cases cur)
    case (Some c)
    with 1(6) have c: "c \<noteq> P" by simp
    have e: "(c \<in> set (ids @ [P])) = (c \<in> set ids)" "(c \<in> set (seen @ extra)) = (c \<in> set seen)"
      using c 1(3) by auto
    have p: "parent_of ps' c = parent_of ps c" using c by (rule 1(4))
    have "climb_ok (ids @ [P]) ps' ((c # seen) @ extra) (parent_of ps c) = climb_ok ids ps (c # seen) (parent_of ps c)"
      if "c \<in> set ids" "c \<notin> set seen"
      by (rule 1(1) [OF Some]) (use that 1 in simp_all)
    then show ?thesis using e p Some by (simp add: climb_ok.simps [of _ _ _ "Some c"])
  qed (simp add: climb_ok.simps)
qed

lemma validParentForest_pending:
  fixes ps q r ls
  defines "ps' \<equiv> (case q of Some p \<Rightarrow> ps @ [(pendingId, p)] | None \<Rightarrow> ps)"
  assumes f: "pendingId \<notin> set (lease_ids ls)" and w: "parents_within (set (lease_ids ls)) ps"
    and q: "\<And>p. q = Some p \<Longrightarrow> p \<in> set (lease_ids ls)"
  shows "validParentForest (ls @ [pending_lease r]) ps' = validParentForest ls ps"
proof -
  let ?P = pendingId and ?I = "lease_ids ls"
  have k: "?P \<notin> set (map fst ps)" "?P \<notin> set (map snd ps)" using f w by (auto simp: parents_within_def)
  have 1: "parent_of ps' c = parent_of ps c" if "c \<noteq> ?P" for c
    using that by (auto simp: ps'_def parent_of_def map_add_def split: option.split)
  have 2: "parent_of ps c \<noteq> Some ?P" for c
    using k(2) by (auto simp: parent_of_def dest!: map_of_SomeD split: option.splits if_splits)
  have c: "climb_ok (?I @ [?P]) ps' (seen @ extra) cur = climb_ok ?I ps seen cur"
    if "set extra \<subseteq> {?P}" "cur \<noteq> Some ?P" for seen extra cur
    by (rule climb_fresh) (use that 1 2 f in simp_all)
  have "climb_ok (?I @ [?P]) ps' [] (Some ?P)" if v: "validParentForest ls ps"
  proof (cases q)
    case None
    then have "parent_of ps' ?P = None" using k(1) by (simp add: ps'_def parent_of_fresh)
    then show ?thesis by (simp add: climb_ok.simps)
  next
    case (Some p)
    have p: "p \<in> set ?I" "p \<noteq> ?P" "p \<noteq> []" using q [OF Some] f lease_ids_nonempty by auto
    have "parent_of ps' ?P = Some p"
      using Some map_of_fresh [OF k(1)] p by (simp add: ps'_def parent_of_def map_add_def)
    moreover have "climb_ok (?I @ [?P]) ps' ([] @ [?P]) (Some p) = climb_ok ?I ps [] (Some p)"
      by (rule c) (use p in auto)
    moreover have "climb_ok ?I ps [] (Some p)"
    proof (cases "p \<in> set (map fst ps)")
      case True
      with v p show ?thesis by (force simp: validParentForest_def list_all_iff)
    next
      case False
      then have "parent_of ps p = None" by (rule parent_of_fresh)
      then show ?thesis by (simp add: climb_ok.simps)
    qed
    ultimately show ?thesis by (simp add: climb_ok.simps [of _ _ _ "Some ?P"])
  qed
  moreover have "climb_ok (?I @ [?P]) ps' [] (Some s) = climb_ok ?I ps [] (Some s)" if "s \<in> set (map fst ps)" for s
  proof -
    have "s \<noteq> ?P" using that k(1) by blast
    then show ?thesis using c [of "[]" "Some s" "[]"] by simp
  qed
  moreover have "set (map fst ps') = (if q = None then {} else {?P}) \<union> set (map fst ps)"
    by (cases q) (auto simp: ps'_def)
  moreover have "validParentForest ms rs = (\<forall>s \<in> set (map fst rs). s \<in> set (lease_ids ms) \<longrightarrow> climb_ok (lease_ids ms) rs [] (Some s))" for ms rs
    by (auto simp: validParentForest_def list_all_iff simp del: set_map)
  ultimately show ?thesis using k(1) f by (auto simp del: set_map)
qed

lemma used_add_roots:
  "used_vector (foldl (\<lambda>t i. add_root t (f i)) t xs) = addVector (used_vector t) (vec_sum (map f xs))"
  by (induction xs arbitrary: t) (simp_all add: add_root_def addVector_assoc)

lemma used_empty [simp]: "used_vector emptyAggregate = emptyVector"
  by (simp add: emptyAggregate_def)

text \<open>The forest after a fresh lease \<open>P\<close> has joined it, as a root or under a parent.\<close>

lemma effective_grow:
  assumes P: "P \<notin> set (map fst idx)" "P \<notin> set (map fst ps)" "P \<notin> set (map snd ps)"
    and e: "\<And>i. i \<in> set (map fst idx) \<Longrightarrow> \<exists>xs. children_of idx' ps' i = children_of idx ps i @ xs"
    and m: "\<And>i. i \<in> set (map fst idx) \<Longrightarrow> map_of idx' i = map_of idx i"
  shows "i \<in> set (map fst idx) \<Longrightarrow> vec_le (effective n idx ps i) (effective n idx' ps' i)"
proof (induction n arbitrary: i)
  case (Suc n)
  obtain xs where xs: "children_of idx' ps' i = children_of idx ps i @ xs" using e [OF Suc.prems] by blast
  have "vec_le (effective n idx ps c) (effective n idx' ps' c)" if "c \<in> set (children_of idx ps i)" for c
    using that by (intro Suc.IH) (simp add: children_of_iff)
  then have s: "vec_le (vec_sum (map (effective n idx ps) (children_of idx ps i)))
      (vec_sum (map (effective n idx' ps') (children_of idx ps i)))" by (rule vec_sum_mono)
  have "vec_le (vec_sum (map (effective n idx ps) (children_of idx ps i)))
      (vec_sum (map (effective n idx' ps') (children_of idx' ps' i)))"
    unfolding xs map_append vec_sum_append
    by (rule vec_le_trans [OF s]) (rule vec_le_add(1), rule nonneg_sum, rule nonneg_effective)
  moreover have "own_request idx' i = own_request idx i" by (simp add: own_request_def m [OF Suc.prems])
  ultimately show ?case unfolding effective_Suc by (intro max_vector_mono) simp_all
qed simp

lemma children_of_grow:
  assumes P: "P \<notin> set (map fst ps)" "P \<notin> set (map snd ps)" and i: "i \<in> set (map fst idx)"
  shows "\<exists>xs. children_of (idx @ [(P, l)]) (ps @ qs) i = children_of idx ps i @ xs"
proof -
  have "(p = i \<and> c \<in> set (map fst (idx @ [(P, l)])) \<and> p \<in> set (map fst (idx @ [(P, l)])))
      = (p = i \<and> c \<in> set (map fst idx) \<and> p \<in> set (map fst idx))" if "(c, p) \<in> set ps" for c p
  proof -
    have "c \<noteq> P" "p \<noteq> P" using that P by auto
    then show ?thesis by simp
  qed
  then have "filter (\<lambda>(c, p). p = i \<and> c \<in> set (map fst (idx @ [(P, l)])) \<and> p \<in> set (map fst (idx @ [(P, l)]))) ps
      = filter (\<lambda>(c, p). p = i \<and> c \<in> set (map fst idx) \<and> p \<in> set (map fst idx)) ps"
    by (intro filter_cong refl) (simp only: split_paired_all prod.case)
  then show ?thesis unfolding children_of_def filter_append by simp
qed

lemma forest_roots_grow:
  assumes P: "P \<notin> set (map fst idx)" "P \<notin> set (map snd ps)" and qs: "set (map fst qs) \<subseteq> {P}"
  shows "\<exists>xs. forest_roots (idx @ [(P, l)]) (ps @ qs) = forest_roots idx ps @ xs"
proof -
  have "(case parent_of (ps @ qs) i of None \<Rightarrow> True | Some p \<Rightarrow> p \<notin> set (map fst (idx @ [(P, l)])))
      = (case parent_of ps i of None \<Rightarrow> True | Some p \<Rightarrow> p \<notin> set (map fst idx))" if i: "i \<in> set (map fst idx)" for i
  proof -
    have "i \<noteq> P" using i P(1) by blast
    then have "map_of qs i = None" using qs by (intro map_of_fresh) auto
    then have "map_of (ps @ qs) i = map_of ps i" by (simp add: map_add_def split: option.split)
    then have "parent_of (ps @ qs) i = parent_of ps i" by (simp add: parent_of_def)
    moreover have "parent_of ps i \<noteq> Some P"
      using P(2) by (auto simp: parent_of_def dest!: map_of_SomeD split: option.splits if_splits)
    ultimately show ?thesis by (auto split: option.split)
  qed
  then have "filter (\<lambda>i. case parent_of (ps @ qs) i of None \<Rightarrow> True | Some p \<Rightarrow> p \<notin> set (map fst (idx @ [(P, l)]))) (map fst idx)
      = forest_roots idx ps"
    unfolding forest_roots_def by (intro filter_cong refl)
  then show ?thesis unfolding forest_roots_def map_append filter_append by simp
qed

lemma aggregate_grows:
  assumes f: "pendingId \<notin> set (lease_ids ls)" and w: "parents_within (set (lease_ids ls)) ps"
    and q: "\<And>p. q = Some p \<Longrightarrow> p \<in> set (lease_ids ls)"
  shows "vec_le (used_vector (aggregateEffective ls ps))
    (used_vector (aggregateEffective (ls @ [pending_lease r]) (case q of Some p \<Rightarrow> ps @ [(pendingId, p)] | None \<Rightarrow> ps)))"
    (is "vec_le _ (used_vector (aggregateEffective _ ?ps))")
proof -
  let ?P = pendingId and ?l = "pending_lease r"
  have naive: "vec_le (used_vector (naiveAggregate ls)) (used_vector (naiveAggregate (ls @ [?l])))"
    by (simp add: naiveAggregate_def add_root_def vec_le_add)
  have v: "validParentForest (ls @ [?l]) ?ps = validParentForest ls ps"
    using f w q by (rule validParentForest_pending)
  show ?thesis
  proof (cases "indexLeases ls")
    case None
    then show ?thesis using naive by (simp add: aggregateEffective_def indexLeases_pending [OF f])
  next
    case (Some idx)
    note facts = index_from_facts [OF Some [unfolded indexLeases_def]]
    have P: "?P \<notin> set (map fst idx)" using facts f pending_not_anonymous by auto
    have k: "?P \<notin> set (map fst ps)" "?P \<notin> set (map snd ps)" using f w by (auto simp: parents_within_def)
    define qs where "qs = (case q of Some p \<Rightarrow> [(?P, p)] | None \<Rightarrow> [])"
    have ps: "?ps = ps @ qs" by (simp add: qs_def split: option.split)
    have qs: "set (map fst qs) \<subseteq> {?P}" by (cases q) (simp_all add: qs_def)
    let ?idx = "idx @ [(?P, ?l)]" and ?n = "length idx"
    obtain xs where xs: "forest_roots ?idx (ps @ qs) = forest_roots idx ps @ xs"
      using forest_roots_grow [OF P k(2) qs] by blast
    have "vec_le (effective ?n idx ps i) (effective (Suc ?n) ?idx (ps @ qs) i)" if i: "i \<in> set (forest_roots idx ps)" for i
    proof -
      have i': "i \<in> set (map fst idx)" using i unfolding forest_roots_def by simp
      have "vec_le (effective (Suc ?n) idx ps i) (effective (Suc ?n) ?idx (ps @ qs) i)"
        by (rule effective_grow [OF P k children_of_grow [OF k] _ i']) (use P in \<open>auto simp: map_add_def split: option.split\<close>)
      with effective_more show ?thesis by (rule vec_le_trans)
    qed
    then have s: "vec_le (vec_sum (map (effective ?n idx ps) (forest_roots idx ps)))
        (vec_sum (map (effective (Suc ?n) ?idx (ps @ qs)) (forest_roots idx ps)))" by (rule vec_sum_mono)
    have "vec_le (vec_sum (map (effective ?n idx ps) (forest_roots idx ps)))
        (vec_sum (map (effective (Suc ?n) ?idx (ps @ qs)) (forest_roots idx ps @ xs)))"
      unfolding map_append vec_sum_append
      by (rule vec_le_trans [OF s]) (rule vec_le_add(1), rule nonneg_sum, rule nonneg_effective)
    then show ?thesis using naive
      by (simp add: aggregateEffective_def indexLeases_pending [OF f] Some v [unfolded ps] ps xs used_add_roots)
  qed
qed

lemma pending_parents_eq:
  assumes "accounting_ok ls a" "pendingId \<notin> set (lease_ids ls)"
  shows "pending_parents a = (case parentLeaseId a of Some p \<Rightarrow> parentByLeaseId a @ [(pendingId, p)] | None \<Rightarrow> parentByLeaseId a)"
proof -
  have "map_set k v m = m @ [(k, v)]" if "k \<notin> set (map fst m)" for k v and m :: parents
    using that by (induction m) auto
  moreover have "pendingId \<notin> set (map fst (parentByLeaseId a))"
    using assms by (auto simp: accounting_ok_def parents_within_def)
  moreover have "p \<noteq> []" if "parentLeaseId a = Some p" for p
    using that assms(1) lease_ids_nonempty by (auto simp: accounting_ok_def)
  ultimately show ?thesis by (simp add: pending_parents_def split: option.split)
qed

text \<open>
  The increment of a request is exact: on top of what the leases already use, it gives what the leases
  use once the request has joined them, under the lease its process descends from.
\<close>

lemma increment_exact:
  fixes ls table req request
  defines "a \<equiv> resourceLeaseAccountingContext ls table req"
  assumes "pendingId \<notin> set (lease_ids ls)"
  shows "addVector (used_vector (aggregateResourceLeases ls a)) (resourceRequestIncrement ls request a)
     = used_vector (aggregateEffective (ls @ [pending_lease request]) (pending_parents a))"
proof -
  have ok: "accounting_ok ls a" unfolding a_def by (rule accounting_context_ok)
  have "vec_le (used_vector (aggregateEffective ls (parentByLeaseId a)))
      (used_vector (aggregateEffective (ls @ [pending_lease request]) (pending_parents a)))"
    unfolding pending_parents_eq [OF ok assms(2)]
    by (rule aggregate_grows) (use ok assms(2) in \<open>auto simp: accounting_ok_def\<close>)
  then show ?thesis
    by (simp add: resourceRequestIncrement_def aggregateResourceLeases_def excess_exact)
qed

section \<open>No reservation is lost\<close>

lemma climb_ids:
  "set ids \<subseteq> set ids' \<Longrightarrow> (\<And>c p. parent_of ps c = Some p \<Longrightarrow> p \<in> set ids) \<Longrightarrow> (\<And>c. cur = Some c \<Longrightarrow> c \<in> set ids) \<Longrightarrow>
   climb_ok ids' ps seen cur = climb_ok ids ps seen cur"
proof (induction ids ps seen cur rule: climb_ok.induct)
  case (1 ids ps seen cur)
  show ?case
  proof (cases cur)
    case (Some c)
    have c: "c \<in> set ids" "c \<in> set ids'" using 1(2,4) Some by auto
    have "climb_ok ids' ps (c # seen) (parent_of ps c) = climb_ok ids ps (c # seen) (parent_of ps c)" if "c \<notin> set seen"
      by (rule 1(1) [OF Some]) (use that c 1(2,3) in auto)
    with c Some show ?thesis by (simp add: climb_ok.simps [of _ _ _ "Some c"])
  qed (simp add: climb_ok.simps)
qed

lemma parent_of_within: "parents_within I ps \<Longrightarrow> parent_of ps c = Some p \<Longrightarrow> c \<in> I \<and> p \<in> I"
  unfolding parents_within_def parent_of_def
  by (auto dest!: map_of_SomeD split: option.splits if_splits)

lemma grounded_index:
  assumes "indexLeases ls = Some idx" "parents_within (set (lease_ids ls)) ps" "validParentForest ls ps"
  shows "grounded idx ps" "distinct (map fst idx)" "map snd idx = ls" "set (lease_ids ls) \<subseteq> set (map fst idx)"
proof -
  note facts = index_from_facts [OF assms(1) [unfolded indexLeases_def]]
  show d: "distinct (map fst idx)" "map snd idx = ls" "set (lease_ids ls) \<subseteq> set (map fst idx)" using facts by auto
  have climb: "climb_ok (map fst idx) ps [] (Some s)" if s: "s \<in> set (map fst ps)" for s
  proof -
    have i: "s \<in> set (lease_ids ls)" using s assms(2) by (auto simp: parents_within_def)
    have "climb_ok (lease_ids ls) ps [] (Some s)" using s i assms(3) by (force simp: validParentForest_def list_all_iff)
    moreover have "climb_ok (map fst idx) ps [] (Some s) = climb_ok (lease_ids ls) ps [] (Some s)"
      by (rule climb_ids) (use i d(3) parent_of_within [OF assms(2)] in auto)
    ultimately show ?thesis by simp
  qed
  have "p \<noteq> []" if "(c, p) \<in> set ps" for c p
    using that assms(2) lease_ids_nonempty [of p ls] by (auto simp: parents_within_def)
  then have "list_all (\<lambda>(c, p). p \<noteq> []) ps" by (auto simp: list_all_iff)
  then show "grounded idx ps"
    using assms(2) climb by (simp add: grounded_def parents_within_def list_all_iff del: set_map)
qed

text \<open>
  One resource of a vector.  Every bound on the forest is proved once for a resource and holds for the four.
\<close>

locale resource =
  fixes amount :: "resource_vector \<Rightarrow> rat"
  assumes amount_empty: "amount emptyVector = 0"
    and amount_add: "amount (addVector a b) = amount a + amount b"
    and amount_max: "amount (max_vector a b) = max (amount a) (amount b)"
    and amount_request: "0 \<le> amount (requestVector r)"
begin

lemma amount_sum: "amount (vec_sum (map f xs)) = sum_list (map (\<lambda>x. amount (f x)) xs)"
  by (induction xs) (simp_all add: amount_empty amount_add)

lemma amount_own: "0 \<le> amount (own_request idx i)"
  by (simp add: own_request_def amount_request)

end

interpretation cpu: resource cpu
  by unfold_locales (simp_all add: emptyVector_def addVector_def max_vector_def requestVector_def)

interpretation io: resource io
  by unfold_locales (simp_all add: emptyVector_def addVector_def max_vector_def requestVector_def)

interpretation memory: resource memory_mb
  by unfold_locales (simp_all add: emptyVector_def addVector_def max_vector_def requestVector_def)

interpretation disk: resource disk_reserve_bytes
  by unfold_locales (simp_all add: emptyVector_def addVector_def max_vector_def requestVector_def)

text \<open>The leases of the first \<open>n\<close> levels of a tree, and independent leases: none lies below another.\<close>

fun levels :: "nat \<Rightarrow> (string \<times> jsv) list \<Rightarrow> parents \<Rightarrow> string \<Rightarrow> string set" where
  "levels 0 idx ps i = {}"
| "levels (Suc n) idx ps i = insert i (\<Union>c \<in> set (children_of idx ps i). levels n idx ps c)"

definition below :: "parents \<Rightarrow> string \<Rightarrow> string \<Rightarrow> bool" where
  "below ps = (\<lambda>c p. parent_of ps c = Some p)\<^sup>+\<^sup>+"

definition independent :: "parents \<Rightarrow> string set \<Rightarrow> bool" where
  "independent ps A = (\<forall>i \<in> A. \<forall>j \<in> A. \<not> below ps i j)"

lemma levels_mono: "m \<le> n \<Longrightarrow> levels m idx ps i \<subseteq> levels n idx ps i"
proof (induction m arbitrary: n i)
  case (Suc m)
  then obtain k where k: "n = Suc k" "m \<le> k" by (cases n) auto
  from Suc.IH [OF k(2)] show ?case by (auto simp: k(1))
qed simp

lemma child_parent:
  assumes "grounded idx ps" "c \<in> set (children_of idx ps i)"
  shows "parent_of ps c = Some i"
proof -
  have ci: "(c, i) \<in> set ps" using assms(2) by (simp add: children_of_iff del: set_map)
  moreover have "i \<noteq> []" using ci assms(1) by (auto simp: grounded_def list_all_iff)
  ultimately show ?thesis using assms(1) by (simp add: grounded_def parent_of_iff)
qed

lemma levels_below:
  assumes "grounded idx ps"
  shows "j \<in> levels n idx ps i \<Longrightarrow> j = i \<or> below ps j i"
proof (induction n arbitrary: i)
  case (Suc n)
  have "below ps j i" if c: "c \<in> set (children_of idx ps i)" "j \<in> levels n idx ps c" for c
  proof -
    have p: "parent_of ps c = Some i" using assms c(1) by (rule child_parent)
    from Suc.IH [OF c(2)] show ?thesis
      unfolding below_def by (elim disjE) (use p in \<open>auto intro: tranclp.trancl_into_trancl\<close>)
  qed
  then show ?case using Suc.prems by auto
qed simp

lemma finite_levels: "finite (levels n idx ps i)"
  by (induction n arbitrary: i) simp_all

context resource
begin

lemma sum_union_le:
  "(\<Sum>i \<in> A \<inter> (\<Union>c \<in> set cs. L c). amount (own_request idx i)) \<le> sum_list (map (\<lambda>c. \<Sum>i \<in> A \<inter> L c. amount (own_request idx i)) cs)"
  if "finite A"
proof (induction cs)
  case (Cons c cs)
  let ?f = "\<lambda>i. amount (own_request idx i)" and ?U = "\<Union>c \<in> set cs. L c"
  have "A \<inter> (\<Union>c \<in> set (c # cs). L c) = (A \<inter> L c) \<union> (A \<inter> ?U)" by auto
  moreover have "sum ?f ((A \<inter> L c) \<union> (A \<inter> ?U)) \<le> sum ?f (A \<inter> L c) + sum ?f (A \<inter> ?U)"
    using that sum.union_inter [of "A \<inter> L c" "A \<inter> ?U" ?f] sum_nonneg [of "A \<inter> L c \<inter> (A \<inter> ?U)" ?f] amount_own
    by fastforce
  ultimately show ?case using Cons by (auto intro: order_trans)
qed simp

lemma independent_levels:
  assumes "finite A" "independent ps A" "grounded idx ps"
  shows "(\<Sum>i \<in> A \<inter> levels n idx ps r. amount (own_request idx i)) \<le> amount (effective n idx ps r)"
proof (induction n arbitrary: r)
  case (Suc n)
  let ?f = "\<lambda>i. amount (own_request idx i)"
  have e: "amount (effective (Suc n) idx ps r)
      = max (?f r) (sum_list (map (\<lambda>c. amount (effective n idx ps c)) (children_of idx ps r)))"
    by (simp add: effective_Suc amount_max amount_sum)
  show ?case
  proof (cases "r \<in> A")
    case True
    have "A \<inter> levels (Suc n) idx ps r \<subseteq> {r}"
      using levels_below [OF assms(3)] assms(2) True by (fastforce simp: independent_def simp del: levels.simps)
    then have "A \<inter> levels (Suc n) idx ps r = {r}" using True by auto
    then show ?thesis by (simp add: e)
  next
    case False
    then have "A \<inter> levels (Suc n) idx ps r = A \<inter> (\<Union>c \<in> set (children_of idx ps r). levels n idx ps c)" by auto
    then have "sum ?f (A \<inter> levels (Suc n) idx ps r)
        \<le> sum_list (map (\<lambda>c. sum ?f (A \<inter> levels n idx ps c)) (children_of idx ps r))"
      using sum_union_le [OF assms(1)] by simp
    also have "\<dots> \<le> sum_list (map (\<lambda>c. amount (effective n idx ps c)) (children_of idx ps r))"
      by (rule sum_list_mono) (rule Suc.IH)
    finally show ?thesis by (simp add: e)
  qed
qed (simp add: amount_empty)

end

text \<open>Every lease is on some level of the tree of a root.\<close>

lemma level_of_root:
  assumes g: "grounded idx ps"
  shows "climb_ok ids ps' seen cur \<Longrightarrow> ids = map fst idx \<Longrightarrow> ps' = ps \<Longrightarrow> cur = Some i \<Longrightarrow> i \<in> set (map fst idx) \<Longrightarrow> j \<in> levels m idx ps i \<Longrightarrow>
     \<exists>r \<in> set (forest_roots idx ps). \<exists>n. j \<in> levels n idx ps r"
proof (induction ids ps' seen cur arbitrary: i m rule: climb_ok.induct)
  case (1 ids ps' seen cur)
  show ?case
  proof (cases "\<exists>p \<in> set (map fst idx). parent_of ps i = Some p")
    case True
    then obtain p where p: "p \<in> set (map fst idx)" "parent_of ps i = Some p" by blast
    have c: "i \<notin> set seen" "climb_ok ids ps' (i # seen) (parent_of ps' i)"
      using 1(2-6) by (auto simp: climb_ok.simps [of _ _ _ "Some i"] split: if_splits)
    have "(i, p) \<in> set ps" using p(2) g by (simp add: grounded_def parent_of_iff)
    then have "i \<in> set (children_of idx ps p)" using p(1) 1(6) by (simp add: children_of_iff del: set_map)
    then have "j \<in> levels (Suc m) idx ps p" using 1(7) by auto
    then show ?thesis
      by (rule 1(1) [OF 1(5) _ c 1(3,4) _ p(1), rotated 2]) (use 1(3-6) p(2) in \<open>simp_all del: set_map\<close>)
  next
    case False
    then have "i \<in> set (forest_roots idx ps)" using 1(6) by (auto simp: forest_roots_def simp del: set_map split: option.split)
    then show ?thesis using 1(7) by blast
  qed
qed

lemma climb_any: "grounded idx ps \<Longrightarrow> climb_ok (map fst idx) ps [] (Some i)"
proof (cases "i \<in> set (map fst ps)")
  case False
  then show "climb_ok (map fst idx) ps [] (Some i)" by (simp add: climb_ok.simps parent_of_fresh)
qed (simp add: grounded_def list_all_iff del: set_map)

lemma common_level:
  assumes "grounded idx ps" "finite A" "A \<subseteq> set (map fst idx)"
  shows "\<exists>n \<ge> length idx. A \<subseteq> (\<Union>r \<in> set (forest_roots idx ps). levels n idx ps r)"
  using assms(2,3)
proof (induction A rule: finite_induct)
  case (insert i A)
  then obtain n where n: "length idx \<le> n" "A \<subseteq> (\<Union>r \<in> set (forest_roots idx ps). levels n idx ps r)" by auto
  have "i \<in> levels 1 idx ps i" by simp
  then obtain r m where r: "r \<in> set (forest_roots idx ps)" "i \<in> levels m idx ps r"
    using level_of_root [OF assms(1) climb_any [OF assms(1)] refl refl refl, of i i 1] insert.prems by auto
  have "A \<subseteq> (\<Union>r \<in> set (forest_roots idx ps). levels (max n m) idx ps r)"
    using n(2) levels_mono [OF max.cobounded1, of n idx ps _ m] by blast
  moreover have "i \<in> levels (max n m) idx ps r" using r(2) levels_mono [OF max.cobounded2, of m idx ps r n] by blast
  ultimately show ?case using n(1) r(1) by (intro exI [of _ "max n m"]) auto
qed auto

text \<open>Independent leases of a forest are reserved side by side.\<close>

context resource
begin

lemma independent_reserved:
  assumes g: "grounded idx ps" "distinct (map fst idx)" and A: "finite A" "A \<subseteq> set (map fst idx)" "independent ps A"
  shows "(\<Sum>i \<in> A. amount (own_request idx i)) \<le> amount (vec_sum (map (effective (length idx) idx ps) (forest_roots idx ps)))"
proof -
  let ?f = "\<lambda>i. amount (own_request idx i)" and ?R = "forest_roots idx ps"
  obtain n where n: "length idx \<le> n" "A \<subseteq> (\<Union>r \<in> set ?R. levels n idx ps r)" using common_level [OF g(1) A(1,2)] by blast
  then have "sum ?f A = sum ?f (A \<inter> (\<Union>r \<in> set ?R. levels n idx ps r))" by (simp add: Int_absorb2)
  also have "\<dots> \<le> sum_list (map (\<lambda>r. sum ?f (A \<inter> levels n idx ps r)) ?R)" using A(1) by (rule sum_union_le)
  also have "\<dots> \<le> sum_list (map (\<lambda>r. amount (effective n idx ps r)) ?R)"
    by (rule sum_list_mono) (rule independent_levels [OF A(1,3) g(1)])
  also have "map (\<lambda>r. amount (effective n idx ps r)) ?R = map (\<lambda>r. amount (effective (length idx) idx ps r)) ?R"
    by (rule map_cong [OF refl]) (simp add: effective_enough [OF g _ n(1)] forest_roots_def)
  finally show ?thesis by (simp add: amount_sum)
qed

end

lemma used_naive:
  "used_vector (naiveAggregate ls) = vec_sum (map (\<lambda>l. requestVector (lease_request l)) (filter (\<lambda>l. js_get (lease_request l) ''heavy'' \<noteq> JBool False) ls))"
proof -
  let ?h = "\<lambda>l. js_get (lease_request l) ''heavy'' \<noteq> JBool False" and ?v = "\<lambda>l. requestVector (lease_request l)"
  have "used_vector (foldl (\<lambda>t l. if js_get (lease_request l) ''heavy'' = JBool False then t else add_root t (requestVector (lease_request l))) t ms)
      = addVector (used_vector t) (vec_sum (map ?v (filter ?h ms)))" for t ms
    by (induction ms arbitrary: t) (simp_all add: add_root_def addVector_assoc)
  then show ?thesis by (simp add: naiveAggregate_def)
qed

text \<open>The leases of some positions of the list, and when none of them is nested in another.\<close>

definition chosen :: "jsv list \<Rightarrow> nat list \<Rightarrow> resource_vector" where
  "chosen ls ks = vec_sum (map (\<lambda>k. requestVector (lease_request (ls ! k))) ks)"

definition nested :: "parents \<Rightarrow> jsv \<Rightarrow> jsv \<Rightarrow> bool" where
  "nested ps l m = (case (leaseId l, leaseId m) of (Some i, Some j) \<Rightarrow> below ps i j | _ \<Rightarrow> False)"

lemma below_ids: "below ps i j \<Longrightarrow> parents_within I ps \<Longrightarrow> i \<in> I \<and> j \<in> I"
  unfolding below_def by (induction rule: tranclp_induct) (auto dest: parent_of_within)

lemma chosen_heavy:
  "distinct ks \<Longrightarrow> \<forall>k \<in> set ks. k < length ls \<and> js_get (lease_request (ls ! k)) ''heavy'' \<noteq> JBool False \<Longrightarrow>
     vec_le (chosen ls ks) (used_vector (naiveAggregate ls))"
proof -
  assume d: "distinct ks" and h: "\<forall>k \<in> set ks. k < length ls \<and> js_get (lease_request (ls ! k)) ''heavy'' \<noteq> JBool False"
  let ?v = "\<lambda>l. requestVector (lease_request l)" and ?h = "\<lambda>l. js_get (lease_request l) ''heavy'' \<noteq> JBool False"
  have "sum_list (map (\<lambda>k. g (?v (ls ! k))) ks) \<le> sum_list (map (\<lambda>l. g (?v l)) (filter ?h ls))"
    if g: "\<And>r. 0 \<le> g (requestVector r)" for g :: "resource_vector \<Rightarrow> rat"
  proof -
    let ?H = "{k. k < length ls \<and> ?h (ls ! k)}"
    have "sum_list (map (\<lambda>k. g (?v (ls ! k))) ks) = (\<Sum>k \<in> set ks. g (?v (ls ! k)))" using d by (rule sum_list_distinct_conv_sum_set)
    also have "\<dots> \<le> (\<Sum>k \<in> ?H. g (?v (ls ! k)))" using h g by (intro sum_mono2) auto
    also have "\<dots> = sum_list (map (\<lambda>l. g (?v l)) (filter ?h ls))"
    proof -
      have "(\<Sum>k \<in> ?H. g (?v (ls ! k))) = (\<Sum>k \<in> {0..<length ls}. if ?h (ls ! k) then g (?v (ls ! k)) else 0)"
        by (rule sum.mono_neutral_cong_left) auto
      also have "\<dots> = sum_list (map (\<lambda>l. if ?h l then g (?v l) else 0) ls)" by (simp add: sum_list_sum_nth)
      also have "\<dots> = sum_list (map (\<lambda>l. g (?v l)) (filter ?h ls))" by (induction ls) simp_all
      finally show ?thesis .
    qed
    finally show ?thesis .
  qed
  then show ?thesis
    unfolding vec_le_def chosen_def used_naive
    by (simp add: cpu.amount_sum io.amount_sum memory.amount_sum disk.amount_sum cpu.amount_request io.amount_request
        memory.amount_request disk.amount_request)
qed

lemma index_entries:
  "index_from n m ls = Some idx \<Longrightarrow> \<forall>(i, l) \<in> set m. leaseId l \<in> {None, Some i} \<Longrightarrow> \<forall>(i, l) \<in> set idx. leaseId l \<in> {None, Some i}"
proof (induction ls arbitrary: n m)
  case (Cons l ls)
  define i where "i = (case leaseId l of Some s \<Rightarrow> s | None \<Rightarrow> ''__anonymous_'' @ nat_string n)"
  have s: "index_from (Suc n) (m @ [(i, l)]) ls = Some idx" using Cons.prems(1) by (auto simp: i_def Let_def split: if_splits)
  have "\<forall>(i, l) \<in> set (m @ [(i, l)]). leaseId l \<in> {None, Some i}" using Cons.prems(2) by (auto simp: i_def split: option.split)
  with Cons.IH [OF s] show ?case by blast
qed simp

lemma lease_ids_member: "i \<in> set (lease_ids ls) \<Longrightarrow> \<exists>l \<in> set ls. leaseId l = Some i"
  by (induction ls) (auto split: option.splits)

lemma entry_id:
  assumes "indexLeases ls = Some idx" "(i, l) \<in> set idx" "i \<in> set (lease_ids ls)"
  shows "leaseId l = Some i"
proof -
  note facts = index_from_facts [OF assms(1) [unfolded indexLeases_def]]
  obtain l' where l': "l' \<in> set ls" "leaseId l' = Some i" using lease_ids_member [OF assms(3)] by blast
  have "l' \<in> snd ` set idx" unfolding set_map [symmetric] using facts l'(1) by (simp del: set_map)
  then obtain i' where "(i', l') \<in> set idx" by force
  moreover have "i' = i" using index_entries [OF assms(1) [unfolded indexLeases_def]] calculation l'(2) by auto
  ultimately have "l' = l" using eq_key_imp_eq_value [OF _ assms(2)] facts by auto
  with l'(2) show ?thesis by simp
qed

lemma chosen_independent:
  assumes x: "indexLeases ls = Some idx" and w: "parents_within (set (lease_ids ls)) ps" "validParentForest ls ps"
    and k: "distinct ks" "\<forall>k \<in> set ks. k < length ls" "\<forall>j \<in> set ks. \<forall>k \<in> set ks. \<not> nested ps (ls ! j) (ls ! k)"
  shows "vec_le (chosen ls ks) (vec_sum (map (effective (length idx) idx ps) (forest_roots idx ps)))"
proof -
  note g = grounded_index [OF x w]
  have len: "length idx = length ls" using g(3) by (metis length_map)
  let ?id = "\<lambda>k. fst (idx ! k)"
  have entry: "(?id k, ls ! k) \<in> set idx" if "k < length ls" for k
    using that len g(3) nth_map [of k idx snd] nth_mem [of k idx] by (metis prod.collapse)
  have own: "own_request idx (?id k) = requestVector (lease_request (ls ! k))" if "k < length ls" for k
    using entry [OF that] g(2) by (simp add: own_request_def)
  have inj: "inj_on ?id (set ks)"
    using g(2) k(2) len by (auto simp: inj_on_def distinct_conv_nth)
  have ind: "independent ps (?id ` set ks)"
    unfolding independent_def
  proof (intro ballI notI)
    fix i j
    assume ij: "i \<in> ?id ` set ks" "j \<in> ?id ` set ks" "below ps i j"
    then obtain a b where ab: "a \<in> set ks" "i = ?id a" "b \<in> set ks" "j = ?id b" by blast
    have "leaseId (ls ! a) = Some i" "leaseId (ls ! b) = Some j"
      using entry_id [OF x] entry k(2) ab below_ids [OF ij(3) w(1)] by blast+
    then have "nested ps (ls ! a) (ls ! b)" using ij(3) by (simp add: nested_def)
    then show False using k(3) ab by blast
  qed
  have sub: "?id ` set ks \<subseteq> set (map fst idx)" using k(2) len by auto
  have "amount (chosen ls ks) \<le> amount (vec_sum (map (effective (length idx) idx ps) (forest_roots idx ps)))"
    if "resource amount" for amount
  proof -
    have "amount (chosen ls ks) = (\<Sum>k \<in> set ks. amount (requestVector (lease_request (ls ! k))))"
      unfolding chosen_def resource.amount_sum [OF that] using k(1) by (rule sum_list_distinct_conv_sum_set)
    also have "\<dots> = (\<Sum>i \<in> ?id ` set ks. amount (own_request idx i))"
      unfolding sum.reindex [OF inj] by (rule sum.cong) (use own k(2) in auto)
    also have "\<dots> \<le> amount (vec_sum (map (effective (length idx) idx ps) (forest_roots idx ps)))"
      using resource.independent_reserved [OF that g(1,2) _ sub ind] by simp
    finally show ?thesis .
  qed
  then show ?thesis
    unfolding vec_le_def using cpu.resource_axioms io.resource_axioms memory.resource_axioms disk.resource_axioms by blast
qed

text \<open>
  C17. No reservation is lost: whichever heavy leases are chosen, as long as none of them is nested in another, the total the
  accounting reports covers the sum of their requests, resource by resource.  In particular it covers each heavy
  lease, and independent leases are added up, never merged.
\<close>

theorem reservation_covered:
  fixes ls table req ks
  defines "a \<equiv> resourceLeaseAccountingContext ls table req"
  assumes "distinct ks" "\<forall>k \<in> set ks. k < length ls \<and> js_get (lease_request (ls ! k)) ''heavy'' \<noteq> JBool False"
    and "\<forall>j \<in> set ks. \<forall>k \<in> set ks. \<not> nested (parentByLeaseId a) (ls ! j) (ls ! k)"
  shows "vec_le (chosen ls ks) (used_vector (aggregateResourceLeases ls a))"
proof -
  have ok: "parents_within (set (lease_ids ls)) (parentByLeaseId a)" "validParentForest ls (parentByLeaseId a)"
    using accounting_context_ok [of ls table req] by (simp_all add: accounting_ok_def a_def)
  show ?thesis
  proof (cases "indexLeases ls")
    case None
    with chosen_heavy [OF assms(2,3)] show ?thesis by (simp add: aggregateResourceLeases_def aggregateEffective_def)
  next
    case (Some idx)
    from chosen_independent [OF Some ok assms(2) _ assms(4)] assms(3)
    show ?thesis by (simp add: aggregateResourceLeases_def aggregateEffective_def Some ok(2) used_add_roots)
  qed
qed

section \<open>A nested lease\<close>

definition sample_lease :: "string \<Rightarrow> int \<Rightarrow> int \<Rightarrow> jsv" where
  "sample_lease i pid jobs = JObj [(''lease_id'', JStr i),
     (''owner'', JObj [(''kind'', JStr ''process''), (''pid'', JNum (Fin (of_int pid)))]),
     (''request'', JObj [(''heavy'', JBool True), (''cpu'', JNum (Fin (of_int jobs)))])]"

definition sample_leases :: "jsv list" where
  "sample_leases = [sample_lease ''outer'' 7 4, sample_lease ''inner'' 8 3]"

definition sample_processes :: jsv where
  "sample_processes = JObj [(''8'', JNum (Fin 7)), (''9'', JNum (Fin 8))]"

lemma sample_ids: "lease_ids sample_leases = [''outer'', ''inner'']"
  by (simp add: sample_leases_def sample_lease_def leaseId_def)

lemma increment_exact_sample:
  "addVector (used_vector (aggregateResourceLeases sample_leases (resourceLeaseAccountingContext sample_leases sample_processes (JNum (Fin 9)))))
     (resourceRequestIncrement sample_leases (JObj [(''cpu'', JNum (Fin 1))])
       (resourceLeaseAccountingContext sample_leases sample_processes (JNum (Fin 9))))
   = used_vector (aggregateEffective (sample_leases @ [pending_lease (JObj [(''cpu'', JNum (Fin 1))])])
       (pending_parents (resourceLeaseAccountingContext sample_leases sample_processes (JNum (Fin 9)))))"
  by (rule increment_exact) (simp add: sample_ids pendingId_def)

text \<open>Two leases side by side in a third: together they need more than the lease around them.\<close>

definition sibling_leases :: "jsv list" where
  "sibling_leases = [sample_lease ''outer'' 7 4, sample_lease ''left'' 8 3, sample_lease ''right'' 9 3]"

definition sibling_processes :: jsv where
  "sibling_processes = JObj [(''8'', JNum (Fin 7)), (''9'', JNum (Fin 7))]"

lemma sibling_parents:
  "parentByLeaseId (resourceLeaseAccountingContext sibling_leases sibling_processes JNull) = [(''left'', ''outer''), (''right'', ''outer'')]"
  by code_simp

lemma sibling_not_nested: "\<not> nested [(''left'', ''outer''), (''right'', ''outer'')] (sample_lease i p c) (sample_lease j q d)" if "j \<noteq> ''outer''"
proof -
  have "below [(''left'', ''outer''), (''right'', ''outer'')] x y \<Longrightarrow> y = ''outer''" for x y
    unfolding below_def by (induction rule: tranclp_induct) (auto simp: parent_of_def split: if_splits)
  then show ?thesis using that by (auto simp: nested_def sample_lease_def leaseId_def split: option.splits if_splits)
qed

lemma reservation_covered_witness:
  "6 \<le> cpu (used_vector (aggregateResourceLeases sibling_leases (resourceLeaseAccountingContext sibling_leases sibling_processes JNull)))"
proof -
  have "vec_le (chosen sibling_leases [1, 2])
      (used_vector (aggregateResourceLeases sibling_leases (resourceLeaseAccountingContext sibling_leases sibling_processes JNull)))"
    by (rule reservation_covered)
      (simp_all add: sibling_parents, simp_all add: sibling_leases_def sibling_not_nested, simp_all add: sample_lease_def lease_request_def)
  moreover have "cpu (chosen sibling_leases [1, 2]) = 6" by code_simp
  ultimately show ?thesis by (simp add: vec_le_def)
qed

end
