(* ===== verification/ResourceAdmission.thy ===== *)
theory ResourceAdmission
  imports ResourceAccountingSpec
begin

text \<open>
  Admission of heavy work: the pressure state of the host (\<open>src/local/resource-pressure.mjs\<close>), the limits and
  the decision (\<open>resource-admission-policy.mjs\<close>), and the shrinking of elastic compiler requests
  (\<open>resource-elastic-request.mjs\<close>, \<open>resource-elastic-memory.mjs\<close>).  Host samples and requests are JSON values,
  quantities exact rationals; an infinite number counts as absent.
\<close>

section \<open>Pressure\<close>

definition optionalResourceNumber :: "jsv \<Rightarrow> rat option" where
  "optionalResourceNumber v = (if v \<in> {JNull, JUndef, JStr []} then None else fin_of (js_Number v))"

definition or_zero :: "rat option \<Rightarrow> rat" where
  "or_zero x = (case x of Some q \<Rightarrow> q | None \<Rightarrow> 0)"

text \<open>\<open>Math.max(lo, Number(v) || d)\<close>.\<close>

definition number_at_least :: "rat \<Rightarrow> jsv \<Rightarrow> rat \<Rightarrow> rat" where
  "number_at_least lo v d = (case fin_of (num_or (js_Number v) d) of Some q \<Rightarrow> max lo q | None \<Rightarrow> lo)"

record pressure =
  level :: nat
  reasons :: "string list"
  critical_reasons :: "string list"

definition mark :: "nat \<Rightarrow> string \<Rightarrow> pressure \<Rightarrow> pressure" where
  "mark next reason p =
     \<lparr>level = (if next > level p then next else level p), reasons = reasons p @ [reason],
      critical_reasons = (if next = 2 then critical_reasons p @ [reason] else critical_reasons p)\<rparr>"

definition mark_if :: "bool \<Rightarrow> nat \<Rightarrow> string \<Rightarrow> pressure \<Rightarrow> pressure" where
  "mark_if c next reason p = (if c then mark next reason p else p)"

definition thresholdPressure :: "rat option \<Rightarrow> rat \<Rightarrow> rat \<Rightarrow> bool \<Rightarrow> string \<Rightarrow> pressure \<Rightarrow> pressure" where
  "thresholdPressure v critical warning lowerIsWorse label p = (case v of None \<Rightarrow> p | Some x \<Rightarrow>
     if (if lowerIsWorse then x < critical else x \<ge> critical) then mark 2 (label @ ''_critical'') p
     else if (if lowerIsWorse then x < warning else x \<ge> warning) then mark 1 label p else p)"

definition IO_PRESSURE_FRESH_MS :: rat where
  "IO_PRESSURE_FRESH_MS = 5000"

text \<open>Disk throughput and operations, when they were sampled at most five seconds before the host.\<close>

definition freshIoPressureSignals :: "jsv \<Rightarrow> rat option \<times> rat option" where
  "freshIoPressureSignals host =
     (if js_get host ''io_sampled'' \<noteq> JBool True then (None, None)
      else (case (fin_of (js_Number (js_get host ''sampled_at_ms'')), fin_of (js_Number (js_get host ''io_sampled_at_ms''))) of
          (Some t, Some u) \<Rightarrow>
            (if u > t \<or> t - u > IO_PRESSURE_FRESH_MS then (None, None)
             else (optionalResourceNumber (js_get host ''disk_mb_per_s''), optionalResourceNumber (js_get host ''disk_iops'')))
        | _ \<Rightarrow> (None, None)))"

definition markDiskHeadroom :: "jsv \<Rightarrow> pressure \<Rightarrow> pressure" where
  "markDiskHeadroom host p =
     (case (optionalResourceNumber (js_get host ''disk_free_bytes''), optionalResourceNumber (js_get host ''disk_total_bytes'')) of
        (Some free, Some bytes) \<Rightarrow>
          (if bytes \<le> 0 then p
           else if free < resourceDiskHardFloorBytes (JNum (Fin bytes)) then mark 2 ''disk_free_headroom_critical'' p
           else mark_if (free < resourceDiskSoftFloorBytes (JNum (Fin bytes))) 1 ''disk_free_headroom'' p)
      | _ \<Rightarrow> p)"

definition psi :: "jsv \<Rightarrow> string \<Rightarrow> rat option" where
  "psi host k = optionalResourceNumber (js_get host k)"

definition markPsiPressure :: "jsv \<Rightarrow> pressure \<Rightarrow> pressure" where
  "markPsiPressure host p =
     (let p1 = thresholdPressure (psi host ''psi_memory_full_avg10'') 60 10 False ''psi_memory_full'' p;
          p2 = thresholdPressure (psi host ''psi_io_full_avg10'') 60 10 False ''psi_io_full'' p1;
          p3 = mark_if (or_zero (psi host ''psi_cpu_some_avg10'') \<ge> 10) 1 ''psi_cpu_some'' p2;
          p4 = mark_if (or_zero (psi host ''psi_memory_some_avg10'') \<ge> 10) 1 ''psi_memory_some'' p3
      in mark_if (or_zero (psi host ''psi_io_some_avg10'') \<ge> 10) 1 ''psi_io_some'' p4)"

definition markCpuLoadPressure :: "jsv \<Rightarrow> rat \<Rightarrow> rat option \<times> rat option \<Rightarrow> pressure \<Rightarrow> pressure" where
  "markCpuLoadPressure host cores disk p =
     (let busy = optionalResourceNumber (js_get host ''cpu_busy_cores'');
          p1 = mark_if (case busy of Some c \<Rightarrow> c \<ge> cores * 9 / 10 | None \<Rightarrow> False) 1 ''cpu_busy'' p
      in case optionalResourceNumber (js_get host ''load1'') of
           None \<Rightarrow> p1
         | Some load \<Rightarrow>
            (let backlog = list_ex (\<lambda>k. or_zero (psi host k) \<ge> 10)
                   [''psi_cpu_some_avg10'', ''psi_memory_some_avg10'', ''psi_io_some_avg10'', ''psi_io_full_avg10''];
                 corroborated = (or_zero busy \<ge> cores * 7 / 10 \<or> or_zero (fst disk) \<ge> 50 \<or> or_zero (snd disk) \<ge> 1250 \<or> backlog);
                 p2 = mark_if (load \<ge> cores * 5 / 4 \<and> (js_get host ''platform'' \<noteq> JStr ''darwin'' \<or> corroborated)) 1 ''load_backlog'' p1
             in mark_if (load \<ge> cores * 2 \<and> (or_zero busy \<ge> cores * 3 / 4 \<or> or_zero (fst disk) \<ge> 100 \<or> or_zero (snd disk) \<ge> 2500))
                  2 ''load_backlog_critical'' p2))"

record pressure_state =
  ps_state :: string
  ps_reasons :: "string list"
  ps_critical :: "string list"

definition pressure_marks :: "jsv \<Rightarrow> aggregate \<Rightarrow> pressure" where
  "pressure_marks host u =
     (let cores = number_at_least 1 (js_get host ''cpu_cores'') 1;
          disk = freshIoPressureSignals host;
          p0 = \<lparr>level = 0, reasons = [], critical_reasons = []\<rparr>;
          p1 = mark_if (js_get host ''thermal_warning'' = JBool True) 2 ''thermal_warning'' p0;
          p2 = thresholdPressure (psi host ''memory_free_percent'') 8 18 True ''memory_pressure'' p1;
          p3 = mark_if (or_zero (fst disk) \<ge> 100) 1 ''disk_throughput'' p2;
          p4 = mark_if (or_zero (snd disk) \<ge> 2500) 1 ''disk_iops'' p3;
          p5 = thresholdPressure (psi host ''pageouts_per_s'') 1024 256 False ''pageout_rate'' p4;
          p6 = thresholdPressure (psi host ''swapouts_per_s'') 512 128 False ''swapout_rate'' p5
      in mark_if (of_nat (heavy_leases u) > cores * 2) 1 ''heavy_root_count''
           (markCpuLoadPressure host cores disk (markPsiPressure host (markDiskHeadroom host p6))))"

definition resourcePressureState :: "jsv \<Rightarrow> aggregate \<Rightarrow> pressure_state" where
  "resourcePressureState host u =
     (let p = pressure_marks host u in
      \<lparr>ps_state = (if level p = 2 then ''red'' else if level p = 1 then ''yellow'' else ''green''),
       ps_reasons = reasons p, ps_critical = critical_reasons p\<rparr>)"

section \<open>Limits\<close>

record resource_limits =
  cpu_limit :: rat
  io_limit :: rat
  memory_limit :: rat
  cpu_overcommit :: rat
  io_overcommit :: rat
  memory_overcommit :: rat

definition resourceLimits :: "rat \<Rightarrow> rat \<Rightarrow> jsv \<Rightarrow> string \<Rightarrow> string list \<Rightarrow> resource_limits" where
  "resourceLimits cores totalMemoryMb priority state rs =
     (let headroom = (if priority = JStr ''background'' then 2 else if priority = JStr ''interactive'' then 1 else 3 / 2);
          constrained = (state \<noteq> ''green'');
          cpuPressure = (constrained \<and> (''cpu_busy'' \<in> set rs \<or> ''psi_cpu_some'' \<in> set rs));
          ioPressure = (constrained \<and> list_ex (\<lambda>r. starts_with ''disk_'' r \<or> starts_with ''psi_io_'' r) rs);
          memoryPressure = (constrained \<and> list_ex (\<lambda>r. starts_with ''memory_pressure'' r \<or> starts_with ''pageout_rate'' r
             \<or> starts_with ''swapout_rate'' r \<or> starts_with ''psi_memory_'' r) rs)
      in \<lparr>cpu_limit = max 1 (cores - headroom - (if cpuPressure then 1 else 0)),
          io_limit = (if ioPressure then 1 else 5 / 4),
          memory_limit = max 1024 (totalMemoryMb * (if memoryPressure then 55 / 100 else 70 / 100)),
          cpu_overcommit = (if cpuPressure then 115 / 100 else 135 / 100),
          io_overcommit = (if ioPressure then 105 / 100 else 125 / 100),
          memory_overcommit = (if memoryPressure then 110 / 100 else 125 / 100)\<rparr>)"

section \<open>The decision\<close>

definition isDiskReclaimRequest :: "jsv \<Rightarrow> bool" where
  "isDiskReclaimRequest r =
     (js_get r ''family'' = JStr ''disk-reclaim'' \<and> js_get r ''resource_class'' = JStr ''io''
      \<and> js_get r ''unbounded'' = JBool False \<and> js_get r ''serialize_project'' = JBool False
      \<and> num_le (js_Number (js_get r ''cpu'')) (Fin (1 / 4)) \<and> num_le (js_Number (js_get r ''io'')) (Fin (3 / 4))
      \<and> num_le (js_Number (js_get r ''memory_mb'')) (Fin 256)
      \<and> fin_of (js_Number (js_get r ''disk_reserve_bytes'')) = Some 0)"

definition diskReservationFits :: "jsv \<Rightarrow> rat \<Rightarrow> rat \<Rightarrow> bool" where
  "diskReservationFits host usedBytes requestedBytes =
     (case (fin_of (js_Number (js_get host ''disk_free_bytes'')), fin_of (js_Number (js_get host ''disk_total_bytes''))) of
        (Some free, Some bytes) \<Rightarrow>
          (if free \<le> 0 \<or> bytes \<le> 0 then True
           else free - usedBytes - requestedBytes \<ge> resourceDiskHardFloorBytes (JNum (Fin bytes)))
      | _ \<Rightarrow> True)"

definition vector_fields :: "resource_vector \<Rightarrow> (string \<times> jsv) list" where
  "vector_fields v = [(''cpu'', JNum (Fin (cpu v))), (''io'', JNum (Fin (io v))),
     (''memory_mb'', JNum (Fin (memory_mb v))), (''disk_reserve_bytes'', JNum (Fin (disk_reserve_bytes v)))]"

record evaluation =
  pressure_reasons :: "string list"
  ev_limits :: resource_limits
  ev_used :: aggregate
  ev_requested :: resource_vector
  reservation :: resource_vector
  observed_busy_cores :: "rat option"
  unobserved_reserved_cpu :: rat

record admission_decision =
  admitted :: bool
  decision_state :: string
  decision_reason :: string
  evaluated :: "evaluation option"

definition resourceAdmissionDecisionRetryable :: "admission_decision \<Rightarrow> bool" where
  "resourceAdmissionDecisionRetryable d = (decision_reason d \<noteq> ''cpu_request_exceeds_launch_window'')"

definition declared_vector :: "resource_limits \<Rightarrow> jsv \<Rightarrow> resource_vector" where
  "declared_vector lm r =
     \<lparr>cpu = (if truthy (js_get r ''unbounded'') then cpu_limit lm else number_at_least 0 (js_get r ''cpu'') 0),
      io = number_at_least 0 (js_get r ''io'') 0,
      memory_mb = number_at_least 0 (js_get r ''memory_mb'') 0,
      disk_reserve_bytes = number_at_least 0 (js_get r ''disk_reserve_bytes'') 0\<rparr>"

definition declared_request :: "resource_limits \<Rightarrow> jsv \<Rightarrow> jsv" where
  "declared_request lm r = spread r (vector_fields (declared_vector lm r) @ [(''unbounded'', JBool False)])"

definition disk_only_critical :: "jsv \<Rightarrow> pressure_state \<Rightarrow> bool" where
  "disk_only_critical r p =
     (isDiskReclaimRequest r \<and> ps_state p = ''red'' \<and> ps_critical p = [''disk_free_headroom_critical''])"

text \<open>Another lease of the project, outside the ancestors of the requester, holds the contention key.\<close>

definition contention_busy :: "jsv list \<Rightarrow> jsv \<Rightarrow> accounting \<Rightarrow> bool" where
  "contention_busy ls r a =
     (truthy (js_get r ''contention_key'') \<and>
      list_ex (\<lambda>l. js_get (lease_request l) ''contention_key'' = js_get r ''contention_key''
        \<and> js_get l ''lease_id'' \<notin> JStr ` set (ancestorLeaseIds a)) ls)"

definition evaluate_limits :: "jsv \<Rightarrow> jsv \<Rightarrow> pressure_state \<Rightarrow> resource_limits" where
  "evaluate_limits host r p =
     resourceLimits (number_at_least 1 (js_get host ''cpu_cores'') 1) (number_at_least 1024 (js_get host ''total_memory_mb'') 1024)
       (js_get r ''priority'') (if disk_only_critical r p then ''yellow'' else ps_state p) (ps_reasons p)"

definition evaluateResourceAdmission :: "jsv \<Rightarrow> jsv list \<Rightarrow> jsv \<Rightarrow> accounting \<Rightarrow> admission_decision" where
  "evaluateResourceAdmission host ls r a =
     (if \<not> truthy (js_get r ''heavy'') then \<lparr>admitted = True, decision_state = ''light'', decision_reason = ''light_bypass'', evaluated = None\<rparr>
      else
       (let cores = number_at_least 1 (js_get host ''cpu_cores'') 1;
            mem = number_at_least 1024 (js_get host ''total_memory_mb'') 1024;
            u = aggregateResourceLeases ls a; uv = used_vector u;
            unobserved = unobservedResourceCpu ls a (js_get host ''sampled_at_ms'');
            p = resourcePressureState host u;
            lm = evaluate_limits host r p;
            q = resourceRequestIncrement ls (declared_request lm r) a;
            ev = \<lparr>pressure_reasons = ps_reasons p, ev_limits = lm, ev_used = u, ev_requested = q,
                  reservation = declared_vector lm r,
                  observed_busy_cores = optionalResourceNumber (js_get host ''cpu_busy_cores''), unobserved_reserved_cpu = unobserved\<rparr>;
            deny = (\<lambda>why. \<lparr>admitted = False, decision_state = ps_state p, decision_reason = why, evaluated = Some ev\<rparr>);
            best = cpu_limit (resourceLimits cores mem (js_get r ''priority'') ''green'' [])
        in if \<not> truthy (js_get r ''unbounded'') \<and> cpu q > best + 1 / 4 then deny ''cpu_request_exceeds_launch_window''
           else if contention_busy ls r a then deny ''project_resource_busy''
           else if ps_state p = ''red'' \<and> \<not> disk_only_critical r p then deny ''host_pressure_red''
           else if \<not> isDiskReclaimRequest r \<and> \<not> diskReservationFits host (disk_reserve_bytes uv) (disk_reserve_bytes q)
             then deny ''disk_reserve_floor''
           else if cpu uv + cpu q > cpu_limit lm * cpu_overcommit lm + 1 / 100 then deny ''cpu_reservation''
           else if io uv + io q > io_limit lm * io_overcommit lm + 1 / 100 then deny ''io_reservation''
           else if memory_mb uv + memory_mb q > memory_limit lm * memory_overcommit lm + 1 then deny ''memory_reservation''
           else if finite_number (js_get host ''cpu_busy_cores'') + unobserved + cpu q > cpu_limit lm + 1 / 4
             then deny ''cpu_pressure_window''
           else \<lparr>admitted = True, decision_state = ps_state p, decision_reason = (if disk_only_critical r p then ''admitted_disk_reclaim''
                    else if ps_state p = ''yellow'' then ''admitted_yellow'' else ''admitted_green''), evaluated = Some ev\<rparr>))"

record pressure_snapshot =
  snap_state :: string
  snap_reasons :: "string list"
  snap_used :: aggregate
  snap_busy_cores :: "rat option"
  snap_unobserved :: rat
  snap_ratio :: "rat option"
  snap_limits :: resource_limits
  snap_requested :: "resource_vector option"

definition resourcePressureSnapshot :: "jsv \<Rightarrow> jsv list \<Rightarrow> jsv \<Rightarrow> accounting \<Rightarrow> jsv \<Rightarrow> pressure_snapshot" where
  "resourcePressureSnapshot host ls priority a r =
     (let cores = number_at_least 1 (js_get host ''cpu_cores'') 1;
          mem = number_at_least 1024 (js_get host ''total_memory_mb'') 1024;
          u = aggregateResourceLeases ls a;
          p = resourcePressureState host u;
          busy = optionalResourceNumber (js_get host ''cpu_busy_cores'')
      in \<lparr>snap_state = ps_state p, snap_reasons = ps_reasons p, snap_used = u, snap_busy_cores = busy,
          snap_unobserved = unobservedResourceCpu ls a (js_get host ''sampled_at_ms''),
          snap_ratio = (case busy of Some b \<Rightarrow> if b > 0 then Some (min 1 (cpu (used_vector u) / b)) else None | None \<Rightarrow> None),
          snap_limits = resourceLimits cores mem priority (ps_state p) (ps_reasons p),
          snap_requested = (if truthy (js_get r ''heavy'') then Some (resourceRequestIncrement ls r a) else None)\<rparr>)"

text \<open>Rates from two successive samples; a field is replaced only when both samples give finite, ordered totals.\<close>

definition set_rate :: "jsv \<Rightarrow> jsv \<Rightarrow> rat \<Rightarrow> string \<Rightarrow> string \<Rightarrow> (string \<times> jsv) list" where
  "set_rate now prev elapsed key rate =
     (case (fin_of (js_Number (js_get now key)), fin_of (js_Number (js_get prev key))) of
        (Some x, Some y) \<Rightarrow> if x \<ge> y then [(rate, JNum (Fin ((x - y) / elapsed)))] else []
      | _ \<Rightarrow> [])"

definition difference :: "jsv \<Rightarrow> jsv \<Rightarrow> string \<Rightarrow> rat option" where
  "difference now prev key = (case (fin_of (js_Number (js_get now key)), fin_of (js_Number (js_get prev key))) of
     (Some x, Some y) \<Rightarrow> Some (x - y) | _ \<Rightarrow> None)"

definition busy_cores :: "jsv \<Rightarrow> jsv \<Rightarrow> (string \<times> jsv) list" where
  "busy_cores now prev =
     (let cores = number_at_least 1 (js_get now ''cpu_cores'') 1 in
      case (difference now prev ''cpu_time_ms_total'', difference now prev ''cpu_idle_ms_total'') of
        (Some t, Some i) \<Rightarrow> if t > 0 \<and> i \<ge> 0 \<and> i \<le> t
           then [(''cpu_busy_cores'', JNum (Fin (max 0 (min cores (cores * (1 - i / t))))))] else []
      | _ \<Rightarrow> [])"

definition deriveHostRates :: "jsv \<Rightarrow> jsv \<Rightarrow> jsv" where
  "deriveHostRates now prev =
     (case difference now prev ''sampled_at_ms'' of
        None \<Rightarrow> spread now []
      | Some ms \<Rightarrow>
         (let elapsed = ms / 1000 in
          if \<not> (elapsed > 0 \<and> elapsed \<le> 30) then spread now []
          else spread now (set_rate now prev elapsed ''pageouts_total'' ''pageouts_per_s''
                 @ set_rate now prev elapsed ''swapouts_total'' ''swapouts_per_s'' @ busy_cores now prev)))"

end
