(* ===== verification/ResourceAdmissionSpec.thy ===== *)
theory ResourceAdmissionSpec
  imports ResourceAdmission
begin

text \<open>
  What resource admission keeps: the pressure state agrees with its reasons, pressure only lowers the limits,
  and an admitted request leaves the reservations of the machine within the limits of the moment.
\<close>

section \<open>What the pressure state says\<close>

definition pressure_ok :: "pressure \<Rightarrow> bool" where
  "pressure_ok p = (level p \<le> 2 \<and> (level p = 2 \<longleftrightarrow> critical_reasons p \<noteq> []) \<and> (level p = 0 \<longleftrightarrow> reasons p = [])
     \<and> set (critical_reasons p) \<subseteq> set (reasons p))"

lemma pressure_ok_mark: "pressure_ok p \<Longrightarrow> n \<in> {1, 2} \<Longrightarrow> pressure_ok (mark n r p)"
  by (auto simp: pressure_ok_def mark_def)

lemma pressure_ok_mark_if: "pressure_ok p \<Longrightarrow> n \<in> {1, 2} \<Longrightarrow> pressure_ok (mark_if c n r p)"
  by (simp add: mark_if_def pressure_ok_mark)

lemma pressure_ok_threshold: "pressure_ok p \<Longrightarrow> pressure_ok (thresholdPressure v c w l r p)"
  by (auto simp: thresholdPressure_def pressure_ok_mark split: option.split)

lemmas pressure_ok_steps = pressure_ok_mark pressure_ok_mark_if pressure_ok_threshold

lemma pressure_ok_disk: "pressure_ok p \<Longrightarrow> pressure_ok (markDiskHeadroom host p)"
  by (auto simp: markDiskHeadroom_def pressure_ok_steps split: option.split)

lemma pressure_ok_psi: "pressure_ok p \<Longrightarrow> pressure_ok (markPsiPressure host p)"
  by (simp add: markPsiPressure_def Let_def pressure_ok_steps)

lemma pressure_ok_cpu: "pressure_ok p \<Longrightarrow> pressure_ok (markCpuLoadPressure host cores disk p)"
  by (simp add: markCpuLoadPressure_def Let_def pressure_ok_steps split: option.split)

lemma pressure_ok_marks: "pressure_ok (pressure_marks host u)"
proof -
  have "pressure_ok \<lparr>level = 0, reasons = [], critical_reasons = []\<rparr>" by (simp add: pressure_ok_def)
  then show ?thesis
    by (simp add: pressure_marks_def Let_def pressure_ok_steps pressure_ok_disk pressure_ok_psi pressure_ok_cpu)
qed

text \<open>
  The pressure state is exactly what its reasons say: red when some reason is critical, green when there is
  none, yellow otherwise; every critical reason is among the reasons.
\<close>

lemma pressure_state_exact:
  fixes host u
  defines "p \<equiv> resourcePressureState host u"
  shows "(ps_state p = ''red'') = (ps_critical p \<noteq> []) \<and> (ps_state p = ''green'') = (ps_reasons p = [])
     \<and> ps_state p \<in> {''red'', ''yellow'', ''green''} \<and> set (ps_critical p) \<subseteq> set (ps_reasons p)"
  using pressure_ok_marks [of host u] unfolding p_def resourcePressureState_def Let_def pressure_ok_def by auto

text \<open>
  Pressure only lowers what is allowed: under any pressure every limit and every reservation ceiling is at
  most the one of a calm host, and never less than one core and one gigabyte.
\<close>

lemma pressure_lowers_limits:
  fixes cores mem priority st rs
  defines "l \<equiv> resourceLimits cores mem priority st rs" and "g \<equiv> resourceLimits cores mem priority ''green'' rs"
  shows "1 \<le> cpu_limit l \<and> cpu_limit l \<le> cpu_limit g \<and> 1 \<le> io_limit l \<and> io_limit l \<le> io_limit g
     \<and> 1024 \<le> memory_limit l \<and> memory_limit l \<le> memory_limit g
     \<and> cpu_limit l * cpu_overcommit l \<le> cpu_limit g * cpu_overcommit g
     \<and> io_limit l * io_overcommit l \<le> io_limit g * io_overcommit g
     \<and> memory_limit l * memory_overcommit l \<le> memory_limit g * memory_overcommit g"
proof -
  have o': "0 \<le> cpu_overcommit l" "cpu_overcommit l \<le> cpu_overcommit g" "0 \<le> io_overcommit l" "io_overcommit l \<le> io_overcommit g"
    "0 \<le> memory_overcommit l" "memory_overcommit l \<le> memory_overcommit g"
    by (simp_all add: l_def g_def resourceLimits_def Let_def)
  have c: "1 \<le> cpu_limit l" "cpu_limit l \<le> cpu_limit g" "1 \<le> io_limit l" "io_limit l \<le> io_limit g" "1024 \<le> memory_limit l"
    by (simp_all add: l_def g_def resourceLimits_def Let_def max.coboundedI2)
  have m: "memory_limit l \<le> memory_limit g"
  proof (cases "0 \<le> mem")
    case True
    then have "mem * (55 / 100) \<le> mem * (70 / 100)" by (intro mult_left_mono) simp_all
    then show ?thesis by (auto simp: l_def g_def resourceLimits_def Let_def intro: max.mono)
  next
    case False
    then have "mem * (55 / 100) \<le> 1024" "mem * (70 / 100) \<le> 1024" by auto
    then show ?thesis by (auto simp: l_def g_def resourceLimits_def Let_def)
  qed
  show ?thesis using c m o' by (auto intro: mult_mono)
qed

section \<open>What admission keeps\<close>

lemma admitted_facts:
  assumes "admitted (evaluateResourceAdmission host ls r a)" "truthy (js_get r ''heavy'')"
  defines "u \<equiv> aggregateResourceLeases ls a"
  defines "p \<equiv> resourcePressureState host u"
  defines "lm \<equiv> evaluate_limits host r p"
  defines "q \<equiv> resourceRequestIncrement ls (declared_request lm r) a"
  shows "\<not> contention_busy ls r a" "ps_state p \<noteq> ''red'' \<or> disk_only_critical r p"
    "isDiskReclaimRequest r \<or> diskReservationFits host (disk_reserve_bytes (used_vector u)) (disk_reserve_bytes q)"
    "cpu (used_vector u) + cpu q \<le> cpu_limit lm * cpu_overcommit lm + 1 / 100"
    "io (used_vector u) + io q \<le> io_limit lm * io_overcommit lm + 1 / 100"
    "memory_mb (used_vector u) + memory_mb q \<le> memory_limit lm * memory_overcommit lm + 1"
  using assms(1,2) unfolding evaluateResourceAdmission_def Let_def u_def [symmetric] p_def [symmetric] lm_def [symmetric] q_def [symmetric]
  by (simp_all split: if_splits add: not_less)

text \<open>
  Admission keeps the machine's reservations within its limits: once an admitted heavy request has joined
  the leases, the CPU, the input-output and the memory they reserve stay within the overcommitted limits of the
  current pressure, the host is not critical (disk reclaim under a critical disk apart), the free disk still
  covers every reservation above the hard floor, and no lease but an ancestor holds the request's contention key.
\<close>

lemma admission_keeps_limits:
  fixes host ls table req r
  defines "a \<equiv> resourceLeaseAccountingContext ls table req"
  defines "p \<equiv> resourcePressureState host (aggregateResourceLeases ls a)"
  defines "lm \<equiv> evaluate_limits host r p"
  defines "after \<equiv> used_vector (aggregateEffective (ls @ [pending_lease (declared_request lm r)]) (pending_parents a))"
  assumes "pendingId \<notin> set (lease_ids ls)" "truthy (js_get r ''heavy'')" "admitted (evaluateResourceAdmission host ls r a)"
  shows "cpu after \<le> cpu_limit lm * cpu_overcommit lm + 1 / 100 \<and> io after \<le> io_limit lm * io_overcommit lm + 1 / 100
     \<and> memory_mb after \<le> memory_limit lm * memory_overcommit lm + 1
     \<and> (ps_state p = ''red'' \<longrightarrow> disk_only_critical r p)
     \<and> (isDiskReclaimRequest r \<or> diskReservationFits host 0 (disk_reserve_bytes after))
     \<and> \<not> contention_busy ls r a"
proof -
  note f = admitted_facts [OF assms(7,6)]
  have after: "after = addVector (used_vector (aggregateResourceLeases ls a)) (resourceRequestIncrement ls (declared_request lm r) a)"
    unfolding after_def a_def using assms(5) by (rule increment_exact [symmetric])
  have s: "diskReservationFits host x y = diskReservationFits host 0 (x + y)" for x y
    by (simp add: diskReservationFits_def diff_diff_eq split: option.split)
  let ?u = "used_vector (aggregateResourceLeases ls a)" and ?q = "resourceRequestIncrement ls (declared_request lm r) a"
  have "isDiskReclaimRequest r \<or> diskReservationFits host 0 (disk_reserve_bytes ?u + disk_reserve_bytes ?q)"
    using f(3) unfolding s [of "disk_reserve_bytes ?u"] p_def [symmetric] lm_def [symmetric] .
  then show ?thesis
    using f(1,2,4-6) unfolding after p_def [symmetric] lm_def [symmetric] by (simp add: addVector_def)
qed

definition calm_host :: jsv where
  "calm_host = JObj [(''cpu_cores'', JNum (Fin 8)), (''total_memory_mb'', JNum (Fin 16384)), (''cpu_busy_cores'', JNum (Fin 1))]"

definition compile_request :: jsv where
  "compile_request = JObj [(''family'', JStr ''cargo''), (''priority'', JStr ''ordinary''), (''cpu'', JNum (Fin 2)),
     (''io'', JNum (Fin (1 / 2))), (''memory_mb'', JNum (Fin 2048)), (''heavy'', JBool True), (''unbounded'', JBool False)]"

lemma context_no_table [simp]: "resourceLeaseAccountingContext ls JUndef req = no_accounting"
  by (simp add: resourceLeaseAccountingContext_def)

lemma aggregate_no_lease [simp]: "aggregateResourceLeases [] no_accounting = emptyAggregate"
  by (simp add: aggregateResourceLeases_def aggregateEffective_def indexLeases_def validParentForest_def no_accounting_def
      forest_roots_def)

lemma increment_no_lease: "resourceRequestIncrement [] r no_accounting = requestVector r"
proof -
  have "used_vector (aggregateEffective [pending_lease r] []) = max_vector (requestVector r) emptyVector"
    by (simp add: aggregateEffective_def indexLeases_def validParentForest_def forest_roots_def parent_of_def
        add_root_def effective_Suc own_request_def children_of_def)
  also have "\<dots> = requestVector r"
    using nonneg_request [of r] by (cases "requestVector r") (simp add: max_vector_def emptyVector_def vec_le_def max_absorb1)
  finally show ?thesis using aggregate_no_lease nonneg_request [of r]
    by (simp add: resourceRequestIncrement_def pending_parents_def no_accounting_def aggregateResourceLeases_def
        excess_def emptyVector_def vec_le_def max_absorb2)
qed

lemma calm_pressure: "resourcePressureState calm_host emptyAggregate = \<lparr>ps_state = ''green'', ps_reasons = [], ps_critical = []\<rparr>"
  by code_simp

lemma compile_limits: "evaluate_limits calm_host compile_request \<lparr>ps_state = ''green'', ps_reasons = [], ps_critical = []\<rparr> =
   \<lparr>cpu_limit = 13 / 2, io_limit = 5 / 4, memory_limit = 57344 / 5, cpu_overcommit = 27 / 20, io_overcommit = 5 / 4, memory_overcommit = 5 / 4\<rparr>"
  by code_simp

lemma compile_vector: "requestVector (declared_request
     \<lparr>cpu_limit = 13 / 2, io_limit = 5 / 4, memory_limit = 57344 / 5, cpu_overcommit = 27 / 20, io_overcommit = 5 / 4, memory_overcommit = 5 / 4\<rparr> compile_request)
   = \<lparr>cpu = 2, io = 1 / 2, memory_mb = 2048, disk_reserve_bytes = 0\<rparr>"
  by code_simp

lemma compile_host: "truthy (js_get compile_request ''heavy'')" "\<not> contention_busy [] compile_request no_accounting"
  "unobservedResourceCpu [] no_accounting (js_get calm_host ''sampled_at_ms'') = 0" "finite_number (js_get calm_host ''cpu_busy_cores'') = 1"
  "\<not> isDiskReclaimRequest compile_request" "diskReservationFits calm_host 0 0"
  "cpu_limit (resourceLimits (number_at_least 1 (js_get calm_host ''cpu_cores'') 1) (number_at_least 1024 (js_get calm_host ''total_memory_mb'') 1024)
     (js_get compile_request ''priority'') ''green'' []) = 13 / 2"
  by code_simp+

lemma compile_admitted: "admitted (evaluateResourceAdmission calm_host [] compile_request no_accounting)"
  unfolding evaluateResourceAdmission_def Let_def aggregate_no_lease increment_no_lease calm_pressure compile_limits compile_vector
  by (simp add: compile_host emptyVector_def)

lemma admission_keeps_limits_sample:
  "cpu (used_vector (aggregateEffective [pending_lease (declared_request
      (evaluate_limits calm_host compile_request (resourcePressureState calm_host emptyAggregate)) compile_request)] []))
   \<le> 13 / 2 * (27 / 20) + 1 / 100"
proof -
  have "truthy (js_get compile_request ''heavy'')" by (rule compile_host)
  from admission_keeps_limits [of "[]" compile_request calm_host JUndef JUndef, simplified, OF this compile_admitted]
  show ?thesis by (simp add: calm_pressure compile_limits pending_parents_def no_accounting_def)
qed

end
