(* ===== verification/ResourceRequests.thy ===== *)
theory ResourceRequests
  imports ResourceAdmission Errors
begin

text \<open>
  Requests and waiting: the request contract (\<open>src/local/resource-request-contract.mjs\<close>), elastic compiler
  requests (\<open>resource-elastic-request.mjs\<close>, \<open>resource-elastic-memory.mjs\<close>), how long the foreground waits
  (\<open>resource-foreground-wait.mjs\<close>) and the delay between attempts (\<open>resource-wait.mjs\<close>).
\<close>

section \<open>The request contract\<close>

definition RESOURCE_REQUEST_KEYS :: "string list" where
  "RESOURCE_REQUEST_KEYS = [''family'', ''resource_class'', ''priority'', ''cpu'', ''io'', ''memory_mb'',
     ''disk_reserve_bytes'', ''heavy'', ''compiler_jobs'', ''unbounded'', ''serialize_project'', ''contention_key'']"

definition normalizeResourceRequest :: "jsv \<Rightarrow> jsv" where
  "normalizeResourceRequest r =
     JObj (map (\<lambda>k. (k, if js_get r k \<in> {JUndef, JNull} then JNull else js_get r k)) RESOURCE_REQUEST_KEYS)"

definition is_family :: "string \<Rightarrow> bool" where
  "is_family s = (case s of [] \<Rightarrow> False
     | c # r \<Rightarrow> is_lower_az c \<and> length r \<le> 47 \<and> list_all (\<lambda>d. is_lower_az d \<or> is_digit d \<or> d = CHR ''-'') r)"

definition is_contention_key :: "string \<Rightarrow> bool" where
  "is_contention_key s = (length s = 32 \<and> list_all is_hex_lower s)"

definition finiteRange :: "jsv \<Rightarrow> rat \<Rightarrow> rat \<Rightarrow> string \<Rightarrow> string + unit" where
  "finiteRange v lo hi label = (case v of
     JNum x \<Rightarrow> (case fin_of x of Some q \<Rightarrow> if q < lo \<or> q > hi then Inl label else Inr () | None \<Rightarrow> Inl label)
   | _ \<Rightarrow> Inl label)"

definition valid_jobs :: "jsv \<Rightarrow> bool" where
  "valid_jobs v = (v = JNull \<or> (isInteger v \<and> 1 \<le> finite_number v \<and> finite_number v \<le> 1024))"

definition isBool :: "jsv \<Rightarrow> bool" where
  "isBool v = (case v of JBool _ \<Rightarrow> True | _ \<Rightarrow> False)"

lemma isBool_simps [simp]: "isBool (JBool b)" "\<not> isBool JUndef" "\<not> isBool JNull"
  by (simp_all add: isBool_def)

definition request_contract :: "jsv \<Rightarrow> bool" where
  "request_contract r =
     ((case js_get r ''family'' of JStr s \<Rightarrow> is_family s | _ \<Rightarrow> False)
      \<and> js_get r ''resource_class'' \<in> JStr ` {''adaptive'', ''cpu'', ''io'', ''mixed'', ''unbounded''}
      \<and> js_get r ''priority'' \<in> JStr ` {''interactive'', ''ordinary'', ''background''}
      \<and> js_get r ''heavy'' = JBool True
      \<and> isBool (js_get r ''unbounded'') \<and> isBool (js_get r ''serialize_project''))"

definition validateResourceRequest :: "jsv \<Rightarrow> string + unit" where
  "validateResourceRequest r =
     (if \<not> isRecord r then Inl ''resource request is invalid''
      else if \<not> request_contract r then Inl ''resource request contract is invalid''
      else res_bind (finiteRange (js_get r ''cpu'') 0 1024 ''cpu'') (\<lambda>_.
           res_bind (finiteRange (js_get r ''io'') 0 1024 ''io'') (\<lambda>_.
           res_bind (finiteRange (js_get r ''memory_mb'') 0 (16 * 1024 * 1024) ''memory'') (\<lambda>_.
           res_bind (finiteRange (js_get r ''disk_reserve_bytes'') 0 (1024 ^ 5) ''disk reservation'') (\<lambda>_.
             if \<not> valid_jobs (js_get r ''compiler_jobs'') then Inl ''resource request compiler jobs are invalid''
             else if js_get r ''contention_key'' \<noteq> JNull
                  \<and> (case js_get r ''contention_key'' of JStr s \<Rightarrow> \<not> is_contention_key s | _ \<Rightarrow> True)
               then Inl ''resource request contention key is invalid''
             else Inr ())))))"

section \<open>Elastic compiler requests\<close>

text \<open>
  The two symbol properties a request can carry: its compiler jobs may shrink, with a memory floor or without,
  or must be preserved.  A request within the contract has finite numbers.
\<close>

record elastic_request =
  body :: jsv
  elastic :: "rat option option"
  preserved :: bool

definition markPreservedCompilerJobs :: "elastic_request \<Rightarrow> bool \<Rightarrow> elastic_request" where
  "markPreservedCompilerJobs r enabled = (if enabled then r\<lparr>preserved := True\<rparr> else r)"

definition preservesCompilerJobs :: "elastic_request \<Rightarrow> bool" where
  "preservesCompilerJobs r = preserved r"

definition compiler_jobs :: "elastic_request \<Rightarrow> int" where
  "compiler_jobs r = \<lfloor>finite_number (js_get (body r) ''compiler_jobs'')\<rfloor>"

definition markElasticCompilerJobs :: "elastic_request \<Rightarrow> bool \<Rightarrow> jsv \<Rightarrow> elastic_request" where
  "markElasticCompilerJobs r enabled memoryFloorMb =
     (if enabled \<and> isInteger (js_get (body r) ''compiler_jobs'') \<and> compiler_jobs r > 1
      then r\<lparr>elastic := Some (map_option (max 0) (optionalResourceNumber memoryFloorMb))\<rparr>
      else r)"

definition isElasticCompilerRequest :: "elastic_request \<Rightarrow> bool" where
  "isElasticCompilerRequest r = (elastic r \<noteq> None)"

definition request_number :: "elastic_request \<Rightarrow> string \<Rightarrow> rat" where
  "request_number r k = finite_number (js_get (body r) k)"

definition elasticMemoryMb :: "elastic_request \<Rightarrow> int \<Rightarrow> rat option \<Rightarrow> rat" where
  "elasticMemoryMb r jobs floorMb = (let m = request_number r ''memory_mb'' in case floorMb of
     None \<Rightarrow> m
   | Some f \<Rightarrow> min m (max f (of_int \<lceil>m * of_int jobs / of_int (compiler_jobs r)\<rceil>)))"

text \<open>The loop from \<open>maximumJobs\<close> down to one, to the first count whose memory is available.\<close>

fun fitting_jobs :: "(int \<Rightarrow> bool) \<Rightarrow> nat \<Rightarrow> int" where
  "fitting_jobs fits 0 = 1"
| "fitting_jobs fits (Suc n) = (if fits (int (Suc n)) then int (Suc n) else fitting_jobs fits n)"

definition covered_by :: "rat \<Rightarrow> rat option \<Rightarrow> rat" where
  "covered_by declared incremental = (case incremental of Some i \<Rightarrow> max 0 (declared - i) | None \<Rightarrow> 0)"

definition available_memory :: "elastic_request \<Rightarrow> pressure_snapshot \<Rightarrow> rat" where
  "available_memory r p =
     max 0 (memory_limit (snap_limits p) * memory_overcommit (snap_limits p) + 1 - max 0 (memory_mb (used_vector (snap_used p)))
       + covered_by (request_number r ''memory_mb'') (map_option memory_mb (snap_requested p)))"

definition elasticMemoryJobLimit :: "elastic_request \<Rightarrow> pressure_snapshot \<Rightarrow> int \<Rightarrow> rat option \<Rightarrow> int" where
  "elasticMemoryJobLimit r p maximumJobs floorMb = (case floorMb of
     None \<Rightarrow> maximumJobs
   | Some f \<Rightarrow> fitting_jobs (\<lambda>jobs. elasticMemoryMb r jobs floorMb \<le> available_memory r p) (nat maximumJobs))"

definition host_jobs :: "elastic_request \<Rightarrow> pressure_snapshot \<Rightarrow> int" where
  "host_jobs r p =
     \<lfloor>cpu_limit (snap_limits p) + 1 / 4 - or_zero (snap_busy_cores p) - max 0 (snap_unobserved p)
       + covered_by (request_number r ''cpu'') (map_option cpu (snap_requested p))\<rfloor>"

definition reserved_jobs :: "elastic_request \<Rightarrow> pressure_snapshot \<Rightarrow> int" where
  "reserved_jobs r p =
     \<lfloor>cpu_limit (snap_limits p) * cpu_overcommit (snap_limits p) + 1 / 100 - max 0 (cpu (used_vector (snap_used p)))
       + covered_by (request_number r ''cpu'') (map_option cpu (snap_requested p))\<rfloor>"

definition fitted_jobs :: "elastic_request \<Rightarrow> pressure_snapshot \<Rightarrow> rat option \<Rightarrow> int" where
  "fitted_jobs r p floorMb =
     (let jobs = max 1 (min (compiler_jobs r) (min (host_jobs r p) (reserved_jobs r p)))
      in min jobs (elasticMemoryJobLimit r p jobs floorMb))"

definition fitElasticRequestToPressure :: "elastic_request \<Rightarrow> pressure_snapshot option \<Rightarrow> elastic_request" where
  "fitElasticRequestToPressure r pressure = (case (elastic r, pressure) of
     (Some floorMb, Some p) \<Rightarrow>
       (if snap_state p = ''red'' then r
        else (let jobs = fitted_jobs r p floorMb in
          if jobs \<ge> compiler_jobs r then r
          else r\<lparr>body := spread (body r)
            [(''cpu'', JNum (Fin (min (number_at_least 0 (js_get (body r) ''cpu'') 0) (of_int jobs)))),
             (''memory_mb'', case floorMb of None \<Rightarrow> js_get (body r) ''memory_mb''
                              | Some f \<Rightarrow> JNum (Fin (elasticMemoryMb r jobs floorMb))),
             (''compiler_jobs'', JNum (Fin (of_int jobs)))]\<rparr>))
   | _ \<Rightarrow> r)"

section \<open>Waiting\<close>

definition configuredResourceWaitMs :: "jsv \<Rightarrow> string + int" where
  "configuredResourceWaitMs v = (case fin_of (js_Number v) of
     Some q \<Rightarrow> if q < 0 then Inl ''resource wait must be a non-negative finite duration'' else Inr (min (30 * 60000) \<lfloor>q\<rfloor>)
   | None \<Rightarrow> Inl ''resource wait must be a non-negative finite duration'')"

definition execution_timeout :: "jsv \<Rightarrow> string + int" where
  "execution_timeout v = (case fin_of (js_Number v) of
     Some q \<Rightarrow> if q \<le> 0 then Inl ''foreground execution timeout must be positive'' else Inr (max 1 \<lfloor>q\<rfloor>)
   | None \<Rightarrow> Inl ''foreground execution timeout must be positive'')"

definition foregroundResourceWaitMs :: "jsv \<Rightarrow> jsv \<Rightarrow> string + int" where
  "foregroundResourceWaitMs executionTimeoutMs configured =
     (if configured \<noteq> JUndef then configuredResourceWaitMs configured
      else res_bind (execution_timeout executionTimeoutMs) (\<lambda>timeout.
        Inr (min timeout (min 10000 (max 2000 \<lfloor>of_int timeout * (1 / 5 :: rat)\<rfloor>)))))"

definition processSessionResourceWaitMs :: "jsv \<Rightarrow> jsv \<Rightarrow> string + int" where
  "processSessionResourceWaitMs configured remote =
     (if configured \<noteq> JUndef then configuredResourceWaitMs configured
      else Inr (if remote = JBool True then 0 else 10000))"

text \<open>The delay before the next attempt; \<open>unit\<close> is the random number, \<open>None\<close> when it is not a number.\<close>

definition delay_base :: "string \<Rightarrow> int" where
  "delay_base priority = (if priority = ''interactive'' then 100 else if priority = ''background'' then 500 else 200)"

definition delay_cap :: "string \<Rightarrow> int" where
  "delay_cap priority = (if priority = ''interactive'' then 600 else if priority = ''background'' then 3000 else 1500)"

definition delay_minimum :: "string \<Rightarrow> string \<Rightarrow> rat \<Rightarrow> int" where
  "delay_minimum priority why attempt =
     (let cap = delay_cap priority; step = nat (max 0 (min 4 \<lfloor>attempt\<rfloor>));
          m = min cap (delay_base priority * 2 ^ step)
      in if why = ''host_pressure_red'' then max m (min cap (if priority = ''interactive'' then 300 else 600))
         else if why = ''cpu_pressure_window'' then max m (min cap (if priority = ''interactive'' then 150 else 300))
         else m)"

definition resourceRetryDelayMs :: "rat \<Rightarrow> string \<Rightarrow> string \<Rightarrow> jsv \<Rightarrow> rat option \<Rightarrow> int" where
  "resourceRetryDelayMs attempt priority why remainingMs random =
     (let m = delay_minimum priority why attempt;
          top = min (delay_cap priority) (max m \<lfloor>of_int m * (3 / 2 :: rat)\<rfloor>);
          u = max 0 (min 1 (or_zero random));
          delay = m + \<lfloor>of_int (top - m) * u\<rfloor>;
          remaining = max 1 (case fin_of (num_or (js_Number remainingMs) 1) of Some q \<Rightarrow> \<lfloor>q\<rfloor> | None \<Rightarrow> 1)
      in max 1 (min delay remaining))"

end
