(* ===== verification/ResourceRequestsSpec.thy ===== *)
theory ResourceRequestsSpec
  imports ResourceAdmissionSpec ResourceRequests
begin

text \<open>
  Bounds of elastic requests, of the delay between admission attempts and of the foreground wait.
\<close>

section \<open>Elastic requests\<close>

lemma fitting_jobs_bounds: "1 \<le> fitting_jobs f n \<and> fitting_jobs f n \<le> max 1 (int n)"
  by (induction n) auto

lemma fitting_jobs_fits: "fitting_jobs f n = 1 \<or> f (fitting_jobs f n)"
  by (induction n) auto

lemma elasticMemoryJobLimit_bounds:
  "1 \<le> m \<Longrightarrow> 1 \<le> elasticMemoryJobLimit r p m fl \<and> elasticMemoryJobLimit r p m fl \<le> m"
  using fitting_jobs_bounds [of _ "nat m"] by (auto simp: elasticMemoryJobLimit_def split: option.split)

lemma elasticMemoryJobLimit_fits:
  "elasticMemoryJobLimit r p m (Some f) = 1 \<or> elasticMemoryMb r (elasticMemoryJobLimit r p m (Some f)) (Some f) \<le> available_memory r p"
  unfolding elasticMemoryJobLimit_def option.case by (rule fitting_jobs_fits)

lemma fitted_jobs_facts:
  fixes r p fl
  defines "j \<equiv> fitted_jobs r p fl"
  shows "1 \<le> j" "1 \<le> compiler_jobs r \<Longrightarrow> j \<le> compiler_jobs r" "j = 1 \<or> j \<le> host_jobs r p \<and> j \<le> reserved_jobs r p"
    "j = 1 \<or> fl = None \<or> elasticMemoryMb r j fl \<le> available_memory r p"
proof -
  let ?m = "max 1 (min (compiler_jobs r) (min (host_jobs r p) (reserved_jobs r p)))"
  have m: "1 \<le> ?m" by simp
  have j: "j = elasticMemoryJobLimit r p ?m fl" "1 \<le> j" "j \<le> ?m"
    using elasticMemoryJobLimit_bounds [OF m, of r p fl] by (simp_all add: j_def fitted_jobs_def Let_def)
  then show "1 \<le> j" "1 \<le> compiler_jobs r \<Longrightarrow> j \<le> compiler_jobs r" "j = 1 \<or> j \<le> host_jobs r p \<and> j \<le> reserved_jobs r p"
    by linarith+
  show "j = 1 \<or> fl = None \<or> elasticMemoryMb r j fl \<le> available_memory r p"
    using elasticMemoryJobLimit_fits [of r p ?m] unfolding j(1) by (cases fl) auto
qed

text \<open>
  Fitting an elastic request to the pressure only shrinks it, and shrinks it enough: the jobs stay between
  one and the jobs asked for, CPU and memory never grow, and unless a single job is left the fitted jobs fit the
  idle cores, the CPU left to reserve and, where the request has a memory floor, the memory left to reserve.
\<close>

lemma elastic_fit_bounds:
  assumes "elastic r = Some fl" "1 \<le> compiler_jobs r" "fitElasticRequestToPressure r (Some p) \<noteq> r"
  defines "r' \<equiv> fitElasticRequestToPressure r (Some p)"
  shows "1 \<le> compiler_jobs r' \<and> compiler_jobs r' < compiler_jobs r
     \<and> request_number r' ''cpu'' \<le> max 0 (request_number r ''cpu'') \<and> request_number r' ''cpu'' \<le> of_int (compiler_jobs r')
     \<and> request_number r' ''memory_mb'' \<le> request_number r ''memory_mb''
     \<and> (compiler_jobs r' = 1 \<or> compiler_jobs r' \<le> host_jobs r p \<and> compiler_jobs r' \<le> reserved_jobs r p
          \<and> (fl \<noteq> None \<longrightarrow> request_number r' ''memory_mb'' \<le> available_memory r p))"
proof -
  let ?j = "fitted_jobs r p fl"
  have lt: "?j < compiler_jobs r" and r': "body r' = spread (body r)
      [(''cpu'', JNum (Fin (min (number_at_least 0 (js_get (body r) ''cpu'') 0) (of_int ?j)))),
       (''memory_mb'', case fl of None \<Rightarrow> js_get (body r) ''memory_mb'' | Some f \<Rightarrow> JNum (Fin (elasticMemoryMb r ?j fl))),
       (''compiler_jobs'', JNum (Fin (of_int ?j)))]"
    using assms(1,3) by (auto simp: r'_def fitElasticRequestToPressure_def Let_def split: if_splits)
  have jobs: "compiler_jobs r' = ?j"
    by (simp add: compiler_jobs_def r' js_get_spread finite_number_def)
  have n: "number_at_least 0 (js_get (body r) ''cpu'') 0 \<le> max 0 (request_number r ''cpu'')"
    by (simp add: request_number_def number_at_least_def finite_number_def num_or_def split: option.split)
  have cpu: "request_number r' ''cpu'' = min (number_at_least 0 (js_get (body r) ''cpu'') 0) (of_int ?j)"
    by (simp add: request_number_def r' js_get_spread finite_number_def)
  have mem: "request_number r' ''memory_mb'' = elasticMemoryMb r ?j fl"
    by (simp add: request_number_def r' js_get_spread finite_number_def elasticMemoryMb_def split: option.split)
  have m: "elasticMemoryMb r ?j fl \<le> request_number r ''memory_mb''"
    by (simp add: elasticMemoryMb_def Let_def split: option.split)
  show ?thesis
    using fitted_jobs_facts [of r p fl] lt m n unfolding jobs cpu mem
    by auto
qed

definition elastic_sample :: elastic_request where
  "elastic_sample = \<lparr>body = JObj [(''cpu'', JNum (Fin 6)), (''memory_mb'', JNum (Fin 6000)), (''compiler_jobs'', JNum (Fin 6))],
     elastic = Some (Some 1000), preserved = False\<rparr>"

definition busy_snapshot :: pressure_snapshot where
  "busy_snapshot = \<lparr>snap_state = ''yellow'', snap_reasons = [''cpu_busy''], snap_used = emptyAggregate, snap_busy_cores = Some 5,
     snap_unobserved = 0, snap_ratio = None,
     snap_limits = resourceLimits 8 16384 (JStr ''ordinary'') ''green'' [], snap_requested = None\<rparr>"

lemma elastic_fit_bounds_sample:
  "compiler_jobs (fitElasticRequestToPressure elastic_sample (Some busy_snapshot)) < compiler_jobs elastic_sample"
proof -
  have "compiler_jobs (fitElasticRequestToPressure elastic_sample (Some busy_snapshot)) = 1" by code_simp
  moreover have j: "compiler_jobs elastic_sample = 6" by code_simp
  ultimately have "fitElasticRequestToPressure elastic_sample (Some busy_snapshot) \<noteq> elastic_sample" by auto
  with elastic_fit_bounds [of elastic_sample "Some 1000" busy_snapshot] j show ?thesis by (simp add: elastic_sample_def)
qed

section \<open>The delay between attempts\<close>

text \<open>
  The delay before the next attempt is bounded: at least a millisecond, never more than the time that
  remains nor than the cap of the priority, never less than the minimum of the attempt where the remaining
  time allows it; and that minimum grows with the attempts.
\<close>

lemma retry_delay_bounds:
  fixes attempt attempt' remaining :: rat and priority why random
  assumes "1 \<le> remaining" "attempt \<le> attempt'"
  defines "d \<equiv> resourceRetryDelayMs attempt priority why (JNum (Fin remaining)) random"
  shows "1 \<le> d \<and> of_int d \<le> remaining \<and> d \<le> delay_cap priority \<and> min (delay_minimum priority why attempt) \<lfloor>remaining\<rfloor> \<le> d
     \<and> delay_minimum priority why attempt \<le> delay_minimum priority why attempt'"
proof -
  let ?m = "delay_minimum priority why attempt" and ?c = "delay_cap priority"
  define top where "top = min ?c (max ?m \<lfloor>of_int ?m * (3 / 2 :: rat)\<rfloor>)"
  define u where "u = max 0 (min 1 (or_zero random))"
  define m0 where "m0 = delay_base priority * 2 ^ nat (max 0 (min 4 \<lfloor>attempt\<rfloor>))"
  have "1 * 1 \<le> m0" unfolding m0_def
    by (rule mult_mono) (simp_all add: delay_base_def one_le_power del: max_0_1 split del: split_min split_max)
  then have "1 \<le> m0" by simp
  moreover have "600 \<le> ?c" by (simp add: delay_cap_def)
  ultimately have c: "1 \<le> ?m" "?m \<le> ?c" unfolding delay_minimum_def Let_def m0_def [symmetric] by auto
  have t: "?m \<le> top" "top \<le> ?c" using c(2) by (auto simp: top_def)
  have u: "0 \<le> u" "u \<le> 1" by (simp_all add: u_def)
  have "of_int (top - ?m) * u \<le> of_int (top - ?m) * 1" using t(1) u by (intro mult_left_mono) auto
  then have hi: "\<lfloor>of_int (top - ?m) * u\<rfloor> \<le> top - ?m" by (simp add: floor_le_iff)
  have lo: "0 \<le> \<lfloor>of_int (top - ?m) * u\<rfloor>" using t(1) u(1) by simp
  have r: "1 \<le> \<lfloor>remaining\<rfloor>" "of_int \<lfloor>remaining\<rfloor> \<le> remaining" using assms(1) by (simp_all add: le_floor_iff)
  have d: "d = max 1 (min (?m + \<lfloor>of_int (top - ?m) * u\<rfloor>) \<lfloor>remaining\<rfloor>)"
    using r(1) assms(1) by (simp add: d_def resourceRetryDelayMs_def Let_def top_def u_def num_or_def)
  have b: "1 \<le> d" "d \<le> \<lfloor>remaining\<rfloor>" "d \<le> ?c" "min ?m \<lfloor>remaining\<rfloor> \<le> d" 
    using c t hi lo r(1) unfolding d by linarith+
  from b(2) have "of_int d \<le> (of_int \<lfloor>remaining\<rfloor> :: rat)" by simp
  with r(2) have "of_int d \<le> remaining" by linarith
  moreover have "?m \<le> delay_minimum priority why attempt'"
  proof -
    have "nat (max 0 (min 4 \<lfloor>attempt\<rfloor>)) \<le> nat (max 0 (min 4 \<lfloor>attempt'\<rfloor>))"
      using floor_mono [OF assms(2)] by (intro nat_mono) linarith
    then have "(2 :: int) ^ nat (max 0 (min 4 \<lfloor>attempt\<rfloor>)) \<le> 2 ^ nat (max 0 (min 4 \<lfloor>attempt'\<rfloor>))"
      by (intro power_increasing) simp_all
    then have "delay_base priority * 2 ^ nat (max 0 (min 4 \<lfloor>attempt\<rfloor>)) \<le> delay_base priority * 2 ^ nat (max 0 (min 4 \<lfloor>attempt'\<rfloor>))"
      by (intro mult_left_mono) (simp_all add: delay_base_def)
    then have g: "min ?c (delay_base priority * 2 ^ nat (max 0 (min 4 \<lfloor>attempt\<rfloor>)))
        \<le> min ?c (delay_base priority * 2 ^ nat (max 0 (min 4 \<lfloor>attempt'\<rfloor>)))" by (intro min.mono) simp_all
    define x y where "x = min ?c (delay_base priority * 2 ^ nat (max 0 (min 4 \<lfloor>attempt\<rfloor>)))"
      and "y = min ?c (delay_base priority * 2 ^ nat (max 0 (min 4 \<lfloor>attempt'\<rfloor>)))"
    have "x \<le> y" using g unfolding x_def y_def .
    then have "max x k \<le> max y k" for k by (rule max.mono) simp
    with \<open>x \<le> y\<close> show ?thesis unfolding delay_minimum_def Let_def x_def [symmetric] y_def [symmetric] by simp
  qed
  ultimately show ?thesis using b by simp
qed

lemma retry_delay_bounds_sample: "resourceRetryDelayMs 3 ''interactive'' ''host_pressure_red'' (JNum (Fin 250)) (Some 0) \<le> 600"
  using retry_delay_bounds [of 250 3 3 "''interactive''" "''host_pressure_red''" "Some 0"] by (simp add: delay_cap_def)

text \<open>A foreground command waits for at most ten seconds, and never longer than its own timeout.\<close>

lemma foreground_wait_bounds:
  assumes "foregroundResourceWaitMs (JNum (Fin t)) JUndef = Inr w"
  shows "0 < w \<and> w \<le> 10000 \<and> (1 \<le> t \<longrightarrow> of_int w \<le> t)"
proof -
  have w: "w = min (max 1 \<lfloor>t\<rfloor>) (min 10000 (max 2000 \<lfloor>of_int (max 1 \<lfloor>t\<rfloor>) * (1 / 5 :: rat)\<rfloor>))"
    using assms by (auto simp: foregroundResourceWaitMs_def execution_timeout_def split: if_splits)
  have "of_int w \<le> t" if "1 \<le> t"
  proof -
    have "1 \<le> \<lfloor>t\<rfloor>" using that by (simp add: le_floor_iff)
    then have "w \<le> \<lfloor>t\<rfloor>" unfolding w by linarith
    then show ?thesis by (simp add: le_floor_iff)
  qed
  then show ?thesis unfolding w by auto
qed

end
