(* ===== verification/ResourceWaiters.thy ===== *)
theory ResourceWaiters
  imports ResourceRequests
begin

text \<open>
  The queue of waiting requests (\<open>src/local/resource-waiters.mjs\<close>): which waiter is served next, when the queue
  drains running leases for a waiter that has waited long enough, and the counts shown to the user.  A waiter is
  its JSON file; the evaluator of an admission is a parameter, which the coordinator instantiates.
\<close>

definition AGING_MS :: int where
  "AGING_MS = 120000"

definition LEASE_DRAIN_REASONS :: "string list" where
  "LEASE_DRAIN_REASONS = [''project_resource_busy'', ''cpu_reservation'', ''io_reservation'', ''memory_reservation'', ''disk_reserve_floor'']"

type_synonym evaluator = "jsv \<Rightarrow> jsv list \<Rightarrow> jsv \<Rightarrow> jsv \<Rightarrow> admission_decision"

definition waiter_request :: "jsv \<Rightarrow> jsv" where
  "waiter_request w = js_get w ''request''"

definition enqueued_at :: "jsv \<Rightarrow> int option" where
  "enqueued_at w = parse_time (js_get w ''enqueued_at'')"

definition waiterBaseRank :: "jsv \<Rightarrow> int" where
  "waiterBaseRank w = (let p = js_get (waiter_request w) ''priority'' in
     if p = JStr ''interactive'' then 0 else if p = JStr ''ordinary'' then 1 else 2)"

definition resourceWaiterRank :: "int \<Rightarrow> jsv \<Rightarrow> int" where
  "resourceWaiterRank now w =
     (let ageBoost = (case enqueued_at w of Some t \<Rightarrow> max 0 (now - t) div AGING_MS | None \<Rightarrow> 0)
      in max 0 (waiterBaseRank w - ageBoost))"

definition resourceWaiterProtected :: "int \<Rightarrow> jsv \<Rightarrow> bool" where
  "resourceWaiterProtected now w = (case enqueued_at w of
     None \<Rightarrow> False
   | Some t \<Rightarrow> resourceWaiterRank now w = 0 \<and> max 0 (now - t) \<ge> max AGING_MS (waiterBaseRank w * AGING_MS))"

text \<open>Identifiers are lower-case hexadecimal, on which \<open>localeCompare\<close> is the order of the characters.\<close>

fun string_compare :: "string \<Rightarrow> string \<Rightarrow> int" where
  "string_compare [] [] = 0"
| "string_compare [] (d # t) = -1"
| "string_compare (c # s) [] = 1"
| "string_compare (c # s) (d # t) =
     (if c = d then string_compare s t else if (of_char c :: nat) < of_char d then -1 else 1)"

definition waiter_id :: "jsv \<Rightarrow> string" where
  "waiter_id w = (case js_get w ''waiter_id'' of JStr s \<Rightarrow> s | _ \<Rightarrow> [])"

definition compareWaiters :: "int \<Rightarrow> jsv \<Rightarrow> jsv \<Rightarrow> int" where
  "compareWaiters now left right =
     (let rank = resourceWaiterRank now left - resourceWaiterRank now right in
      if rank \<noteq> 0 then rank
      else (case (enqueued_at left, enqueued_at right) of
          (Some t, Some u) \<Rightarrow> if t - u \<noteq> 0 then t - u else string_compare (waiter_id left) (waiter_id right)
        | _ \<Rightarrow> string_compare (waiter_id left) (waiter_id right)))"

text \<open>The stable sort of the queue.\<close>

fun insert_waiter :: "int \<Rightarrow> jsv \<Rightarrow> jsv list \<Rightarrow> jsv list" where
  "insert_waiter now w [] = [w]"
| "insert_waiter now w (v # vs) = (if compareWaiters now w v \<le> 0 then w # v # vs else v # insert_waiter now w vs)"

definition ranked_waiters :: "int \<Rightarrow> jsv list \<Rightarrow> jsv list" where
  "ranked_waiters now ws = foldr (insert_waiter now) ws []"

definition drain_candidate :: "evaluator \<Rightarrow> jsv \<Rightarrow> jsv list \<Rightarrow> int \<Rightarrow> jsv \<Rightarrow> bool" where
  "drain_candidate evaluate host leases now w =
     (let current = evaluate host leases (waiter_request w) w; alone = evaluate host [] (waiter_request w) w
      in resourceWaiterProtected now w \<and> decision_reason current \<in> set LEASE_DRAIN_REASONS
         \<and> (admitted alone \<or> decision_reason alone = ''cpu_pressure_window''))"

definition resourceWaiterSelectionState :: "evaluator \<Rightarrow> jsv list \<Rightarrow> jsv list \<Rightarrow> jsv \<Rightarrow> int \<Rightarrow> jsv option \<times> bool" where
  "resourceWaiterSelectionState evaluate waiters leases host now =
     (let ranked = ranked_waiters now waiters;
          selected = List.find (\<lambda>w. admitted (evaluate host leases (waiter_request w) w)) ranked;
          protectedWaiter = (if leases \<noteq> [] then List.find (drain_candidate evaluate host leases now) ranked else None);
          drainActive = (case protectedWaiter of None \<Rightarrow> False
            | Some p \<Rightarrow> (case selected of None \<Rightarrow> True | Some s \<Rightarrow> compareWaiters now p s \<le> 0))
      in (if drainActive then None else selected, drainActive))"

definition selectedResourceWaiter :: "evaluator \<Rightarrow> jsv list \<Rightarrow> jsv list \<Rightarrow> jsv \<Rightarrow> int \<Rightarrow> jsv option" where
  "selectedResourceWaiter evaluate waiters leases host now = fst (resourceWaiterSelectionState evaluate waiters leases host now)"

definition resourceWaiterDrainActive :: "evaluator \<Rightarrow> jsv list \<Rightarrow> jsv list \<Rightarrow> jsv \<Rightarrow> int \<Rightarrow> bool" where
  "resourceWaiterDrainActive evaluate waiters leases host now = snd (resourceWaiterSelectionState evaluate waiters leases host now)"

record queue_snapshot =
  active_waiters :: nat
  by_priority :: "(string \<times> nat) list"
  protected_waiters :: nat
  oldest_ms :: int

definition queue_priority :: "jsv \<Rightarrow> string" where
  "queue_priority w = (case js_get (waiter_request w) ''priority'' of
     JStr p \<Rightarrow> if p \<in> {''interactive'', ''ordinary'', ''background''} then p else ''ordinary'' | _ \<Rightarrow> ''ordinary'')"

definition oldest_enqueued :: "jsv list \<Rightarrow> int option" where
  "oldest_enqueued ws = foldl (\<lambda>m w. case enqueued_at w of
      None \<Rightarrow> m
    | Some t \<Rightarrow> (case m of None \<Rightarrow> Some t | Some u \<Rightarrow> if t < u then Some t else m)) None ws"

definition resourceWaiterQueueSnapshot :: "jsv list \<Rightarrow> int \<Rightarrow> queue_snapshot" where
  "resourceWaiterQueueSnapshot ws now =
     \<lparr>active_waiters = length ws,
      by_priority = map (\<lambda>p. (p, length (filter (\<lambda>w. queue_priority w = p) ws))) [''interactive'', ''ordinary'', ''background''],
      protected_waiters = length (filter (resourceWaiterProtected now) ws),
      oldest_ms = (case oldest_enqueued ws of None \<Rightarrow> 0 | Some t \<Rightarrow> max 0 (now - t))\<rparr>"

text \<open>The checks a stored waiter must pass before it counts.\<close>

definition hex_string :: "nat \<Rightarrow> jsv \<Rightarrow> bool" where
  "hex_string n v = (case v of JStr s \<Rightarrow> length s = n \<and> list_all is_hex_lower s | _ \<Rightarrow> False)"

definition positive_safe_integer :: "jsv \<Rightarrow> bool" where
  "positive_safe_integer v = (isSafeInteger v \<and> finite_number v > 0)"

definition validateWaiter :: "jsv \<Rightarrow> string + unit" where
  "validateWaiter w =
     (if js_get w ''schema_version'' \<noteq> JNum (Fin 1) \<or> \<not> hex_string 32 (js_get w ''waiter_id'') \<or> \<not> hex_string 64 (js_get w ''token'')
      then Inl ''resource coordinator waiter is invalid''
      else if enqueued_at w = None \<or> parse_time (js_get w ''expires_at'') = None
        \<or> \<not> positive_safe_integer (js_get (js_get w ''owner'') ''pid'') \<or> parse_time (js_get (js_get w ''owner'') ''process_started_at'') = None
      then Inl ''resource coordinator waiter ownership is invalid''
      else validateResourceRequest (waiter_request w))"

end
