(* ===== verification/ResourceWaitersSpec.thy ===== *)
theory ResourceWaitersSpec
  imports ResourceWaiters
begin

text \<open>
  The waiting queue is fair: selection follows the ranking, drains protect waiters that have waited long, and
  waiting raises the rank of every request.
\<close>

section \<open>The order of the queue\<close>

definition waiter_le :: "int \<Rightarrow> jsv \<Rightarrow> jsv \<Rightarrow> bool" where
  "waiter_le now v w = (compareWaiters now v w \<le> 0)"

lemma string_compare_refl [simp]: "string_compare s s = 0"
  by (induction s) auto

lemma string_compare_anti: "string_compare t s = - string_compare s t"
  by (induction s t rule: string_compare.induct) (auto simp: not_less nat_less_le of_char_eq_iff)

lemma string_compare_trans: "string_compare s t \<le> 0 \<Longrightarrow> string_compare t u \<le> 0 \<Longrightarrow> string_compare s u \<le> 0"
proof (induction s t arbitrary: u rule: string_compare.induct)
  case (2 d t)
  then show ?case by (cases u) auto
next
  case (4 c s d t)
  then show ?case by (cases u) (auto split: if_splits)
qed (auto split: if_splits)

text \<open>Validated waiters have a parseable time of arrival, which makes the comparison a total preorder.\<close>

definition timed :: "jsv \<Rightarrow> bool" where
  "timed w = (enqueued_at w \<noteq> None)"

lemma compare_timed:
  assumes "timed v" "timed w"
  shows "compareWaiters now v w \<le> 0 \<longleftrightarrow> resourceWaiterRank now v < resourceWaiterRank now w
    \<or> resourceWaiterRank now v = resourceWaiterRank now w \<and>
      (the (enqueued_at v) < the (enqueued_at w)
       \<or> the (enqueued_at v) = the (enqueued_at w) \<and> string_compare (waiter_id v) (waiter_id w) \<le> 0)"
  using assms by (auto simp: timed_def compareWaiters_def Let_def split: option.splits)

lemma waiter_le_total: "timed v \<Longrightarrow> timed w \<Longrightarrow> waiter_le now v w \<or> waiter_le now w v"
  using string_compare_anti [of "waiter_id v" "waiter_id w"] by (auto simp: waiter_le_def compare_timed)

lemma waiter_le_trans: "timed u \<Longrightarrow> timed v \<Longrightarrow> timed w \<Longrightarrow> waiter_le now u v \<Longrightarrow> waiter_le now v w \<Longrightarrow> waiter_le now u w"
  unfolding waiter_le_def compare_timed using string_compare_trans by fastforce

lemma set_insert_waiter: "set (insert_waiter now w ws) = insert w (set ws)"
  by (induction ws) auto

lemma set_ranked: "set (ranked_waiters now ws) = set ws"
  by (induction ws) (simp_all add: ranked_waiters_def set_insert_waiter)

lemma sorted_insert_waiter:
  assumes "timed w" "list_all timed ws" "sorted_wrt (waiter_le now) ws"
  shows "sorted_wrt (waiter_le now) (insert_waiter now w ws)"
  using assms(2,3)
proof (induction ws)
  case (Cons v vs)
  show ?case
  proof (cases "waiter_le now w v")
    case True
    then have "waiter_le now w x" if "x \<in> set vs" for x
      using that Cons.prems assms(1) by (auto simp: list_all_iff intro: waiter_le_trans [of w v x])
    with True Cons show ?thesis by (simp add: waiter_le_def)
  next
    case False
    then have "waiter_le now v w" using waiter_le_total assms(1) Cons.prems(1) by auto
    with False Cons show ?thesis by (simp add: waiter_le_def set_insert_waiter)
  qed
qed simp

lemma sorted_ranked: "list_all timed ws \<Longrightarrow> sorted_wrt (waiter_le now) (ranked_waiters now ws)"
proof (induction ws)
  case (Cons w ws)
  have "list_all timed (ranked_waiters now ws)" using Cons.prems set_ranked [of now ws] by (simp add: list_all_iff)
  with Cons show ?case by (simp add: ranked_waiters_def sorted_insert_waiter)
qed (simp add: ranked_waiters_def)

lemma find_first:
  assumes "List.find P xs = Some x"
  shows "x \<in> set xs" "P x" "sorted_wrt R xs \<Longrightarrow> y \<in> set xs \<Longrightarrow> P y \<Longrightarrow> y = x \<or> R x y"
  using assms by (induction xs) (auto split: if_splits)

text \<open>
  C18. Selection is fair: the selected waiter is one of the queue, its request is admitted now, no admitted
  waiter is ranked before it, and while there are leases it comes before every protected waiter that only
  running leases hold back; when the queue drains for such a waiter, nobody is selected.
\<close>

theorem selection_fair:
  assumes "list_all timed waiters" "selectedResourceWaiter evaluate waiters leases host now = Some s"
  shows "s \<in> set waiters \<and> admitted (evaluate host leases (waiter_request s) s)
    \<and> (\<forall>w \<in> set waiters. admitted (evaluate host leases (waiter_request w) w) \<longrightarrow> w = s \<or> waiter_le now s w)
    \<and> (leases \<noteq> [] \<longrightarrow> (\<forall>w \<in> set waiters. drain_candidate evaluate host leases now w \<longrightarrow> waiter_le now s w \<and> \<not> waiter_le now w s))
    \<and> \<not> resourceWaiterDrainActive evaluate waiters leases host now"
proof -
  let ?R = "ranked_waiters now waiters" and ?A = "\<lambda>w. admitted (evaluate host leases (waiter_request w) w)"
  let ?D = "drain_candidate evaluate host leases now"
  have srt: "sorted_wrt (waiter_le now) ?R" using assms(1) by (rule sorted_ranked)
  have t: "timed w" if "w \<in> set waiters" for w using that assms(1) by (simp add: list_all_iff)
  have f: "List.find ?A ?R = Some s" and inactive: "\<not> resourceWaiterDrainActive evaluate waiters leases host now"
    using assms(2) by (auto simp: selectedResourceWaiter_def resourceWaiterDrainActive_def resourceWaiterSelectionState_def Let_def split: if_splits)
  note sel = find_first [OF f, unfolded set_ranked]
  have "waiter_le now s w \<and> \<not> waiter_le now w s" if l: "leases \<noteq> []" and w: "w \<in> set waiters" "?D w" for w
  proof -
    obtain p where p: "List.find ?D ?R = Some p"
      using w set_ranked [of now waiters] by (cases "List.find ?D ?R") (auto simp: find_None_iff)
    note pf = find_first [OF p, unfolded set_ranked]
    have "\<not> waiter_le now p s"
      using inactive l f p by (simp add: resourceWaiterDrainActive_def resourceWaiterSelectionState_def Let_def waiter_le_def)
    moreover have "w = p \<or> waiter_le now p w" using pf(3) [OF srt w] .
    moreover have "timed p" "timed s" "timed w" using t pf(1) sel(1) w by auto
    ultimately show ?thesis using waiter_le_total waiter_le_trans by blast
  qed
  with sel(1,2) sel(3) [OF srt] inactive show ?thesis by blast
qed

text \<open>
  Nobody waits for ever behind higher priorities: a waiter's rank never rises while it waits, and after at
  most four minutes it has the rank of an interactive request and is protected.
\<close>

lemma waiting_is_rewarded:
  assumes "enqueued_at w = Some t"
  shows "(now \<le> later \<longrightarrow> resourceWaiterRank later w \<le> resourceWaiterRank now w)
     \<and> (t + 2 * AGING_MS \<le> later \<longrightarrow> resourceWaiterRank later w = 0 \<and> resourceWaiterProtected later w)"
proof (intro conjI impI)
  assume "now \<le> later"
  then have "max 0 (now - t) div AGING_MS \<le> max 0 (later - t) div AGING_MS"
    by (intro zdiv_mono1) (simp_all add: AGING_MS_def)
  then show "resourceWaiterRank later w \<le> resourceWaiterRank now w" by (simp add: resourceWaiterRank_def assms)
next
  assume l: "t + 2 * AGING_MS \<le> later"
  have b: "0 \<le> waiterBaseRank w" "waiterBaseRank w \<le> 2" by (simp_all add: waiterBaseRank_def Let_def)
  have "2 * AGING_MS div AGING_MS \<le> max 0 (later - t) div AGING_MS"
    using l by (intro zdiv_mono1) (simp_all add: AGING_MS_def)
  then have "2 \<le> max 0 (later - t) div AGING_MS" by (simp add: AGING_MS_def)
  with b show r: "resourceWaiterRank later w = 0" by (simp add: resourceWaiterRank_def assms)
  have "max AGING_MS (waiterBaseRank w * AGING_MS) \<le> max 0 (later - t)"
    using b l by (auto simp: AGING_MS_def)
  with r show "resourceWaiterProtected later w" using assms by (simp add: resourceWaiterProtected_def)
qed

definition sample_waiter :: "string \<Rightarrow> string \<Rightarrow> string \<Rightarrow> jsv" where
  "sample_waiter i priority time = JObj [(''waiter_id'', JStr i), (''enqueued_at'', JStr time),
     (''request'', JObj [(''priority'', JStr priority)])]"

definition background_waiter :: jsv where
  "background_waiter = sample_waiter ''a1'' ''background'' ''2024-01-01T00:00:00.000Z''"

definition interactive_waiter :: jsv where
  "interactive_waiter = sample_waiter ''b2'' ''interactive'' ''2024-01-01T00:05:00.000Z''"

lemma waiting_is_rewarded_sample: "resourceWaiterProtected 1704067440000 background_waiter"
proof -
  have "enqueued_at background_waiter = Some 1704067200000" by code_simp
  from waiting_is_rewarded [OF this, of 0 1704067440000] show ?thesis by (simp add: AGING_MS_def)
qed

definition idle_evaluator :: evaluator where
  "idle_evaluator host leases request waiter = \<lparr>admitted = True, decision_state = ''green'', decision_reason = ''admitted_green'', evaluated = None\<rparr>"

lemma selection_fair_witness:
  "selectedResourceWaiter idle_evaluator [background_waiter, interactive_waiter] [] JNull 1704067510000 = Some background_waiter
   \<and> waiter_le 1704067510000 background_waiter interactive_waiter"
proof -
  have t: "list_all timed [background_waiter, interactive_waiter]" by code_simp
  have s: "selectedResourceWaiter idle_evaluator [background_waiter, interactive_waiter] [] JNull 1704067510000 = Some background_waiter"
    by code_simp
  have "interactive_waiter \<noteq> background_waiter" by code_simp
  moreover have "admitted (idle_evaluator JNull [] (waiter_request interactive_waiter) interactive_waiter)" by (simp add: idle_evaluator_def)
  ultimately show ?thesis using selection_fair [OF t s] s by auto
qed

end
