(* ===== verification/RelayRecovery.thy ===== *)
theory RelayRecovery
  imports CallRegistry
begin

text \<open>
  The recovery of relay calls over a reconnect: the bounded retention of completed results
  (\<open>src/local/relay-result-retention.mjs\<close>), the tombstones of calls whose result was lost and the capacity rule
  (\<open>relay-recovery.mjs\<close>), the recovery object that delivers, acknowledges, reconciles and expires them
  (\<open>relay-call-recovery.mjs\<close>), and the part of the runtime that owns the calls in flight and drives it
  (\<open>runtime.mjs\<close>: \<open>handleRelayToolCall\<close>, \<open>cancelRelayCall\<close>, \<open>reconcileRelayCalls\<close>).

  Maps and sets are lists in insertion order.  The outcome of a send, the clock readings and whether the transport
  is recoverable are arguments of the operation that reads them; the pending grace timer is a flag, and its callback
  is an event of its own.
\<close>

section \<open>Capacity of the recovery\<close>

text \<open>The members of \<open>new Set(xs)\<close>, in insertion order.\<close>

definition js_set :: "'a list \<Rightarrow> 'a list" where
  "js_set xs = rev (remdups (rev xs))"

lemma set_js_set [simp]: "set (js_set xs) = set xs"
  by (simp add: js_set_def)

definition MAX_CONCURRENT_TOOL_CALLS :: nat where
  "MAX_CONCURRENT_TOOL_CALLS = 16"

definition MAX_UNSAFE_CALL_TOMBSTONES :: nat where
  "MAX_UNSAFE_CALL_TOMBSTONES = MAX_CONCURRENT_TOOL_CALLS * 4"

definition RETAINED_RESULT_TOOL :: string where
  "RETAINED_RESULT_TOOL = ''__relay_retained_result__''"

definition RELAY_RECOVERY_CAPACITY :: capacity where
  "RELAY_RECOVERY_CAPACITY = toolCallCapacityConfig (JNum (Fin (of_nat MAX_CONCURRENT_TOOL_CALLS))) (JNum (Fin 2)) CONTROL_PLANE_TOOL_NAMES"

definition retained_count :: "jsv \<Rightarrow> nat" where
  "retained_count v =
     (let number = js_Number v in
      if isSafeInteger (JNum number) \<and> num_le (Fin 0) number then nat \<lfloor>the (fin_of number)\<rfloor> else 0)"

text \<open>The calls in flight by tool, the retained results counted as calls of a tool of their own.\<close>

definition relayRecoveryCapacityInput :: "string list \<Rightarrow> jsv \<Rightarrow> nat \<times> (string \<times> nat) list \<times> nat" where
  "relayRecoveryCapacityInput activeTools retainedResults =
     (let retained = retained_count retainedResults;
          start = (if retained \<noteq> 0 then map_set RETAINED_RESULT_TOOL retained [] else [])
      in (retained + length activeTools, foldl bump start activeTools, retained))"

definition capacity_js :: "nat \<times> (string \<times> nat) list \<times> nat \<Rightarrow> jsv" where
  "capacity_js input = JObj [(''active'', JNum (Fin (of_nat (fst input)))),
     (''byTool'', JObj (map (\<lambda>(t, n). (t, JNum (Fin (of_nat n)))) (fst (snd input))))]"

definition relayRecoveryCapacityRejection :: "string list \<Rightarrow> jsv \<Rightarrow> string \<Rightarrow> string \<Rightarrow> jsv option" where
  "relayRecoveryCapacityRejection activeTools retainedResults toolName callId =
     (if toolCallAdmission (capacity_js (relayRecoveryCapacityInput activeTools retainedResults)) RELAY_RECOVERY_CAPACITY toolName
         = Admitted then None
      else Some (JObj [(''type'', JStr ''tool_result''), (''id'', JStr callId), (''ok'', JBool False),
        (''error'', JObj [(''code'', JStr ''limit_exceeded''),
          (''message'', JStr ''relay result-recovery capacity is occupied; retry after prior calls settle''),
          (''retryable'', JBool True),
          (''details'', JObj [(''side_effects_started'', JBool False), (''capacity_scope'', JStr ''relay_result_recovery'')])])]))"

definition relayRecoveryCapacitySnapshot :: "string list \<Rightarrow> jsv \<Rightarrow> jsv \<Rightarrow> jsv \<Rightarrow> jsv \<Rightarrow> jsv" where
  "relayRecoveryCapacitySnapshot activeTools retainedResults automaticRedeliverySafe unsafeCallTombstones globalRedeliveryDisabled =
     (let (active, byTool, retained) = relayRecoveryCapacityInput activeTools retainedResults;
          u = toolCallCapacityUsage (capacity_js (active, byTool, retained)) RELAY_RECOVERY_CAPACITY
      in JObj [(''active_calls'', JNum (Fin (of_nat (active - retained)))), (''retained_results'', JNum (Fin (of_nat retained))),
           (''active_ownership'', JNum (Fin (of_nat active))), (''maximum'', JNum (Fin (of_int (u_maximum u)))),
           (''ordinary_capacity'', JNum (Fin (of_int (u_ordinaryMaximum u)))),
           (''reserved_control_capacity'', JNum (Fin (of_int (u_reserved u)))),
           (''automatic_redelivery_safe'', JBool (automaticRedeliverySafe \<noteq> JBool False)),
           (''unsafe_call_tombstones'', JNum (Fin (of_nat (retained_count unsafeCallTombstones)))),
           (''global_redelivery_disabled'', JBool (globalRedeliveryDisabled = JBool True))])"

section \<open>Tombstones of lost results\<close>

record redelivery =
  rd_unsafe :: "string list"
  rd_disabled :: bool

definition canProveMissing :: "string \<Rightarrow> redelivery \<Rightarrow> bool" where
  "canProveMissing callId rd = (callId \<noteq> [] \<and> \<not> rd_disabled rd \<and> callId \<notin> set (rd_unsafe rd))"

definition observeResumedCallIds :: "string list \<Rightarrow> redelivery \<Rightarrow> redelivery" where
  "observeResumedCallIds callIds rd =
     (if rd_disabled rd \<or> rd_unsafe rd = [] then rd
      else rd\<lparr>rd_unsafe := filter (\<lambda>c. c \<in> set callIds) (rd_unsafe rd)\<rparr>)"

definition markUnsafe :: "string \<Rightarrow> redelivery \<Rightarrow> redelivery" where
  "markUnsafe callId rd =
     (if callId = [] \<or> rd_disabled rd \<or> callId \<in> set (rd_unsafe rd) then rd
      else if length (rd_unsafe rd) \<ge> MAX_UNSAFE_CALL_TOMBSTONES then rd\<lparr>rd_unsafe := [], rd_disabled := True\<rparr>
      else rd\<lparr>rd_unsafe := rd_unsafe rd @ [callId]\<rparr>)"

definition redelivery_snapshot :: "redelivery \<Rightarrow> bool \<times> nat \<times> bool" where
  "redelivery_snapshot rd = (\<not> rd_disabled rd \<and> length (rd_unsafe rd) = 0, length (rd_unsafe rd), rd_disabled rd)"

section \<open>Retention of completed results\<close>

definition MAX_ACK_RETENTION_MS :: rat where
  "MAX_ACK_RETENTION_MS = 315000"

definition MAX_RETAINED_RESULTS :: nat where
  "MAX_RETAINED_RESULTS = MAX_CONCURRENT_TOOL_CALLS"

definition MAX_RETAINED_RESULTS_WITH_EMERGENCY_SLOT :: nat where
  "MAX_RETAINED_RESULTS_WITH_EMERGENCY_SLOT = MAX_RETAINED_RESULTS + 1"

record recovery =
  rc_entries :: "(string \<times> jsv) list"
  rc_retainedAt :: "(string \<times> rat) list"
  rc_safety :: redelivery
  rc_timer :: bool
  rc_graceMs :: int

definition new_recovery :: "jsv \<Rightarrow> recovery" where
  "new_recovery graceMs =
     \<lparr>rc_entries = [], rc_retainedAt = [], rc_safety = \<lparr>rd_unsafe = [], rd_disabled = False\<rparr>, rc_timer = False,
      rc_graceMs = positiveInteger graceMs 120000\<rparr>"

definition retained_ids :: "recovery \<Rightarrow> string list" where
  "retained_ids s = map fst (rc_entries s)"

definition retain :: "string \<Rightarrow> jsv \<Rightarrow> bool \<Rightarrow> rat \<Rightarrow> recovery \<Rightarrow> recovery option" where
  "retain key response emergency now s =
     (let maximum = (if emergency then MAX_RETAINED_RESULTS_WITH_EMERGENCY_SLOT else MAX_RETAINED_RESULTS) in
      if key \<notin> set (retained_ids s) \<and> length (rc_entries s) \<ge> maximum then None
      else Some (s\<lparr>rc_entries := map_set key response (rc_entries s),
                   rc_retainedAt := (if key \<in> set (map fst (rc_retainedAt s)) then rc_retainedAt s
                                     else map_set key now (rc_retainedAt s))\<rparr>))"

text \<open>\<open>onOwnershipLost\<close> is wired to the tombstones.\<close>

definition ownership_lost :: "string \<Rightarrow> recovery \<Rightarrow> recovery" where
  "ownership_lost callId s = s\<lparr>rc_safety := markUnsafe callId (rc_safety s)\<rparr>"

datatype retention = RetainedNormal | RetainedEmergency | RetentionFull

definition retainForDelivery :: "string \<Rightarrow> jsv \<Rightarrow> rat \<Rightarrow> recovery \<Rightarrow> retention \<times> recovery" where
  "retainForDelivery callId response now s =
     (case retain callId response False now s of
        Some s' \<Rightarrow> (RetainedNormal, s')
      | None \<Rightarrow>
          (case retain callId response True now s of
             None \<Rightarrow> (RetentionFull, ownership_lost callId s)
           | Some s' \<Rightarrow> (RetainedEmergency, s')))"

definition delete_result :: "string \<Rightarrow> recovery \<Rightarrow> recovery \<times> bool" where
  "delete_result callId s =
     (s\<lparr>rc_retainedAt := map_del callId (rc_retainedAt s), rc_entries := map_del callId (rc_entries s)\<rparr>,
      callId \<in> set (retained_ids s))"

definition discardAll :: "recovery \<Rightarrow> recovery \<times> nat" where
  "discardAll s =
     ((foldl (\<lambda>s c. ownership_lost c s) s (retained_ids s))\<lparr>rc_retainedAt := [], rc_entries := []\<rparr>,
      length (rc_entries s))"

definition prune_entry :: "rat \<Rightarrow> recovery \<Rightarrow> string \<times> rat \<Rightarrow> recovery" where
  "prune_entry cutoff s p =
     (if snd p > cutoff \<or> fst p \<notin> set (retained_ids s) then s
      else fst (delete_result (fst p) (ownership_lost (fst p) s)))"

definition pruneExpired :: "rat \<Rightarrow> recovery \<Rightarrow> recovery" where
  "pruneExpired now s = foldl (prune_entry (now - MAX_ACK_RETENTION_MS)) s (rc_retainedAt s)"

section \<open>Delivery and redelivery\<close>

definition scheduleExpiry :: "recovery \<Rightarrow> recovery" where
  "scheduleExpiry s = s\<lparr>rc_timer := True\<rparr>"

definition clearTimer :: "recovery \<Rightarrow> recovery" where
  "clearTimer s = s\<lparr>rc_timer := False\<rparr>"

definition deliver :: "string \<Rightarrow> jsv \<Rightarrow> bool \<Rightarrow> bool \<Rightarrow> rat \<Rightarrow> rat \<Rightarrow> recovery \<Rightarrow> recovery \<times> bool" where
  "deliver callId response recoverable sent pruneAt now s =
     (if callId = [] then (s, sent)
      else if \<not> recoverable then (s, False)
      else case retainForDelivery callId response now (pruneExpired pruneAt s) of
          (RetentionFull, s') \<Rightarrow> (s', False)
        | (_, s') \<Rightarrow> if sent then (s', True) else (scheduleExpiry s', False))"

text \<open>The responses are sent in order until a send fails; the result says which were delivered.\<close>

fun retry_results :: "(string \<Rightarrow> bool) \<Rightarrow> (string \<times> jsv) list \<Rightarrow> jsv list \<times> bool" where
  "retry_results sends [] = ([], True)"
| "retry_results sends ((c, response) # rest) =
     (if \<not> sends c then ([], False) else (case retry_results sends rest of (sent, ok) \<Rightarrow> (response # sent, ok)))"

definition retryUnacknowledged :: "rat \<Rightarrow> (string \<Rightarrow> bool) \<Rightarrow> recovery \<Rightarrow> recovery \<times> jsv list" where
  "retryUnacknowledged now sends s =
     (let s1 = pruneExpired now s in
      case retry_results sends (rc_entries s1) of (sent, ok) \<Rightarrow> (if ok then s1 else scheduleExpiry s1, sent))"

definition ready :: "rat \<Rightarrow> (string \<Rightarrow> bool) \<Rightarrow> recovery \<Rightarrow> recovery \<times> jsv list" where
  "ready now sends s = retryUnacknowledged now sends (clearTimer s)"

definition pulse :: "rat \<Rightarrow> (string \<Rightarrow> bool) \<Rightarrow> recovery \<Rightarrow> recovery \<times> jsv list" where
  "pulse now sends s = retryUnacknowledged now sends s"

definition disconnected :: "string list \<Rightarrow> recovery \<Rightarrow> recovery" where
  "disconnected activeIds s = (if length activeIds = 0 \<and> length (rc_entries s) = 0 then s else scheduleExpiry s)"

definition stop_recovery :: "recovery \<Rightarrow> recovery" where
  "stop_recovery s = fst (discardAll (clearTimer s))"

definition ownedCallIds :: "string list \<Rightarrow> recovery \<Rightarrow> string list" where
  "ownedCallIds activeIds s = js_set (activeIds @ retained_ids s)"

section \<open>The runtime's side\<close>

record relay_runtime =
  rr_active :: "(string \<times> string) list"
  rr_suppressed :: "(string \<times> string) list"
  rr_registry :: registry
  rr_recovery :: recovery
  rr_terminations :: nat

definition on_recovery :: "(recovery \<Rightarrow> recovery) \<Rightarrow> relay_runtime \<Rightarrow> relay_runtime" where
  "on_recovery f r = r\<lparr>rr_recovery := f (rr_recovery r)\<rparr>"

definition active_ids :: "relay_runtime \<Rightarrow> string list" where
  "active_ids r = map fst (rr_active r)"

datatype begin_outcome = DuplicateCall | RecoveryRejected jsv | Begun

definition begin_call :: "string \<Rightarrow> string \<Rightarrow> relay_runtime \<Rightarrow> begin_outcome \<times> relay_runtime" where
  "begin_call i tool r =
     (if i \<in> set (active_ids r) then (DuplicateCall, r)
      else case relayRecoveryCapacityRejection (map snd (rr_active r))
             (JNum (Fin (of_nat (length (rc_entries (rr_recovery r)))))) tool i of
          Some rejection \<Rightarrow> (RecoveryRejected rejection, r)
        | None \<Rightarrow> (Begun, r\<lparr>rr_active := map_set i tool (rr_active r)\<rparr>))"

text \<open>The end of a call: its result is delivered unless it was suppressed, and the call is forgotten.\<close>

definition settle_call :: "string \<Rightarrow> jsv \<Rightarrow> bool \<Rightarrow> bool \<Rightarrow> rat \<Rightarrow> rat \<Rightarrow> relay_runtime \<Rightarrow> relay_runtime" where
  "settle_call i response recoverable sent pruneAt now r =
     (let suppressed = (case map_of (rr_suppressed r) i of Some reason \<Rightarrow> reason | None \<Rightarrow> []);
          r' = (if suppressed \<noteq> [] then r
                else on_recovery (\<lambda>s. fst (deliver i response recoverable sent pruneAt now s)) r)
      in r'\<lparr>rr_active := map_del i (rr_active r'), rr_suppressed := map_del i (rr_suppressed r')\<rparr>)"

definition cancelRelayCall :: "string \<Rightarrow> string \<Rightarrow> relay_runtime \<Rightarrow> relay_runtime \<times> bool" where
  "cancelRelayCall i suppressionReason r =
     (let (rec', discarded) = delete_result i (rr_recovery r);
          r1 = r\<lparr>rr_recovery := rec'\<rparr>;
          r2 = (if i \<in> set (active_ids r1) then r1\<lparr>rr_suppressed := map_set i suppressionReason (rr_suppressed r1)\<rparr> else r1);
          (reg, cancelled) = cancel_call i ''remote cancellation'' ''cancelled'' (rr_registry r2)
      in (r2\<lparr>rr_registry := reg\<rparr>, cancelled \<or> discarded))"

text \<open>\<open>reconcile\<close> with the runtime's \<open>cancelRelayCall\<close>: the ids the daemon proves it never received.\<close>

definition missing_ids :: "string list \<Rightarrow> relay_runtime \<Rightarrow> string list" where
  "missing_ids resumed r =
     filter (\<lambda>c. c \<notin> set (ownedCallIds (active_ids r) (rr_recovery r)) \<and> canProveMissing c (rc_safety (rr_recovery r))) resumed"

definition reconcileRelayCalls :: "string list \<Rightarrow> rat \<Rightarrow> relay_runtime \<Rightarrow> relay_runtime \<times> string list" where
  "reconcileRelayCalls resumedCallIds now r =
     (let resumed = js_set resumedCallIds;
          r1 = on_recovery (\<lambda>s. (pruneExpired now s)\<lparr>rc_safety := observeResumedCallIds resumed (rc_safety (pruneExpired now s))\<rparr>) r;
          missing = missing_ids resumed r1;
          r2 = foldl (\<lambda>r c. if c \<notin> set resumed then fst (cancelRelayCall c ''caller_no_longer_waiting'' r) else r) r1 (active_ids r1);
          r3 = on_recovery (\<lambda>s. foldl (\<lambda>s c. if c \<notin> set resumed then fst (delete_result c s) else s) s (retained_ids s)) r2
      in (r3, missing))"

text \<open>The grace timer: the calls in flight are suppressed and cancelled, the retained results are given up.\<close>

definition expire_grace :: "relay_runtime \<Rightarrow> relay_runtime" where
  "expire_grace r =
     (let r1 = on_recovery clearTimer r;
          r2 = r1\<lparr>rr_suppressed := foldl (\<lambda>m c. map_set c ''relay_reconnect_timeout'' m) (rr_suppressed r1) (active_ids r1)\<rparr>;
          (reg, cancelled) = cancelOrigin ''relay'' ''remote relay reconnect grace expired'' (rr_registry r2)
      in on_recovery (\<lambda>s. fst (discardAll s))
           (r2\<lparr>rr_registry := reg, rr_terminations := rr_terminations r2 + (if cancelled > 0 then 1 else 0)\<rparr>))"

section \<open>Events\<close>

datatype relay_event =
    RelayBegin string string
  | RelayInvalid string jsv bool bool rat rat
  | RelaySettle string jsv bool bool rat rat
  | RelayAcknowledge string
  | RelayCancel string
  | RelayReconcile "string list" rat
  | RelayDisconnect
  | RelayReady rat "string \<Rightarrow> bool"
  | RelayPulse rat "string \<Rightarrow> bool"
  | RelayExpire
  | RelayStop
  | RelayRegistry reg_event

fun relay_step :: "relay_runtime \<Rightarrow> relay_event \<Rightarrow> relay_runtime" where
  "relay_step r (RelayBegin i tool) = snd (begin_call i tool r)"
| "relay_step r (RelayInvalid i response recoverable sent pruneAt now) =
     on_recovery (\<lambda>s. fst (deliver i response recoverable sent pruneAt now s)) r"
| "relay_step r (RelaySettle i response recoverable sent pruneAt now) =
     (if i \<in> set (active_ids r) then settle_call i response recoverable sent pruneAt now r else r)"
| "relay_step r (RelayAcknowledge i) = on_recovery (\<lambda>s. fst (delete_result i s)) r"
| "relay_step r (RelayCancel i) = fst (cancelRelayCall i ''caller_cancelled'' r)"
| "relay_step r (RelayReconcile resumed now) = fst (reconcileRelayCalls resumed now r)"
| "relay_step r RelayDisconnect = on_recovery (disconnected (active_ids r)) r"
| "relay_step r (RelayReady now sends) = on_recovery (\<lambda>s. fst (ready now sends s)) r"
| "relay_step r (RelayPulse now sends) = on_recovery (\<lambda>s. fst (pulse now sends s)) r"
| "relay_step r RelayExpire = (if rc_timer (rr_recovery r) then expire_grace r else r)"
| "relay_step r RelayStop = on_recovery stop_recovery r"
| "relay_step r (RelayRegistry e) = r\<lparr>rr_registry := reg_step (rr_registry r) e\<rparr>"

definition new_relay_runtime :: "registry \<Rightarrow> jsv \<Rightarrow> relay_runtime" where
  "new_relay_runtime reg graceMs =
     \<lparr>rr_active = [], rr_suppressed = [], rr_registry = reg, rr_recovery = new_recovery graceMs, rr_terminations = 0\<rparr>"

end
