(* ===== verification/RelayRecoverySpec.thy ===== *)
theory RelayRecoverySpec
  imports RelayRecovery
begin

text \<open>
  What the recovery of relay calls guarantees: a call that has begun is never reported to the Worker as one the
  daemon did not receive, and the results and tombstones the daemon keeps for it are bounded.  The lemmas first
  follow one result through every operation (it is held: retained, or its loss on record), then one call through
  every event of the runtime (it is kept), and count what the runtime owns.
\<close>

text \<open>
  One behaviour is proved as it is rather than as the design states it: \<open>expired_call_reported_missing\<close>.
\<close>

section \<open>Tombstones\<close>

lemma markUnsafe_blocks: "\<not> canProveMissing c (markUnsafe c rd)"
  by (auto simp: canProveMissing_def markUnsafe_def)

lemma markUnsafe_keeps: "\<not> canProveMissing i rd \<Longrightarrow> \<not> canProveMissing i (markUnsafe c rd)"
  by (auto simp: canProveMissing_def markUnsafe_def)

lemma observe_keeps: "i \<in> set R \<Longrightarrow> \<not> canProveMissing i rd \<Longrightarrow> \<not> canProveMissing i (observeResumedCallIds R rd)"
  by (auto simp: canProveMissing_def observeResumedCallIds_def)

definition safety_inv :: "redelivery \<Rightarrow> bool" where
  "safety_inv rd = (distinct (rd_unsafe rd) \<and> length (rd_unsafe rd) \<le> MAX_UNSAFE_CALL_TOMBSTONES
     \<and> (rd_disabled rd \<longrightarrow> rd_unsafe rd = []))"

lemma safety_steps [intro]:
  "safety_inv rd \<Longrightarrow> safety_inv (markUnsafe c rd)"
  "safety_inv rd \<Longrightarrow> safety_inv (observeResumedCallIds R rd)"
  by (auto simp: safety_inv_def markUnsafe_def observeResumedCallIds_def intro: le_trans [OF length_filter_le])

section \<open>The retained results\<close>

text \<open>A result is held when it is retained, or when its loss is on record.\<close>

definition held :: "string \<Rightarrow> recovery \<Rightarrow> bool" where
  "held i s = (i \<in> set (retained_ids s) \<or> \<not> canProveMissing i (rc_safety s))"

definition recovery_inv :: "recovery \<Rightarrow> bool" where
  "recovery_inv s = (distinct (retained_ids s) \<and> length (rc_entries s) \<le> MAX_RETAINED_RESULTS_WITH_EMERGENCY_SLOT
     \<and> safety_inv (rc_safety s))"

lemma lost_simps [simp]:
  "rc_entries (ownership_lost c s) = rc_entries s" "retained_ids (ownership_lost c s) = retained_ids s"
  "rc_retainedAt (ownership_lost c s) = rc_retainedAt s"
  "rc_safety (ownership_lost c s) = markUnsafe c (rc_safety s)"
  by (simp_all add: ownership_lost_def retained_ids_def)

lemma delete_simps [simp]:
  "rc_entries (fst (delete_result c s)) = map_del c (rc_entries s)"
  "rc_safety (fst (delete_result c s)) = rc_safety s"
  "set (retained_ids (fst (delete_result c s))) = set (retained_ids s) - {c}"
  by (auto simp: delete_result_def retained_ids_def map_del_def)

lemma timer_simps [simp]:
  "rc_entries (scheduleExpiry s) = rc_entries s" "rc_safety (scheduleExpiry s) = rc_safety s"
  "rc_entries (clearTimer s) = rc_entries s" "rc_safety (clearTimer s) = rc_safety s"
  "retained_ids (scheduleExpiry s) = retained_ids s" "retained_ids (clearTimer s) = retained_ids s"
  "held i (scheduleExpiry s) = held i s" "held i (clearTimer s) = held i s"
  "recovery_inv (scheduleExpiry s) = recovery_inv s" "recovery_inv (clearTimer s) = recovery_inv s"
  by (simp_all add: scheduleExpiry_def clearTimer_def retained_ids_def held_def recovery_inv_def)

lemma map_del_length: "length (map_del c m) \<le> length m"
  by (simp add: map_del_def)

lemma recovery_inv_lost: "recovery_inv s \<Longrightarrow> recovery_inv (ownership_lost c s)"
  by (auto simp: recovery_inv_def)

lemma recovery_inv_delete: "recovery_inv s \<Longrightarrow> recovery_inv (fst (delete_result c s))"
  using map_del_length [of c "rc_entries s"] distinct_map_del [of "rc_entries s" c]
  by (auto simp: recovery_inv_def retained_ids_def simp del: set_map)

lemma held_lost: "held i s \<Longrightarrow> held i (ownership_lost c s)" "held c (ownership_lost c s)"
  using markUnsafe_keeps markUnsafe_blocks by (auto simp: held_def)

lemma held_delete: "held i s \<Longrightarrow> c \<noteq> i \<Longrightarrow> held i (fst (delete_result c s))"
  by (auto simp: held_def)

text \<open>Giving up a result: it is deleted, and its loss recorded.\<close>

lemma give_up:
  "held i s \<Longrightarrow> held i (fst (delete_result c (ownership_lost c s)))"
proof (cases "c = i")
  case True
  then show ?thesis by (simp add: held_def markUnsafe_blocks)
qed (simp add: held_delete held_lost)

lemma prune_entry_facts:
  "held i s \<Longrightarrow> held i (prune_entry k s p)" "recovery_inv s \<Longrightarrow> recovery_inv (prune_entry k s p)"
  "length (rc_entries (prune_entry k s p)) \<le> length (rc_entries s)"
  using give_up recovery_inv_delete recovery_inv_lost map_del_length by (auto simp: prune_entry_def)

lemma prune_fold:
  "held i s \<Longrightarrow> held i (foldl (prune_entry k) s ps)" "recovery_inv s \<Longrightarrow> recovery_inv (foldl (prune_entry k) s ps)"
  "length (rc_entries (foldl (prune_entry k) s ps)) \<le> length (rc_entries s)"
proof (induction ps arbitrary: s)
  case (Cons p ps)
  { case 1 with Cons.IH(1) prune_entry_facts(1) show ?case by simp }
  { case 2 with Cons.IH(2) prune_entry_facts(2) show ?case by simp }
  { case 3 with Cons.IH(3) [of "prune_entry k s p"] prune_entry_facts(3) [of k s p] show ?case by simp }
qed simp_all

lemma prune_facts:
  "held i s \<Longrightarrow> held i (pruneExpired now s)" "recovery_inv s \<Longrightarrow> recovery_inv (pruneExpired now s)"
  "length (rc_entries (pruneExpired now s)) \<le> length (rc_entries s)"
  unfolding pruneExpired_def by (fact prune_fold)+

lemma lost_fold:
  "rc_entries (foldl (\<lambda>s c. ownership_lost c s) s cs) = rc_entries s"
  "\<not> canProveMissing i (rc_safety s) \<or> i \<in> set cs \<Longrightarrow> \<not> canProveMissing i (rc_safety (foldl (\<lambda>s c. ownership_lost c s) s cs))"
  "safety_inv (rc_safety s) \<Longrightarrow> safety_inv (rc_safety (foldl (\<lambda>s c. ownership_lost c s) s cs))"
proof (induction cs arbitrary: s)
  case (Cons c cs)
  { case 1 show ?case by (simp add: Cons.IH(1)) }
  { case 2 with Cons.IH(2) [of "ownership_lost c s"] markUnsafe_keeps markUnsafe_blocks show ?case by auto }
  { case 3 with Cons.IH(3) [of "ownership_lost c s"] show ?case by auto }
qed simp_all

lemma discard_facts:
  "held i s \<Longrightarrow> held i (fst (discardAll s))" "recovery_inv s \<Longrightarrow> recovery_inv (fst (discardAll s))"
  "rc_entries (fst (discardAll s)) = []"
  using lost_fold(2) [of i s "retained_ids s"] lost_fold(3) [of s "retained_ids s"]
  by (auto simp: discardAll_def held_def recovery_inv_def retained_ids_def)

lemma retain_facts:
  assumes "retain c v b now s = Some s'"
  shows "set (retained_ids s') = insert c (set (retained_ids s))" "rc_safety s' = rc_safety s"
    "distinct (retained_ids s) \<Longrightarrow> distinct (retained_ids s')"
    "length (rc_entries s') \<le> Suc (length (rc_entries s))"
    "recovery_inv s \<Longrightarrow> recovery_inv s'"
proof -
  from assms have e: "s' = s\<lparr>rc_entries := map_set c v (rc_entries s), rc_retainedAt := rc_retainedAt s'\<rparr>"
    and m: "c \<in> set (retained_ids s) \<or> length (rc_entries s) < MAX_RETAINED_RESULTS_WITH_EMERGENCY_SLOT"
    by (auto simp: retain_def Let_def MAX_RETAINED_RESULTS_WITH_EMERGENCY_SLOT_def split: if_splits)
  show k: "set (retained_ids s') = insert c (set (retained_ids s))" and f: "rc_safety s' = rc_safety s"
    and d: "distinct (retained_ids s) \<Longrightarrow> distinct (retained_ids s')" and l: "length (rc_entries s') \<le> Suc (length (rc_entries s))"
    using keys_map_set [of c v "rc_entries s"] distinct_map_set [of "rc_entries s" c v] map_set_length_bound [of c v "rc_entries s"]
    by (subst e; simp add: retained_ids_def del: set_map)+
  assume i: "recovery_inv s"
  have "length (rc_entries s') \<le> MAX_RETAINED_RESULTS_WITH_EMERGENCY_SLOT"
  proof (cases "c \<in> set (retained_ids s)")
    case True
    with k have "set (retained_ids s') = set (retained_ids s)" by auto
    with i d have "length (retained_ids s') = length (retained_ids s)"
      by (metis distinct_card recovery_inv_def)
    with i show ?thesis by (simp add: recovery_inv_def retained_ids_def)
  next
    case False
    with m l show ?thesis by simp
  qed
  with i d f show "recovery_inv s'" by (simp add: recovery_inv_def)
qed

lemma retain_delivery_facts:
  assumes "retainForDelivery c v now s = (k, s')"
  shows "held i s \<Longrightarrow> held i s'" "held c s'" "recovery_inv s \<Longrightarrow> recovery_inv s'"
    "length (rc_entries s') \<le> Suc (length (rc_entries s))"
    "length (rc_entries s) < MAX_RETAINED_RESULTS \<Longrightarrow> k = RetainedNormal"
proof -
  consider (full) "k = RetentionFull" "s' = ownership_lost c s" | (kept) b where "retain c v b now s = Some s'"
    using assms by (auto simp: retainForDelivery_def split: option.splits)
  then have "(held i s \<longrightarrow> held i s') \<and> held c s' \<and> (recovery_inv s \<longrightarrow> recovery_inv s')
     \<and> length (rc_entries s') \<le> Suc (length (rc_entries s))"
  proof cases
    case full
    then show ?thesis by (simp add: held_lost recovery_inv_lost)
  next
    case kept
    then show ?thesis using retain_facts [OF kept] by (simp add: held_def)
  qed
  then show "held i s \<Longrightarrow> held i s'" "held c s'" "recovery_inv s \<Longrightarrow> recovery_inv s'"
    "length (rc_entries s') \<le> Suc (length (rc_entries s))" by blast+
  show "length (rc_entries s) < MAX_RETAINED_RESULTS \<Longrightarrow> k = RetainedNormal"
    using assms by (auto simp: retainForDelivery_def retain_def Let_def split: option.splits if_splits)
qed

lemma deliver_facts:
  "held i s \<Longrightarrow> held i (fst (deliver c v b sent t now s))"
  "b \<Longrightarrow> held c (fst (deliver c v b sent t now s))"
  "recovery_inv s \<Longrightarrow> recovery_inv (fst (deliver c v b sent t now s))"
  "length (rc_entries (fst (deliver c v b sent t now s))) \<le> Suc (length (rc_entries s))"
proof -
  obtain k s' where r: "retainForDelivery c v now (pruneExpired t s) = (k, s')" by fastforce
  note f = retain_delivery_facts [OF r] and p = prune_facts
  have d: "fst (deliver c v b sent t now s) = (if c = [] \<or> \<not> b then s else if k = RetentionFull \<or> sent then s' else scheduleExpiry s')"
    by (cases k) (simp_all add: deliver_def r)
  have empty: "held [] x" for x by (simp add: held_def canProveMissing_def)
  show "held i s \<Longrightarrow> held i (fst (deliver c v b sent t now s))"
    "b \<Longrightarrow> held c (fst (deliver c v b sent t now s))"
    "recovery_inv s \<Longrightarrow> recovery_inv (fst (deliver c v b sent t now s))"
    "length (rc_entries (fst (deliver c v b sent t now s))) \<le> Suc (length (rc_entries s))"
    unfolding d using f p(1) [of i s t] p(2) [of s t] p(3) [of t s] empty by simp_all
qed

lemma retry_facts:
  "held i s \<Longrightarrow> held i (fst (retryUnacknowledged now sends s))"
  "recovery_inv s \<Longrightarrow> recovery_inv (fst (retryUnacknowledged now sends s))"
  "length (rc_entries (fst (retryUnacknowledged now sends s))) \<le> length (rc_entries s)"
  using prune_facts(1) [of i s now] prune_facts(2) [of s now] prune_facts(3) [of now s]
  by (simp_all add: retryUnacknowledged_def Let_def split: prod.split)

section \<open>The runtime\<close>

text \<open>
  A call is kept while it is in flight and not suppressed, or its result is held.  The events below are the ones
  that release it: the Worker acknowledged or cancelled it or no longer waits for it, the transport was given up
  when it settled, or the grace timer expired while it was in flight.
\<close>

definition kept :: "string \<Rightarrow> relay_runtime \<Rightarrow> bool" where
  "kept i r = ((i \<in> set (active_ids r) \<and> map_of (rr_suppressed r) i = None) \<or> held i (rr_recovery r))"

fun releases :: "string \<Rightarrow> relay_runtime \<Rightarrow> relay_event \<Rightarrow> bool" where
  "releases i r (RelayAcknowledge j) = (j = i)"
| "releases i r (RelayCancel j) = (j = i)"
| "releases i r (RelayReconcile resumed now) = (i \<notin> set resumed)"
| "releases i r (RelaySettle j response recoverable sent pruneAt now) = (j = i \<and> \<not> recoverable)"
| "releases i r RelayExpire = (rc_timer (rr_recovery r) \<and> i \<in> set (active_ids r))"
| "releases i r _ = False"

fun undisturbed :: "string \<Rightarrow> relay_runtime \<Rightarrow> relay_event list \<Rightarrow> bool" where
  "undisturbed i r [] = True"
| "undisturbed i r (e # es) = (\<not> releases i r e \<and> undisturbed i (relay_step r e) es)"

definition relay_inv :: "relay_runtime \<Rightarrow> bool" where
  "relay_inv r = (distinct (active_ids r) \<and> recovery_inv (rr_recovery r))"

definition ownership :: "relay_runtime \<Rightarrow> nat" where
  "ownership r = length (rr_active r) + length (rc_entries (rr_recovery r))"

lemma on_recovery_simps [simp]:
  "rr_active (on_recovery f r) = rr_active r" "rr_suppressed (on_recovery f r) = rr_suppressed r"
  "rr_recovery (on_recovery f r) = f (rr_recovery r)" "active_ids (on_recovery f r) = active_ids r"
  "ownership (on_recovery f r) = length (rr_active r) + length (rc_entries (f (rr_recovery r)))"
  by (simp_all add: on_recovery_def active_ids_def ownership_def)

lemma kept_on_recovery:
  "kept i r \<Longrightarrow> (held i (rr_recovery r) \<Longrightarrow> held i (f (rr_recovery r))) \<Longrightarrow> kept i (on_recovery f r)"
  by (auto simp: kept_def)

lemma inv_on_recovery:
  "relay_inv r \<Longrightarrow> (recovery_inv (rr_recovery r) \<Longrightarrow> recovery_inv (f (rr_recovery r))) \<Longrightarrow> relay_inv (on_recovery f r)"
  by (auto simp: relay_inv_def)

lemma ids_del: "map fst (map_del i m) = filter (\<lambda>c. c \<noteq> i) (map fst m)"
  by (induction m) (auto simp: map_del_def)

subsection \<open>Beginning and settling\<close>

lemma begin_cases:
  obtains (same) "snd (begin_call i tool r) = r"
    | (begun) "snd (begin_call i tool r) = r\<lparr>rr_active := map_set i tool (rr_active r)\<rparr>" "i \<notin> set (active_ids r)"
        "relayRecoveryCapacityRejection (map snd (rr_active r))
           (JNum (Fin (of_nat (length (rc_entries (rr_recovery r)))))) tool i = None"
  by (cases "i \<in> set (active_ids r)"; cases "relayRecoveryCapacityRejection (map snd (rr_active r))
       (JNum (Fin (of_nat (length (rc_entries (rr_recovery r)))))) tool i") (auto simp: begin_call_def)

lemma settle_simps:
  "rr_active (settle_call i v b sent t now r) = map_del i (rr_active r)"
  "rr_suppressed (settle_call i v b sent t now r) = map_del i (rr_suppressed r)"
  "rr_recovery (settle_call i v b sent t now r)
     = (if (case map_of (rr_suppressed r) i of Some reason \<Rightarrow> reason | None \<Rightarrow> []) \<noteq> [] then rr_recovery r
        else fst (deliver i v b sent t now (rr_recovery r)))"
  by (simp_all add: settle_call_def Let_def)

lemma settle_active: "active_ids (settle_call i v b sent t now r) = filter (\<lambda>c. c \<noteq> i) (active_ids r)"
  by (simp add: active_ids_def settle_simps ids_del)

lemma kept_settle:
  assumes "kept i r" "\<not> (j = i \<and> \<not> b)"
  shows "kept i (settle_call j v b sent t now r)"
proof (cases "j = i")
  case True
  with assms have b: b by simp
  show ?thesis
  proof (cases "held i (rr_recovery r)")
    case True
    then show ?thesis by (simp add: kept_def settle_simps deliver_facts(1))
  next
    case False
    with assms(1) have "map_of (rr_suppressed r) i = None" by (simp add: kept_def)
    with \<open>j = i\<close> b show ?thesis by (simp add: kept_def settle_simps deliver_facts(2))
  qed
next
  case False
  then show ?thesis using assms(1) deliver_facts(1)
    by (auto simp: kept_def settle_active settle_simps map_of_map_del)
qed

lemma inv_settle: "relay_inv r \<Longrightarrow> relay_inv (settle_call j v b sent t now r)"
  by (simp add: relay_inv_def settle_simps active_ids_def ids_del deliver_facts(3))

lemma ownership_settle:
  assumes "i \<in> set (active_ids r)"
  shows "ownership (settle_call i v b sent t now r) \<le> ownership r"
proof -
  have "length (map_del i (rr_active r)) < length (rr_active r)"
    using assms by (auto simp: map_del_def active_ids_def length_filter_less_iff)
  then show ?thesis using deliver_facts(4) [of i v b sent t now "rr_recovery r"]
    by (simp add: ownership_def settle_simps)
qed

subsection \<open>Cancelling and reconciling\<close>

lemma cancel_simps:
  "rr_active (fst (cancelRelayCall c reason r)) = rr_active r"
  "active_ids (fst (cancelRelayCall c reason r)) = active_ids r"
  "rr_recovery (fst (cancelRelayCall c reason r)) = fst (delete_result c (rr_recovery r))"
  "rr_suppressed (fst (cancelRelayCall c reason r))
     = (if c \<in> set (active_ids r) then map_set c reason (rr_suppressed r) else rr_suppressed r)"
  by (simp_all add: cancelRelayCall_def Let_def active_ids_def delete_result_def split: prod.splits)

lemma kept_cancel: "kept i r \<Longrightarrow> c \<noteq> i \<Longrightarrow> kept i (fst (cancelRelayCall c reason r))"
  by (auto simp: kept_def cancel_simps held_delete map_of_map_set)

lemma inv_cancel: "relay_inv r \<Longrightarrow> relay_inv (fst (cancelRelayCall c reason r))"
  by (simp add: relay_inv_def cancel_simps recovery_inv_delete)

lemma ownership_cancel: "ownership (fst (cancelRelayCall c reason r)) \<le> ownership r"
  using map_del_length [of c "rc_entries (rr_recovery r)"] by (simp add: ownership_def cancel_simps)

definition cancel_unless :: "string list \<Rightarrow> relay_runtime \<Rightarrow> string \<Rightarrow> relay_runtime" where
  "cancel_unless R r c = (if c \<notin> set R then fst (cancelRelayCall c ''caller_no_longer_waiting'' r) else r)"

lemma kept_cancel_unless: "kept i r \<Longrightarrow> i \<in> set R \<Longrightarrow> kept i (cancel_unless R r c)"
  by (auto simp: cancel_unless_def intro: kept_cancel)

lemma inv_cancel_unless: "relay_inv r \<Longrightarrow> relay_inv (cancel_unless R r c)"
  by (simp add: cancel_unless_def inv_cancel)

lemma cancel_fold:
  "kept i r \<Longrightarrow> i \<in> set R \<Longrightarrow> kept i (foldl (cancel_unless R) r cs)"
  "relay_inv r \<Longrightarrow> relay_inv (foldl (cancel_unless R) r cs)"
  "ownership (foldl (cancel_unless R) r cs) \<le> ownership r"
proof (induction cs arbitrary: r)
  case (Cons c cs)
  have o: "ownership (cancel_unless R r c) \<le> ownership r" for r by (simp add: cancel_unless_def ownership_cancel)
  { case 1 then show ?case by (simp add: Cons.IH(1) kept_cancel_unless) }
  { case 2 then show ?case by (simp add: Cons.IH(2) inv_cancel_unless) }
  { case 3 show ?case using le_trans [OF Cons.IH(3) o] by simp }
qed simp_all

definition drop_unless :: "string list \<Rightarrow> recovery \<Rightarrow> string \<Rightarrow> recovery" where
  "drop_unless R s c = (if c \<notin> set R then fst (delete_result c s) else s)"

lemma held_drop_unless: "held i s \<Longrightarrow> i \<in> set R \<Longrightarrow> held i (drop_unless R s c)"
  by (auto simp: drop_unless_def intro: held_delete)

lemma inv_drop_unless: "recovery_inv s \<Longrightarrow> recovery_inv (drop_unless R s c)"
  by (simp add: drop_unless_def recovery_inv_delete)

lemma drop_fold:
  "held i s \<Longrightarrow> i \<in> set R \<Longrightarrow> held i (foldl (drop_unless R) s cs)"
  "recovery_inv s \<Longrightarrow> recovery_inv (foldl (drop_unless R) s cs)"
  "length (rc_entries (foldl (drop_unless R) s cs)) \<le> length (rc_entries s)"
proof (induction cs arbitrary: s)
  case (Cons c cs)
  have l: "length (rc_entries (drop_unless R s c)) \<le> length (rc_entries s)" for s by (simp add: drop_unless_def map_del_length)
  { case 1 then show ?case by (simp add: Cons.IH(1) held_drop_unless) }
  { case 2 then show ?case by (simp add: Cons.IH(2) inv_drop_unless) }
  { case 3 show ?case using le_trans [OF Cons.IH(3) l] by simp }
qed simp_all

text \<open>What \<open>reconcile\<close> sees: the pruned results and the tombstones the resumed set confirms.\<close>

definition observed :: "string list \<Rightarrow> rat \<Rightarrow> recovery \<Rightarrow> recovery" where
  "observed R now s = (pruneExpired now s)\<lparr>rc_safety := observeResumedCallIds R (rc_safety (pruneExpired now s))\<rparr>"

lemma observed_facts:
  "held i s \<Longrightarrow> i \<in> set R \<Longrightarrow> held i (observed R now s)" "recovery_inv s \<Longrightarrow> recovery_inv (observed R now s)"
  "length (rc_entries (observed R now s)) \<le> length (rc_entries s)"
  using prune_facts(1) [of i s now] prune_facts(2) [of s now] prune_facts(3) [of now s] observe_keeps [of i R]
  by (auto simp: observed_def held_def recovery_inv_def retained_ids_def)

lemma reconcile_stages:
  "reconcileRelayCalls R now r =
     (let r1 = on_recovery (observed (js_set R) now) r;
          r2 = foldl (cancel_unless (js_set R)) r1 (active_ids r1)
      in (on_recovery (\<lambda>s. foldl (drop_unless (js_set R)) s (retained_ids s)) r2, missing_ids (js_set R) r1))"
  unfolding reconcileRelayCalls_def Let_def observed_def cancel_unless_def [abs_def] drop_unless_def [abs_def] by simp

lemma kept_reconcile:
  assumes "kept i r" "i \<in> set R"
  shows "kept i (fst (reconcileRelayCalls R now r))"
proof -
  have "kept i (on_recovery (observed (js_set R) now) r)"
    by (rule kept_on_recovery [OF assms(1)]) (use assms(2) in \<open>simp add: observed_facts(1)\<close>)
  then have "kept i (foldl (cancel_unless (js_set R)) (on_recovery (observed (js_set R) now) r) (active_ids (on_recovery (observed (js_set R) now) r)))"
    by (rule cancel_fold(1)) (simp add: assms(2))
  then show ?thesis unfolding reconcile_stages Let_def fst_conv
    by (rule kept_on_recovery) (rule drop_fold(1), simp_all add: assms(2))
qed

lemma inv_reconcile: "relay_inv r \<Longrightarrow> relay_inv (fst (reconcileRelayCalls R now r))"
  unfolding reconcile_stages Let_def fst_conv
  by (intro inv_on_recovery cancel_fold(2) drop_fold(2) observed_facts(2))

lemma ownership_reconcile: "ownership (fst (reconcileRelayCalls R now r)) \<le> ownership r"
proof -
  let ?r1 = "on_recovery (observed (js_set R) now) r"
  let ?r2 = "foldl (cancel_unless (js_set R)) ?r1 (active_ids ?r1)"
  have "ownership ?r1 \<le> ownership r" using observed_facts(3) [of "js_set R" now "rr_recovery r"] by (simp add: ownership_def)
  moreover have "ownership ?r2 \<le> ownership ?r1" by (rule cancel_fold(3))
  moreover have "ownership (on_recovery (\<lambda>s. foldl (drop_unless (js_set R)) s (retained_ids s)) ?r2) \<le> ownership ?r2"
    using drop_fold(3) [of "js_set R" "rr_recovery ?r2" "retained_ids (rr_recovery ?r2)"] by (simp add: ownership_def)
  ultimately show ?thesis unfolding reconcile_stages Let_def fst_conv by linarith
qed

lemma kept_not_missing:
  assumes "kept i r"
  shows "i \<notin> set (snd (reconcileRelayCalls R now r))"
proof
  assume "i \<in> set (snd (reconcileRelayCalls R now r))"
  then have m: "i \<in> set R" "i \<notin> set (active_ids r)" "\<not> held i (observed (js_set R) now (rr_recovery r))"
    by (auto simp: reconcile_stages Let_def missing_ids_def ownedCallIds_def held_def)
  with assms have "held i (rr_recovery r)" by (simp add: kept_def)
  then have "held i (observed (js_set R) now (rr_recovery r))" using m(1) by (intro observed_facts(1)) simp_all
  with m(3) show False ..
qed

subsection \<open>The steps\<close>

lemma expire_simps:
  "rr_active (expire_grace r) = rr_active r"
  "rr_recovery (expire_grace r) = fst (discardAll (clearTimer (rr_recovery r)))"
  by (simp_all add: expire_grace_def Let_def split: prod.split)

lemma disconnected_facts:
  "held i s \<Longrightarrow> held i (disconnected as s)" "recovery_inv s \<Longrightarrow> recovery_inv (disconnected as s)"
  "rc_entries (disconnected as s) = rc_entries s"
  by (simp_all add: disconnected_def)

lemma stop_facts:
  "held i s \<Longrightarrow> held i (stop_recovery s)" "recovery_inv s \<Longrightarrow> recovery_inv (stop_recovery s)"
  "rc_entries (stop_recovery s) = []"
  unfolding stop_recovery_def by (simp_all add: discard_facts)

lemma kept_step:
  assumes "kept i r" "\<not> releases i r e"
  shows "kept i (relay_step r e)"
proof (cases e)
  case (RelayBegin j tool)
  then show ?thesis using assms(1)
    by (cases rule: begin_cases [of j tool r]) (auto simp: kept_def active_ids_def keys_map_set simp del: set_map)
next
  case (RelaySettle j v b sent t now)
  then show ?thesis using assms kept_settle by auto
next
  case (RelayCancel j)
  then show ?thesis using assms kept_cancel by auto
next
  case (RelayReconcile R now)
  then show ?thesis using assms kept_reconcile by auto
next
  case RelayExpire
  then have "rc_timer (rr_recovery r) \<Longrightarrow> held i (rr_recovery r)" using assms by (auto simp: kept_def)
  then show ?thesis using RelayExpire assms(1) by (auto simp: kept_def expire_simps discard_facts)
next
  case (RelayRegistry ev)
  then show ?thesis using assms(1) by (simp add: kept_def active_ids_def)
qed (use assms in \<open>auto intro!: kept_on_recovery deliver_facts held_delete disconnected_facts stop_facts
      simp: ready_def pulse_def retry_facts\<close>)

lemma inv_step: "relay_inv r \<Longrightarrow> relay_inv (relay_step r e)"
proof (cases e)
  case (RelayBegin j tool)
  assume "relay_inv r"
  with RelayBegin show ?thesis
    by (cases rule: begin_cases [of j tool r]) (auto simp: relay_inv_def active_ids_def distinct_map_set simp del: set_map)
next
  case RelayExpire
  assume "relay_inv r"
  with RelayExpire show ?thesis by (auto simp: relay_inv_def expire_simps active_ids_def discard_facts)
next
  case (RelayRegistry ev)
  assume "relay_inv r"
  with RelayRegistry show ?thesis by (simp add: relay_inv_def active_ids_def)
qed (auto intro!: inv_on_recovery deliver_facts recovery_inv_delete disconnected_facts stop_facts inv_settle inv_cancel inv_reconcile
      simp: ready_def pulse_def retry_facts)

interpretation relay_recovery: step_machine relay_step relay_inv
  by unfold_locales (rule inv_step)

section \<open>Lost results are not redelivered\<close>

lemma kept_run: "kept i r \<Longrightarrow> undisturbed i r es \<Longrightarrow> kept i (foldl relay_step r es)"
  by (induction es arbitrary: r) (auto intro: kept_step)

text \<open>
  C21. A relayed call that has begun is never reported to the Worker as one the daemon did not receive (which would
  make the Worker send it again), as long as no event releases it: not while it runs, not while its result awaits
  the acknowledgement, and not after its result was lost to expiry, to the capacity or to the grace timer.
\<close>

theorem begun_call_not_missing:
  assumes "i \<in> set (active_ids r)" "map_of (rr_suppressed r) i = None" "undisturbed i r es"
  shows "i \<notin> set (snd (reconcileRelayCalls resumed now (foldl relay_step r es)))"
  using assms by (intro kept_not_missing kept_run) (simp_all add: kept_def)

definition sample_relay :: relay_runtime where
  "sample_relay = relay_step (new_relay_runtime (new_registry JUndef JUndef []) JUndef) (RelayBegin ''call_12345678'' ''write_file'')"

lemma begun_call_not_missing_witness:
  "''call_12345678'' \<notin> set (snd (reconcileRelayCalls [''call_12345678''] 400000 (foldl relay_step sample_relay
     [RelaySettle ''call_12345678'' JNull True False 0 0, RelayDisconnect, RelayExpire])))"
proof (rule begun_call_not_missing)
  show "''call_12345678'' \<in> set (active_ids sample_relay)" by code_simp
  show "map_of (rr_suppressed sample_relay) ''call_12345678'' = None" by code_simp
  show "undisturbed ''call_12345678'' sample_relay
     [RelaySettle ''call_12345678'' JNull True False 0 0, RelayDisconnect, RelayExpire]" by code_simp
qed

text \<open>
  The one gap: when the grace timer expires while the call is in flight, its result is suppressed and no tombstone
  is set, so that a Worker that still waits for it is told that the daemon never received it.
\<close>

lemma expired_call_reported_missing:
  "snd (reconcileRelayCalls [''call_12345678''] 400000 (foldl relay_step sample_relay
     [RelayDisconnect, RelayExpire, RelaySettle ''call_12345678'' JNull True True 0 0])) = [''call_12345678'']"
  by code_simp

section \<open>Bounds\<close>

lemma retained_count_of_nat: "n \<le> 1000 \<Longrightarrow> retained_count (JNum (Fin (of_nat n))) = n"
  by (simp add: retained_count_def isSafeInteger_def rat_is_int_def)

lemma capacity_fields [simp]:
  "cap_maximum RELAY_RECOVERY_CAPACITY = 16"
  by (simp add: RELAY_RECOVERY_CAPACITY_def toolCallCapacityConfig_def MAX_CONCURRENT_TOOL_CALLS_def positiveInteger_def Let_def)

lemma accepted_capacity:
  assumes "relayRecoveryCapacityRejection tools (JNum (Fin (of_nat n))) tool i = None" "n \<le> 1000"
  shows "n + length tools < 16"
proof -
  have "toolCallAdmission (capacity_js (relayRecoveryCapacityInput tools (JNum (Fin (of_nat n))))) RELAY_RECOVERY_CAPACITY tool = Admitted"
    using assms(1) by (simp add: relayRecoveryCapacityRejection_def split: if_splits)
  then have "u_active (toolCallCapacityUsage (capacity_js (relayRecoveryCapacityInput tools (JNum (Fin (of_nat n))))) RELAY_RECOVERY_CAPACITY) < 16"
    by (auto simp: toolCallAdmission_def Let_def split: if_splits)
  moreover have "u_active (toolCallCapacityUsage (capacity_js (relayRecoveryCapacityInput tools (JNum (Fin (of_nat n))))) RELAY_RECOVERY_CAPACITY)
      = int (n + length tools)"
    using assms(2)
    by (simp only: toolCallCapacityUsage_def Let_def usage.select_convs capacity_js_def js_get_simps relayRecoveryCapacityInput_def
        fst_conv retained_count_of_nat) (simp flip: of_nat_add)
  ultimately show ?thesis by linarith
qed

definition well_formed :: "relay_event \<Rightarrow> bool" where
  "well_formed e = (case e of RelayInvalid _ _ _ _ _ _ \<Rightarrow> False | _ \<Rightarrow> True)"

lemma ownership_step:
  assumes "relay_inv r" "ownership r \<le> 16" "well_formed e"
  shows "ownership (relay_step r e) \<le> 16"
proof (cases e)
  case (RelayBegin i tool)
  show ?thesis
  proof (cases rule: begin_cases [of i tool r])
    case begun
    have "length (rc_entries (rr_recovery r)) \<le> 1000" using assms(2) by (simp add: ownership_def)
    from accepted_capacity [OF begun(3) this] have "ownership r < 16" by (simp add: ownership_def)
    moreover have "length (map_set i tool (rr_active r)) \<le> Suc (length (rr_active r))" by (rule map_set_length_bound)
    ultimately show ?thesis using RelayBegin begun by (simp add: ownership_def)
  qed (use RelayBegin assms in simp)
next
  case (RelaySettle i v b sent t now)
  then show ?thesis using assms(2) ownership_settle [of i r v b sent t now] by auto
next
  case (RelayCancel i)
  then show ?thesis using assms(2) ownership_cancel [of i "''caller_cancelled''" r] by auto
next
  case (RelayReconcile R now)
  then show ?thesis using assms(2) ownership_reconcile [of R now r] by auto
next
  case (RelayAcknowledge i)
  then show ?thesis using assms(2) map_del_length [of i "rc_entries (rr_recovery r)"] by (simp add: ownership_def)
next
  case RelayExpire
  then show ?thesis using assms(2) by (simp add: ownership_def expire_simps discard_facts)
next
  case (RelayReady now sends)
  then show ?thesis using assms(2) retry_facts(3) [of now sends "clearTimer (rr_recovery r)"] by (simp add: ownership_def ready_def)
next
  case (RelayPulse now sends)
  then show ?thesis using assms(2) retry_facts(3) [of now sends "rr_recovery r"] by (simp add: ownership_def pulse_def)
qed (use assms in \<open>simp_all add: ownership_def disconnected_facts stop_facts well_formed_def\<close>)

lemma ownership_run:
  "relay_inv r \<Longrightarrow> ownership r \<le> 16 \<Longrightarrow> list_all well_formed es \<Longrightarrow> ownership (foldl relay_step r es) \<le> 16"
  by (induction es arbitrary: r) (auto intro: ownership_step inv_step)

lemma new_runtime_inv: "relay_inv (new_relay_runtime reg g)" "ownership (new_relay_runtime reg g) = 0"
  by (simp_all add: new_relay_runtime_def new_recovery_def relay_inv_def active_ids_def recovery_inv_def retained_ids_def
      safety_inv_def ownership_def)

text \<open>
  C22. The recovery is bounded in every run: at most one result beyond the call limit is ever retained, and at most
  four tombstones per concurrent call, none once redelivery is disabled.  When every envelope is well formed, the
  calls in flight and the retained results together stay within the call limit, so that a call that settles always
  finds a slot and never uses the emergency one.
\<close>

theorem recovery_bounded:
  assumes "r = foldl relay_step (new_relay_runtime reg graceMs) es"
  shows "length (rc_entries (rr_recovery r)) \<le> 17 \<and> length (rd_unsafe (rc_safety (rr_recovery r))) \<le> 64
     \<and> (rd_disabled (rc_safety (rr_recovery r)) \<longrightarrow> rd_unsafe (rc_safety (rr_recovery r)) = [])
     \<and> (list_all well_formed es \<longrightarrow> length (rr_active r) + length (rc_entries (rr_recovery r)) \<le> 16
          \<and> (rr_active r \<noteq> [] \<longrightarrow> fst (retainForDelivery i response now (pruneExpired t (rr_recovery r))) = RetainedNormal))"
proof -
  have "relay_inv r" unfolding assms by (intro relay_recovery.run_inv new_runtime_inv)
  then have "length (rc_entries (rr_recovery r)) \<le> 17" "length (rd_unsafe (rc_safety (rr_recovery r))) \<le> 64"
    "rd_disabled (rc_safety (rr_recovery r)) \<longrightarrow> rd_unsafe (rc_safety (rr_recovery r)) = []"
    by (simp_all add: relay_inv_def recovery_inv_def safety_inv_def MAX_RETAINED_RESULTS_WITH_EMERGENCY_SLOT_def
        MAX_RETAINED_RESULTS_def MAX_UNSAFE_CALL_TOMBSTONES_def MAX_CONCURRENT_TOOL_CALLS_def)
  moreover have "ownership r \<le> 16" if "list_all well_formed es"
    unfolding assms using that by (intro ownership_run) (simp_all add: new_runtime_inv)
  moreover have "fst (retainForDelivery i response now (pruneExpired t (rr_recovery r))) = RetainedNormal"
    if "ownership r \<le> 16" "rr_active r \<noteq> []"
  proof -
    have "0 < length (rr_active r)" using that(2) by simp
    with that(1) prune_facts(3) [of t "rr_recovery r"]
    have "length (rc_entries (pruneExpired t (rr_recovery r))) < MAX_RETAINED_RESULTS"
      unfolding ownership_def MAX_RETAINED_RESULTS_def MAX_CONCURRENT_TOOL_CALLS_def by linarith
    then show ?thesis by (metis retain_delivery_facts(5) prod.collapse)
  qed
  ultimately show ?thesis by (auto simp: ownership_def)
qed

lemma recovery_bounded_witness:
  "length (rr_active sample_relay) + length (rc_entries (rr_recovery sample_relay)) \<le> 16"
  using recovery_bounded [of sample_relay "new_registry JUndef JUndef []" JUndef "[RelayBegin ''call_12345678'' ''write_file'']"]
  by (simp add: sample_relay_def well_formed_def)

end
