(* ===== verification/RelayHeartbeat.thy ===== *)
theory RelayHeartbeat
  imports CallCapacity
begin

text \<open>
  The liveness of the relay connection: the probe deadline, the dispatch of probes, the confirmation that follows an
  overdue probe, the heartbeat monitor with its handling of a stalled event loop, and the pair of monitors of a
  connection, one for the transport and one for the application (\<open>src/local/relay-probe-deadline.mjs\<close>,
  \<open>relay-probe-dispatch.mjs\<close>, \<open>relay-transport-confirmation.mjs\<close>, \<open>relay-heartbeat-stall.mjs\<close>,
  \<open>relay-heartbeat-options.mjs\<close>, \<open>relay-heartbeat-transport-state.mjs\<close>, \<open>relay-heartbeat.mjs\<close>,
  \<open>relay-inbound-state.mjs\<close>, \<open>relay-liveness.mjs\<close>).

  An operation returns the new state and the callbacks it made, in order.  The clock reading, whether the connection
  is active and whether a send was accepted are arguments; the callback of a send is an event of its own, with the
  time it reports.
\<close>

section \<open>Probe deadline\<close>

record probe_deadline =
  pd_enabled :: bool
  pd_sentAt :: "rat option"
  pd_lastResponseMs :: rat
  pd_maxResponseMs :: rat
  pd_lastTimeoutAgeMs :: rat

definition new_deadline :: "bool \<Rightarrow> probe_deadline" where
  "new_deadline enabled = \<lparr>pd_enabled = enabled, pd_sentAt = None, pd_lastResponseMs = 0, pd_maxResponseMs = 0, pd_lastTimeoutAgeMs = 0\<rparr>"

definition pd_reset :: "probe_deadline \<Rightarrow> probe_deadline" where
  "pd_reset d = d\<lparr>pd_sentAt := None\<rparr>"

definition pd_outstanding :: "probe_deadline \<Rightarrow> bool" where
  "pd_outstanding d = (pd_enabled d \<and> pd_sentAt d \<noteq> None)"

definition pd_age :: "rat \<Rightarrow> probe_deadline \<Rightarrow> rat" where
  "pd_age now d = (if pd_outstanding d then max 0 (now - the (pd_sentAt d)) else 0)"

definition pd_sent :: "rat \<Rightarrow> probe_deadline \<Rightarrow> probe_deadline" where
  "pd_sent now d = (if pd_enabled d then d\<lparr>pd_sentAt := Some now\<rparr> else d)"

definition pd_observe :: "rat \<Rightarrow> probe_deadline \<Rightarrow> probe_deadline" where
  "pd_observe now d =
     (if \<not> pd_outstanding d then d
      else d\<lparr>pd_lastResponseMs := pd_age now d, pd_maxResponseMs := max (pd_maxResponseMs d) (pd_age now d), pd_sentAt := None\<rparr>)"

definition pd_timeout :: "rat \<Rightarrow> probe_deadline \<Rightarrow> probe_deadline \<times> rat" where
  "pd_timeout now d = (d\<lparr>pd_lastTimeoutAgeMs := pd_age now d, pd_sentAt := None\<rparr>, pd_age now d)"

section \<open>Dispatch of a probe\<close>

record probe_dispatch =
  pq_enabled :: bool
  pq_pendingAt :: "rat option"
  pq_token :: nat
  pq_proofObserved :: bool
  pq_lastDelayMs :: rat
  pq_maxDelayMs :: rat
  pq_lastTimeoutAgeMs :: rat

definition new_dispatch :: "bool \<Rightarrow> probe_dispatch" where
  "new_dispatch enabled = \<lparr>pq_enabled = enabled, pq_pendingAt = None, pq_token = 0, pq_proofObserved = False,
     pq_lastDelayMs = 0, pq_maxDelayMs = 0, pq_lastTimeoutAgeMs = 0\<rparr>"

definition pq_pending :: "probe_dispatch \<Rightarrow> bool" where
  "pq_pending q = (pq_enabled q \<and> pq_pendingAt q \<noteq> None)"

definition pq_age :: "rat \<Rightarrow> probe_dispatch \<Rightarrow> rat" where
  "pq_age now q = (if pq_pending q then max 0 (now - the (pq_pendingAt q)) else 0)"

definition pq_begin :: "rat \<Rightarrow> probe_dispatch \<Rightarrow> probe_dispatch \<times> nat" where
  "pq_begin now q =
     (if \<not> pq_enabled q then (q, 0)
      else (q\<lparr>pq_token := Suc (pq_token q), pq_pendingAt := Some now, pq_proofObserved := False\<rparr>, Suc (pq_token q)))"

definition pq_cancel :: "nat \<Rightarrow> probe_dispatch \<Rightarrow> probe_dispatch \<times> bool" where
  "pq_cancel token q =
     (if token \<noteq> pq_token q then (q, False) else (q\<lparr>pq_pendingAt := None, pq_proofObserved := False\<rparr>, True))"

text \<open>The result of \<open>complete\<close>: whether an answer was already seen, \<open>None\<close> for a token that is not current.\<close>

definition pq_complete :: "nat \<Rightarrow> rat \<Rightarrow> probe_dispatch \<Rightarrow> probe_dispatch \<times> bool option" where
  "pq_complete token now q =
     (if token \<noteq> pq_token q \<or> \<not> pq_pending q then (q, None)
      else (q\<lparr>pq_lastDelayMs := pq_age now q, pq_maxDelayMs := max (pq_maxDelayMs q) (pq_age now q),
              pq_pendingAt := None, pq_proofObserved := False\<rparr>, Some (pq_proofObserved q)))"

definition pq_observeProof :: "probe_dispatch \<Rightarrow> probe_dispatch" where
  "pq_observeProof q = (if pq_pending q then q\<lparr>pq_proofObserved := True\<rparr> else q)"

definition pq_reset :: "probe_dispatch \<Rightarrow> probe_dispatch" where
  "pq_reset q = q\<lparr>pq_pendingAt := None, pq_proofObserved := False, pq_token := Suc (pq_token q)\<rparr>"

definition pq_timeout :: "rat \<Rightarrow> probe_dispatch \<Rightarrow> probe_dispatch \<times> rat" where
  "pq_timeout now q = (pq_reset (q\<lparr>pq_lastTimeoutAgeMs := pq_age now q\<rparr>), pq_age now q)"

section \<open>Callbacks\<close>

datatype timeout_cause =
    StalePause
  | Silence
  | ProbeDispatchAge rat
  | ProbeAge rat
  | ConfirmationDispatchAge rat
  | ConfirmationAge rat

datatype beat_effect =
    SendHeartbeat
  | SendProbe nat
  | SendConfirmation nat
  | Suspect
  | Recovered string bool
  | StallWarning bool
  | TimedOut rat rat timeout_cause   \<comment> \<open>silence, event loop lag, cause\<close>

section \<open>Confirmation of the transport\<close>

record confirmation =
  cf_enabled :: bool
  cf_timeoutMs :: int
  cf_dispatchTimeoutMs :: int
  cf_dispatch :: probe_dispatch
  cf_deadline :: probe_deadline
  cf_startedAt :: "rat option"

definition new_confirmation :: "bool \<Rightarrow> jsv \<Rightarrow> jsv \<Rightarrow> confirmation" where
  "new_confirmation enabled timeout dispatchTimeout =
     \<lparr>cf_enabled = enabled, cf_timeoutMs = positiveInteger timeout 15000, cf_dispatchTimeoutMs = positiveInteger dispatchTimeout 30000,
      cf_dispatch = new_dispatch enabled, cf_deadline = new_deadline enabled, cf_startedAt = None\<rparr>"

definition cf_pending :: "confirmation \<Rightarrow> bool" where
  "cf_pending c = (pq_pending (cf_dispatch c) \<or> pd_outstanding (cf_deadline c))"

definition cf_reset :: "confirmation \<Rightarrow> confirmation" where
  "cf_reset c = c\<lparr>cf_dispatch := pq_reset (cf_dispatch c), cf_deadline := pd_reset (cf_deadline c), cf_startedAt := None\<rparr>"

definition cf_begin :: "rat \<Rightarrow> bool \<Rightarrow> confirmation \<Rightarrow> confirmation \<times> bool \<times> beat_effect list" where
  "cf_begin now requested c =
     (if \<not> cf_enabled c \<or> cf_pending c then (c, False, [])
      else case pq_begin now (cf_dispatch c) of
        (q, token) \<Rightarrow>
          (let c' = c\<lparr>cf_startedAt := Some now, cf_dispatch := q\<rparr> in
           (if requested then c' else cf_reset c', requested, [Suspect, SendConfirmation token])))"

text \<open>The callback of the confirmation's send.\<close>

definition cf_dispatched :: "nat \<Rightarrow> bool \<Rightarrow> rat \<Rightarrow> confirmation \<Rightarrow> confirmation" where
  "cf_dispatched token failed sentAt c =
     (if failed then
        (case pq_cancel token (cf_dispatch c) of (q, cancelled) \<Rightarrow>
           c\<lparr>cf_dispatch := q, cf_startedAt := (if cancelled then None else cf_startedAt c)\<rparr>)
      else case pq_complete token sentAt (cf_dispatch c) of
        (q, Some False) \<Rightarrow> c\<lparr>cf_dispatch := q, cf_deadline := pd_sent sentAt (cf_deadline c)\<rparr>
      | (q, _) \<Rightarrow> c\<lparr>cf_dispatch := q\<rparr>)"

definition cf_observe :: "rat \<Rightarrow> confirmation \<Rightarrow> confirmation \<times> beat_effect list" where
  "cf_observe now c =
     (if \<not> cf_pending c then (c, [])
      else (cf_reset (c\<lparr>cf_dispatch := pq_observeProof (cf_dispatch c), cf_deadline := pd_observe now (cf_deadline c)\<rparr>),
            [Recovered ''inbound_confirmation'' True]))"

definition cf_dispatchExpired :: "rat \<Rightarrow> confirmation \<Rightarrow> bool" where
  "cf_dispatchExpired now c = (pq_pending (cf_dispatch c) \<and> pq_age now (cf_dispatch c) \<ge> of_int (cf_dispatchTimeoutMs c))"

definition cf_expired :: "rat \<Rightarrow> confirmation \<Rightarrow> bool" where
  "cf_expired now c = (pd_outstanding (cf_deadline c) \<and> pd_age now (cf_deadline c) \<ge> of_int (cf_timeoutMs c))"

definition cf_dispatchTimeout :: "rat \<Rightarrow> confirmation \<Rightarrow> confirmation \<times> rat" where
  "cf_dispatchTimeout now c =
     (case pq_timeout now (cf_dispatch c) of (q, age) \<Rightarrow> (c\<lparr>cf_dispatch := q, cf_startedAt := None\<rparr>, age))"

definition cf_timeout :: "rat \<Rightarrow> confirmation \<Rightarrow> confirmation \<times> rat" where
  "cf_timeout now c =
     (case pd_timeout now (cf_deadline c) of (d, age) \<Rightarrow> (c\<lparr>cf_deadline := d, cf_startedAt := None\<rparr>, age))"

definition cf_cancel :: "string \<Rightarrow> confirmation \<Rightarrow> confirmation \<times> beat_effect list" where
  "cf_cancel reason c = (if \<not> cf_pending c then (c, []) else (cf_reset c, [Recovered reason False]))"

section \<open>A stalled event loop\<close>

record stall =
  st_lastLagMs :: rat
  st_maxLagMs :: rat
  st_count :: nat
  st_lastWallAt :: rat
  st_lastStallLagMs :: rat
  st_lastWarnAt :: rat

definition new_stall :: stall where
  "new_stall = \<lparr>st_lastLagMs = 0, st_maxLagMs = 0, st_count = 0, st_lastWallAt = 0, st_lastStallLagMs = 0, st_lastWarnAt = 0\<rparr>"

definition recordLag :: "rat \<Rightarrow> stall \<Rightarrow> stall" where
  "recordLag lag s = s\<lparr>st_lastLagMs := lag, st_maxLagMs := max (st_maxLagMs s) lag\<rparr>"

definition observe_stall :: "int \<Rightarrow> rat \<Rightarrow> rat \<Rightarrow> rat \<Rightarrow> bool \<Rightarrow> stall \<Rightarrow> stall \<times> beat_effect list" where
  "observe_stall timeoutMs wall now lag deferred s =
     (let s' = s\<lparr>st_count := Suc (st_count s), st_lastWallAt := wall, st_lastStallLagMs := lag\<rparr> in
      if st_lastWarnAt s' \<noteq> 0 \<and> now - st_lastWarnAt s' < of_int timeoutMs then (s', [])
      else (s'\<lparr>st_lastWarnAt := now\<rparr>, [StallWarning deferred]))"

section \<open>The heartbeat monitor\<close>

record timing =
  intervalMs :: int
  timeoutMs :: int
  stallThresholdMs :: int
  recoveryGraceMs :: int
  dispatchTimeoutMs :: int

definition normalizeRelayHeartbeatTiming :: "jsv \<Rightarrow> timing" where
  "normalizeRelayHeartbeatTiming options =
     (let interval = positiveInteger (js_get options ''intervalMs'') 25000;
          limit = positiveInteger (js_get options ''timeoutMs'') 75000
      in \<lparr>intervalMs = interval, timeoutMs = limit,
          stallThresholdMs = positiveInteger (js_get options ''stallThresholdMs'') (max 1000 (interval div 2)),
          recoveryGraceMs = positiveInteger (js_get options ''recoveryGraceMs'') (max interval (min limit 30000)),
          dispatchTimeoutMs = positiveInteger (js_get options ''dispatchTimeoutMs'') (max 30000 (limit * 3))\<rparr>)"

record monitor =
  hb_timing :: timing
  hb_deadline :: probe_deadline
  hb_dispatch :: probe_dispatch
  hb_confirmation :: confirmation
  hb_stall :: stall
  hb_timer :: bool
  hb_expectedAt :: rat
  hb_recoveryUntil :: rat

definition new_monitor :: "jsv \<Rightarrow> bool \<Rightarrow> jsv \<Rightarrow> monitor" where
  "new_monitor options timeoutAfterProbe confirmationTimeoutMs =
     (let t = normalizeRelayHeartbeatTiming options
      in \<lparr>hb_timing = t, hb_deadline = new_deadline timeoutAfterProbe, hb_dispatch = new_dispatch timeoutAfterProbe,
          hb_confirmation = new_confirmation timeoutAfterProbe confirmationTimeoutMs (JNum (Fin (of_int (dispatchTimeoutMs t)))),
          hb_stall = new_stall, hb_timer = False, hb_expectedAt = 0, hb_recoveryUntil = 0\<rparr>)"

definition stop_monitor :: "monitor \<Rightarrow> monitor" where
  "stop_monitor m = m\<lparr>hb_timer := False, hb_expectedAt := 0, hb_recoveryUntil := 0, hb_deadline := pd_reset (hb_deadline m),
     hb_dispatch := pq_reset (hb_dispatch m), hb_confirmation := cf_reset (hb_confirmation m)\<rparr>"

definition start_monitor :: "rat \<Rightarrow> monitor \<Rightarrow> monitor" where
  "start_monitor now m = (stop_monitor m)\<lparr>hb_expectedAt := now + of_int (intervalMs (hb_timing m)), hb_recoveryUntil := 0, hb_timer := True\<rparr>"

definition observe_monitor :: "rat \<Rightarrow> monitor \<Rightarrow> monitor \<times> beat_effect list" where
  "observe_monitor now m =
     (case cf_observe now (hb_confirmation m) of
        (c, es) \<Rightarrow> (m\<lparr>hb_dispatch := pq_observeProof (hb_dispatch m), hb_deadline := pd_observe now (hb_deadline m),
                      hb_confirmation := c, hb_recoveryUntil := 0\<rparr>, es))"

definition sendProbe :: "rat \<Rightarrow> bool \<Rightarrow> monitor \<Rightarrow> monitor \<times> beat_effect list" where
  "sendProbe now sent m =
     (if \<not> pd_enabled (hb_deadline m) then (m, [SendHeartbeat])
      else case pq_begin now (hb_dispatch m) of
        (q, token) \<Rightarrow> (m\<lparr>hb_dispatch := (if sent then q else fst (pq_cancel token q))\<rparr>, [SendProbe token]))"

text \<open>The callback of a probe's send.\<close>

definition probe_dispatched :: "nat \<Rightarrow> rat \<Rightarrow> monitor \<Rightarrow> monitor" where
  "probe_dispatched token sentAt m =
     (case pq_complete token sentAt (hb_dispatch m) of
        (q, Some False) \<Rightarrow> m\<lparr>hb_dispatch := q, hb_deadline := pd_sent sentAt (hb_deadline m)\<rparr>
      | (q, _) \<Rightarrow> m\<lparr>hb_dispatch := q\<rparr>)"

definition silence :: "rat \<Rightarrow> rat \<Rightarrow> rat" where
  "silence now inbound = max 0 (now - inbound)"

text \<open>\<open>None\<close> when the monitor does not follow probes, so that plain silence decides.\<close>

definition advanceRelayTransportState :: "rat \<Rightarrow> rat \<Rightarrow> rat \<Rightarrow> bool \<Rightarrow> monitor \<Rightarrow> (monitor \<times> beat_effect list) option" where
  "advanceRelayTransportState now silent lag sent m =
     (let c = hb_confirmation m in
      if cf_pending c then
        Some (if cf_dispatchExpired now c then
                (case cf_dispatchTimeout now c of (c', age) \<Rightarrow> (m\<lparr>hb_confirmation := c'\<rparr>, [TimedOut silent lag (ConfirmationDispatchAge age)]))
              else if cf_expired now c then
                (case cf_timeout now c of (c', age) \<Rightarrow> (m\<lparr>hb_confirmation := c'\<rparr>, [TimedOut silent lag (ConfirmationAge age)]))
              else (m, []))
      else if \<not> pd_enabled (hb_deadline m) then None
      else if pq_pending (hb_dispatch m) then
        Some (if pq_age now (hb_dispatch m) \<ge> of_int (dispatchTimeoutMs (hb_timing m)) then
                (m\<lparr>hb_dispatch := fst (pq_timeout now (hb_dispatch m))\<rparr>,
                 [TimedOut silent lag (ProbeDispatchAge (pq_age now (hb_dispatch m)))])
              else (m, []))
      else if pd_outstanding (hb_deadline m) then
        Some (if pd_age now (hb_deadline m) \<ge> of_int (timeoutMs (hb_timing m)) then
                (case pd_timeout now (hb_deadline m) of (d, age) \<Rightarrow>
                 case cf_begin now sent c of (c', requested, es) \<Rightarrow>
                   (m\<lparr>hb_deadline := d, hb_confirmation := c'\<rparr>, es @ (if requested then [] else [TimedOut silent lag (ProbeAge age)])))
              else (m, []))
      else Some (sendProbe now sent m))"

definition stalled_tick :: "rat \<Rightarrow> rat \<Rightarrow> rat \<Rightarrow> bool \<Rightarrow> rat \<Rightarrow> monitor \<Rightarrow> monitor \<times> beat_effect list" where
  "stalled_tick now inbound lag sent wall m =
     (let t = hb_timing m; silent = silence now inbound;
          stale = (lag > of_int (timeoutMs t + recoveryGraceMs t) \<and> silent > of_int (timeoutMs t));
          (s, warned) = observe_stall (timeoutMs t) wall now lag (\<not> stale) (hb_stall m);
          m1 = m\<lparr>hb_stall := s\<rparr>
      in if stale then (m1\<lparr>hb_recoveryUntil := 0\<rparr>, warned @ [TimedOut silent lag StalePause])
         else (let (c, recovered) = cf_cancel ''local_event_loop_stall'' (hb_confirmation m1);
                   m2 = m1\<lparr>hb_recoveryUntil := max (hb_recoveryUntil m1) (now + of_int (recoveryGraceMs t)),
                           hb_deadline := pd_reset (hb_deadline m1), hb_confirmation := c\<rparr>;
                   (m3, es) = (if pq_pending (hb_dispatch m2) then (m2, []) else sendProbe now sent m2)
               in (m3, warned @ recovered @ es)))"

definition tick :: "rat \<Rightarrow> bool \<Rightarrow> rat \<Rightarrow> bool \<Rightarrow> rat \<Rightarrow> monitor \<Rightarrow> monitor \<times> beat_effect list" where
  "tick now active inbound sent wall m =
     (let expectedAt = (if hb_expectedAt m \<noteq> 0 then hb_expectedAt m else now);
          lag = max 0 (now - expectedAt);
          m0 = m\<lparr>hb_expectedAt := now + of_int (intervalMs (hb_timing m))\<rparr>
      in if \<not> active then (m0, [])
         else (let m1 = m0\<lparr>hb_stall := recordLag lag (hb_stall m0)\<rparr> in
           if lag \<ge> of_int (stallThresholdMs (hb_timing m1)) then stalled_tick now inbound lag sent wall m1
           else if now < hb_recoveryUntil m1 then
             (if \<not> pd_outstanding (hb_deadline m1) \<and> \<not> pq_pending (hb_dispatch m1) then sendProbe now sent m1 else (m1, []))
           else (case advanceRelayTransportState now (silence now inbound) lag sent m1 of
               Some r \<Rightarrow> r
             | None \<Rightarrow> if silence now inbound \<ge> of_int (timeoutMs (hb_timing m1))
                         then (m1, [TimedOut (silence now inbound) lag Silence]) else (m1, [SendHeartbeat]))))"

section \<open>The two monitors of a connection\<close>

record liveness =
  lv_lastInboundAt :: rat
  lv_lastApplicationInboundAt :: rat
  lv_transport :: monitor
  lv_application :: monitor

definition or_else :: "jsv \<Rightarrow> jsv \<Rightarrow> jsv" where
  "or_else v w = (if v = JUndef \<or> v = JNull then w else v)"

definition int_js :: "int \<Rightarrow> jsv" where
  "int_js k = JNum (Fin (of_int k))"

definition new_liveness :: "jsv \<Rightarrow> liveness" where
  "new_liveness options =
     (let interval = positiveInteger (or_else (js_get options ''transportPingIntervalMs'') (js_get options ''heartbeatIntervalMs'')) 5000
      in \<lparr>lv_lastInboundAt = 0, lv_lastApplicationInboundAt = 0,
          lv_transport = new_monitor (JObj [(''intervalMs'', int_js interval),
              (''timeoutMs'', int_js (positiveInteger (or_else (js_get options ''transportPongTimeoutMs'') (js_get options ''heartbeatTimeoutMs'')) 10000)),
              (''stallThresholdMs'', js_get options ''heartbeatStallThresholdMs''),
              (''recoveryGraceMs'', or_else (js_get options ''heartbeatRecoveryGraceMs'') (int_js interval)),
              (''dispatchTimeoutMs'', int_js (positiveInteger (js_get options ''transportPingDispatchTimeoutMs'') 30000))])
            True (int_js (positiveInteger (js_get options ''transportConfirmationTimeoutMs'') 15000)),
          lv_application = new_monitor (JObj [
              (''intervalMs'', int_js (positiveInteger (js_get options ''applicationHeartbeatIntervalMs'') 25000)),
              (''timeoutMs'', int_js (positiveInteger (js_get options ''applicationHeartbeatTimeoutMs'') 75000)),
              (''stallThresholdMs'', js_get options ''heartbeatStallThresholdMs''),
              (''recoveryGraceMs'', js_get options ''heartbeatRecoveryGraceMs'')])
            False JUndef\<rparr>)"

datatype liveness_event =
    LvStart rat
  | LvStop rat
  | LvInbound rat
  | LvApplicationInbound rat
  | LvApplicationPong rat
  | LvTransportTick rat bool bool rat
  | LvApplicationTick rat bool bool rat
  | LvProbeDispatched rat nat
  | LvConfirmationDispatched rat nat bool

fun liveness_step :: "liveness \<Rightarrow> liveness_event \<Rightarrow> liveness \<times> beat_effect list" where
  "liveness_step l (LvStart now) =
     (l\<lparr>lv_lastInboundAt := now, lv_lastApplicationInboundAt := now, lv_transport := start_monitor now (lv_transport l),
        lv_application := start_monitor now (lv_application l)\<rparr>, [])"
| "liveness_step l (LvStop now) =
     (l\<lparr>lv_transport := stop_monitor (lv_transport l), lv_application := stop_monitor (lv_application l)\<rparr>, [])"
| "liveness_step l (LvInbound now) =
     (case observe_monitor now (lv_transport l) of
        (m, es) \<Rightarrow> (l\<lparr>lv_lastInboundAt := now, lv_transport := m\<rparr>, es))"
| "liveness_step l (LvApplicationInbound now) =
     (case observe_monitor now (lv_application l) of
        (m, es) \<Rightarrow> (l\<lparr>lv_lastInboundAt := now, lv_lastApplicationInboundAt := now, lv_application := m\<rparr>, es))"
| "liveness_step l (LvApplicationPong now) =
     (case observe_monitor now (lv_transport l) of (m, es) \<Rightarrow>
      case observe_monitor now (lv_application l) of (n, fs) \<Rightarrow>
        (l\<lparr>lv_lastInboundAt := now, lv_lastApplicationInboundAt := now, lv_transport := m, lv_application := n\<rparr>, es @ fs))"
| "liveness_step l (LvTransportTick now active sent wall) =
     (if \<not> hb_timer (lv_transport l) then (l, [])
      else case tick now active (lv_lastInboundAt l) sent wall (lv_transport l) of (m, es) \<Rightarrow> (l\<lparr>lv_transport := m\<rparr>, es))"
| "liveness_step l (LvApplicationTick now active sent wall) =
     (if \<not> hb_timer (lv_application l) then (l, [])
      else case tick now active (lv_lastApplicationInboundAt l) sent wall (lv_application l) of (m, es) \<Rightarrow> (l\<lparr>lv_application := m\<rparr>, es))"
| "liveness_step l (LvProbeDispatched sentAt token) = (l\<lparr>lv_transport := probe_dispatched token sentAt (lv_transport l)\<rparr>, [])"
| "liveness_step l (LvConfirmationDispatched sentAt token failed) =
     (l\<lparr>lv_transport := (lv_transport l)\<lparr>hb_confirmation := cf_dispatched token failed sentAt (hb_confirmation (lv_transport l))\<rparr>\<rparr>, [])"

definition silenceMs :: "rat \<Rightarrow> liveness \<Rightarrow> rat" where
  "silenceMs now l = (if lv_lastInboundAt l > 0 then silence now (lv_lastInboundAt l) else 0)"

end
