(* ===== verification/RelayHeartbeatSpec.thy ===== *)
theory RelayHeartbeatSpec
  imports RelayHeartbeat
begin

text \<open>
  What the liveness monitors of the relay guarantee.  Soundness: a transport timeout is always justified by the time
  since the last proof of the transport, an invariant of every run.  Detection: between two proofs the transport
  monitor is a small machine of five phases (a refinement of \<open>tick\<close>), whose waits are bounded, so that a transport
  that stops answering is declared dead in bounded time.
\<close>

section \<open>What a pending wait says about the last answer\<close>

text \<open>The start of a wait that is still on is not before the time \<open>p\<close>.\<close>

definition deadline_after :: "rat \<Rightarrow> probe_deadline \<Rightarrow> bool" where
  "deadline_after p d = (pd_outstanding d \<longrightarrow> p \<le> the (pd_sentAt d))"

definition dispatch_after :: "rat \<Rightarrow> probe_dispatch \<Rightarrow> bool" where
  "dispatch_after p q = (pq_pending q \<longrightarrow> p \<le> the (pq_pendingAt q))"

definition confirmation_after :: "rat \<Rightarrow> confirmation \<Rightarrow> bool" where
  "confirmation_after p c = (dispatch_after p (cf_dispatch c) \<and> deadline_after p (cf_deadline c))"

definition waits_after :: "rat \<Rightarrow> monitor \<Rightarrow> bool" where
  "waits_after p m = (deadline_after p (hb_deadline m) \<and> confirmation_after p (hb_confirmation m))"

lemma not_outstanding [simp]:
  "\<not> pd_outstanding (pd_reset d)" "\<not> pd_outstanding (pd_observe now d)" "\<not> pd_outstanding (fst (pd_timeout now d))"
  "\<not> pq_pending (pq_reset q)" "\<not> pq_pending (fst (pq_timeout now q))"
  by (auto simp: pd_outstanding_def pd_reset_def pd_observe_def pd_timeout_def pq_pending_def pq_reset_def pq_timeout_def)

lemma after_idle [simp]:
  "deadline_after p (pd_reset d)" "deadline_after p (pd_observe now d)" "deadline_after p (fst (pd_timeout now d))"
  "dispatch_after p (pq_reset q)" "dispatch_after p (fst (pq_timeout now q))"
  "confirmation_after p (cf_reset c)"
  by (simp_all add: deadline_after_def dispatch_after_def confirmation_after_def cf_reset_def)

lemma after_observe [simp]: "waits_after p (fst (observe_monitor now m))"
  by (auto simp: observe_monitor_def waits_after_def cf_observe_def cf_pending_def confirmation_after_def dispatch_after_def
      deadline_after_def cf_reset_def split: if_splits)

lemma after_stop [simp]: "waits_after p (stop_monitor m)" "waits_after p (start_monitor now m)"
  by (simp_all add: stop_monitor_def start_monitor_def waits_after_def)

lemma age_after:
  "p \<le> now \<Longrightarrow> deadline_after p d \<Longrightarrow> pd_age now d \<le> now - p" "p \<le> now \<Longrightarrow> dispatch_after p q \<Longrightarrow> pq_age now q \<le> now - p"
  by (auto simp: pd_age_def pq_age_def deadline_after_def dispatch_after_def)

lemma after_sent: "p \<le> t \<Longrightarrow> deadline_after p d \<Longrightarrow> deadline_after p (pd_sent t d)"
  by (auto simp: deadline_after_def pd_sent_def pd_outstanding_def)

lemma after_begin: "p \<le> now \<Longrightarrow> dispatch_after p q \<Longrightarrow> dispatch_after p (fst (pq_begin now q))"
  by (auto simp: dispatch_after_def pq_begin_def pq_pending_def)

lemma after_cancel: "dispatch_after p q \<Longrightarrow> dispatch_after p (fst (pq_cancel token q))"
  by (auto simp: dispatch_after_def pq_cancel_def pq_pending_def)

lemma after_complete: "dispatch_after p q \<Longrightarrow> dispatch_after p (fst (pq_complete token now q))"
  by (auto simp: dispatch_after_def pq_complete_def pq_pending_def)

lemma after_confirmation_sent:
  "p \<le> t \<Longrightarrow> confirmation_after p c \<Longrightarrow> confirmation_after p (cf_dispatched token failed t c)"
  using after_cancel [of p "cf_dispatch c" token] after_complete [of p "cf_dispatch c" token t] after_sent [of p t "cf_deadline c"]
  by (auto simp: cf_dispatched_def confirmation_after_def split: prod.split option.split bool.split)

lemma after_probe_sent: "p \<le> t \<Longrightarrow> waits_after p m \<Longrightarrow> waits_after p (probe_dispatched token t m)"
  using after_sent [of p t "hb_deadline m"]
  by (auto simp: probe_dispatched_def waits_after_def split: prod.split option.split bool.split)

lemma after_confirmation_begin: "p \<le> now \<Longrightarrow> confirmation_after p c \<Longrightarrow> confirmation_after p (fst (cf_begin now requested c))"
  using after_begin [of p now "cf_dispatch c"]
  by (auto simp: cf_begin_def confirmation_after_def cf_reset_def Let_def split: prod.split)

lemma after_send: "waits_after p m \<Longrightarrow> waits_after p (fst (sendProbe now sent m))"
  by (auto simp: sendProbe_def waits_after_def split: prod.split)

section \<open>What a timeout says\<close>

definition justified :: "monitor \<Rightarrow> rat \<Rightarrow> rat \<Rightarrow> beat_effect \<Rightarrow> bool" where
  "justified m now p e = (case e of
     TimedOut silent lag cause \<Rightarrow> (case cause of
         ProbeDispatchAge age \<Rightarrow> of_int (dispatchTimeoutMs (hb_timing m)) \<le> age
       | ConfirmationDispatchAge age \<Rightarrow> of_int (cf_dispatchTimeoutMs (hb_confirmation m)) \<le> now - p
       | ConfirmationAge age \<Rightarrow> of_int (cf_timeoutMs (hb_confirmation m)) \<le> now - p
       | _ \<Rightarrow> of_int (timeoutMs (hb_timing m)) \<le> now - p)
   | _ \<Rightarrow> True)"

lemma justified_other [simp]:
  "justified m now p SendHeartbeat" "justified m now p (SendProbe t)" "justified m now p (SendConfirmation t)"
  "justified m now p Suspect" "justified m now p (Recovered r b)" "justified m now p (StallWarning b)"
  by (simp_all add: justified_def)

lemma silence_le: "p \<le> now \<Longrightarrow> p \<le> inbound \<Longrightarrow> silence now inbound \<le> now - p"
  by (simp add: silence_def)

lemma send_justified: "list_all (justified m' now p) (snd (sendProbe now sent m))"
  by (simp add: sendProbe_def split: prod.split)

lemma begin_justified: "list_all (justified m' now p) (snd (snd (cf_begin now requested c)))"
  by (simp add: cf_begin_def Let_def split: prod.split)

lemma advance_justified:
  assumes "advanceRelayTransportState now silent lag sent m = Some r" "waits_after p m" "p \<le> now"
    "hb_timing m' = hb_timing m" "hb_confirmation m' = hb_confirmation m"
  shows "waits_after p (fst r) \<and> list_all (justified m' now p) (snd r)"
proof -
  let ?c = "hb_confirmation m"
  have w: "deadline_after p (hb_deadline m)" "dispatch_after p (cf_dispatch ?c)" "deadline_after p (cf_deadline ?c)" "confirmation_after p ?c"
    using assms(2) by (auto simp: waits_after_def confirmation_after_def)
  note ages = age_after(1) [OF assms(3) w(1)] age_after(2) [OF assms(3) w(2)] age_after(1) [OF assms(3) w(3)]
  consider (dispatch) "cf_dispatchExpired now ?c" "r = (m\<lparr>hb_confirmation := fst (cf_dispatchTimeout now ?c)\<rparr>,
        [TimedOut silent lag (ConfirmationDispatchAge (pq_age now (cf_dispatch ?c)))])"
    | (answer) "cf_expired now ?c" "r = (m\<lparr>hb_confirmation := fst (cf_timeout now ?c)\<rparr>,
        [TimedOut silent lag (ConfirmationAge (pd_age now (cf_deadline ?c)))])"
    | (stuck) "of_int (dispatchTimeoutMs (hb_timing m)) \<le> pq_age now (hb_dispatch m)"
        "r = (m\<lparr>hb_dispatch := fst (pq_timeout now (hb_dispatch m))\<rparr>, [TimedOut silent lag (ProbeDispatchAge (pq_age now (hb_dispatch m)))])"
    | (overdue) "of_int (timeoutMs (hb_timing m)) \<le> pd_age now (hb_deadline m)"
        "r = (m\<lparr>hb_deadline := fst (pd_timeout now (hb_deadline m)), hb_confirmation := fst (cf_begin now sent ?c)\<rparr>,
          snd (snd (cf_begin now sent ?c)) @ (if fst (snd (cf_begin now sent ?c)) then [] else [TimedOut silent lag (ProbeAge (pd_age now (hb_deadline m)))]))"
    | (same) "r = (m, [])" | (send) "r = sendProbe now sent m"
    using assms(1) by (auto simp: advanceRelayTransportState_def Let_def cf_dispatchTimeout_def cf_timeout_def pd_timeout_def pq_timeout_def
        split: if_splits prod.splits)
  then show ?thesis
  proof cases
    case dispatch
    then show ?thesis using w ages assms(4,5)
      by (simp add: waits_after_def confirmation_after_def cf_dispatchTimeout_def justified_def cf_dispatchExpired_def split: prod.split)
        (metis after_idle(5) fst_conv order_trans)
  next
    case answer
    then show ?thesis using w ages assms(4,5)
      by (simp add: waits_after_def confirmation_after_def cf_timeout_def justified_def cf_expired_def split: prod.split)
        (metis after_idle(3) fst_conv order_trans)
  next
    case stuck
    then show ?thesis using w assms(4) by (simp add: waits_after_def justified_def)
  next
    case overdue
    then show ?thesis using w ages assms(3,4) begin_justified [of m' now p sent ?c] after_confirmation_begin [of p now ?c sent]
      by (auto simp: waits_after_def justified_def)
  next
    case same
    then show ?thesis using assms(2) by simp
  next
    case send
    then show ?thesis using assms(2) after_send send_justified by auto
  qed
qed

lemma stall_justified: "list_all (justified m now p) (snd (observe_stall limit wall now' lag b s))"
  by (simp add: observe_stall_def Let_def)

lemma cancel_after: "confirmation_after p c \<Longrightarrow> confirmation_after p (fst (cf_cancel reason c))"
  by (simp add: cf_cancel_def)

lemma cancel_justified: "list_all (justified m now p) (snd (cf_cancel reason c))"
  by (simp add: cf_cancel_def)

lemma stalled_justified:
  assumes "waits_after p m" "p \<le> now" "p \<le> inbound" "hb_timing m' = hb_timing m"
  shows "waits_after p (fst (stalled_tick now inbound lag sent wall m)) \<and> list_all (justified m' now p) (snd (stalled_tick now inbound lag sent wall m))"
proof -
  let ?t = "hb_timing m"
  define stale where "stale = (lag > of_int (timeoutMs ?t + recoveryGraceMs ?t) \<and> silence now inbound > of_int (timeoutMs ?t))"
  obtain s warned where s: "observe_stall (timeoutMs ?t) wall now lag (\<not> stale) (hb_stall m) = (s, warned)" by fastforce
  obtain c recovered where c: "cf_cancel ''local_event_loop_stall'' (hb_confirmation m) = (c, recovered)" by fastforce
  let ?m2 = "m\<lparr>hb_stall := s, hb_recoveryUntil := max (hb_recoveryUntil m) (now + of_int (recoveryGraceMs ?t)),
      hb_deadline := pd_reset (hb_deadline m), hb_confirmation := c\<rparr>"
  have r: "stalled_tick now inbound lag sent wall m =
     (if stale then (m\<lparr>hb_stall := s, hb_recoveryUntil := 0\<rparr>, warned @ [TimedOut (silence now inbound) lag StalePause])
      else (let (m3, es) = (if pq_pending (hb_dispatch m) then (?m2, []) else sendProbe now sent ?m2) in (m3, warned @ recovered @ es)))"
    using s c by (simp add: stalled_tick_def Let_def stale_def split: prod.split)
  have j: "list_all (justified m' now p) warned" "list_all (justified m' now p) recovered"
    using stall_justified [of m' now p "timeoutMs ?t" wall now lag "\<not> stale" "hb_stall m"] cancel_justified [of m' now p _ "hb_confirmation m"]
    by (metis s snd_conv, metis c snd_conv)
  have "confirmation_after p c" using cancel_after [of p "hb_confirmation m"] assms(1) by (metis c fst_conv waits_after_def)
  then have w: "waits_after p ?m2" by (simp add: waits_after_def)
  show ?thesis
  proof (cases stale)
    case True
    then have "of_int (timeoutMs (hb_timing m')) \<le> now - p"
      using silence_le [OF assms(2,3)] assms(4) by (auto simp: stale_def)
    with True j assms(1) show ?thesis by (simp add: r waits_after_def justified_def)
  next
    case False
    obtain m3 es where n: "sendProbe now sent ?m2 = (m3, es)" by fastforce
    from False w j after_send [OF w, of now sent] send_justified [of m' now p sent ?m2] show ?thesis
      by (simp add: r n del: monitor.simps)
  qed
qed

definition lag_of :: "rat \<Rightarrow> monitor \<Rightarrow> rat" where
  "lag_of now m = max 0 (now - (if hb_expectedAt m \<noteq> 0 then hb_expectedAt m else now))"

definition ticked :: "rat \<Rightarrow> monitor \<Rightarrow> monitor" where
  "ticked now m = m\<lparr>hb_expectedAt := now + of_int (intervalMs (hb_timing m)), hb_stall := recordLag (lag_of now m) (hb_stall m)\<rparr>"

lemma ticked_simps [simp]:
  "hb_timing (ticked now m) = hb_timing m" "hb_deadline (ticked now m) = hb_deadline m" "hb_dispatch (ticked now m) = hb_dispatch m"
  "hb_confirmation (ticked now m) = hb_confirmation m" "hb_timer (ticked now m) = hb_timer m"
  "hb_recoveryUntil (ticked now m) = hb_recoveryUntil m" "hb_expectedAt (ticked now m) = now + of_int (intervalMs (hb_timing m))"
  by (simp_all add: ticked_def)

lemma tick_unfold:
  "tick now active inbound sent wall m =
     (if \<not> active then (m\<lparr>hb_expectedAt := now + of_int (intervalMs (hb_timing m))\<rparr>, [])
      else if lag_of now m \<ge> of_int (stallThresholdMs (hb_timing m)) then stalled_tick now inbound (lag_of now m) sent wall (ticked now m)
      else if now < hb_recoveryUntil m then
        (if \<not> pd_outstanding (hb_deadline m) \<and> \<not> pq_pending (hb_dispatch m) then sendProbe now sent (ticked now m) else (ticked now m, []))
      else (case advanceRelayTransportState now (silence now inbound) (lag_of now m) sent (ticked now m) of
          Some r \<Rightarrow> r
        | None \<Rightarrow> if silence now inbound \<ge> of_int (timeoutMs (hb_timing m))
                    then (ticked now m, [TimedOut (silence now inbound) (lag_of now m) Silence]) else (ticked now m, [SendHeartbeat])))"
  by (simp only: tick_def Let_def lag_of_def [symmetric] ticked_def monitor.simps)
    (simp add: ticked_def cong: option.case_cong)

lemma tick_justified:
  assumes "waits_after p m" "p \<le> now" "p \<le> inbound"
  shows "waits_after p (fst (tick now active inbound sent wall m)) \<and> list_all (justified m now p) (snd (tick now active inbound sent wall m))"
proof -
  have w: "waits_after p (ticked now m)" using assms(1) by (simp add: waits_after_def)
  have t: "of_int (timeoutMs (hb_timing m)) \<le> silence now inbound \<Longrightarrow> justified m now p (TimedOut (silence now inbound) lag Silence)" for lag
    using silence_le [OF assms(2,3)] by (simp add: justified_def)
  have s: "waits_after p (fst (stalled_tick now inbound lag sent wall (ticked now m)))
      \<and> list_all (justified m now p) (snd (stalled_tick now inbound lag sent wall (ticked now m)))" for lag
    by (rule stalled_justified [OF w assms(2,3)]) simp
  have i: "waits_after p (m\<lparr>hb_expectedAt := k\<rparr>)" for k using assms(1) by (simp add: waits_after_def)
  show ?thesis
    unfolding tick_unfold
    using s w t i after_send [OF w] send_justified advance_justified [OF _ w assms(2), of _ _ _ _ m] by (auto split: option.split)
qed

section \<open>The transport monitor in a run\<close>

fun event_time :: "liveness_event \<Rightarrow> rat" where
  "event_time (LvStart t) = t"
| "event_time (LvStop t) = t"
| "event_time (LvInbound t) = t"
| "event_time (LvApplicationInbound t) = t"
| "event_time (LvApplicationPong t) = t"
| "event_time (LvTransportTick t _ _ _) = t"
| "event_time (LvApplicationTick t _ _ _) = t"
| "event_time (LvProbeDispatched t _) = t"
| "event_time (LvConfirmationDispatched t _ _) = t"

text \<open>The events that prove the transport: the start of a connection, a frame of the peer's protocol, an application pong.\<close>

fun transport_proof :: "liveness_event \<Rightarrow> bool" where
  "transport_proof (LvStart t) = True"
| "transport_proof (LvInbound t) = True"
| "transport_proof (LvApplicationPong t) = True"
| "transport_proof _ = False"

definition last_proof :: "liveness_event list \<Rightarrow> rat" where
  "last_proof es = foldl (\<lambda>p e. if transport_proof e then event_time e else p) 0 es"

definition liveness_run :: "liveness \<Rightarrow> liveness_event list \<Rightarrow> liveness" where
  "liveness_run l es = foldl (\<lambda>l e. fst (liveness_step l e)) l es"

definition live_inv :: "rat \<Rightarrow> liveness \<Rightarrow> bool" where
  "live_inv p l = (waits_after p (lv_transport l) \<and> p \<le> lv_lastInboundAt l)"

lemma live_step:
  assumes "live_inv p l" "p \<le> event_time e"
  shows "live_inv (if transport_proof e then event_time e else p) (fst (liveness_step l e))"
proof (cases e)
  case (LvInbound t)
  then show ?thesis using after_observe [of t t "lv_transport l"]
    by (cases "observe_monitor t (lv_transport l)") (simp add: live_inv_def)
next
  case (LvApplicationPong t)
  then show ?thesis using after_observe [of t t "lv_transport l"]
    by (cases "observe_monitor t (lv_transport l)"; cases "observe_monitor t (lv_application l)") (simp add: live_inv_def)
next
  case (LvTransportTick t active sent wall)
  then show ?thesis using assms tick_justified [of p "lv_transport l" t "lv_lastInboundAt l" active sent wall]
    by (auto simp: live_inv_def split: prod.split)
next
  case (LvProbeDispatched t token)
  then show ?thesis using assms after_probe_sent [of p t "lv_transport l" token] by (simp add: live_inv_def)
next
  case (LvConfirmationDispatched t token failed)
  then show ?thesis using assms after_confirmation_sent [of p t "hb_confirmation (lv_transport l)" token failed]
    by (simp add: live_inv_def waits_after_def)
qed (use assms in \<open>auto simp: live_inv_def split: prod.split\<close>)

lemma live_run:
  "sorted (p # map event_time es) \<Longrightarrow> live_inv p l \<Longrightarrow>
   (let q = foldl (\<lambda>p e. if transport_proof e then event_time e else p) p es in
     live_inv q (liveness_run l es) \<and> (\<forall>t. (\<forall>e \<in> set es. event_time e \<le> t) \<and> p \<le> t \<longrightarrow> q \<le> t))"
proof (induction es arbitrary: p l)
  case Nil
  then show ?case by (simp add: liveness_run_def)
next
  case (Cons e es)
  let ?p = "if transport_proof e then event_time e else p"
  have s: "sorted (?p # map event_time es)" using Cons.prems(1) by auto
  have i: "live_inv ?p (fst (liveness_step l e))" using Cons.prems by (intro live_step) auto
  from Cons.IH [OF s i] show ?case by (auto simp: Let_def liveness_run_def)
qed

lemma fresh_monitor [simp]: "waits_after p (new_monitor options b t)"
  by (simp add: waits_after_def new_monitor_def new_confirmation_def confirmation_after_def deadline_after_def dispatch_after_def
      new_deadline_def new_dispatch_def pd_outstanding_def pq_pending_def Let_def)

text \<open>
  C23. The transport is never declared dead while it answers.  In every run with a clock that does not go back, a
  timeout of the transport monitor means that no proof of the transport arrived for the time its cause names: the
  pong timeout, the confirmation timeout or the dispatch timeout of the confirmation; a stuck probe send, the only
  cause an answer does not clear, has waited for the dispatch timeout.
\<close>

theorem transport_timeout_justified:
  assumes "sorted (0 # map event_time es @ [now])"
    "TimedOut silent lag cause \<in> set (snd (liveness_step (liveness_run (new_liveness options) es) (LvTransportTick now active sent wall)))"
  shows "let m = lv_transport (liveness_run (new_liveness options) es) in
     case cause of
       ProbeDispatchAge age \<Rightarrow> of_int (dispatchTimeoutMs (hb_timing m)) \<le> age
     | ConfirmationDispatchAge age \<Rightarrow> of_int (cf_dispatchTimeoutMs (hb_confirmation m)) \<le> now - last_proof es
     | ConfirmationAge age \<Rightarrow> of_int (cf_timeoutMs (hb_confirmation m)) \<le> now - last_proof es
     | _ \<Rightarrow> of_int (timeoutMs (hb_timing m)) \<le> now - last_proof es"
proof -
  let ?l = "liveness_run (new_liveness options) es"
  have s: "sorted (0 # map event_time es)" "\<forall>e \<in> set es. event_time e \<le> now" "0 \<le> now"
    using assms(1) by (auto simp: sorted_append)
  have "live_inv 0 (new_liveness options)" by (simp add: live_inv_def new_liveness_def Let_def)
  from live_run [OF s(1) this] s(2,3) have i: "live_inv (last_proof es) ?l" "last_proof es \<le> now"
    by (auto simp: Let_def last_proof_def)
  then have "list_all (justified (lv_transport ?l) now (last_proof es)) (snd (tick now active (lv_lastInboundAt ?l) sent wall (lv_transport ?l)))"
    using tick_justified by (simp add: live_inv_def)
  moreover have "TimedOut silent lag cause \<in> set (snd (tick now active (lv_lastInboundAt ?l) sent wall (lv_transport ?l)))"
    using assms(2) by (auto split: if_splits prod.splits)
  ultimately have "justified (lv_transport ?l) now (last_proof es) (TimedOut silent lag cause)" by (auto simp: list_all_iff)
  then show ?thesis by (simp add: justified_def Let_def)
qed

definition silent_run :: "liveness_event list" where
  "silent_run = [LvStart 1000, LvTransportTick 6000 True True 0, LvProbeDispatched 6001 2, LvTransportTick 11000 True True 0]"

lemma transport_timeout_justified_witness:
  "(10000::rat) \<le> 16500 - last_proof silent_run"
proof -
  have t: "TimedOut 15500 500 (ProbeAge 10499)
      \<in> set (snd (liveness_step (liveness_run (new_liveness JUndef) silent_run) (LvTransportTick 16500 True False 0)))"
    by code_simp
  have m: "timeoutMs (hb_timing (lv_transport (liveness_run (new_liveness JUndef) silent_run))) = 10000" by code_simp
  have "sorted (0 # map event_time silent_run @ [16500])" by (simp add: silent_run_def)
  from transport_timeout_justified [OF this t] show ?thesis by (simp add: m Let_def)
qed

section \<open>The phases of the transport monitor\<close>

text \<open>
  Between two proofs of the transport the monitor is a small machine: it sends a probe, waits for its dispatch,
  waits for the answer, asks for a confirmation, waits for its dispatch and for its answer.  A phase carries the
  time its wait began; \<open>None\<close> is a timeout.
\<close>

datatype phase = Idle | Dispatching rat | Probing rat | ConfirmDispatching rat | Confirming rat

fun phase_tick :: "monitor \<Rightarrow> rat \<Rightarrow> phase \<Rightarrow> phase option" where
  "phase_tick m now Idle = Some (Dispatching now)"
| "phase_tick m now (Dispatching p) = (if of_int (dispatchTimeoutMs (hb_timing m)) \<le> max 0 (now - p) then None else Some (Dispatching p))"
| "phase_tick m now (Probing p) = (if of_int (timeoutMs (hb_timing m)) \<le> max 0 (now - p) then Some (ConfirmDispatching now) else Some (Probing p))"
| "phase_tick m now (ConfirmDispatching p) =
     (if of_int (cf_dispatchTimeoutMs (hb_confirmation m)) \<le> max 0 (now - p) then None else Some (ConfirmDispatching p))"
| "phase_tick m now (Confirming p) = (if of_int (cf_timeoutMs (hb_confirmation m)) \<le> max 0 (now - p) then None else Some (Confirming p))"

definition follows_probes :: "monitor \<Rightarrow> bool" where
  "follows_probes m = (pd_enabled (hb_deadline m) \<and> pq_enabled (hb_dispatch m) \<and> cf_enabled (hb_confirmation m)
     \<and> pq_enabled (cf_dispatch (hb_confirmation m)) \<and> pd_enabled (cf_deadline (hb_confirmation m)))"

definition phased :: "monitor \<Rightarrow> phase \<Rightarrow> bool" where
  "phased m ph = (follows_probes m \<and> hb_timer m \<and> hb_recoveryUntil m = 0
     \<and> \<not> pq_proofObserved (hb_dispatch m) \<and> \<not> pq_proofObserved (cf_dispatch (hb_confirmation m))
     \<and> pq_pendingAt (hb_dispatch m) = (case ph of Dispatching p \<Rightarrow> Some p | _ \<Rightarrow> None)
     \<and> pd_sentAt (hb_deadline m) = (case ph of Probing p \<Rightarrow> Some p | _ \<Rightarrow> None)
     \<and> pq_pendingAt (cf_dispatch (hb_confirmation m)) = (case ph of ConfirmDispatching p \<Rightarrow> Some p | _ \<Rightarrow> None)
     \<and> pd_sentAt (cf_deadline (hb_confirmation m)) = (case ph of Confirming p \<Rightarrow> Some p | _ \<Rightarrow> None))"

definition same_limits :: "monitor \<Rightarrow> monitor \<Rightarrow> bool" where
  "same_limits m n = (hb_timing m = hb_timing n \<and> cf_timeoutMs (hb_confirmation m) = cf_timeoutMs (hb_confirmation n)
     \<and> cf_dispatchTimeoutMs (hb_confirmation m) = cf_dispatchTimeoutMs (hb_confirmation n))"

lemmas phase_defs = phased_def follows_probes_def same_limits_def pd_outstanding_def pq_pending_def cf_pending_def

lemma phased_start: "follows_probes m \<Longrightarrow> phased (start_monitor now m) Idle \<and> same_limits (start_monitor now m) m"
  by (simp add: phase_defs start_monitor_def stop_monitor_def pd_reset_def pq_reset_def cf_reset_def)

lemma phased_ticked [simp]: "phased (ticked now m) ph = phased m ph" "same_limits (ticked now m) m"
  by (simp_all add: phase_defs)

lemma phase_advance:
  assumes "phased m ph"
  obtains (dead) k cause where "phase_tick m now ph = None"
      "advanceRelayTransportState now silent lag True m = Some (k, [TimedOut silent lag cause])"
    | (alive) ph' m' es where "phase_tick m now ph = Some ph'"
      "advanceRelayTransportState now silent lag True m = Some (m', es)" "phased m' ph'" "same_limits m' m"
      "hb_expectedAt m' = hb_expectedAt m"
proof (cases ph)
  case Idle
  with assms show thesis
    by (intro alive [of "Dispatching now" "fst (sendProbe now True m)" "snd (sendProbe now True m)"])
      (auto simp: phase_defs advanceRelayTransportState_def Let_def sendProbe_def pq_begin_def)
next
  case (Dispatching p)
  with assms show thesis
    by (cases "of_int (dispatchTimeoutMs (hb_timing m)) \<le> max 0 (now - p)")
      (auto simp: phase_defs advanceRelayTransportState_def Let_def pq_age_def intro: dead alive)
next
  case (Probing p)
  show thesis
  proof (cases "of_int (timeoutMs (hb_timing m)) \<le> max 0 (now - p)")
    case True
    with assms Probing show thesis
      by (intro alive [of "ConfirmDispatching now" "fst (the (advanceRelayTransportState now silent lag True m))"
            "snd (the (advanceRelayTransportState now silent lag True m))"])
        (auto simp: phase_defs advanceRelayTransportState_def Let_def pd_age_def pd_timeout_def cf_begin_def pq_begin_def)
  next
    case False
    with assms Probing show thesis
      by (intro alive [of "Probing p" m "[]"]) (auto simp: phase_defs advanceRelayTransportState_def Let_def pd_age_def)
  qed
next
  case (ConfirmDispatching p)
  with assms show thesis
    by (cases "of_int (cf_dispatchTimeoutMs (hb_confirmation m)) \<le> max 0 (now - p)")
      (auto simp: phase_defs advanceRelayTransportState_def Let_def pq_age_def pd_age_def cf_dispatchExpired_def cf_expired_def
        cf_dispatchTimeout_def pq_timeout_def intro: dead alive)
next
  case (Confirming p)
  with assms show thesis
    by (cases "of_int (cf_timeoutMs (hb_confirmation m)) \<le> max 0 (now - p)")
      (auto simp: phase_defs advanceRelayTransportState_def Let_def pq_age_def pd_age_def cf_dispatchExpired_def cf_expired_def
        cf_timeout_def pd_timeout_def intro: dead alive)
qed

lemma phase_tick_ticked [simp]: "phase_tick (ticked t m) now ph = phase_tick m now ph"
  by (cases ph) simp_all

text \<open>A tick on time of an active monitor whose sends are accepted implements the phase machine.\<close>

lemma phase_refines:
  assumes "phased m ph" "lag_of now m < of_int (stallThresholdMs (hb_timing m))" "0 \<le> now"
  obtains (dead) s g cause where "phase_tick m now ph = None" "TimedOut s g cause \<in> set (snd (tick now True inbound True wall m))"
    | (alive) ph' where "phase_tick m now ph = Some ph'" "phased (fst (tick now True inbound True wall m)) ph'"
      "same_limits (fst (tick now True inbound True wall m)) m"
      "hb_expectedAt (fst (tick now True inbound True wall m)) = now + of_int (intervalMs (hb_timing m))"
proof -
  have r: "hb_recoveryUntil m = 0" using assms(1) by (simp add: phased_def)
  have u: "tick now True inbound True wall m = (case advanceRelayTransportState now (silence now inbound) (lag_of now m) True (ticked now m) of
      Some r \<Rightarrow> r
    | None \<Rightarrow> if silence now inbound \<ge> of_int (timeoutMs (hb_timing m))
        then (ticked now m, [TimedOut (silence now inbound) (lag_of now m) Silence]) else (ticked now m, [SendHeartbeat]))"
    using assms(2,3) r by (simp add: tick_unfold)
  have p: "phased (ticked now m) ph" using assms(1) by simp
  show thesis
  proof (cases rule: phase_advance [OF p, of now "silence now inbound" "lag_of now m"])
    case (1 k cause)
    then show thesis by (intro dead) (simp_all add: u)
  next
    case (2 ph' m' es)
    then show thesis by (intro alive) (simp_all add: u same_limits_def)
  qed
qed

lemma phased_probe_sent:
  assumes "phased m ph"
  obtains (same) "phased (probe_dispatched token t m) ph" | (sent) p where "ph = Dispatching p" "phased (probe_dispatched token t m) (Probing t)"
proof (cases "token = pq_token (hb_dispatch m) \<and> pq_pending (hb_dispatch m)")
  case True
  with assms obtain p where "ph = Dispatching p" by (cases ph) (auto simp: phase_defs)
  with assms True show thesis
    by (intro sent [of p]) (auto simp: phase_defs probe_dispatched_def pq_complete_def pd_sent_def)
next
  case False
  with assms show thesis by (intro same) (auto simp: probe_dispatched_def pq_complete_def)
qed

lemma phased_confirmation_sent:
  fixes m token t
  defines "m' \<equiv> m\<lparr>hb_confirmation := cf_dispatched token False t (hb_confirmation m)\<rparr>"
  assumes "phased m ph"
  obtains (same) "phased m' ph" | (sent) p where "ph = ConfirmDispatching p" "phased m' (Confirming t)"
proof (cases "token = pq_token (cf_dispatch (hb_confirmation m)) \<and> pq_pending (cf_dispatch (hb_confirmation m))")
  case True
  with assms obtain p where "ph = ConfirmDispatching p" by (cases ph) (auto simp: phase_defs)
  with assms True show thesis
    by (intro sent [of p]) (auto simp: phase_defs cf_dispatched_def pq_complete_def pd_sent_def)
next
  case False
  then have "m' = m" by (simp add: m'_def cf_dispatched_def pq_complete_def)
  with assms show thesis by (intro same) simp
qed

lemma sent_keeps:
  "same_limits (probe_dispatched token t m) m" "hb_expectedAt (probe_dispatched token t m) = hb_expectedAt m"
  "same_limits (m\<lparr>hb_confirmation := cf_dispatched token f t (hb_confirmation m)\<rparr>) m"
  by (auto simp: same_limits_def probe_dispatched_def cf_dispatched_def split: prod.split option.split bool.split)

section \<open>Detection of a dead transport\<close>

text \<open>
  A regular run: no proof of the transport arrives, the sends are accepted and do not fail, and every event comes
  less than \<open>gap\<close> after the previous tick of the transport monitor.
\<close>

fun regular :: "rat \<Rightarrow> rat \<Rightarrow> liveness_event list \<Rightarrow> bool" where
  "regular gap n [] = True"
| "regular gap n (e # es) = (n \<le> event_time e \<and> event_time e < n + gap \<and> (case e of
       LvTransportTick t active sent wall \<Rightarrow> active \<and> sent \<and> regular gap t es
     | LvConfirmationDispatched t token failed \<Rightarrow> \<not> failed \<and> regular gap n es
     | _ \<Rightarrow> \<not> transport_proof e \<and> (case e of LvStop _ \<Rightarrow> False | _ \<Rightarrow> regular gap n es)))"

definition last_tick :: "rat \<Rightarrow> liveness_event list \<Rightarrow> rat" where
  "last_tick n es = foldl (\<lambda>n e. case e of LvTransportTick t _ _ _ \<Rightarrow> t | _ \<Rightarrow> n) n es"

fun declared_dead :: "liveness \<Rightarrow> liveness_event list \<Rightarrow> bool" where
  "declared_dead l [] = False"
| "declared_dead l (e # es) =
     ((case e of LvTransportTick _ _ _ _ \<Rightarrow> list_ex (\<lambda>x. case x of TimedOut _ _ _ \<Rightarrow> True | _ \<Rightarrow> False) (snd (liveness_step l e)) | _ \<Rightarrow> False)
      \<or> declared_dead (fst (liveness_step l e)) es)"

text \<open>How long the phases can still last after a tick at \<open>n\<close>.\<close>

fun phase_due :: "monitor \<Rightarrow> rat \<Rightarrow> rat \<Rightarrow> phase \<Rightarrow> rat" where
  "phase_due m gap n (Confirming p) = p + of_int (cf_timeoutMs (hb_confirmation m))"
| "phase_due m gap n (ConfirmDispatching p) = p + of_int (cf_dispatchTimeoutMs (hb_confirmation m)) + gap + of_int (cf_timeoutMs (hb_confirmation m))"
| "phase_due m gap n (Probing p) = p + of_int (timeoutMs (hb_timing m)) + gap
     + of_int (cf_dispatchTimeoutMs (hb_confirmation m)) + gap + of_int (cf_timeoutMs (hb_confirmation m))"
| "phase_due m gap n (Dispatching p) = p + of_int (dispatchTimeoutMs (hb_timing m)) + gap + of_int (timeoutMs (hb_timing m)) + gap
     + of_int (cf_dispatchTimeoutMs (hb_confirmation m)) + gap + of_int (cf_timeoutMs (hb_confirmation m))"
| "phase_due m gap n Idle = n + gap + of_int (dispatchTimeoutMs (hb_timing m)) + gap + of_int (timeoutMs (hb_timing m)) + gap
     + of_int (cf_dispatchTimeoutMs (hb_confirmation m)) + gap + of_int (cf_timeoutMs (hb_confirmation m))"

fun phase_fresh :: "monitor \<Rightarrow> rat \<Rightarrow> phase \<Rightarrow> bool" where
  "phase_fresh m n Idle = True"
| "phase_fresh m n (Dispatching p) = (n \<le> p + of_int (dispatchTimeoutMs (hb_timing m)))"
| "phase_fresh m n (Probing p) = (n \<le> p + of_int (timeoutMs (hb_timing m)))"
| "phase_fresh m n (ConfirmDispatching p) = (n \<le> p + of_int (cf_dispatchTimeoutMs (hb_confirmation m)))"
| "phase_fresh m n (Confirming p) = (n \<le> p + of_int (cf_timeoutMs (hb_confirmation m)))"

definition limits_ok :: "monitor \<Rightarrow> bool" where
  "limits_ok m = (0 \<le> dispatchTimeoutMs (hb_timing m) \<and> 0 \<le> timeoutMs (hb_timing m)
     \<and> 0 \<le> cf_dispatchTimeoutMs (hb_confirmation m) \<and> 0 \<le> cf_timeoutMs (hb_confirmation m)
     \<and> 0 \<le> intervalMs (hb_timing m) \<and> 0 < stallThresholdMs (hb_timing m))"

lemma limits_cong:
  assumes "same_limits m' m"
  shows "phase_due m' = phase_due m" "phase_fresh m' = phase_fresh m" "limits_ok m' = limits_ok m" "hb_timing m' = hb_timing m"
proof -
  show "phase_due m' = phase_due m"
    by (rule ext, rule ext, rule ext, rename_tac g n ph, case_tac ph) (use assms in \<open>simp_all add: same_limits_def\<close>)
  show "phase_fresh m' = phase_fresh m"
    by (rule ext, rule ext, rename_tac n ph, case_tac ph) (use assms in \<open>simp_all add: same_limits_def\<close>)
  show "limits_ok m' = limits_ok m" "hb_timing m' = hb_timing m" using assms by (simp_all add: limits_ok_def same_limits_def)
qed

lemma phase_tick_due:
  assumes "phase_tick m now ph = Some ph'" "phase_fresh m n ph" "limits_ok m" "now < n + gap" "n \<le> now" "0 < gap"
  shows "phase_due m gap now ph' \<le> phase_due m gap n ph \<and> phase_fresh m now ph'"
  using assms by (cases ph) (auto simp: limits_ok_def split: if_splits)

lemma fresh_due:
  assumes "phase_fresh m n ph" "limits_ok m" "0 < gap"
  shows "n \<le> phase_due m gap n ph"
  using assms by (cases ph) (auto simp: limits_ok_def intro: order_trans)

text \<open>The invariant of a regular run: the phase, the tick that is expected next, and how long the phases can last.\<close>

definition on_time :: "liveness \<Rightarrow> rat \<Rightarrow> rat \<Rightarrow> phase \<Rightarrow> bool" where
  "on_time l gap n ph = (phased (lv_transport l) ph \<and> phase_fresh (lv_transport l) n ph \<and> limits_ok (lv_transport l)
     \<and> hb_expectedAt (lv_transport l) = n + of_int (intervalMs (hb_timing (lv_transport l)))
     \<and> gap = of_int (intervalMs (hb_timing (lv_transport l)) + stallThresholdMs (hb_timing (lv_transport l))) \<and> 0 < n)"

lemma on_time_gap: "on_time l gap n ph \<Longrightarrow> 0 < gap"
  by (auto simp: on_time_def limits_ok_def)

lemma on_time_tick:
  assumes "on_time l gap n ph" "n \<le> now" "now < n + gap"
  obtains (dead) s g cause where "TimedOut s g cause \<in> set (snd (liveness_step l (LvTransportTick now True True wall)))"
    | (alive) ph' where "on_time (fst (liveness_step l (LvTransportTick now True True wall))) gap now ph'"
      "phase_due (lv_transport (fst (liveness_step l (LvTransportTick now True True wall)))) gap now ph' \<le> phase_due (lv_transport l) gap n ph"
proof -
  let ?m = "lv_transport l" and ?t = "tick now True (lv_lastInboundAt l) True wall (lv_transport l)"
  have o: "phased ?m ph" "phase_fresh ?m n ph" "limits_ok ?m" "0 < n" "0 < gap"
    "hb_expectedAt ?m = n + of_int (intervalMs (hb_timing ?m))"
    "gap = of_int (intervalMs (hb_timing ?m) + stallThresholdMs (hb_timing ?m))"
    using assms(1) on_time_gap [OF assms(1)] by (auto simp: on_time_def)
  have "0 \<le> (of_int (intervalMs (hb_timing ?m)) :: rat)" "0 < (of_int (stallThresholdMs (hb_timing ?m)) :: rat)"
    using o(3) by (simp_all add: limits_ok_def)
  then have lag: "lag_of now ?m < of_int (stallThresholdMs (hb_timing ?m))"
    unfolding lag_of_def using o(4,6,7) assms(2,3) by auto
  have timer: "hb_timer ?m" using o(1) by (simp add: phased_def)
  have step: "snd (liveness_step l (LvTransportTick now True True wall)) = snd ?t"
    "lv_transport (fst (liveness_step l (LvTransportTick now True True wall))) = fst ?t"
    using timer by (simp_all split: prod.split)
  from o(4) assms(2) have "0 \<le> now" by linarith
  show thesis
  proof (cases rule: phase_refines [OF o(1) lag \<open>0 \<le> now\<close>, of "lv_lastInboundAt l" wall])
    case (1 s g cause)
    from 1(2) show thesis unfolding step(1) [symmetric] by (rule dead)
  next
    case (2 ph')
    from phase_tick_due [OF 2(1) o(2,3) assms(3,2) o(5)] have d: "phase_due ?m gap now ph' \<le> phase_due ?m gap n ph" "phase_fresh ?m now ph'"
      by simp_all
    have "on_time (fst (liveness_step l (LvTransportTick now True True wall))) gap now ph'"
      unfolding on_time_def step using 2 d limits_cong [OF 2(3)] o assms(2) by simp
    with d limits_cong [OF 2(3)] show thesis by (intro alive [of ph']) (simp_all only: step)
  qed
qed

lemma on_time_probe_sent:
  assumes "on_time l gap n ph" "n \<le> t" "t < n + gap"
  obtains ph' where "on_time (fst (liveness_step l (LvProbeDispatched t token))) gap n ph'"
    "phase_due (lv_transport (fst (liveness_step l (LvProbeDispatched t token)))) gap n ph' \<le> phase_due (lv_transport l) gap n ph"
proof -
  note lim = limits_cong [OF sent_keeps(1) [of token t "lv_transport l"]]
  have p: "phased (lv_transport l) ph" using assms(1) by (simp add: on_time_def)
  show thesis
  proof (cases rule: phased_probe_sent [OF p, of token t])
    case 1
    with assms(1) lim show thesis by (intro that [of ph]) (simp_all add: on_time_def sent_keeps)
  next
    case (2 q)
    have "phase_fresh (lv_transport l) n (Probing t)" using assms by (auto simp: on_time_def limits_ok_def intro: order_trans)
    moreover have "phase_due (lv_transport l) gap n (Probing t) \<le> phase_due (lv_transport l) gap n ph"
      using 2(1) assms by (simp add: on_time_def)
    ultimately show thesis using assms(1) 2 lim by (intro that [of "Probing t"]) (simp_all add: on_time_def sent_keeps)
  qed
qed

lemma on_time_confirmation_sent:
  assumes "on_time l gap n ph" "n \<le> t" "t < n + gap"
  obtains ph' where "on_time (fst (liveness_step l (LvConfirmationDispatched t token False))) gap n ph'"
    "phase_due (lv_transport (fst (liveness_step l (LvConfirmationDispatched t token False)))) gap n ph' \<le> phase_due (lv_transport l) gap n ph"
proof -
  note lim = limits_cong [OF sent_keeps(3) [where m = "lv_transport l" and token = token and f = False and t = t]]
  have p: "phased (lv_transport l) ph" using assms(1) by (simp add: on_time_def)
  show thesis
  proof (cases rule: phased_confirmation_sent [OF p, of token t])
    case 1
    with assms(1) lim show thesis by (intro that [of ph]) (simp_all add: on_time_def del: monitor.simps)
  next
    case (2 q)
    have "phase_fresh (lv_transport l) n (Confirming t)" using assms by (auto simp: on_time_def limits_ok_def intro: order_trans)
    moreover have "phase_due (lv_transport l) gap n (Confirming t) \<le> phase_due (lv_transport l) gap n ph"
      using 2(1) assms by (simp add: on_time_def)
    ultimately show thesis using assms(1) 2 lim by (intro that [of "Confirming t"]) (simp_all add: on_time_def del: monitor.simps)
  qed
qed

lemma detection:
  "on_time l gap n ph \<Longrightarrow> regular gap n es \<Longrightarrow> \<not> declared_dead l es \<Longrightarrow> last_tick n es \<le> phase_due (lv_transport l) gap n ph"
proof (induction es arbitrary: l n ph)
  case Nil
  then show ?case using on_time_gap [OF Nil.prems(1)] by (simp add: last_tick_def on_time_def fresh_due)
next
  case (Cons e es)
  note time = Cons.prems(2)
  have alive: "\<not> declared_dead (fst (liveness_step l e)) es" using Cons.prems(3) by simp
  have other: ?case if "lv_transport (fst (liveness_step l e)) = lv_transport l" "regular gap n es" "last_tick n (e # es) = last_tick n es"
    using Cons.IH [of "fst (liveness_step l e)" n ph] that alive Cons.prems(1) by (simp add: on_time_def)
  show ?case
  proof (cases e)
    case (LvTransportTick t active sent wall)
    with time have a: "active" "sent" "n \<le> t" "t < n + gap" "regular gap t es" by auto
    show ?thesis
    proof (cases rule: on_time_tick [OF Cons.prems(1) a(3,4), of wall])
      case (1 s g cause)
      with Cons.prems(3) LvTransportTick a(1,2) show ?thesis by (auto simp: list_ex_iff split: beat_effect.splits)
    next
      case (2 ph')
      from Cons.IH [OF 2(1) a(5)] alive a(1,2) 2(2) LvTransportTick show ?thesis by (simp add: last_tick_def)
    qed
  next
    case (LvProbeDispatched t token)
    with time have a: "n \<le> t" "t < n + gap" "regular gap n es" by auto
    obtain ph' where "on_time (fst (liveness_step l e)) gap n ph'"
      "phase_due (lv_transport (fst (liveness_step l e))) gap n ph' \<le> phase_due (lv_transport l) gap n ph"
      using on_time_probe_sent [OF Cons.prems(1) a(1,2), of token] LvProbeDispatched by metis
    with Cons.IH [OF this(1) a(3) alive] show ?thesis by (simp add: last_tick_def LvProbeDispatched)
  next
    case (LvConfirmationDispatched t token failed)
    with time have a: "n \<le> t" "t < n + gap" "regular gap n es" "\<not> failed" by auto
    obtain ph' where "on_time (fst (liveness_step l e)) gap n ph'"
      "phase_due (lv_transport (fst (liveness_step l e))) gap n ph' \<le> phase_due (lv_transport l) gap n ph"
      using on_time_confirmation_sent [OF Cons.prems(1) a(1,2), of token] LvConfirmationDispatched a(4) by metis
    with Cons.IH [OF this(1) a(3) alive] show ?thesis by (simp add: last_tick_def LvConfirmationDispatched)
  next
    case (LvApplicationInbound t)
    with time other show ?thesis by (auto simp: last_tick_def split: prod.splits)
  next
    case (LvApplicationTick t active sent wall)
    with time other show ?thesis by (auto simp: last_tick_def split: prod.splits)
  qed (use time in auto)
qed

text \<open>
  C24. A transport that stops answering is found out in bounded time: in every regular run after the start of a
  connection, if the monitor still ticks after the sum of its four limits and four tick gaps, one of its ticks has
  declared the transport dead.
\<close>

theorem dead_transport_detected:
  fixes l t0 es
  defines "m \<equiv> lv_transport l" and "l0 \<equiv> fst (liveness_step l (LvStart t0))"
  defines "gap \<equiv> of_int (intervalMs (hb_timing m) + stallThresholdMs (hb_timing m))"
  assumes "follows_probes m" "limits_ok m" "0 < t0" "regular gap t0 es"
    "t0 + of_int (dispatchTimeoutMs (hb_timing m) + timeoutMs (hb_timing m) + cf_dispatchTimeoutMs (hb_confirmation m)
       + cf_timeoutMs (hb_confirmation m)) + 4 * gap < last_tick t0 es"
  shows "declared_dead l0 es"
proof (rule ccontr)
  assume alive: "\<not> declared_dead l0 es"
  have m0: "lv_transport l0 = start_monitor t0 m" by (simp add: l0_def m_def)
  from phased_start [OF assms(4), of t0] have s: "phased (start_monitor t0 m) Idle" "same_limits (start_monitor t0 m) m" by simp_all
  then have "on_time l0 gap t0 Idle"
    unfolding on_time_def m0 using limits_cong [OF s(2)] assms(5,6) by (simp add: gap_def start_monitor_def)
  from detection [OF this assms(7) alive] have "last_tick t0 es \<le> phase_due (start_monitor t0 m) gap t0 Idle" by (simp add: m0)
  with assms(8) show False by (simp add: limits_cong [OF s(2)])
qed

definition dead_run :: "liveness_event list" where
  "dead_run = concat (map (\<lambda>k. [LvTransportTick (1000 + 5000 * of_nat k) True True 0]) [1..<28])"

lemma dead_transport_detected_witness:
  "declared_dead (fst (liveness_step (new_liveness JUndef) (LvStart 1000))) dead_run"
proof (rule dead_transport_detected)
  show "follows_probes (lv_transport (new_liveness JUndef))" by code_simp
  show "limits_ok (lv_transport (new_liveness JUndef))" by code_simp
  show "0 < (1000::rat)" by simp
  show "regular (of_int (intervalMs (hb_timing (lv_transport (new_liveness JUndef)))
     + stallThresholdMs (hb_timing (lv_transport (new_liveness JUndef))))) 1000 dead_run" by code_simp
  show "1000 + of_int (dispatchTimeoutMs (hb_timing (lv_transport (new_liveness JUndef))) + timeoutMs (hb_timing (lv_transport (new_liveness JUndef)))
      + cf_dispatchTimeoutMs (hb_confirmation (lv_transport (new_liveness JUndef))) + cf_timeoutMs (hb_confirmation (lv_transport (new_liveness JUndef))))
     + 4 * of_int (intervalMs (hb_timing (lv_transport (new_liveness JUndef))) + stallThresholdMs (hb_timing (lv_transport (new_liveness JUndef))))
     < last_tick 1000 dead_run" by code_simp
qed

end
