(* ===== verification/ManagedJobs.thy ===== *)
theory ManagedJobs
  imports Authority JsDate
begin

text \<open>
  Durable managed jobs: the terminal states and the order in which a terminal record is persisted
  (\<open>src/local/managed-job-terminal.mjs\<close>), the admission of dependencies (\<open>managed-job-dependency-admission.mjs\<close>),
  the gate a job waits at until its dependencies have succeeded (\<open>managed-job-dependencies.mjs\<close>,
  \<open>managed-job-dependency-metadata.mjs\<close>, \<open>monotonic-deadline.mjs\<close>) and the policy by which finished jobs are
  evicted (\<open>managed-job-retention-policy.mjs\<close>).

  Stored records are JSON values.  A read of the store, a write to it and the clock are arguments: the outcome of
  each call, by the round of the loop it belongs to.
\<close>

section \<open>JSON records\<close>

text \<open>\<open>===\<close> on values read from two records: objects and arrays are never the same.\<close>

definition same_value :: "jsv \<Rightarrow> jsv \<Rightarrow> bool" where
  "same_value v w = (v = w \<and> \<not> isRecord v \<and> \<not> isArray v)"

definition or_null :: "jsv \<Rightarrow> jsv" where
  "or_null v = (if truthy v then v else JNull)"

section \<open>Terminal states\<close>

definition ACTIVE_JOB_STATES :: "string list" where
  "ACTIVE_JOB_STATES = [''queued'', ''running'', ''cleaning'', ''interrupted'']"

definition TERMINAL_JOB_STATUSES :: "string list" where
  "TERMINAL_JOB_STATUSES = [''succeeded'', ''failed'', ''cancelled'', ''succeeded_cleanup_failed'', ''failed_cleanup_failed'',
     ''cancelled_cleanup_failed'', ''recovered'', ''recovery_failed'', ''runner_failed'', ''runner_launch_failed'',
     ''recovery_exhausted'', ''cancelled_before_start'', ''expired_before_start'']"

definition managedJobFinalStatus :: "bool \<Rightarrow> bool \<Rightarrow> bool \<Rightarrow> bool \<Rightarrow> string" where
  "managedJobFinalStatus recover cancelled mainError cleanupError =
     (if recover then (if mainError \<or> cleanupError then ''recovery_failed'' else ''recovered'')
      else if cancelled then (if cleanupError then ''cancelled_cleanup_failed'' else ''cancelled'')
      else if mainError then (if cleanupError then ''failed_cleanup_failed'' else ''failed'')
      else if cleanupError then ''succeeded_cleanup_failed'' else ''succeeded'')"

definition isActiveJobState :: "jsv \<Rightarrow> bool" where
  "isActiveJobState v = (case v of JStr s \<Rightarrow> s \<in> set ACTIVE_JOB_STATES | _ \<Rightarrow> False)"

definition isTerminalManagedJobStatus :: "jsv \<Rightarrow> bool" where
  "isTerminalManagedJobStatus v = (case v of JStr s \<Rightarrow> s \<in> set TERMINAL_JOB_STATUSES | _ \<Rightarrow> False)"

definition isTerminalManagedJobResult :: "jsv \<Rightarrow> string \<Rightarrow> bool" where
  "isTerminalManagedJobResult v expectedJobId =
     (isRecord v \<and> isTerminalManagedJobStatus (js_get v ''status'')
      \<and> (expectedJobId \<noteq> [] \<longrightarrow> js_get v ''job_id'' = JStr expectedJobId)
      \<and> parse_time (js_get v ''finished_at'') \<noteq> None
      \<and> isArray (js_get v ''steps'') \<and> isArray (js_get v ''finally_steps''))"

definition label_char :: "char \<Rightarrow> char" where
  "label_char c = (if is_lower_az c \<or> is_digit c \<or> c \<in> {CHR ''.'', CHR ''_'', CHR ''-''} then c else CHR ''_'')"

text \<open>Lower case, other characters replaced, at most 80 characters, a default for the empty text.\<close>

definition bounded_label :: "string \<Rightarrow> string \<Rightarrow> string" where
  "bounded_label fallback s =
     (let l = take 80 (map label_char (to_lower (if s \<noteq> [] then s else fallback))) in if l \<noteq> [] then l else fallback)"

definition boundedErrorClass :: "string option \<Rightarrow> string" where
  "boundedErrorClass v = bounded_label ''persistence_failed'' (case v of Some s \<Rightarrow> s | None \<Rightarrow> [])"

definition terminalStatusFromResult :: "jsv \<Rightarrow> jsv \<Rightarrow> bool \<Rightarrow> string option \<Rightarrow> jsv \<Rightarrow> jsv option" where
  "terminalStatusFromResult status result resultPersisted terminalRecordErrorClass updatedAt =
     (case js_get status ''job_id'' of
        JStr jobId \<Rightarrow>
          if \<not> isTerminalManagedJobResult result jobId then None
          else Some (spread status
            ([(''status'', js_get result ''status''), (''current_phase'', JNull), (''current_step'', JNull)]
             @ (if hasOwn status ''dependency_pending_count'' then [(''dependency_pending_count'', JNum (Fin 0))] else [])
             @ [(''finished_at'', js_get result ''finished_at''),
                (''updated_at'', if truthy updatedAt then updatedAt else js_get result ''finished_at''),
                (''error_class'', if truthy (js_get result ''error_class'') then js_get result ''error_class''
                                  else or_null (js_get result ''cleanup_error_class'')),
                (''cleanup_error_class'', or_null (js_get result ''cleanup_error_class'')),
                (''result_persisted'', JBool resultPersisted),
                (''terminal_record_error_class'', if resultPersisted then JNull else JStr (boundedErrorClass terminalRecordErrorClass)),
                (''artifact_cleanup_pending'', JBool True), (''artifact_cleanup_error_class'', JNull)]))
      | _ \<Rightarrow> None)"

section \<open>Persisting a terminal record\<close>

text \<open>An error of the store is its code.\<close>

definition defaultErrorClass :: "string \<Rightarrow> string" where
  "defaultErrorClass c =
     (let u = map upper_char c in
      if u \<in> {''ENOSPC'', ''EDQUOT'', ''EFBIG''} then ''storage_limit''
      else if u \<in> {''EACCES'', ''EPERM'', ''EROFS''} then ''permission_denied''
      else if u \<in> {''ENOENT'', ''ENOTDIR''} then ''not_found''
      else ''persistence_failed'')"

datatype job_write = WriteResult jsv | WriteStatus jsv | RemoveArtifact string

text \<open>Which calls fail, and with which error.\<close>

record job_io =
  io_result :: "string option"
  io_status :: "string option"
  io_remove :: "string \<Rightarrow> string option"
  io_final :: "string option"

record terminal_outcome =
  to_resultPersisted :: bool
  to_statusPersisted :: bool
  to_artifactsScrubbed :: bool
  to_resultErrorClass :: "string option"
  to_statusErrorClass :: "string option"
  to_cleanupErrorClass :: "string option"
  to_status :: jsv

definition succeeded :: "job_write \<Rightarrow> string option \<Rightarrow> job_write list" where
  "succeeded w failed = (if failed = None then [w] else [])"

definition removal_failures :: "(string \<Rightarrow> string option) \<Rightarrow> string list \<Rightarrow> string list" where
  "removal_failures remove artifacts = filter (\<lambda>c. c \<noteq> ''ENOENT'') (concat (map (\<lambda>a. case remove a of Some c \<Rightarrow> [c] | None \<Rightarrow> []) artifacts))"

definition scrubManagedJobArtifacts :: "(string \<Rightarrow> string) \<Rightarrow> (string \<Rightarrow> string option) \<Rightarrow> string list \<Rightarrow> bool \<times> string option \<times> nat" where
  "scrubManagedJobArtifacts classify remove artifacts =
     (let failures = removal_failures remove artifacts
      in (failures = [], (case failures of c # _ \<Rightarrow> Some (classify c) | [] \<Rightarrow> None), length failures))"

text \<open>The outcome (\<open>None\<close> when the result is not a terminal result of the job) and the calls that succeeded, in order.\<close>

definition persistManagedJobTerminal :: "(string \<Rightarrow> string) \<Rightarrow> job_io \<Rightarrow> string list \<Rightarrow> jsv \<Rightarrow> jsv \<Rightarrow> terminal_outcome option \<times> job_write list" where
  "persistManagedJobTerminal classify io artifacts status result =
     (let resultClass = map_option classify (io_result io);
          wroteResult = succeeded (WriteResult result) (io_result io)
      in case terminalStatusFromResult status result (io_result io = None) resultClass (js_get result ''finished_at'') of
           None \<Rightarrow> (None, wroteResult)
         | Some terminalStatus \<Rightarrow>
             (case io_status io of
                Some c \<Rightarrow>
                  (Some \<lparr>to_resultPersisted = (io_result io = None), to_statusPersisted = False, to_artifactsScrubbed = False,
                     to_resultErrorClass = resultClass, to_statusErrorClass = Some (classify c), to_cleanupErrorClass = None,
                     to_status = terminalStatus\<rparr>, wroteResult)
              | None \<Rightarrow>
                  (let failures = removal_failures (io_remove io) artifacts;
                       cleanupClass = (case failures of c # _ \<Rightarrow> Some (classify c) | [] \<Rightarrow> None);
                       removed = map RemoveArtifact (filter (\<lambda>a. io_remove io a = None) artifacts);
                       finalStatus = spread terminalStatus [(''artifact_cleanup_pending'', JBool (failures \<noteq> [])),
                         (''artifact_cleanup_error_class'', (case cleanupClass of Some c \<Rightarrow> JStr c | None \<Rightarrow> JNull))]
                   in (Some \<lparr>to_resultPersisted = (io_result io = None), to_statusPersisted = True,
                         to_artifactsScrubbed = (failures = []), to_resultErrorClass = resultClass,
                         to_statusErrorClass = map_option classify (io_final io), to_cleanupErrorClass = cleanupClass,
                         to_status = (if io_final io = None then finalStatus else terminalStatus)\<rparr>,
                       wroteResult @ [WriteStatus terminalStatus] @ removed @ succeeded (WriteStatus finalStatus) (io_final io)))))"

section \<open>Dependencies\<close>

definition MAX_MANAGED_JOB_DEPENDENCIES :: int where
  "MAX_MANAGED_JOB_DEPENDENCIES = 16"

definition clampCount :: "rat \<Rightarrow> rat \<Rightarrow> int" where
  "clampCount v maximum = max 0 (min (max 0 (min MAX_MANAGED_JOB_DEPENDENCIES \<lfloor>maximum\<rfloor>)) \<lfloor>v\<rfloor>)"

definition managedJobDependencyCount :: "jsv \<Rightarrow> rat \<Rightarrow> rat \<Rightarrow> int" where
  "managedJobDependencyCount v fallback maximum =
     (if num_isInteger (js_Number v) then clampCount (the (fin_of (js_Number v))) maximum else clampCount fallback maximum)"

definition managedJobDependencyLabel :: "(jsv \<Rightarrow> string) \<Rightarrow> jsv \<Rightarrow> string" where
  "managedJobDependencyLabel text v =
     bounded_label ''unknown'' (if truthy v then (case v of JStr s \<Rightarrow> s | _ \<Rightarrow> text v) else ''unknown'')"

definition managedJobDependencySucceeded :: "jsv \<Rightarrow> bool" where
  "managedJobDependencySucceeded status =
     (js_get status ''status'' = JStr ''succeeded'' \<and> js_get status ''result_persisted'' \<noteq> JBool False)"

record dependency_state =
  ds_ids :: "jsv list"
  ds_waiting :: bool
  ds_status :: string
  ds_currentPhase :: string
  ds_total :: nat
  ds_pending :: int

definition managedJobRunnerDependencyState :: "jsv \<Rightarrow> jsv \<Rightarrow> bool \<Rightarrow> dependency_state" where
  "managedJobRunnerDependencyState plan initial recover =
     (let ids = arr_elems (js_get plan ''depends_on''); waiting = (\<not> recover \<and> length ids > 0);
          initialPending = managedJobDependencyCount (js_get initial ''dependency_pending_count'') (of_nat (length ids)) (of_nat (length ids))
      in \<lparr>ds_ids = ids, ds_waiting = waiting,
          ds_status = (if recover then ''cleaning'' else if waiting then ''queued'' else ''running''),
          ds_currentPhase = (if recover then ''recovery-cleanup'' else if waiting then ''dependency_wait'' else ''steps''),
          ds_total = length ids, ds_pending = (if waiting then initialPending else 0)\<rparr>)"

text \<open>What the state of a dependency says: the status, completed by the terminal result when there is one.\<close>

definition readManagedJobDependencyStatus :: "string \<Rightarrow> string + jsv \<Rightarrow> string + jsv \<Rightarrow> string + jsv" where
  "readManagedJobDependencyStatus jobId readStatus readResult =
     res_bind readStatus (\<lambda>status.
       if isTerminalManagedJobStatus (js_get status ''status'') then Inr status
       else res_bind readResult (\<lambda>result.
         if \<not> truthy result then Inr status
         else if \<not> isTerminalManagedJobResult result jobId then Inl ''resource_unavailable''
         else case terminalStatusFromResult status result True None (js_get result ''finished_at'') of
             Some s \<Rightarrow> Inr s | None \<Rightarrow> Inl ''resource_unavailable''))"

subsection \<open>Admission\<close>

definition invalid_dependency_state :: "jsv \<Rightarrow> string \<Rightarrow> bool" where
  "invalid_dependency_state status jobId =
     (js_get status ''job_id'' \<noteq> JStr jobId
      \<or> (\<not> isActiveJobState (js_get status ''status'') \<and> js_get status ''status'' \<noteq> JStr ''staged''
         \<and> \<not> isTerminalManagedJobStatus (js_get status ''status'')))"

definition dependency_witness :: "string \<Rightarrow> jsv \<Rightarrow> jsv" where
  "dependency_witness jobId status = JObj [(''job_id'', JStr jobId), (''plan_sha256'', js_get status ''plan_sha256''),
     (''created_at'', js_get status ''created_at'')]"

definition resolve_dependency :: "string \<Rightarrow> op_context option \<Rightarrow> (string \<Rightarrow> bridge_error + jsv) \<Rightarrow> jsv list \<times> nat \<Rightarrow> string \<Rightarrow> bridge_error + (jsv list \<times> nat)" where
  "resolve_dependency currentJobId context readStatus acc jobId =
     (if jobId = currentJobId then Inl (BridgeError ''invalid_request'' (Some False) None None)
      else res_bind (readStatus jobId) (\<lambda>status.
        if invalid_dependency_state status jobId then Inl (berr ''integrity_error'')
        else res_bind (assertOwnedByContext status context) (\<lambda>_.
          if js_get status ''status'' = JStr ''staged''
            then Inl (BridgeError ''invalid_request'' (Some False) None
              (Some [(''dependency_job_id'', JStr jobId), (''dependency_status'', js_get status ''status'')]))
          else if isTerminalManagedJobStatus (js_get status ''status'') \<and> \<not> managedJobDependencySucceeded status
            then Inl (BridgeError ''conflict'' (Some False) None
              (Some [(''reason'', JStr ''dependency_failed''), (''dependency_job_id'', JStr jobId),
                (''dependency_status'', js_get status ''status''),
                (''dependency_error_class'', if js_get status ''error_class'' = JUndef then JNull else js_get status ''error_class'')]))
          else Inr (fst acc @ [dependency_witness jobId status],
                    snd acc + (if isTerminalManagedJobStatus (js_get status ''status'') then 0 else 1)))))"

definition resolveManagedJobDependencies :: "string list \<Rightarrow> string \<Rightarrow> op_context option \<Rightarrow> (string \<Rightarrow> bridge_error + jsv) \<Rightarrow> bridge_error + (jsv list \<times> nat)" where
  "resolveManagedJobDependencies dependencyIds currentJobId context readStatus =
     res_fold (resolve_dependency currentJobId context readStatus) ([], 0) dependencyIds"

subsection \<open>The gate\<close>

definition DEPENDENCY_POLL_INTERVAL_MS :: rat where
  "DEPENDENCY_POLL_INTERVAL_MS = 1000"

definition MAX_DEPENDENCY_WAIT_MS :: rat where
  "MAX_DEPENDENCY_WAIT_MS = 14 * 24 * 60 * 60 * 1000"

definition DEPENDENCY_STATE_READ_RECOVERY_GRACE_MS :: rat where
  "DEPENDENCY_STATE_READ_RECOVERY_GRACE_MS = 45000"

definition RETRYABLE_DEPENDENCY_READ_ERROR_CLASSES :: "string list" where
  "RETRYABLE_DEPENDENCY_READ_ERROR_CLASSES = [''identity_changed'', ''permission_denied'', ''resource_unavailable'']"

datatype wait_error =
    WaitCancelled
  | ManagedJobDependencyError string "(string \<times> jsv) list"

text \<open>The environment of the loop, by round: the elapsed time, cancellation, and the reads of the dependencies.\<close>

record dependency_env =
  de_elapsed :: "nat \<Rightarrow> rat"
  de_readElapsed :: "nat \<Rightarrow> string \<Rightarrow> rat"
  de_cancelled :: "nat \<Rightarrow> bool"
  de_read :: "nat \<Rightarrow> string \<Rightarrow> string + jsv"
  de_text :: "jsv \<Rightarrow> string"

fun witness_table :: "(string \<times> jsv) list \<Rightarrow> jsv list \<Rightarrow> wait_error + (string \<times> jsv) list" where
  "witness_table m [] = Inr m"
| "witness_table m (w # ws) =
     (case js_get w ''job_id'' of
        JStr i \<Rightarrow> if i = [] \<or> i \<in> set (map fst m) then Inl (ManagedJobDependencyError ''dependency_state_invalid'' [])
                   else witness_table (m @ [(i, w)]) ws
      | _ \<Rightarrow> Inl (ManagedJobDependencyError ''dependency_state_invalid'' []))"

definition assertDependencyWitness :: "jsv \<Rightarrow> jsv \<Rightarrow> string \<Rightarrow> wait_error + unit" where
  "assertDependencyWitness status witness jobId =
     (if \<not> truthy status \<or> js_get status ''job_id'' \<noteq> JStr jobId
         \<or> \<not> same_value (js_get status ''plan_sha256'') (js_get witness ''plan_sha256'')
         \<or> \<not> same_value (js_get status ''created_at'') (js_get witness ''created_at'')
      then Inl (ManagedJobDependencyError ''dependency_changed'' [(''dependency_job_id'', JStr jobId)]) else Inr ())"

text \<open>One dependency in one round: the table of the first failed reads, and whether the dependency is pending.\<close>

definition check_dependency :: "dependency_env \<Rightarrow> nat \<Rightarrow> (string \<times> jsv) list \<Rightarrow> (string \<times> rat) list \<times> nat \<Rightarrow> string \<Rightarrow> wait_error + ((string \<times> rat) list \<times> nat)" where
  "check_dependency env k table acc jobId =
     (let (since, pending) = acc; witness = (case map_of table jobId of Some w \<Rightarrow> w | None \<Rightarrow> JUndef) in
      case de_read env k jobId of
        Inl errorClass \<Rightarrow>
          (let elapsed = de_readElapsed env k jobId;
               start = (case map_of since jobId of Some t \<Rightarrow> t | None \<Rightarrow> elapsed)
           in if errorClass \<in> set RETRYABLE_DEPENDENCY_READ_ERROR_CLASSES \<and> elapsed - start < DEPENDENCY_STATE_READ_RECOVERY_GRACE_MS
              then Inr (map_set jobId start since, Suc pending)
              else Inl (ManagedJobDependencyError ''dependency_unavailable''
                [(''dependency_job_id'', JStr jobId), (''cause_class'', JStr (managedJobDependencyLabel (de_text env) (JStr errorClass)))]))
      | Inr status \<Rightarrow>
          res_bind (assertDependencyWitness status witness jobId) (\<lambda>_.
            let state = js_get status ''status''; since' = map_del jobId since in
            if managedJobDependencySucceeded status then Inr (since', pending)
            else if isTerminalManagedJobStatus state
              then Inl (ManagedJobDependencyError ''dependency_failed''
                [(''dependency_job_id'', JStr jobId), (''dependency_status'', state),
                 (''dependency_error_class'', if js_get status ''error_class'' \<in> {JUndef, JNull} then JNull
                    else JStr (managedJobDependencyLabel (de_text env) (js_get status ''error_class'')))])
            else if \<not> isActiveJobState state
              then Inl (ManagedJobDependencyError ''dependency_state_invalid''
                [(''dependency_job_id'', JStr jobId),
                 (''dependency_status'', if state \<in> {JUndef, JNull} then JNull else JStr (managedJobDependencyLabel (de_text env) state))])
            else Inr (since', Suc pending)))"

text \<open>
  The loop, with fuel: the end of the wait and the pending counts reported on the way.  Round \<open>k\<close> begins by reading
  the deadline and ends with a sleep.
\<close>

fun wait_loop :: "dependency_env \<Rightarrow> string list \<Rightarrow> (string \<times> jsv) list \<Rightarrow> nat \<Rightarrow> nat \<Rightarrow> (string \<times> rat) list \<Rightarrow> nat list \<Rightarrow> ((wait_error + nat) \<times> nat list) option" where
  "wait_loop env ids table 0 k since reports = None"
| "wait_loop env ids table (Suc fuel) k since reports =
     (if de_elapsed env k \<ge> MAX_DEPENDENCY_WAIT_MS
        then Some (Inl (ManagedJobDependencyError ''dependency_timeout'' [(''dependency_count'', JNum (Fin (of_nat (length ids))))]), reports)
      else if de_cancelled env k then Some (Inl WaitCancelled, reports)
      else case res_fold (check_dependency env k table) (since, 0) ids of
          Inl err \<Rightarrow> Some (Inl err, reports)
        | Inr (since', pending) \<Rightarrow>
            (let reports' = (if reports = [] \<or> last reports \<noteq> pending then reports @ [pending] else reports) in
             if pending = 0 then Some (Inr (length ids), reports') else wait_loop env ids table fuel (Suc k) since' reports'))"

definition waitForManagedJobDependencies :: "nat \<Rightarrow> dependency_env \<Rightarrow> string list \<Rightarrow> jsv list \<Rightarrow> ((wait_error + nat) \<times> nat list) option" where
  "waitForManagedJobDependencies fuel env ids witnesses =
     (if ids = [] then Some (Inr 0, [])
      else case witness_table [] witnesses of
          Inl err \<Rightarrow> Some (Inl err, [])
        | Inr table \<Rightarrow>
            if length table \<noteq> length ids \<or> list_ex (\<lambda>i. i \<notin> set (map fst table)) ids
            then Some (Inl (ManagedJobDependencyError ''dependency_state_invalid'' []), [])
            else wait_loop env ids table fuel 0 [] [])"

definition waiting_status :: "nat \<Rightarrow> (string \<times> jsv) list" where
  "waiting_status pending = [(''status'', JStr ''queued''), (''current_phase'', JStr ''dependency_wait''), (''current_step'', JNull),
     (''dependency_pending_count'', JNum (Fin (of_nat pending)))]"

definition running_status :: "(string \<times> jsv) list" where
  "running_status = [(''status'', JStr ''running''), (''current_phase'', JStr ''steps''), (''current_step'', JNull),
     (''dependency_pending_count'', JNum (Fin 0))]"

text \<open>The gate: whether the job may run, and the status updates it made.\<close>

definition waitForManagedJobDependencyGate :: "nat \<Rightarrow> dependency_env \<Rightarrow> string list \<Rightarrow> jsv list \<Rightarrow> bool \<Rightarrow> ((wait_error + unit) \<times> (string \<times> jsv) list list) option" where
  "waitForManagedJobDependencyGate fuel env ids witnesses waiting =
     (if \<not> waiting then Some (Inr (), [])
      else map_option (\<lambda>(r, reports). case r of
          Inl err \<Rightarrow> (Inl err, map waiting_status reports)
        | Inr _ \<Rightarrow> (Inr (), map waiting_status reports @ [running_status])) (waitForManagedJobDependencies fuel env ids witnesses))"

definition dependencyFailureDetails :: "wait_error \<Rightarrow> (string \<times> jsv) list option" where
  "dependencyFailureDetails e = (case e of
     ManagedJobDependencyError c ds \<Rightarrow> Some (foldl (\<lambda>m (k, v). map_set k v m) [(''error_class'', JStr c)] ds)
   | WaitCancelled \<Rightarrow> None)"

section \<open>Eviction of finished jobs\<close>

record finished_job =
  fj_status :: jsv
  fj_mtime :: rat

definition JOB_RETENTION_MS :: rat where
  "JOB_RETENTION_MS = 7 * 24 * 60 * 60 * 1000"

definition STAGED_PLAN_RETENTION_MS :: rat where
  "STAGED_PLAN_RETENTION_MS = 24 * 60 * 60 * 1000"

definition TRANSIENT_PROCESS_RECOVERY_GRACE_MS :: rat where
  "TRANSIENT_PROCESS_RECOVERY_GRACE_MS = 30 * 60 * 1000"

definition TRANSIENT_PROCESS_PENDING_RECOVERY_GRACE_MS :: rat where
  "TRANSIENT_PROCESS_PENDING_RECOVERY_GRACE_MS = 24 * 60 * 60 * 1000"

definition TRANSIENT_PROCESS_RECOVERY_SLOTS :: nat where
  "TRANSIENT_PROCESS_RECOVERY_SLOTS = 16"

definition terminalRetentionTime :: "finished_job \<Rightarrow> rat" where
  "terminalRetentionTime j = (case parse_time (js_get (fj_status j) ''finished_at'') of Some t \<Rightarrow> of_int t | None \<Rightarrow> fj_mtime j)"

definition transient_process :: "finished_job \<Rightarrow> bool" where
  "transient_process j = (js_get (fj_status j) ''retention_class'' = JStr ''transient_process'')"

definition recovery_pending :: "finished_job \<Rightarrow> bool" where
  "recovery_pending j = (js_get (fj_status j) ''transient_recovery_pending'' = JBool True)"

definition terminalEvictionPriority :: "finished_job \<Rightarrow> bool \<Rightarrow> nat" where
  "terminalEvictionPriority j protected = (if \<not> transient_process j then 1 else if protected then 2 else 0)"

definition transientProcessWithinRecoveryGrace :: "rat \<Rightarrow> finished_job \<Rightarrow> bool" where
  "transientProcessWithinRecoveryGrace now j =
     (transient_process j \<and> (let age = now - terminalRetentionTime j;
        grace = (if recovery_pending j then TRANSIENT_PROCESS_PENDING_RECOVERY_GRACE_MS else TRANSIENT_PROCESS_RECOVERY_GRACE_MS)
      in age \<ge> 0 \<and> age \<le> grace))"

definition transientProcessUndeliveredRecoveryProtected :: "rat \<Rightarrow> finished_job \<Rightarrow> bool" where
  "transientProcessUndeliveredRecoveryProtected now j = (recovery_pending j \<and> transientProcessWithinRecoveryGrace now j)"

definition job_id_of :: "finished_job \<Rightarrow> jsv" where
  "job_id_of j = js_get (fj_status j) ''job_id''"

definition transientProcessRecoveryIds :: "rat \<Rightarrow> string \<Rightarrow> nat \<Rightarrow> finished_job list \<Rightarrow> jsv list" where
  "transientProcessRecoveryIds now incomingRetentionClass reservedSlots items =
     (let incoming = (if incomingRetentionClass = ''transient_process'' then min reservedSlots TRANSIENT_PROCESS_RECOVERY_SLOTS else 0);
          recent = filter (transientProcessWithinRecoveryGrace now) items;
          required = filter (transientProcessUndeliveredRecoveryProtected now) recent;
          reserve = take (TRANSIENT_PROCESS_RECOVERY_SLOTS - incoming)
            (sort_key (\<lambda>j. - terminalRetentionTime j) (filter (\<lambda>j. \<not> recovery_pending j) recent))
      in map job_id_of required @ map job_id_of reserve)"

text \<open>The comparator sorts by priority, then by the time the job finished.\<close>

definition orderManagedJobTerminalEviction :: "rat \<Rightarrow> string \<Rightarrow> nat \<Rightarrow> finished_job list \<Rightarrow> finished_job list" where
  "orderManagedJobTerminalEviction now incomingRetentionClass reservedSlots items =
     (let protected = set (transientProcessRecoveryIds now incomingRetentionClass reservedSlots items)
      in sort_key (\<lambda>j. terminalEvictionPriority j (job_id_of j \<in> protected)) (sort_key terminalRetentionTime items))"

definition stagedPlanExpired :: "rat \<Rightarrow> jsv \<Rightarrow> bool" where
  "stagedPlanExpired now status = (case parse_time (js_get status ''created_at'') of
     Some t \<Rightarrow> now - of_int t > STAGED_PLAN_RETENTION_MS | None \<Rightarrow> False)"

end
