(* ===== verification/ManagedJobsSpec.thy ===== *)
theory ManagedJobsSpec
  imports ManagedJobs "HOL-Library.Multiset"
begin

text \<open>
  What durable jobs guarantee: a terminal record is safe against a failure or a crash between any two of its
  writes, a job starts only after the dependencies it was accepted with have succeeded, the wait for them always
  ends, and eviction keeps undelivered results for last.
\<close>

section \<open>Persisting a terminal record\<close>

text \<open>The fields of a terminal status that the rest of the program relies on.\<close>

definition terminal_status :: "jsv \<Rightarrow> jsv \<Rightarrow> bool \<Rightarrow> jsv \<Rightarrow> bool" where
  "terminal_status status result persisted st =
     (isTerminalManagedJobStatus (js_get st ''status'') \<and> js_get st ''job_id'' = js_get status ''job_id''
      \<and> js_get st ''status'' = js_get result ''status'' \<and> js_get st ''result_persisted'' = JBool persisted)"

lemma terminalStatus_fields:
  assumes "terminalStatusFromResult status result p c u = Some st"
  shows "terminal_status status result p st"
proof -
  from assms obtain i where i: "js_get status ''job_id'' = JStr i" "isTerminalManagedJobResult result i"
    by (auto simp: terminalStatusFromResult_def split: jsv.splits if_splits)
  with assms have st: "st = spread status
      ([(''status'', js_get result ''status''), (''current_phase'', JNull), (''current_step'', JNull)]
       @ (if hasOwn status ''dependency_pending_count'' then [(''dependency_pending_count'', JNum (Fin 0))] else [])
       @ [(''finished_at'', js_get result ''finished_at''),
          (''updated_at'', if truthy u then u else js_get result ''finished_at''),
          (''error_class'', if truthy (js_get result ''error_class'') then js_get result ''error_class''
                            else or_null (js_get result ''cleanup_error_class'')),
          (''cleanup_error_class'', or_null (js_get result ''cleanup_error_class'')),
          (''result_persisted'', JBool p),
          (''terminal_record_error_class'', if p then JNull else JStr (boundedErrorClass c)),
          (''artifact_cleanup_pending'', JBool True), (''artifact_cleanup_error_class'', JNull)])"
    by (simp add: terminalStatusFromResult_def)
  have "isTerminalManagedJobStatus (js_get result ''status'')" using i(2) by (simp add: isTerminalManagedJobResult_def)
  then show ?thesis unfolding terminal_status_def st by (simp add: js_get_spread)
qed

lemma terminal_status_final:
  "terminal_status status result p st \<Longrightarrow> terminal_status status result p
     (spread st [(''artifact_cleanup_pending'', x), (''artifact_cleanup_error_class'', y)])"
  by (auto simp: terminal_status_def js_get_spread)

text \<open>The store of one job, and what the successful calls do to it.\<close>

record job_store =
  js_status :: "jsv option"
  js_result :: "jsv option"
  js_artifacts :: "string list"

fun apply_write :: "job_store \<Rightarrow> job_write \<Rightarrow> job_store" where
  "apply_write s (WriteResult v) = s\<lparr>js_result := Some v\<rparr>"
| "apply_write s (WriteStatus v) = s\<lparr>js_status := Some v\<rparr>"
| "apply_write s (RemoveArtifact a) = s\<lparr>js_artifacts := filter (\<lambda>b. b \<noteq> a) (js_artifacts s)\<rparr>"

definition settled :: "jsv \<Rightarrow> jsv \<Rightarrow> bool \<Rightarrow> job_store \<Rightarrow> bool" where
  "settled status result p s = ((\<exists>st. js_status s = Some st \<and> terminal_status status result p st) \<and> (p \<longrightarrow> js_result s = Some result))"

lemma settled_removals: "settled status result p s \<Longrightarrow> settled status result p (foldl apply_write s (map RemoveArtifact as))"
proof (induction as arbitrary: s)
  case (Cons a as)
  then show ?case using Cons.IH [of "apply_write s (RemoveArtifact a)"] by (simp add: settled_def)
qed simp

lemma settled_writes:
  assumes "settled status result p s" "list_all (\<lambda>w. (\<exists>a. w = RemoveArtifact a) \<or> (\<exists>st. w = WriteStatus st \<and> terminal_status status result p st)) ws"
  shows "settled status result p (foldl apply_write s ws)"
  using assms by (induction ws arbitrary: s) (auto simp: settled_def)

text \<open>The calls of a persisted terminal record: the result first, then a terminal status, and only then the rest.\<close>

lemma persist_shape:
  assumes "persistManagedJobTerminal classify io artifacts status result = (out, ws)"
  obtains (early) "ws = succeeded (WriteResult result) (io_result io)"
    | (full) st rest where "ws = succeeded (WriteResult result) (io_result io) @ WriteStatus st # rest"
      "terminal_status status result (io_result io = None) st"
      "list_all (\<lambda>w. (\<exists>a. w = RemoveArtifact a) \<or> (\<exists>st. w = WriteStatus st \<and> terminal_status status result (io_result io = None) st)) rest"
      "out \<noteq> None"
proof (cases "terminalStatusFromResult status result (io_result io = None) (map_option classify (io_result io)) (js_get result ''finished_at'')")
  case None
  with assms show thesis by (intro early) (auto simp: persistManagedJobTerminal_def Let_def)
next
  case (Some st)
  note t = terminalStatus_fields [OF Some]
  show thesis
  proof (cases "io_status io")
    case None
    with assms Some t terminal_status_final [OF t] show thesis
      by (intro full [of st "drop (Suc (length (succeeded (WriteResult result) (io_result io)))) ws"])
        (auto simp: persistManagedJobTerminal_def Let_def succeeded_def list_all_iff split: if_splits)
  next
    case (Some c)
    with assms \<open>terminalStatusFromResult _ _ _ _ _ = _\<close> show thesis by (intro early) (auto simp: persistManagedJobTerminal_def Let_def)
  qed
qed

text \<open>
  C27. A terminal record survives a failure or a crash at any point: whatever prefix of the calls has reached the
  store, an artifact of the job is gone, or the status has changed, only when the status file holds the terminal
  status of this job, and when that status says the result is persisted, the result is in the store.
\<close>

theorem terminal_record_crash_safe:
  assumes "persistManagedJobTerminal classify io artifacts status result = (out, writes)"
    and "t = foldl apply_write s (take n writes)"
    and "js_status t \<noteq> js_status s \<or> js_artifacts t \<noteq> js_artifacts s"
  shows "\<exists>st. js_status t = Some st \<and> isTerminalManagedJobStatus (js_get st ''status'') \<and> js_get st ''job_id'' = js_get status ''job_id''
     \<and> js_get st ''status'' = js_get result ''status'' \<and> (js_get st ''result_persisted'' = JBool True \<longrightarrow> js_result t = Some result)"
proof -
  let ?p = "io_result io = None" and ?first = "succeeded (WriteResult result) (io_result io)"
  have first: "js_status (foldl apply_write s (take k ?first)) = js_status s \<and> js_artifacts (foldl apply_write s (take k ?first)) = js_artifacts s" for k
    by (cases k) (simp_all add: succeeded_def)
  show ?thesis
    using assms(1)
  proof (cases rule: persist_shape)
    case early
    with first assms(2,3) show ?thesis by simp
  next
    case (full st rest)
    show ?thesis
    proof (cases "n \<le> length ?first")
      case True
      with full(1) first assms(2,3) show ?thesis by simp
    next
      case False
      then obtain k where n: "n = length ?first + Suc k" using not_le less_iff_Suc_add [of "length ?first" n] by auto
      have "settled status result ?p (foldl apply_write s (?first @ [WriteStatus st]))"
        using full(2) by (auto simp: settled_def succeeded_def)
      moreover have "list_all (\<lambda>w. (\<exists>a. w = RemoveArtifact a) \<or> (\<exists>st. w = WriteStatus st \<and> terminal_status status result ?p st)) (take k rest)"
        using full(3) by (auto simp: list_all_iff dest: in_set_takeD)
      ultimately have "settled status result ?p (foldl apply_write (foldl apply_write s (?first @ [WriteStatus st])) (take k rest))"
        by (rule settled_writes)
      then have "settled status result ?p t" using full(1) n assms(2) by simp
      then show ?thesis by (auto simp: settled_def terminal_status_def)
    qed
  qed
qed

definition sample_job_status :: jsv where
  "sample_job_status = JObj [(''job_id'', JStr ''job_a''), (''status'', JStr ''running'')]"

definition sample_job_result :: jsv where
  "sample_job_result = JObj [(''job_id'', JStr ''job_a''), (''status'', JStr ''succeeded''),
     (''finished_at'', JStr ''2024-02-29T12:30:15.250Z''), (''steps'', JArr []), (''finally_steps'', JArr [])]"

definition sample_job_io :: job_io where
  "sample_job_io = \<lparr>io_result = None, io_status = None, io_remove = (\<lambda>_. None), io_final = Some ''EACCES''\<rparr>"

lemma terminal_record_crash_safe_witness:
  "\<exists>st. js_status (foldl apply_write \<lparr>js_status = Some sample_job_status, js_result = None, js_artifacts = [''runtime'']\<rparr>
       (take 3 (snd (persistManagedJobTerminal defaultErrorClass sample_job_io [''runtime''] sample_job_status sample_job_result)))) = Some st
     \<and> js_get st ''status'' = JStr ''succeeded''"
proof -
  let ?s = "\<lparr>js_status = Some sample_job_status, js_result = None, js_artifacts = [''runtime'']\<rparr>"
    and ?p = "persistManagedJobTerminal defaultErrorClass sample_job_io [''runtime''] sample_job_status sample_job_result"
  obtain out ws where p: "?p = (out, ws)" by fastforce
  have "js_artifacts (foldl apply_write ?s (take 3 (snd ?p))) = []" by code_simp
  then have "js_artifacts (foldl apply_write ?s (take 3 ws)) \<noteq> js_artifacts ?s" by (simp add: p)
  with terminal_record_crash_safe [OF p refl, of ?s 3] p show ?thesis by (auto simp: sample_job_result_def)
qed

section \<open>The dependency gate\<close>

text \<open>What it takes for a dependency to let its dependent run: the job that was accepted, succeeded, with its result stored.\<close>

definition dependency_met :: "jsv \<Rightarrow> string \<Rightarrow> jsv \<Rightarrow> bool" where
  "dependency_met w i st = (js_get st ''job_id'' = JStr i \<and> js_get st ''plan_sha256'' = js_get w ''plan_sha256''
     \<and> js_get st ''created_at'' = js_get w ''created_at'' \<and> js_get st ''status'' = JStr ''succeeded''
     \<and> js_get st ''result_persisted'' \<noteq> JBool False)"

lemma check_pending:
  assumes "check_dependency env k table (u, n) i = Inr (u', n')"
  shows "n \<le> n'"
    "n' = n \<Longrightarrow> \<exists>st. de_read env k i = Inr st \<and> dependency_met (case map_of table i of Some w \<Rightarrow> w | None \<Rightarrow> JUndef) i st"
  using assms
  by (auto simp: check_dependency_def Let_def dependency_met_def managedJobDependencySucceeded_def assertDependencyWitness_def
      same_value_def res_bind_Inr_iff split: sum.splits if_splits)

lemma round_pending:
  "res_fold (check_dependency env k table) (u, n) ids = Inr (u', n') \<Longrightarrow>
   n \<le> n' \<and> (n' = n \<longrightarrow> (\<forall>i \<in> set ids. \<exists>st. de_read env k i = Inr st
       \<and> dependency_met (case map_of table i of Some w \<Rightarrow> w | None \<Rightarrow> JUndef) i st))"
proof (induction ids arbitrary: u n)
  case (Cons i ids)
  then obtain u1 n1 where c: "check_dependency env k table (u, n) i = Inr (u1, n1)"
    "res_fold (check_dependency env k table) (u1, n1) ids = Inr (u', n')"
    by (auto simp: res_bind_Inr_iff)
  from check_pending [OF c(1)] Cons.IH [OF c(2)] show ?case by auto
qed simp

lemma wait_loop_success:
  assumes "wait_loop env ids table fuel k since reports = Some (Inr cnt, reports')"
  obtains j where "k \<le> j" "de_elapsed env j < MAX_DEPENDENCY_WAIT_MS" "\<not> de_cancelled env j"
    "\<forall>i \<in> set ids. \<exists>st. de_read env j i = Inr st \<and> dependency_met (case map_of table i of Some w \<Rightarrow> w | None \<Rightarrow> JUndef) i st"
  using assms
proof (induction fuel arbitrary: k since reports thesis)
  case (Suc fuel)
  from Suc.prems(2) obtain since' pending where r: "\<not> MAX_DEPENDENCY_WAIT_MS \<le> de_elapsed env k" "\<not> de_cancelled env k"
    "res_fold (check_dependency env k table) (since, 0) ids = Inr (since', pending)"
    by (auto split: if_splits sum.splits)
  show ?case
  proof (cases "pending = 0")
    case True
    with round_pending [OF r(3)] r(1,2) show ?thesis by (intro Suc.prems(1) [of k]) auto
  next
    case False
    with Suc.prems(2) r obtain rs where "wait_loop env ids table fuel (Suc k) since' rs = Some (Inr cnt, reports')"
      by (auto simp: Let_def)
    from Suc.IH [OF _ this] Suc.prems(1) show ?thesis by (metis Suc_leD)
  qed
qed simp

lemma witness_table_members:
  "witness_table m ws = Inr table \<Longrightarrow> (i, w) \<in> set table \<Longrightarrow> (i, w) \<in> set m \<or> (w \<in> set ws \<and> js_get w ''job_id'' = JStr i)"
  by (induction m ws rule: witness_table.induct) (fastforce split: jsv.splits if_splits)+

text \<open>
  C25. A job that waits for dependencies starts only when, in one and the same round, before the wait limit and
  uncancelled, every dependency was read as the very job that was accepted (its id, plan hash and creation time as
  witnessed at admission), succeeded and with its result persisted.
\<close>

theorem gate_opens_on_success:
  assumes "waitForManagedJobDependencyGate fuel env ids witnesses True = Some (Inr (), updates)" "ids \<noteq> []"
  shows "\<exists>k. de_elapsed env k < MAX_DEPENDENCY_WAIT_MS \<and> \<not> de_cancelled env k
     \<and> (\<forall>i \<in> set ids. \<exists>st w. de_read env k i = Inr st \<and> w \<in> set witnesses \<and> js_get w ''job_id'' = JStr i
          \<and> js_get st ''job_id'' = JStr i \<and> js_get st ''plan_sha256'' = js_get w ''plan_sha256''
          \<and> js_get st ''created_at'' = js_get w ''created_at'' \<and> js_get st ''status'' = JStr ''succeeded''
          \<and> js_get st ''result_persisted'' \<noteq> JBool False)"
proof -
  from assms(1) obtain cnt rs where "waitForManagedJobDependencies fuel env ids witnesses = Some (Inr cnt, rs)"
    by (cases "waitForManagedJobDependencies fuel env ids witnesses"; cases "fst (the (waitForManagedJobDependencies fuel env ids witnesses))")
      (auto simp: waitForManagedJobDependencyGate_def)
  with assms(2) obtain table where t: "witness_table [] witnesses = Inr table" "\<forall>i \<in> set ids. i \<in> set (map fst table)"
    "wait_loop env ids table fuel 0 [] [] = Some (Inr cnt, rs)"
    by (auto simp: waitForManagedJobDependencies_def list_ex_iff split: sum.splits if_splits)
  from t(3) obtain k where k: "de_elapsed env k < MAX_DEPENDENCY_WAIT_MS" "\<not> de_cancelled env k"
    "\<forall>i \<in> set ids. \<exists>st. de_read env k i = Inr st \<and> dependency_met (case map_of table i of Some w \<Rightarrow> w | None \<Rightarrow> JUndef) i st"
    by (rule wait_loop_success)
  have "\<exists>st w. de_read env k i = Inr st \<and> w \<in> set witnesses \<and> js_get w ''job_id'' = JStr i \<and> dependency_met w i st" if "i \<in> set ids" for i
  proof -
    from that t(2) obtain w where w: "map_of table i = Some w" by (metis map_of_eq_None_iff not_None_eq set_map)
    then have "w \<in> set witnesses \<and> js_get w ''job_id'' = JStr i"
      using witness_table_members [OF t(1), of i w] by (auto dest: map_of_SomeD)
    with k(3) that w show ?thesis by fastforce
  qed
  with k(1,2) show ?thesis unfolding dependency_met_def by blast
qed

section \<open>Termination of the gate\<close>

lemma wait_loop_more:
  "wait_loop env ids table fuel k since reports = Some r \<Longrightarrow> fuel \<le> extra \<Longrightarrow> wait_loop env ids table extra k since reports = Some r"
proof (induction fuel arbitrary: k since reports extra)
  case (Suc fuel)
  then obtain m where m: "extra = Suc m" "fuel \<le> m" by (cases extra) auto
  with Suc show ?case by (auto simp: Let_def split: if_splits sum.splits)
qed simp

lemma wait_loop_ends:
  "j < fuel \<Longrightarrow> MAX_DEPENDENCY_WAIT_MS \<le> de_elapsed env (k + j) \<Longrightarrow> wait_loop env ids table fuel k since reports \<noteq> None"
proof (induction fuel arbitrary: k j since reports)
  case (Suc fuel)
  show ?case
  proof (cases "MAX_DEPENDENCY_WAIT_MS \<le> de_elapsed env k")
    case False
    with Suc.prems obtain j' where "j = Suc j'" "j' < fuel" by (cases j) auto
    with Suc.IH [of j' "Suc k"] Suc.prems(2) False show ?thesis by (auto simp: Let_def split: sum.split)
  qed simp
qed simp

text \<open>A clock that runs during the sleeps: each lasts \<open>min(interval, max(1, remaining))\<close> at least.\<close>

definition clock_runs :: "dependency_env \<Rightarrow> bool" where
  "clock_runs env = (0 \<le> de_elapsed env 0
     \<and> (\<forall>k. de_elapsed env k + min DEPENDENCY_POLL_INTERVAL_MS (max 1 (MAX_DEPENDENCY_WAIT_MS - de_elapsed env k)) \<le> de_elapsed env (Suc k)))"

lemma clock_progress: "clock_runs env \<Longrightarrow> min MAX_DEPENDENCY_WAIT_MS (1000 * of_nat k) \<le> de_elapsed env k"
proof (induction k)
  case 0
  then show ?case by (simp add: clock_runs_def MAX_DEPENDENCY_WAIT_MS_def)
next
  case (Suc k)
  let ?e = "de_elapsed env k" and ?m = "MAX_DEPENDENCY_WAIT_MS"
  have s: "?e + min 1000 (max 1 (?m - ?e)) \<le> de_elapsed env (Suc k)" using Suc.prems
    by (simp add: clock_runs_def DEPENDENCY_POLL_INTERVAL_MS_def)
  have "min ?m (1000 * of_nat (Suc k)) \<le> ?e + min 1000 (max 1 (?m - ?e))"
    using Suc.IH [OF Suc.prems] by (auto simp: min_def max_def split: if_splits)
  with s show ?case by (rule order_trans [rotated])
qed

text \<open>
  C26. The gate always ends: when the clock runs during its sleeps, it settles within fourteen days' worth of
  polling rounds whatever the dependencies do, and no further round changes how it settles.
\<close>

theorem gate_terminates:
  assumes "clock_runs env"
  shows "\<exists>r. \<forall>fuel \<ge> 1209601. waitForManagedJobDependencies fuel env ids witnesses = Some r"
proof -
  have "MAX_DEPENDENCY_WAIT_MS \<le> de_elapsed env (0 + 1209600)"
    using clock_progress [OF assms, of 1209600] by (simp add: MAX_DEPENDENCY_WAIT_MS_def)
  then have "wait_loop env ids table 1209601 0 [] [] \<noteq> None" for table
    by (intro wait_loop_ends [of 1209600]) simp_all
  then have "\<exists>r. \<forall>fuel \<ge> 1209601. wait_loop env ids table fuel 0 [] [] = Some r" for table
    by (meson wait_loop_more not_None_eq)
  then obtain g where g: "\<And>table fuel. 1209601 \<le> fuel \<Longrightarrow> wait_loop env ids table fuel 0 [] [] = Some (g table)" by metis
  have "\<exists>r. \<forall>fuel. 1209601 \<le> fuel \<longrightarrow> waitForManagedJobDependencies fuel env ids witnesses = Some r"
  proof (cases "witness_table [] witnesses")
    case (Inl e)
    then show ?thesis by (cases "ids = []") (simp_all add: waitForManagedJobDependencies_def)
  next
    case (Inr table)
    then show ?thesis
      by (cases "ids = []"; cases "length table \<noteq> length ids \<or> list_ex (\<lambda>i. i \<notin> set (map fst table)) ids")
        (auto simp: waitForManagedJobDependencies_def g intro!: exI [of _ "g table"])
  qed
  then show ?thesis .
qed

definition steady_env :: dependency_env where
  "steady_env = \<lparr>de_elapsed = (\<lambda>k. 1000 * of_nat k), de_readElapsed = (\<lambda>k i. 1000 * of_nat k), de_cancelled = (\<lambda>k. False),
     de_read = (\<lambda>k i. if k < 2 then Inr (JObj [(''job_id'', JStr i), (''status'', JStr ''running'')])
        else Inr (JObj [(''job_id'', JStr i), (''status'', JStr ''succeeded'')])), de_text = (\<lambda>v. [])\<rparr>"

lemma gate_opens_on_success_witness:
  "\<exists>k. de_elapsed steady_env k < MAX_DEPENDENCY_WAIT_MS
     \<and> (\<exists>st. de_read steady_env k ''job_a'' = Inr st \<and> js_get st ''status'' = JStr ''succeeded'')"
proof -
  let ?g = "waitForManagedJobDependencyGate 5 steady_env [''job_a''] [JObj [(''job_id'', JStr ''job_a'')]] True"
  have "case ?g of Some (Inr _, _) \<Rightarrow> True | _ \<Rightarrow> False" by code_simp
  then obtain u where "?g = Some (Inr (), u)" by (auto split: option.splits prod.splits sum.splits)
  from gate_opens_on_success [OF this] show ?thesis by force
qed

lemma gate_terminates_witness:
  "\<exists>r. waitForManagedJobDependencies 1209601 steady_env [''job_a''] [JObj [(''job_id'', JStr ''job_b'')]] = Some r"
proof -
  have "clock_runs steady_env"
    by (auto simp: clock_runs_def steady_env_def DEPENDENCY_POLL_INTERVAL_MS_def min_def)
  from gate_terminates [OF this, of "[''job_a'']" "[JObj [(''job_id'', JStr ''job_b'')]]"] show ?thesis by auto
qed

section \<open>Eviction\<close>

text \<open>
  Eviction removes nothing by itself: the order is a permutation in which every transient process without
  protection comes before every managed job, and every protected one after.
\<close>

lemma sort_key_eviction:
  "mset (orderManagedJobTerminalEviction now c n items) = mset items"
  "sorted (map (\<lambda>j. terminalEvictionPriority j (job_id_of j \<in> set (transientProcessRecoveryIds now c n items)))
     (orderManagedJobTerminalEviction now c n items))"
  by (simp_all add: orderManagedJobTerminalEviction_def Let_def)

lemma undelivered_protected:
  assumes "j \<in> set items" "transientProcessUndeliveredRecoveryProtected now j"
  shows "terminalEvictionPriority j (job_id_of j \<in> set (transientProcessRecoveryIds now c n items)) = 2"
  using assms by (auto simp: terminalEvictionPriority_def transientProcessRecoveryIds_def Let_def
      transientProcessUndeliveredRecoveryProtected_def transientProcessWithinRecoveryGrace_def)

end
