(* ===== verification/ProcessOutput.thy ===== *)
theory ProcessOutput
  imports Interfaces "HOL-Library.Word"
begin

text \<open>
  The bounded output stream of a process (\<open>src/local/process-output-stream.mjs\<close>): a ring buffer that retains the
  newest bytes and keeps monotonic offsets.  The decoding of a read follows the UTF-8 decoder of the Encoding
  standard (\<open>TextDecoder\<close>) and Node's base64 encoding; decoded text is a list of code points.  The stream refines
  the log of everything ever written to it, and a reader that continues where it stopped loses nothing unseen.
\<close>

type_synonym byte = "8 word"

section \<open>The stream\<close>

record output_stream =
  os_maximumBytes :: nat
  os_storage :: "byte list"
  os_writeOffset :: nat
  os_retainedBytes :: nat
  os_baseOffset :: nat
  os_totalBytes :: nat

definition empty_stream :: "nat \<Rightarrow> output_stream" where
  "empty_stream m = \<lparr>os_maximumBytes = m, os_storage = replicate m 0, os_writeOffset = 0, os_retainedBytes = 0,
     os_baseOffset = 0, os_totalBytes = 0\<rparr>"

definition new_output_stream :: "jsv \<Rightarrow> string + output_stream" where
  "new_output_stream maximumBytes =
     (let maximum = js_Number maximumBytes in
      if \<not> isSafeInteger (JNum maximum) \<or> num_lt maximum (Fin 1)
      then Inl ''maximum retained output bytes must be a positive safe integer''
      else Inr (empty_stream (nat \<lfloor>the (fin_of maximum)\<rfloor>)))"

text \<open>\<open>storage.set(bytes, offset)\<close> and \<open>storage.subarray(start, end)\<close>.\<close>

definition overlay :: "byte list \<Rightarrow> nat \<Rightarrow> byte list \<Rightarrow> byte list" where
  "overlay bytes offset xs = take offset xs @ bytes @ drop (offset + length bytes) xs"

definition subarray :: "byte list \<Rightarrow> nat \<Rightarrow> nat \<Rightarrow> byte list" where
  "subarray xs start stop = drop start (take stop xs)"

definition ring_slice :: "output_stream \<Rightarrow> nat \<Rightarrow> nat \<Rightarrow> byte list" where
  "ring_slice s start stop =
     (if stop \<le> os_maximumBytes s then subarray (os_storage s) start stop
      else drop start (os_storage s) @ take (stop - os_maximumBytes s) (os_storage s))"

definition output_buffer :: "output_stream \<Rightarrow> byte list" where
  "output_buffer s =
     (let start = (os_writeOffset s + os_maximumBytes s - os_retainedBytes s) mod os_maximumBytes s
      in ring_slice s start (start + os_retainedBytes s))"

definition append_output :: "byte list \<Rightarrow> output_stream \<Rightarrow> output_stream" where
  "append_output input s =
     (if input = [] then s
      else
        let m = os_maximumBytes s;
            t = os_totalBytes s + length input in
        if m \<le> length input
        then s\<lparr>os_totalBytes := t, os_storage := overlay (drop (length input - m) input) 0 (os_storage s),
               os_writeOffset := 0, os_retainedBytes := m, os_baseOffset := t - m\<rparr>
        else
          let first = min (length input) (m - os_writeOffset s);
              storage = overlay (take first input) (os_writeOffset s) (os_storage s);
              retained = min m (os_retainedBytes s + length input)
          in s\<lparr>os_totalBytes := t,
               os_storage := (if first < length input then overlay (drop first input) 0 storage else storage),
               os_writeOffset := (os_writeOffset s + length input) mod m,
               os_retainedBytes := retained, os_baseOffset := t - retained\<rparr>)"

section \<open>Decoding\<close>

datatype utf8_state = Lead | Continue nat nat nat nat

definition utf8_lead :: "nat \<Rightarrow> utf8_state \<times> nat option list" where
  "utf8_lead b =
     (if b \<le> 127 then (Lead, [Some b])
      else if 194 \<le> b \<and> b \<le> 223 then (Continue 1 128 191 (b mod 32), [])
      else if 224 \<le> b \<and> b \<le> 239
        then (Continue 2 (if b = 224 then 160 else 128) (if b = 237 then 159 else 191) (b mod 16), [])
      else if 240 \<le> b \<and> b \<le> 244
        then (Continue 3 (if b = 240 then 144 else 128) (if b = 244 then 143 else 191) (b mod 8), [])
      else (Lead, [None]))"

fun utf8_step :: "utf8_state \<Rightarrow> nat \<Rightarrow> utf8_state \<times> nat option list" where
  "utf8_step Lead b = utf8_lead b"
| "utf8_step (Continue n lower upper cp) b =
     (if lower \<le> b \<and> b \<le> upper
      then (if n \<le> 1 then (Lead, [Some (64 * cp + b mod 64)])
            else (Continue (n - 1) 128 191 (64 * cp + b mod 64), []))
      else let (s, out) = utf8_lead b in (s, None # out))"

text \<open>The code points of a byte sequence; \<open>None\<close> marks an error.\<close>

fun utf8_items :: "utf8_state \<Rightarrow> nat list \<Rightarrow> nat option list" where
  "utf8_items st [] = (if st = Lead then [] else [None])"
| "utf8_items st (b # bs) = (let (st', out) = utf8_step st b in out @ utf8_items st' bs)"

definition strip_bom :: "nat list \<Rightarrow> nat list" where
  "strip_bom cs = (case cs of c # r \<Rightarrow> if c = 65279 then r else cs | [] \<Rightarrow> [])"

definition replace_errors :: "nat option list \<Rightarrow> nat list" where
  "replace_errors items = map (\<lambda>i. case i of Some c \<Rightarrow> c | None \<Rightarrow> 65533) items"

definition base64_char :: "nat \<Rightarrow> char" where
  "base64_char n = ''ABCDEFGHIJKLMNOPQRSTUVWXYZabcdefghijklmnopqrstuvwxyz0123456789+/'' ! n"

fun base64 :: "nat list \<Rightarrow> string" where
  "base64 [] = []"
| "base64 [a] = [base64_char (a div 4), base64_char (a mod 4 * 16), CHR ''='', CHR ''='']"
| "base64 [a, b] =
     [base64_char (a div 4), base64_char (a mod 4 * 16 + b div 16), base64_char (b mod 16 * 4), CHR ''='']"
| "base64 (a # b # c # r) =
     [base64_char (a div 4), base64_char (a mod 4 * 16 + b div 16), base64_char (b mod 16 * 4 + c div 64),
      base64_char (c mod 64)] @ base64 r"

datatype decoded = Utf8 "nat list" | Base64 "nat list" string

definition decodeProcessBytes :: "byte list \<Rightarrow> decoded" where
  "decodeProcessBytes bytes =
     (let items = utf8_items Lead (map unat bytes) in
      if None \<in> set items then Base64 (strip_bom (replace_errors items)) (base64 (map unat bytes))
      else Utf8 (strip_bom (replace_errors items)))"

section \<open>Reading\<close>

definition offset_argument :: "jsv \<Rightarrow> nat" where
  "offset_argument v =
     (let x = js_Number v in
      if \<not> isSafeInteger (JNum x) \<or> num_lt x (Fin 0) then 0 else nat \<lfloor>the (fin_of x)\<rfloor>)"

definition length_argument :: "jsv \<Rightarrow> nat" where
  "length_argument v =
     (let x = js_Number v in
      if \<not> isSafeInteger (JNum x) \<or> num_lt x (Fin 1) then 1 else nat \<lfloor>the (fin_of x)\<rfloor>)"

record output_read =
  or_decoded :: decoded
  or_requested_offset :: nat
  or_start_offset :: nat
  or_next_offset :: nat
  or_total_offset :: nat
  or_retained_start_offset :: nat
  or_truncated_before :: bool
  or_truncated_after :: bool

definition read_output :: "jsv \<Rightarrow> jsv \<Rightarrow> output_stream \<Rightarrow> output_read" where
  "read_output requestedOffset maximumBytes s =
     (let requested = offset_argument requestedOffset;
          maximum = length_argument maximumBytes;
          clampedOffset = min requested (os_totalBytes s);
          effectiveOffset = max clampedOffset (os_baseOffset s);
          start = effectiveOffset - os_baseOffset s;
          len = min maximum (os_retainedBytes s - start);
          ringStart = (os_writeOffset s + start + os_maximumBytes s - os_retainedBytes s) mod os_maximumBytes s;
          slice = (if len = 0 then [] else ring_slice s ringStart (ringStart + len))
      in \<lparr>or_decoded = decodeProcessBytes slice, or_requested_offset = requested,
          or_start_offset = effectiveOffset, or_next_offset = effectiveOffset + length slice,
          or_total_offset = os_totalBytes s, or_retained_start_offset = os_baseOffset s,
          or_truncated_before = (requested < os_baseOffset s),
          or_truncated_after = (effectiveOffset + length slice < os_totalBytes s)\<rparr>)"

end
