(* ===== verification/ProcessSessions.thy ===== *)
theory ProcessSessions
  imports Authority CallCapacity PosixPath ProcessOutput
begin

text \<open>
  Interactive process sessions (\<open>src/local/process-sessions.mjs\<close>): the table of sessions with its capacity, its
  retention and eviction, and the operations on one session; the plan of a remote read
  (\<open>process-session-remote-poll.mjs\<close>, \<open>process-session-read.mjs\<close>), the termination of sessions
  (\<open>process-session-termination.mjs\<close>) and the remote-activity guard (\<open>process-session-remote-activity.mjs\<close>).

  Session objects live in a store that never forgets one; the table of the manager is the list of the ids it still
  holds, in insertion order.  An operation that awaits is cut at its awaits, so that other events may happen there;
  the clock readings, the random id, and the outcomes of spawning, signalling and writing are arguments.
\<close>

section \<open>Limits\<close>

definition MAX_PROCESS_SESSIONS :: nat where
  "MAX_PROCESS_SESSIONS = 8"

definition PROCESS_SESSION_RETENTION_MS :: rat where
  "PROCESS_SESSION_RETENTION_MS = 30 * 60 * 1000"

definition MAX_PROCESS_SESSION_OUTPUT_BYTES :: nat where
  "MAX_PROCESS_SESSION_OUTPUT_BYTES = 1024 * 1024"

definition MAX_PROCESS_SESSION_STDIN_BYTES :: nat where
  "MAX_PROCESS_SESSION_STDIN_BYTES = 64 * 1024"

section \<open>Sessions and the manager\<close>

record session =
  ss_child :: bool
  ss_argv0 :: string
  ss_cwd :: string
  ss_stdout :: output_stream
  ss_stderr :: output_stream
  ss_startedAt :: rat
  ss_lastActivity :: rat
  ss_closedAt :: "rat option"
  ss_exitCode :: "int option"
  ss_signal :: "string option"
  ss_stdinClosed :: bool
  ss_terminating :: bool
  ss_startupFailed :: bool
  ss_activityHeld :: bool
  ss_bindingSettled :: bool
  ss_lastBlockingRead :: "rat option"
  ss_owner :: jsv

abbreviation running :: "session \<Rightarrow> bool" where
  "running s \<equiv> ss_closedAt s = None"

record manager =
  mg_objects :: "(string \<times> session) list"
  mg_table :: "string list"
  mg_tracked :: "string list"
  mg_activity :: int
  mg_released :: "string list"

definition empty_manager :: manager where
  "empty_manager = \<lparr>mg_objects = [], mg_table = [], mg_tracked = [], mg_activity = 0, mg_released = []\<rparr>"

definition session_of :: "manager \<Rightarrow> string \<Rightarrow> session option" where
  "session_of m i = map_of (mg_objects m) i"

definition on_session :: "(session \<Rightarrow> bool) \<Rightarrow> manager \<Rightarrow> string \<Rightarrow> bool" where
  "on_session P m i = (case session_of m i of Some s \<Rightarrow> P s | None \<Rightarrow> False)"

definition update_session :: "(session \<Rightarrow> session) \<Rightarrow> string \<Rightarrow> manager \<Rightarrow> manager" where
  "update_session f i m =
     (case session_of m i of Some s \<Rightarrow> m\<lparr>mg_objects := map_set i (f s) (mg_objects m)\<rparr> | None \<Rightarrow> m)"

definition delete_session :: "string \<Rightarrow> manager \<Rightarrow> manager" where
  "delete_session i m = m\<lparr>mg_table := removeAll i (mg_table m)\<rparr>"

definition add_session :: "string \<Rightarrow> session \<Rightarrow> manager \<Rightarrow> manager" where
  "add_session i s m =
     m\<lparr>mg_objects := map_set i s (mg_objects m),
       mg_table := (if i \<in> set (mg_table m) then mg_table m else mg_table m @ [i])\<rparr>"

section \<open>Retention and capacity\<close>

definition prune_sessions :: "rat \<Rightarrow> manager \<Rightarrow> manager" where
  "prune_sessions now m =
     m\<lparr>mg_table := filter (\<lambda>i. \<not> on_session (\<lambda>s. \<not> running s
         \<and> ss_lastActivity s < now - PROCESS_SESSION_RETENTION_MS) m i) (mg_table m)\<rparr>"

definition last_activity :: "manager \<Rightarrow> string \<Rightarrow> rat" where
  "last_activity m i = (case session_of m i of Some s \<Rightarrow> ss_lastActivity s | None \<Rightarrow> 0)"

definition evict_exited :: "manager \<Rightarrow> manager" where
  "evict_exited m =
     (if length (mg_table m) < MAX_PROCESS_SESSIONS then m
      else
        let exited = sort_key (last_activity m) (filter (on_session (\<lambda>s. \<not> running s) m) (mg_table m))
        in m\<lparr>mg_table := foldl (\<lambda>t i. if length t < MAX_PROCESS_SESSIONS then t else removeAll i t)
               (mg_table m) exited\<rparr>)"

definition table_full :: "manager \<Rightarrow> bool" where
  "table_full m = (MAX_PROCESS_SESSIONS \<le> length (mg_table m))"

definition is_session_id :: "string \<Rightarrow> bool" where
  "is_session_id i = (starts_with ''proc_'' i \<and> list_all is_id_char (drop 5 i) \<and> 20 \<le> length (drop 5 i))"

section \<open>Access\<close>

text \<open>\<open>get\<close>: the table is pruned first, whatever the answer.\<close>

definition get_session :: "rat \<Rightarrow> jsv \<Rightarrow> op_context option \<Rightarrow> manager \<Rightarrow> manager \<times> (thrown + string)" where
  "get_session now sessionId c m =
     (let m' = prune_sessions now m;
          i = (case sessionId of JStr s \<Rightarrow> s | _ \<Rightarrow> [])
      in if \<not> is_session_id i then (m', Inl (OtherError []))
         else if i \<notin> set (mg_table m') then (m', Inl (OtherError []))
         else (case session_of m' i of None \<Rightarrow> (m', Inl (OtherError []))
               | Some s \<Rightarrow> (case assertOwnedByContext (ss_owner s) c of
                              Inl e \<Rightarrow> (m', Inl (Bridge e)) | Inr _ \<Rightarrow> (m', Inr i))))"

definition mark_activity :: "rat \<Rightarrow> string \<Rightarrow> manager \<Rightarrow> manager" where
  "mark_activity now i m = update_session (\<lambda>s. s\<lparr>ss_lastActivity := now\<rparr>) i m"

record session_status =
  st_active :: nat
  st_retained :: nat
  st_maximum :: nat

definition sessions_status :: "op_context option \<Rightarrow> manager \<Rightarrow> session_status" where
  "sessions_status c m =
     (let visible = filter (on_session (\<lambda>s. visibleToContext (ss_owner s) c) m) (mg_table m)
      in \<lparr>st_active = length (filter (on_session running m) visible), st_retained = length visible,
          st_maximum = MAX_PROCESS_SESSIONS\<rparr>)"

record session_summary =
  sm_session_id :: string
  sm_command :: string
  sm_running :: bool
  sm_exit_code :: "int option"
  sm_signal :: "string option"
  sm_stdin_closed :: bool
  sm_started_at :: rat
  sm_closed_at :: "rat option"
  sm_stdout_offset :: nat
  sm_stderr_offset :: nat

definition summary :: "string \<Rightarrow> session \<Rightarrow> session_summary" where
  "summary i s = \<lparr>sm_session_id = i, sm_command = ss_argv0 s, sm_running = running s, sm_exit_code = ss_exitCode s,
     sm_signal = ss_signal s, sm_stdin_closed = ss_stdinClosed s, sm_started_at = ss_startedAt s,
     sm_closed_at = (if ss_closedAt s = Some 0 then None else ss_closedAt s),
     sm_stdout_offset = os_totalBytes (ss_stdout s), sm_stderr_offset = os_totalBytes (ss_stderr s)\<rparr>"

section \<open>Starting a session\<close>

text \<open>Up to the resource admission: \<open>true\<close> admits the start to the next stage.\<close>

definition start_check :: "rat \<Rightarrow> manager \<Rightarrow> manager \<times> (thrown + unit)" where
  "start_check now m =
     (let m' = evict_exited (prune_sessions now m)
      in (m', if table_full m' then Inl (Bridge (berr ''limit_exceeded'')) else Inr ()))"

definition beginRemoteProcessSessionActivity :: "op_context option \<Rightarrow> bool \<Rightarrow> manager \<Rightarrow> manager \<times> bool" where
  "beginRemoteProcessSessionActivity c guarded m =
     (if Option.bind c c_origin \<noteq> Some ''relay'' \<or> \<not> guarded then (m, False)
      else (m\<lparr>mg_activity := mg_activity m + 1\<rparr>, True))"

definition endRemoteProcessSessionActivity :: "bool \<Rightarrow> manager \<Rightarrow> manager" where
  "endRemoteProcessSessionActivity held m = (if held then m\<lparr>mg_activity := mg_activity m - 1\<rparr> else m)"

definition new_session :: "string \<Rightarrow> string \<Rightarrow> rat \<Rightarrow> rat \<Rightarrow> bool \<Rightarrow> jsv \<Rightarrow> session" where
  "new_session argv0 cwd now wall held owner_fields =
     \<lparr>ss_child = True, ss_argv0 = basename argv0, ss_cwd = cwd,
      ss_stdout = empty_stream MAX_PROCESS_SESSION_OUTPUT_BYTES,
      ss_stderr = empty_stream MAX_PROCESS_SESSION_OUTPUT_BYTES,
      ss_startedAt = wall, ss_lastActivity = now, ss_closedAt = None, ss_exitCode = None, ss_signal = None,
      ss_stdinClosed = False, ss_terminating = False, ss_startupFailed = False, ss_activityHeld = held,
      ss_bindingSettled = False, ss_lastBlockingRead = None, ss_owner = owner_fields\<rparr>"

text \<open>
  The launch, once resources are admitted under the lease named as the session: \<open>launch\<close> is the outcome of building
  the command and of the cancellation check, \<open>spawned\<close> the one of spawning.
\<close>

definition start_launch ::
  "string \<Rightarrow> string \<Rightarrow> string \<Rightarrow> rat \<Rightarrow> rat \<Rightarrow> op_context option \<Rightarrow> bool \<Rightarrow> thrown + unit \<Rightarrow> thrown + unit \<Rightarrow> manager
     \<Rightarrow> manager \<times> (thrown + unit)" where
  "start_launch i argv0 cwd now wall c guarded launch spawned m =
     (let m1 = evict_exited m; failed = (\<lambda>m e. (m\<lparr>mg_released := mg_released m @ [i]\<rparr>, Inl e)) in
      if table_full m1 then failed m1 (Bridge (berr ''limit_exceeded''))
      else (case launch of Inl e \<Rightarrow> failed m1 e
      | Inr _ \<Rightarrow>
          let (m2, held) = beginRemoteProcessSessionActivity c guarded m1 in
          (case spawned of Inl e \<Rightarrow> failed (endRemoteProcessSessionActivity held m2) e
           | Inr _ \<Rightarrow> (case principalBinding c of Inl e \<Rightarrow> (m2, Inl (Bridge e))
              | Inr owner_fields \<Rightarrow>
                  let m3 = add_session i (new_session argv0 cwd now wall held owner_fields) m2
                  in (m3\<lparr>mg_tracked := mg_tracked m3 @ [i]\<rparr>, Inr ())))))"

text \<open>Events of the child: output, an error text on the error stream, and its settlement, which happens once.\<close>

definition on_stdout :: "rat \<Rightarrow> byte list \<Rightarrow> string \<Rightarrow> manager \<Rightarrow> manager" where
  "on_stdout now chunk i m = mark_activity now i (update_session (\<lambda>s. s\<lparr>ss_stdout := append_output chunk (ss_stdout s)\<rparr>) i m)"

definition on_stderr :: "rat \<Rightarrow> byte list \<Rightarrow> string \<Rightarrow> manager \<Rightarrow> manager" where
  "on_stderr now chunk i m = mark_activity now i (update_session (\<lambda>s. s\<lparr>ss_stderr := append_output chunk (ss_stderr s)\<rparr>) i m)"

definition on_settle :: "rat \<Rightarrow> rat \<Rightarrow> int option \<Rightarrow> string option \<Rightarrow> string \<Rightarrow> manager \<Rightarrow> manager" where
  "on_settle now wall exit_code signal i m =
     (case session_of m i of
        None \<Rightarrow> m
      | Some s \<Rightarrow>
          if \<not> ss_child s \<or> \<not> running s then m
          else
            let m1 = update_session (\<lambda>s. s\<lparr>ss_exitCode := exit_code, ss_signal := signal, ss_closedAt := Some wall,
                       ss_lastActivity := now, ss_stdinClosed := True\<rparr>) i m;
                m2 = endRemoteProcessSessionActivity (ss_activityHeld s) (m1\<lparr>mg_tracked := removeAll i (mg_tracked m1)\<rparr>);
                m3 = (if ss_bindingSettled s then m2\<lparr>mg_released := mg_released m2 @ [i]\<rparr> else m2)
            in if ss_startupFailed s then delete_session i m3 else m3)"

text \<open>The resource binding has settled, well or badly: a lease whose process is gone is then released.\<close>

definition binding_settled :: "string \<Rightarrow> manager \<Rightarrow> manager" where
  "binding_settled i m =
     (let m1 = update_session (\<lambda>s. s\<lparr>ss_bindingSettled := True\<rparr>) i m
      in if on_session (\<lambda>s. \<not> running s \<and> \<not> ss_bindingSettled s) m i
         then m1\<lparr>mg_released := mg_released m1 @ [i]\<rparr> else m1)"

definition failed_start :: "rat \<Rightarrow> bool \<Rightarrow> string \<Rightarrow> string \<Rightarrow> manager \<Rightarrow> manager \<times> bridge_error option" where
  "failed_start now requested err i m =
     (let m1 = update_session (\<lambda>s. s\<lparr>ss_startupFailed := True, ss_stdinClosed := True\<rparr>) i m
      in if on_session (\<lambda>s. \<not> running s) m i then (delete_session i m1, None)
         else (mark_activity now i m1, Some (BridgeError err (Some False) None
           (Some [(''side_effects_started'', JBool True), (''termination_requested'', JBool requested),
                  (''effect_settlement'', JStr (if requested then ''pending'' else ''unknown'')),
                  (''ownership_retained_until_close'', JBool True)]))))"

section \<open>Retained output of finished commands\<close>

definition retain_completed ::
  "string \<Rightarrow> string \<Rightarrow> string \<Rightarrow> output_stream \<Rightarrow> output_stream \<Rightarrow> int option \<Rightarrow> rat option \<Rightarrow> rat option
     \<Rightarrow> rat \<Rightarrow> rat \<Rightarrow> op_context option \<Rightarrow> manager \<Rightarrow> manager \<times> (bridge_error + session_summary option)" where
  "retain_completed i command cwd out err exit_code started finished now wall c m =
     (let m1 = evict_exited (prune_sessions now m) in
      if table_full m1 then (m1, Inr None)
      else
        let completedAt = (case finished of Some t \<Rightarrow> t | None \<Rightarrow> wall) in
        (case principalBinding c of Inl e \<Rightarrow> (m1, Inl e)
         | Inr owner_fields \<Rightarrow>
             let s = \<lparr>ss_child = False, ss_argv0 = basename (if command = [] then ''process'' else command), ss_cwd = cwd,
                   ss_stdout = out, ss_stderr = err,
                   ss_startedAt = (case started of Some t \<Rightarrow> t | None \<Rightarrow> completedAt),
                   ss_lastActivity = now, ss_closedAt = Some completedAt, ss_exitCode = exit_code, ss_signal = None,
                   ss_stdinClosed = True, ss_terminating = False, ss_startupFailed = False, ss_activityHeld = False,
                   ss_bindingSettled = False, ss_lastBlockingRead = None, ss_owner = owner_fields\<rparr>
             in (add_session i s m1, Inr (Some (summary i s)))))"

section \<open>Reading\<close>

definition maximumProcessReadWaitMs :: rat where
  "maximumProcessReadWaitMs = 1000"

definition remoteProcessBlockingPollCooldownMs :: rat where
  "remoteProcessBlockingPollCooldownMs = 15000"

record read_plan =
  rp_remote :: bool
  rp_waitMs :: rat
  rp_waitForExit :: bool
  rp_blocking :: bool
  rp_pollThrottled :: bool
  rp_cooldownWaitMs :: int

definition sessionHasOutputAfter :: "session \<Rightarrow> nat \<Rightarrow> nat \<Rightarrow> bool" where
  "sessionHasOutputAfter s stdoutOffset stderrOffset =
     (stdoutOffset < os_totalBytes (ss_stdout s) \<or> stderrOffset < os_totalBytes (ss_stderr s))"

definition planRemoteProcessRead :: "bool \<Rightarrow> session \<Rightarrow> rat \<Rightarrow> bool \<Rightarrow> bool \<Rightarrow> rat \<Rightarrow> read_plan" where
  "planRemoteProcessRead remote s requestedWaitMs waitForExit hasOutput now =
     (let waitMs = (if remote then min requestedWaitMs maximumProcessReadWaitMs else requestedWaitMs);
          wouldBlock = (waitMs > 0 \<and> running s \<and> (waitForExit \<or> \<not> hasOutput));
          plan = \<lparr>rp_remote = remote, rp_waitMs = waitMs, rp_waitForExit = waitForExit, rp_blocking = False,
                  rp_pollThrottled = False, rp_cooldownWaitMs = 0\<rparr>
      in if \<not> remote \<or> \<not> wouldBlock then plan
         else (case ss_lastBlockingRead s of
             Some t \<Rightarrow>
               let elapsed = max 0 (now - t) in
               if elapsed < remoteProcessBlockingPollCooldownMs
               then plan\<lparr>rp_pollThrottled := True,
                         rp_cooldownWaitMs := max 1 \<lceil>remoteProcessBlockingPollCooldownMs - elapsed\<rceil>\<rparr>
               else plan\<lparr>rp_blocking := True\<rparr>
           | None \<Rightarrow> plan\<lparr>rp_blocking := True\<rparr>))"

record read_report =
  rr_blocking_poll_throttled :: bool
  rr_status_polling_mode :: string
  rr_next_blocking_poll_after_ms :: int

definition finishRemoteProcessRead :: "read_plan \<Rightarrow> rat \<Rightarrow> session \<Rightarrow> session \<times> read_report option" where
  "finishRemoteProcessRead plan now s =
     (let s' = (if rp_blocking plan \<and> running s then s\<lparr>ss_lastBlockingRead := Some now\<rparr> else s);
          next_poll = (case ss_lastBlockingRead s' of
             Some t \<Rightarrow> if running s then max 0 \<lceil>remoteProcessBlockingPollCooldownMs - max 0 (now - t)\<rceil> else 0
           | None \<Rightarrow> 0)
      in (s', if \<not> rp_remote plan then None
              else Some \<lparr>rr_blocking_poll_throttled = rp_pollThrottled plan,
                rr_status_polling_mode = (if running s then ''paced_followup'' else ''terminal''),
                rr_next_blocking_poll_after_ms = next_poll\<rparr>))"

text \<open>\<open>read\<close> up to its waits, and from its waits to its result; the session may leave the table in between.\<close>

record read_request =
  rq_stdout_offset :: nat
  rq_stderr_offset :: nat
  rq_max_bytes :: nat
  rq_wait_ms :: rat
  rq_wait_for_exit :: bool

definition process_read_request :: "bool \<Rightarrow> jsv \<Rightarrow> read_request" where
  "process_read_request hosted args =
     (let top = (if hosted then 32768 else 256 * 1024) in
      \<lparr>rq_stdout_offset = nat (clampInteger (js_get args ''stdout_offset'') 0 0 9007199254740991),
       rq_stderr_offset = nat (clampInteger (js_get args ''stderr_offset'') 0 0 9007199254740991),
       rq_max_bytes = nat (clampInteger (js_get args ''max_bytes'') (if hosted then top else 64 * 1024) 1 top),
       rq_wait_ms = of_int (clampInteger (js_get args ''wait_ms'') (if hosted then 1000 else 0) 0 30000),
       rq_wait_for_exit = (js_get args ''wait_for_exit'' = JBool True)\<rparr>)"

definition read_begin :: "(string \<Rightarrow> thrown + unit) \<Rightarrow> rat \<Rightarrow> bool \<Rightarrow> jsv \<Rightarrow> read_request \<Rightarrow> op_context option \<Rightarrow> manager
     \<Rightarrow> manager \<times> (thrown + string \<times> read_plan)" where
  "read_begin authorizeTool now remote sessionId q c m =
     (case authorizeTool ''read_process'' of
        Inl e \<Rightarrow> (m, Inl e)
      | Inr _ \<Rightarrow>
          (case get_session now sessionId c m of
             (m', Inl e) \<Rightarrow> (m', Inl e)
           | (m', Inr i) \<Rightarrow>
               (case session_of m' i of None \<Rightarrow> (m', Inl (OtherError []))
                | Some s \<Rightarrow> (m', Inr (i, planRemoteProcessRead remote s (rq_wait_ms q) (rq_wait_for_exit q)
                    (sessionHasOutputAfter s (rq_stdout_offset q) (rq_stderr_offset q)) now)))))"

definition waits_after_cooldown :: "read_request \<Rightarrow> session \<Rightarrow> read_plan \<Rightarrow> read_plan" where
  "waits_after_cooldown q s plan =
     (if rp_waitMs plan > 0 \<and> running s
         \<and> (rp_waitForExit plan \<or> \<not> sessionHasOutputAfter s (rq_stdout_offset q) (rq_stderr_offset q))
      then plan\<lparr>rp_blocking := True\<rparr> else plan)"

definition read_finish :: "rat \<Rightarrow> read_request \<Rightarrow> read_plan \<Rightarrow> string \<Rightarrow> manager
     \<Rightarrow> manager \<times> (session_summary \<times> read_report option \<times> output_read \<times> output_read) option" where
  "read_finish now q plan i m =
     (case session_of m i of
        None \<Rightarrow> (m, None)
      | Some s \<Rightarrow>
          let (s', report) = finishRemoteProcessRead plan now (s\<lparr>ss_lastActivity := now\<rparr>);
              arg = (\<lambda>n. JNum (Fin (of_nat n)))
          in (update_session (\<lambda>_. s') i m,
              Some (summary i s', report, read_output (arg (rq_stdout_offset q)) (arg (rq_max_bytes q)) (ss_stdout s),
                    read_output (arg (rq_stderr_offset q)) (arg (rq_max_bytes q)) (ss_stderr s))))"

section \<open>Writing and terminating\<close>

definition utf8_length :: "string \<Rightarrow> nat" where
  "utf8_length s = sum_list (map (\<lambda>c. if of_char c < (128 :: nat) then 1 else 2) s)"

definition write_session :: "(string \<Rightarrow> thrown + unit) \<Rightarrow> rat \<Rightarrow> jsv \<Rightarrow> string \<Rightarrow> bool \<Rightarrow> bool \<Rightarrow> thrown + unit \<Rightarrow> op_context option
     \<Rightarrow> manager \<Rightarrow> manager \<times> (thrown + nat)" where
  "write_session authorizeTool now sessionId data close_stdin destroyed written c m =
     (case authorizeTool ''write_process'' of
        Inl e \<Rightarrow> (m, Inl e)
      | Inr _ \<Rightarrow>
          (case get_session now sessionId c m of
             (m', Inl e) \<Rightarrow> (m', Inl e)
           | (m', Inr i) \<Rightarrow>
               if on_session (\<lambda>s. \<not> running s) m' i then (m', Inl (OtherError []))
               else if utf8_length data > MAX_PROCESS_SESSION_STDIN_BYTES then (m', Inl (OtherError []))
               else if on_session ss_stdinClosed m' i \<or> destroyed then (m', Inl (OtherError []))
               else (case (if data = [] then Inr () else written) of
                   Inl e \<Rightarrow> (m', Inl e)
                 | Inr _ \<Rightarrow>
                     let m2 = (if close_stdin then update_session (\<lambda>s. s\<lparr>ss_stdinClosed := True\<rparr>) i m' else m')
                     in (mark_activity now i m2, Inr (utf8_length data)))))"

definition kill_session :: "(string \<Rightarrow> thrown + unit) \<Rightarrow> rat \<Rightarrow> jsv \<Rightarrow> bool \<Rightarrow> bool \<Rightarrow> op_context option \<Rightarrow> manager
     \<Rightarrow> manager \<times> (thrown + session_summary \<times> bool)" where
  "kill_session authorizeTool now sessionId force delivered c m =
     (case authorizeTool ''kill_process'' of
        Inl e \<Rightarrow> (m, Inl e)
      | Inr _ \<Rightarrow>
          (case get_session now sessionId c m of
             (m', Inl e) \<Rightarrow> (m', Inl e)
           | (m', Inr i) \<Rightarrow>
               let wasRunning = on_session running m' i in
               if wasRunning \<and> force \<and> \<not> delivered then (m', Inl (Bridge (BridgeError ''unavailable'' (Some True) None None)))
               else
                 let m2 = (if wasRunning \<and> \<not> force then update_session (\<lambda>s. s\<lparr>ss_terminating := True\<rparr>) i m' else m');
                     m3 = mark_activity now i m2
                 in (case session_of m3 i of None \<Rightarrow> (m3, Inl (OtherError []))
                     | Some s \<Rightarrow> (m3, Inr (summary i s, wasRunning)))))"

text \<open>
  \<open>terminateProcessSessions\<close>: the pass over the table, which drops the exited sessions and asks the others to stop,
  and the wait for each of those, after which it is dropped if it has exited.
\<close>

fun terminate_pass :: "(session \<Rightarrow> bool) \<Rightarrow> (string \<Rightarrow> bool) \<Rightarrow> string list \<Rightarrow> manager \<Rightarrow> manager \<times> nat \<times> string list \<times> bool" where
  "terminate_pass matches requested [] m = (m, 0, [], False)"
| "terminate_pass matches requested (i # is) m =
     (case session_of m i of
        None \<Rightarrow> terminate_pass matches requested is m
      | Some s \<Rightarrow>
          if \<not> matches s then terminate_pass matches requested is m
          else if \<not> running s
          then let (m', n, pending, failed) = terminate_pass matches requested is (delete_session i m)
               in (m', Suc n, pending, failed)
          else let (m', n, pending, failed) = terminate_pass matches requested is m
               in if \<not> ss_child s \<or> \<not> requested i then (m', n, pending, True) else (m', n, i # pending, failed))"

definition terminateProcessSessions ::
  "(session \<Rightarrow> bool) \<Rightarrow> (string \<Rightarrow> bool) \<Rightarrow> manager \<Rightarrow> manager \<times> nat \<times> string list \<times> bool" where
  "terminateProcessSessions matches requested m = terminate_pass matches requested (mg_table m) m"

definition settleProcessSession :: "string \<Rightarrow> manager \<Rightarrow> manager \<times> bool" where
  "settleProcessSession i m = (if on_session running m i then (m, False) else (delete_session i m, True))"

definition revokeAuthority :: "revocation option \<Rightarrow> (string \<Rightarrow> bool) \<Rightarrow> manager \<Rightarrow> manager \<times> nat \<times> string list \<times> bool" where
  "revokeAuthority rv requested m =
     terminateProcessSessions (\<lambda>s. recordMatchesAuthorityRevocation (ss_owner s) rv) requested m"

end
