(* ===== verification/ProcessOutputSpec.thy ===== *)
theory ProcessOutputSpec
  imports ProcessOutput
begin

text \<open>
  The output stream refines the log of everything written to it, as an instance of an append-only log, and a
  client that reads from where it stopped receives every retained byte exactly once and in order.
\<close>

section \<open>Append-only logs\<close>

locale append_log =
  fixes append :: "'b list \<Rightarrow> 's \<Rightarrow> 's"
    and holds :: "'b list \<Rightarrow> 's \<Rightarrow> bool"
  assumes append_holds: "holds hist s \<Longrightarrow> holds (hist @ xs) (append xs s)"
begin

lemma append_all: "holds hist s \<Longrightarrow> holds (hist @ concat chunks) (fold append chunks s)"
proof (induction chunks arbitrary: hist s)
  case (Cons c chunks)
  from Cons.IH [OF append_holds [OF Cons.prems]] show ?case by simp
qed simp

end

section \<open>The ring holds the end of the log\<close>

definition ring_holds :: "byte list \<Rightarrow> output_stream \<Rightarrow> bool" where
  "ring_holds hist s =
     (let m = os_maximumBytes s; r = os_retainedBytes s in
      0 < m \<and> length (os_storage s) = m \<and> os_writeOffset s < m \<and> os_totalBytes s = length hist
      \<and> r = min m (length hist) \<and> os_baseOffset s = length hist - r
      \<and> (\<forall>i < r. os_storage s ! ((os_writeOffset s + m - r + i) mod m) = hist ! (length hist - r + i)))"

lemma ring_slice_nth:
  assumes "length (os_storage s) = os_maximumBytes s" "a < os_maximumBytes s" "n \<le> os_maximumBytes s"
  shows "ring_slice s a (a + n) = map (\<lambda>i. os_storage s ! ((a + i) mod os_maximumBytes s)) [0..<n]"
proof (rule nth_equalityI)
  show l: "length (ring_slice s a (a + n)) = length (map (\<lambda>i. os_storage s ! ((a + i) mod os_maximumBytes s)) [0..<n])"
    using assms by (auto simp: ring_slice_def subarray_def)
  fix i
  assume "i < length (ring_slice s a (a + n))"
  with l have i: "i < n" by simp
  have "(a + i) mod os_maximumBytes s = (if a + i < os_maximumBytes s then a + i else a + i - os_maximumBytes s)"
    using i assms by (simp add: mod_if)
  then show "ring_slice s a (a + n) ! i = map (\<lambda>i. os_storage s ! ((a + i) mod os_maximumBytes s)) [0..<n] ! i"
    using i assms by (auto simp: ring_slice_def subarray_def nth_append add.commute less_diff_conv)
qed

lemma ring_window:
  assumes "ring_holds hist s" "k + n \<le> os_retainedBytes s"
  shows "ring_slice s ((os_writeOffset s + k + os_maximumBytes s - os_retainedBytes s) mod os_maximumBytes s)
           ((os_writeOffset s + k + os_maximumBytes s - os_retainedBytes s) mod os_maximumBytes s + n)
         = take n (drop (os_baseOffset s + k) hist)"
proof -
  let ?m = "os_maximumBytes s" and ?r = "os_retainedBytes s" and ?w = "os_writeOffset s"
  from assms have m: "0 < ?m" "length (os_storage s) = ?m" "?r = min ?m (length hist)" "os_baseOffset s = length hist - ?r"
    and at_i: "\<And>i. i < ?r \<Longrightarrow> os_storage s ! ((?w + ?m - ?r + i) mod ?m) = hist ! (length hist - ?r + i)"
    by (auto simp: ring_holds_def Let_def)
  have "?w + k + ?m - ?r + i = ?w + ?m - ?r + (k + i)" for i
    using m(3) by simp
  then have index: "((?w + k + ?m - ?r) mod ?m + i) mod ?m = (?w + ?m - ?r + (k + i)) mod ?m" for i
    by (metis add.assoc mod_add_left_eq)
  have "ring_slice s ((?w + k + ?m - ?r) mod ?m) ((?w + k + ?m - ?r) mod ?m + n)
      = map (\<lambda>i. os_storage s ! (((?w + k + ?m - ?r) mod ?m + i) mod ?m)) [0..<n]"
    using assms(2) m(1,2,3) by (intro ring_slice_nth) auto
  also have "\<dots> = map (\<lambda>i. os_storage s ! ((?w + ?m - ?r + (k + i)) mod ?m)) [0..<n]"
    by (simp only: index)
  also have "\<dots> = map (\<lambda>i. hist ! (length hist - ?r + k + i)) [0..<n]"
    using assms(2) by (intro map_cong refl) (auto simp: at_i add.assoc)
  also have "\<dots> = take n (drop (length hist - ?r + k) hist)"
    using assms(2) m(3) by (intro nth_equalityI) auto
  finally show ?thesis using m(4) by simp
qed

lemma overlay_nth:
  "offset + length bytes \<le> length xs \<Longrightarrow> j < length xs \<Longrightarrow>
     overlay bytes offset xs ! j = (if offset \<le> j \<and> j < offset + length bytes then bytes ! (j - offset) else xs ! j)"
  by (auto simp: overlay_def nth_append)

lemma overlay_length [simp]: "offset + length bytes \<le> length xs \<Longrightarrow> length (overlay bytes offset xs) = length xs"
  by (simp add: overlay_def)

text \<open>Writing at the end of the ring: in place, or in two parts.\<close>

definition ring_write :: "byte list \<Rightarrow> nat \<Rightarrow> byte list \<Rightarrow> byte list" where
  "ring_write xs w st =
     (let first = min (length xs) (length st - w);
          st1 = overlay (take first xs) w st
      in if first < length xs then overlay (drop first xs) 0 st1 else st1)"

lemma ring_write:
  assumes "w < length st" "length xs < length st" "k < length st"
  shows "length (ring_write xs w st) = length st"
    and "ring_write xs w st ! ((w + k) mod length st)
           = (if k < length xs then xs ! k else st ! ((w + k) mod length st))"
proof -
  have md: "(w + k) mod length st = (if w + k < length st then w + k else w + k - length st)"
    using assms by (simp add: mod_if)
  have "length (ring_write xs w st) = length st \<and> ring_write xs w st ! ((w + k) mod length st)
           = (if k < length xs then xs ! k else st ! ((w + k) mod length st))"
  proof (cases "w + length xs \<le> length st")
    case True
    then have "ring_write xs w st = overlay xs w st" by (simp add: ring_write_def)
    then show ?thesis using True assms md by (auto simp: overlay_nth)
  next
    case False
    then have "ring_write xs w st
        = overlay (drop (length st - w) xs) 0 (overlay (take (length st - w) xs) w st)"
      using assms(1) by (auto simp: ring_write_def Let_def min_def)
    then show ?thesis using False assms md by (auto simp: overlay_nth)
  qed
  then show "length (ring_write xs w st) = length st"
    and "ring_write xs w st ! ((w + k) mod length st)
           = (if k < length xs then xs ! k else st ! ((w + k) mod length st))" by auto
qed

lemma append_small:
  "input \<noteq> [] \<Longrightarrow> length input < os_maximumBytes s \<Longrightarrow> length (os_storage s) = os_maximumBytes s \<Longrightarrow>
   append_output input s =
     (let retained = min (os_maximumBytes s) (os_retainedBytes s + length input) in
      s\<lparr>os_totalBytes := os_totalBytes s + length input, os_storage := ring_write input (os_writeOffset s) (os_storage s),
        os_writeOffset := (os_writeOffset s + length input) mod os_maximumBytes s, os_retainedBytes := retained,
        os_baseOffset := os_totalBytes s + length input - retained\<rparr>)"
  by (simp add: append_output_def ring_write_def Let_def)

lemma append_small_holds:
  assumes h: "ring_holds hist s" and i: "input \<noteq> []" "length input < os_maximumBytes s"
  shows "ring_holds (hist @ input) (append_output input s)"
proof -
  let ?m = "os_maximumBytes s" and ?r = "os_retainedBytes s" and ?w = "os_writeOffset s" and ?n = "length input"
  let ?r' = "min ?m (?r + ?n)"
  from h have m: "0 < ?m" "length (os_storage s) = ?m" "?w < ?m" "?r = min ?m (length hist)"
    "os_totalBytes s = length hist"
    and at_i: "\<And>i. i < ?r \<Longrightarrow> os_storage s ! ((?w + ?m - ?r + i) mod ?m) = hist ! (length hist - ?r + i)"
    by (auto simp: ring_holds_def Let_def)
  have "ring_write input ?w (os_storage s) ! (((?w + ?n) mod ?m + ?m - ?r' + i) mod ?m)
      = (hist @ input) ! (length hist + ?n - ?r' + i)" if lt: "i < ?r'" for i
  proof -
    have e: "((?w + ?n) mod ?m + ?m - ?r' + i) mod ?m = (?w + (?n + ?m - ?r' + i)) mod ?m"
    proof -
      have "(?w + ?n) mod ?m + ?m - ?r' + i = (?w + ?n) mod ?m + (?m - ?r' + i)" by simp
      also have "\<dots> mod ?m = (?w + ?n + (?m - ?r' + i)) mod ?m" by (rule mod_add_left_eq)
      also have "?w + ?n + (?m - ?r' + i) = ?w + (?n + ?m - ?r' + i)" by simp
      finally show ?thesis .
    qed
    show ?thesis
    proof (cases "i + ?n < ?r'")
      case True
      have k: "?n + ?m - ?r' + i < ?m" "?n \<le> ?n + ?m - ?r' + i" using True by auto
      define j where "j = i + ?r + ?n - ?r'"
      have j: "j < ?r" "?w + ?m - ?r + j = ?w + (?n + ?m - ?r' + i)" using True m(4) by (auto simp: j_def)
      have "os_storage s ! ((?w + (?n + ?m - ?r' + i)) mod ?m) = hist ! (length hist - ?r + j)"
        using at_i [OF j(1)] unfolding j(2) .
      moreover have "length hist - ?r + j = length hist + ?n - ?r' + i" using True m(4) by (auto simp: j_def)
      moreover have "ring_write input ?w (os_storage s) ! ((?w + (?n + ?m - ?r' + i)) mod ?m)
          = os_storage s ! ((?w + (?n + ?m - ?r' + i)) mod ?m)"
        using ring_write(2) [of ?w "os_storage s" input "?n + ?m - ?r' + i"] k m(2,3) i(2) by simp
      moreover have "length hist + ?n - ?r' + i < length hist" using True m(4) lt by auto
      ultimately show ?thesis unfolding e by (simp add: nth_append)
    next
      case False
      then have "?w + (?n + ?m - ?r' + i) = ?w + (i + ?n - ?r') + ?m" using lt by auto
      then have a: "(?w + (?n + ?m - ?r' + i)) mod ?m = (?w + (i + ?n - ?r')) mod ?m"
        by (simp only: mod_add_self2)
      have k: "i + ?n - ?r' < ?n" using lt False by auto
      have b: "ring_write input ?w (os_storage s) ! ((?w + (i + ?n - ?r')) mod ?m) = input ! (i + ?n - ?r')"
        using ring_write(2) [of ?w "os_storage s" input "i + ?n - ?r'"] k m(2,3) i(2) by simp
      have c: "length hist + ?n - ?r' + i = length hist + (i + ?n - ?r')" using False lt m(4) by auto
      show ?thesis by (simp only: e a b c nth_append_length_plus)
    qed
  qed
  moreover have "length (ring_write input ?w (os_storage s)) = ?m" using ring_write(1) [of ?w "os_storage s" input 0] m i by auto
  ultimately show ?thesis using m i by (auto simp: append_small ring_holds_def Let_def)
qed

lemma append_holds: "ring_holds hist s \<Longrightarrow> ring_holds (hist @ input) (append_output input s)"
proof (cases "input = []")
  case False
  assume h: "ring_holds hist s"
  show ?thesis
  proof (cases "length input < os_maximumBytes s")
    case True
    with h False show ?thesis by (rule append_small_holds)
  next
    case big: False
    then show ?thesis using h False
      by (auto simp: append_output_def ring_holds_def Let_def overlay_def nth_append)
  qed
qed (simp add: append_output_def)

interpretation output_log: append_log append_output ring_holds
  by unfold_locales (rule append_holds)

lemma num_lt_Fin: "fin_of x = Some q \<Longrightarrow> num_lt x (Fin c) = (q < c)"
  by (cases x) auto

lemma new_stream_holds: "new_output_stream maximumBytes = Inr s \<Longrightarrow> ring_holds [] s"
  by (cases "fin_of (js_Number maximumBytes)")
    (auto simp: new_output_stream_def empty_stream_def ring_holds_def Let_def isSafeInteger_def num_lt_Fin split: if_splits)

text \<open>The buffer is the end of the log.\<close>

lemma output_buffer_log: "ring_holds hist s \<Longrightarrow> output_buffer s = drop (os_baseOffset s) hist"
proof -
  assume h: "ring_holds hist s"
  then have "os_baseOffset s = length hist - os_retainedBytes s" "os_retainedBytes s \<le> length hist"
    by (auto simp: ring_holds_def Let_def)
  with ring_window [OF h, of 0 "os_retainedBytes s"] show ?thesis
    by (simp add: output_buffer_def Let_def)
qed

section \<open>Reads\<close>

lemma read_output_log:
  fixes q k :: jsv
  assumes h: "ring_holds hist s"
  defines "start \<equiv> max (min (offset_argument q) (length hist)) (os_baseOffset s)"
  defines "stop \<equiv> min (start + length_argument k) (length hist)"
  shows "read_output q k s = \<lparr>or_decoded = decodeProcessBytes (drop start (take stop hist)),
      or_requested_offset = offset_argument q, or_start_offset = start, or_next_offset = stop,
      or_total_offset = length hist, or_retained_start_offset = length hist - min (os_maximumBytes s) (length hist),
      or_truncated_before = (offset_argument q < length hist - min (os_maximumBytes s) (length hist)),
      or_truncated_after = (stop < length hist)\<rparr>"
proof -
  let ?r = "os_retainedBytes s" and ?b = "os_baseOffset s"
  from h have m: "?r = min (os_maximumBytes s) (length hist)" "?b = length hist - ?r" "os_totalBytes s = length hist"
    by (auto simp: ring_holds_def Let_def)
  then have st: "?b \<le> start" "start \<le> length hist" by (auto simp: start_def)
  define n where "n = min (length_argument k) (?r - (start - ?b))"
  have stop: "stop = start + n" using st m by (auto simp: stop_def n_def)
  have w: "start - ?b + n \<le> ?r" using st m by (auto simp: n_def)
  have slice: "ring_slice s ((os_writeOffset s + (start - ?b) + os_maximumBytes s - ?r) mod os_maximumBytes s)
      ((os_writeOffset s + (start - ?b) + os_maximumBytes s - ?r) mod os_maximumBytes s + n) = drop start (take stop hist)"
    using ring_window [OF h w] st stop by (simp add: take_drop add.commute)
  have "length (drop start (take stop hist)) = n" using stop st by (simp add: stop_def)
  moreover have "(if n = 0 then [] else ring_slice s ((os_writeOffset s + (start - ?b) + os_maximumBytes s - ?r) mod os_maximumBytes s)
      ((os_writeOffset s + (start - ?b) + os_maximumBytes s - ?r) mod os_maximumBytes s + n)) = drop start (take stop hist)"
    using slice stop by simp
  moreover have "max (min (offset_argument q) (os_totalBytes s)) ?b = start" by (simp add: start_def m(3))
  ultimately show ?thesis
    unfolding read_output_def Let_def by (simp only: n_def [symmetric]) (simp add: stop m)
qed

lemma offset_argument_nat: "n \<le> 9007199254740991 \<Longrightarrow> offset_argument (JNum (Fin (of_nat n))) = n"
  by (simp add: offset_argument_def Let_def isSafeInteger_def rat_is_int_def)

text \<open>
  A process that writes and a client that reads it from where it stopped: the position of the client, and what it
  was given.
\<close>

datatype session_event = Produced "byte list" | Polled jsv

fun session_step :: "output_stream \<times> nat \<times> output_read list \<Rightarrow> session_event \<Rightarrow> output_stream \<times> nat \<times> output_read list" where
  "session_step (s, offset, rs) (Produced bytes) = (append_output bytes s, offset, rs)"
| "session_step (s, offset, rs) (Polled maximum) =
     (let r = read_output (JNum (Fin (of_nat offset))) maximum s in (s, or_next_offset r, rs @ [r]))"

definition produced :: "session_event list \<Rightarrow> byte list" where
  "produced es = concat (map (\<lambda>e. case e of Produced bytes \<Rightarrow> bytes | Polled _ \<Rightarrow> []) es)"

lemma session_reads_kept: "set (snd (snd st)) \<subseteq> set (snd (snd (foldl session_step st es)))"
proof (induction es arbitrary: st)
  case (Cons e es)
  have "set (snd (snd st)) \<subseteq> set (snd (snd (session_step st e)))"
    by (cases st; cases e) (auto simp: Let_def)
  with Cons [of "session_step st e"] show ?case by auto
qed simp

lemma session_run:
  assumes "ring_holds hist s" "offset \<le> length hist" "concat slices = take offset hist"
    "map or_decoded rs = map decodeProcessBytes slices"
    "foldl session_step (s, offset, rs) es = (s', offset', rs')" "\<forall>r \<in> set rs'. \<not> or_truncated_before r"
    "length (hist @ produced es) \<le> 9007199254740991"
  shows "ring_holds (hist @ produced es) s' \<and> offset' \<le> length (hist @ produced es)
       \<and> (\<exists>slices. concat slices = take offset' (hist @ produced es) \<and> map or_decoded rs' = map decodeProcessBytes slices)"
  using assms
proof (induction es arbitrary: hist s offset rs slices)
  case Nil
  then show ?case by (auto simp: produced_def)
next
  case (Cons e es)
  show ?case
  proof (cases e)
    case (Produced bytes)
    have p: "produced (Produced bytes # es) = bytes @ produced es" by (simp add: produced_def)
    have "concat slices = take offset (hist @ bytes)" using Cons.prems(2,3) by simp
    from Cons.IH [OF append_holds [OF Cons.prems(1)] _ this Cons.prems(4) _ Cons.prems(6)] show ?thesis
      using Cons.prems(2,5,7) by (simp add: p Produced)
  next
    case (Polled k)
    have p: "produced (Polled k # es) = produced es" by (simp add: produced_def)
    define r where "r = read_output (JNum (Fin (of_nat offset))) k s"
    have arg: "offset_argument (JNum (Fin (of_nat offset))) = offset"
      using Cons.prems(2,7) by (intro offset_argument_nat) simp
    have fold: "foldl session_step (s, or_next_offset r, rs @ [r]) es = (s', offset', rs')"
      using Cons.prems(5) by (simp add: Polled r_def Let_def)
    from session_reads_kept [of "(s, or_next_offset r, rs @ [r])" es] fold have "r \<in> set rs'" by fastforce
    with Cons.prems(6) have "\<not> or_truncated_before r" by blast
    then have start: "max (min offset (length hist)) (os_baseOffset s) = offset"
      using Cons.prems(1,2) by (auto simp: r_def read_output_log [OF Cons.prems(1)] arg ring_holds_def Let_def)
    define stop where "stop = min (offset + length_argument k) (length hist)"
    have r: "or_next_offset r = stop" "or_decoded r = decodeProcessBytes (drop offset (take stop hist))"
      by (simp_all add: r_def read_output_log [OF Cons.prems(1)] arg start stop_def)
    have "offset \<le> stop" "stop \<le> length hist" using Cons.prems(2) by (auto simp: stop_def)
    then have "concat (slices @ [drop offset (take stop hist)]) = take stop hist"
      using Cons.prems(3) append_take_drop_id [of offset "take stop hist"] by (simp add: min_def)
    from Cons.IH [OF Cons.prems(1) _ this, of "rs @ [r]", OF _ _ _ Cons.prems(6)] show ?thesis
      using Cons.prems(4,7) \<open>stop \<le> length hist\<close> fold r by (simp add: p Polled)
  qed
qed

text \<open>
  C30. The bounded stream refines the log of everything the process wrote: after any appends its buffer is the newest
  part of that log, as much as the bound allows, and a read gives the decoding of exactly the bytes of the log
  between the start and the next offset it reports, with truthful truncation flags.
\<close>

theorem stream_refines_log:
  fixes chunks :: "byte list list"
  assumes "new_output_stream maximumBytes = Inr s0"
  shows "let s = fold append_output chunks s0; written = concat chunks;
             oldest = length written - os_maximumBytes s0; r = read_output offset k s
         in output_buffer s = drop oldest written
          \<and> or_start_offset r = max (min (offset_argument offset) (length written)) oldest
          \<and> or_next_offset r = min (or_start_offset r + length_argument k) (length written)
          \<and> or_decoded r = decodeProcessBytes (drop (or_start_offset r) (take (or_next_offset r) written))
          \<and> or_truncated_before r = (offset_argument offset < oldest)
          \<and> or_truncated_after r = (or_next_offset r < length written)"
proof -
  define s where "s = fold append_output chunks s0"
  have "os_maximumBytes (fold append_output cs t) = os_maximumBytes t" for cs t
    by (induction cs arbitrary: t) (simp_all add: append_output_def Let_def)
  then have m: "os_maximumBytes s = os_maximumBytes s0" by (simp add: s_def)
  have h: "ring_holds (concat chunks) s"
    using output_log.append_all [OF new_stream_holds [OF assms(1)], of chunks] by (simp add: s_def)
  then have b: "os_baseOffset s = length (concat chunks) - os_maximumBytes s0" by (auto simp: ring_holds_def Let_def m)
  show ?thesis
    unfolding Let_def s_def [symmetric] read_output_log [OF h] using output_buffer_log [OF h] by (auto simp: b m)
qed

lemma stream_refines_log_witness:
  "\<exists>s0. new_output_stream (JNum (Fin 4)) = Inr s0
     \<and> output_buffer (fold append_output [[1, 2, 3], [4, 5], [6]] s0) = [3, 4, 5, 6]"
proof -
  define s0 where "s0 = (case new_output_stream (JNum (Fin 4)) of Inr s \<Rightarrow> s | Inl _ \<Rightarrow> undefined)"
  have n: "new_output_stream (JNum (Fin 4)) = Inr s0"
    by (simp add: s0_def new_output_stream_def Let_def isSafeInteger_def)
  then have "os_maximumBytes s0 = 4" by (auto simp: new_output_stream_def empty_stream_def Let_def isSafeInteger_def)
  with stream_refines_log [OF n, of "[[1, 2, 3], [4, 5], [6]]"] n show ?thesis by (auto simp: Let_def)
qed

text \<open>
  C31. A client that polls a running process from where it stopped loses nothing silently: whatever the process
  writes in between and however short the reads are, unless one of the reads says that earlier output was
  truncated, the reads are the decodings of consecutive pieces that make up the output, in order and without gap or
  repetition, up to the position the client has reached.
\<close>

theorem polling_is_complete:
  assumes "new_output_stream maximumBytes = Inr s0"
    and "foldl session_step (s0, 0, []) es = (s, offset, rs)"
    and "\<forall>r \<in> set rs. \<not> or_truncated_before r"
    and "length (produced es) \<le> 9007199254740991"
  shows "offset \<le> length (produced es)
       \<and> (\<exists>slices. concat slices = take offset (produced es) \<and> map or_decoded rs = map decodeProcessBytes slices)"
  using session_run [OF new_stream_holds [OF assms(1)], where slices = "[]" and offset = 0 and rs = "[]"] assms by simp

definition sample_stream :: output_stream where
  "sample_stream = empty_stream 4"

lemma sample_stream: "new_output_stream (JNum (Fin 4)) = Inr sample_stream" "ring_holds [] sample_stream"
  by (simp_all add: new_output_stream_def sample_stream_def empty_stream_def Let_def isSafeInteger_def ring_holds_def)

definition sample_events :: "session_event list" where
  "sample_events = [Produced [72, 105, 33], Polled (JNum (Fin 2)), Produced [10, 79], Polled (JNum (Fin 9))]"

lemma sample_session: "\<exists>s rs. foldl session_step (sample_stream, 0, []) sample_events = (s, 5, rs)
    \<and> (\<forall>r \<in> set rs. \<not> or_truncated_before r)"
proof -
  define s1 where "s1 = append_output [72, 105, 33] sample_stream"
  define s2 where "s2 = append_output [10, 79] s1"
  have h1: "ring_holds [72, 105, 33] s1" using append_holds [OF sample_stream(2), of "[72, 105, 33]"] by (simp add: s1_def)
  have h2: "ring_holds [72, 105, 33, 10, 79] s2" using append_holds [OF h1, of "[10, 79]"] by (simp add: s2_def)
  have m: "os_maximumBytes s1 = 4" "os_maximumBytes s2 = 4"
    by (simp_all add: s1_def s2_def append_output_def Let_def sample_stream_def empty_stream_def)
  have b: "os_baseOffset s1 = 0" "os_baseOffset s2 = 1" using h1 h2 m by (simp_all add: ring_holds_def Let_def)
  have l: "length_argument (JNum (Fin 2)) = 2" "length_argument (JNum (Fin 9)) = 9"
    by (simp_all add: length_argument_def Let_def isSafeInteger_def)
  have o: "offset_argument (JNum (Fin 0)) = 0" "offset_argument (JNum (Fin 2)) = 2"
    by (simp_all add: offset_argument_def Let_def isSafeInteger_def)
  show ?thesis
    by (simp add: sample_events_def s1_def [symmetric] s2_def [symmetric] Let_def
        read_output_log [OF h1] read_output_log [OF h2] m b l o)
qed

lemma polling_is_complete_witness:
  "\<exists>s rs slices. foldl session_step (sample_stream, 0, []) sample_events = (s, 5, rs)
     \<and> concat slices = [72, 105, 33, 10, 79] \<and> map or_decoded rs = map decodeProcessBytes slices"
proof -
  obtain s rs where r: "foldl session_step (sample_stream, 0, []) sample_events = (s, 5, rs)"
    "\<forall>r \<in> set rs. \<not> or_truncated_before r" using sample_session by blast
  from polling_is_complete [OF sample_stream(1) r] show ?thesis
    using r(1) by (auto simp: produced_def sample_events_def)
qed

end
