(* ===== verification/ProcessSessionsSpec.thy ===== *)
theory ProcessSessionsSpec
  imports ProcessSessions ProcessOutputSpec
begin

text \<open>
  What the session manager keeps in every run: its table is bounded, holds every session whose process still runs,
  and the tracker and the remote-activity guard agree with the running sessions.
\<close>

section \<open>Runs\<close>

text \<open>
  The events of a run.  A random id names one session only, and a context that reaches the launch has an owner: the
  events of a run that break these are without effect.
\<close>

datatype manager_event =
    StartCheck rat
  | Launch string string string rat rat "op_context option" bool "thrown + unit" "thrown + unit"
  | Stdout rat "byte list" string
  | Stderr rat "byte list" string
  | Settled rat rat "int option" "string option" string
  | BindingSettled string
  | FailedStart rat bool string string
  | Retained string string string output_stream output_stream "int option" "rat option" "rat option" rat rat "op_context option"
  | ReadBegin rat bool jsv read_request "op_context option"
  | ReadFinish rat read_request read_plan string
  | Write rat jsv string bool bool "thrown + unit" "op_context option"
  | Kill rat jsv bool bool "op_context option"
  | Revoke "revocation option" "string \<Rightarrow> bool"
  | Shutdown "string \<Rightarrow> bool"
  | TerminationWaited string

fun manager_step :: "(string \<Rightarrow> thrown + unit) \<Rightarrow> manager \<Rightarrow> manager_event \<Rightarrow> manager" where
  "manager_step az m (StartCheck now) = fst (start_check now m)"
| "manager_step az m (Launch i argv0 cwd now wall c guarded launch spawned) =
     (if session_of m i \<noteq> None \<or> \<not> is_ok (principalBinding c) then m
      else fst (start_launch i argv0 cwd now wall c guarded launch spawned m))"
| "manager_step az m (Stdout now chunk i) = on_stdout now chunk i m"
| "manager_step az m (Stderr now chunk i) = on_stderr now chunk i m"
| "manager_step az m (Settled now wall exit_code signal i) = on_settle now wall exit_code signal i m"
| "manager_step az m (BindingSettled i) = binding_settled i m"
| "manager_step az m (FailedStart now requested err i) = fst (failed_start now requested err i m)"
| "manager_step az m (Retained i command cwd out err exit_code started finished now wall c) =
     (if session_of m i \<noteq> None then m
      else fst (retain_completed i command cwd out err exit_code started finished now wall c m))"
| "manager_step az m (ReadBegin now remote sessionId q c) = fst (read_begin az now remote sessionId q c m)"
| "manager_step az m (ReadFinish now q plan i) = fst (read_finish now q plan i m)"
| "manager_step az m (Write now sessionId data close_stdin destroyed written c) =
     fst (write_session az now sessionId data close_stdin destroyed written c m)"
| "manager_step az m (Kill now sessionId force delivered c) = fst (kill_session az now sessionId force delivered c m)"
| "manager_step az m (Revoke rv requested) = fst (revokeAuthority rv requested m)"
| "manager_step az m (Shutdown requested) = fst (terminateProcessSessions (\<lambda>_. True) requested m)"
| "manager_step az m (TerminationWaited i) = fst (settleProcessSession i m)"

section \<open>The invariant\<close>

definition held_sessions :: "(string \<times> session) list \<Rightarrow> (string \<times> session) list" where
  "held_sessions objs = filter (\<lambda>(i, s). running s \<and> ss_activityHeld s) objs"

definition manager_inv :: "manager \<Rightarrow> bool" where
  "manager_inv m =
     (distinct (map fst (mg_objects m)) \<and> distinct (mg_table m) \<and> length (mg_table m) \<le> MAX_PROCESS_SESSIONS
      \<and> set (mg_table m) \<subseteq> set (map fst (mg_objects m))
      \<and> (\<forall>i s. session_of m i = Some s \<longrightarrow> running s \<longrightarrow> i \<in> set (mg_table m) \<and> ss_child s)
      \<and> (\<forall>i. i \<in> set (mg_tracked m) \<longleftrightarrow> on_session running m i)
      \<and> mg_activity m = int (length (held_sessions (mg_objects m))))"

text \<open>Only the table shrinks, and only by exited sessions.\<close>

definition shrinks :: "manager \<Rightarrow> manager \<Rightarrow> bool" where
  "shrinks m m' = (mg_objects m' = mg_objects m \<and> mg_tracked m' = mg_tracked m \<and> mg_activity m' = mg_activity m
     \<and> (\<exists>P. mg_table m' = filter P (mg_table m) \<and> (\<forall>i. on_session running m i \<longrightarrow> P i)))"

lemma session_of_shrinks: "shrinks m m' \<Longrightarrow> session_of m' = session_of m"
  by (rule ext) (simp add: shrinks_def session_of_def)

lemma shrinks_refl [simp]: "shrinks m m"
  unfolding shrinks_def by (auto intro!: exI [of _ "\<lambda>_. True"])

lemma on_session_shrinks: "shrinks m m' \<Longrightarrow> on_session P m' = on_session P m"
  by (rule ext) (simp add: on_session_def session_of_shrinks)

lemma shrinks_trans: "shrinks m m' \<Longrightarrow> shrinks m' m'' \<Longrightarrow> shrinks m m''"
proof -
  assume s: "shrinks m m'" and t: "shrinks m' m''"
  from s obtain P where P: "mg_table m' = filter P (mg_table m)" "\<forall>i. on_session running m i \<longrightarrow> P i"
    by (auto simp: shrinks_def)
  from t obtain Q where Q: "mg_table m'' = filter Q (mg_table m')" "\<forall>i. on_session running m i \<longrightarrow> Q i"
    by (auto simp: shrinks_def on_session_shrinks [OF s])
  have "mg_table m'' = filter (\<lambda>i. P i \<and> Q i) (mg_table m)" by (simp add: P(1) Q(1))
  with s t P(2) Q(2) show ?thesis
    unfolding shrinks_def by (auto intro!: exI [of _ "\<lambda>i. P i \<and> Q i"])
qed

lemma shrinks_inv: "shrinks m m' \<Longrightarrow> manager_inv m \<Longrightarrow> manager_inv m'"
proof -
  assume s: "shrinks m m'" and inv: "manager_inv m"
  from s obtain P where P: "mg_table m' = filter P (mg_table m)" "\<forall>i. on_session running m i \<longrightarrow> P i"
    by (auto simp: shrinks_def)
  from s have e: "mg_objects m' = mg_objects m" "mg_tracked m' = mg_tracked m" "mg_activity m' = mg_activity m"
    by (simp_all add: shrinks_def)
  have "length (mg_table m') \<le> length (mg_table m)" by (simp add: P)
  then have "length (mg_table m') \<le> MAX_PROCESS_SESSIONS" using inv by (simp add: manager_inv_def)
  moreover have "i \<in> set (mg_table m')" if "session_of m i = Some t" "running t" for i t
    using that inv P by (auto simp: manager_inv_def on_session_def)
  ultimately show ?thesis
    using inv unfolding manager_inv_def on_session_shrinks [OF s] session_of_shrinks [OF s] e by (auto simp: P(1))
qed

lemma shrinks_prune: "shrinks m (prune_sessions now m)"
  unfolding shrinks_def prune_sessions_def by (auto simp: on_session_def split: option.splits intro!: exI)

lemma removeAll_fold:
  "\<exists>P. foldl (\<lambda>t i. if length t < n then t else removeAll i t) t xs = filter P t \<and> (\<forall>i. i \<notin> set xs \<longrightarrow> P i)"
proof (induction xs arbitrary: t)
  case Nil
  show ?case by (rule exI [of _ "\<lambda>_. True"]) simp
next
  case (Cons x xs)
  obtain P where P: "foldl (\<lambda>t i. if length t < n then t else removeAll i t) (if length t < n then t else removeAll x t) xs
      = filter P (if length t < n then t else removeAll x t)" "\<forall>i. i \<notin> set xs \<longrightarrow> P i"
    using Cons [of "if length t < n then t else removeAll x t"] by auto
  show ?case
  proof (cases "length t < n")
    case True
    then show ?thesis using P by (intro exI [of _ P]) auto
  next
    case False
    then show ?thesis using P by (intro exI [of _ "\<lambda>i. x \<noteq> i \<and> P i"]) (auto simp: removeAll_filter_not_eq)
  qed
qed

lemma shrinks_evict: "shrinks m (evict_exited m)"
proof (cases "length (mg_table m) < MAX_PROCESS_SESSIONS")
  case False
  let ?exited = "sort_key (last_activity m) (filter (on_session (\<lambda>s. \<not> running s) m) (mg_table m))"
  obtain P where "foldl (\<lambda>t i. if length t < MAX_PROCESS_SESSIONS then t else removeAll i t) (mg_table m) ?exited
      = filter P (mg_table m)" "\<forall>i. i \<notin> set ?exited \<longrightarrow> P i"
    using removeAll_fold [of MAX_PROCESS_SESSIONS "mg_table m" ?exited] by auto
  then have t: "mg_table (evict_exited m) = filter P (mg_table m)" and P: "\<And>i. i \<notin> set ?exited \<Longrightarrow> P i"
    using False by (simp_all add: evict_exited_def Let_def)
  have e: "mg_objects (evict_exited m) = mg_objects m" "mg_tracked (evict_exited m) = mg_tracked m"
    "mg_activity (evict_exited m) = mg_activity m"
    using False by (simp_all add: evict_exited_def Let_def)
  have "i \<notin> set ?exited" if "on_session running m i" for i
    using that by (auto simp: on_session_def split: option.splits)
  then show ?thesis unfolding shrinks_def t e using P by blast
qed (simp add: evict_exited_def)

lemma shrinks_delete: "\<not> on_session running m i \<Longrightarrow> shrinks m (delete_session i m)"
  unfolding shrinks_def delete_session_def
  by (auto simp: removeAll_filter_not_eq intro!: exI [of _ "\<lambda>j. i \<noteq> j"])

lemma shrinks_get: "shrinks m (fst (get_session now sessionId c m))"
  using shrinks_prune [of m now]
  by (auto simp: get_session_def Let_def split: option.splits sum.splits)

lemma shrinks_terminate_pass: "shrinks m (fst (terminate_pass matches requested is m))"
proof (induction "is" arbitrary: m)
  case (Cons i "is")
  have d: "shrinks m (fst (terminate_pass matches requested is (delete_session i m)))" if "session_of m i = Some s" "\<not> running s" for s
    using shrinks_trans [OF shrinks_delete Cons [of "delete_session i m"]] that by (simp add: on_session_def)
  show ?case using Cons [of m] d by (auto simp: Let_def split: option.splits prod.splits)
qed simp

section \<open>Updates of a session\<close>

lemma held_map_set:
  "int (length (held_sessions (map_set i s' objs))) =
     int (length (held_sessions objs)) + (if running s' \<and> ss_activityHeld s' then 1 else 0)
     - (case map_of objs i of Some s \<Rightarrow> if running s \<and> ss_activityHeld s then 1 else 0 | None \<Rightarrow> 0)"
  by (induction objs) (auto simp: held_sessions_def)

lemma map_set_keys_present: "map_of objs i = Some s \<Longrightarrow> map fst (map_set i s' objs) = map fst objs"
  by (induction objs) auto

lemma session_of_map_set:
  "session_of (m\<lparr>mg_objects := map_set i s' (mg_objects m)\<rparr>) j = (if j = i then Some s' else session_of m j)"
  by (simp add: session_of_def map_of_map_set)

definition neutral :: "(session \<Rightarrow> session) \<Rightarrow> bool" where
  "neutral f = (\<forall>s. ss_closedAt (f s) = ss_closedAt s \<and> ss_activityHeld (f s) = ss_activityHeld s \<and> ss_child (f s) = ss_child s)"

lemma update_inv: "neutral f \<Longrightarrow> manager_inv m \<Longrightarrow> manager_inv (update_session f i m)"
proof (cases "session_of m i")
  case (Some s)
  assume f: "neutral f" and inv: "manager_inv m"
  let ?m = "m\<lparr>mg_objects := map_set i (f s) (mg_objects m)\<rparr>"
  have fs: "running (f s) = running s" "ss_activityHeld (f s) = ss_activityHeld s" "ss_child (f s) = ss_child s"
    using f by (simp_all add: neutral_def)
  have keys: "map fst (map_set i (f s) (mg_objects m)) = map fst (mg_objects m)"
    using Some by (simp add: session_of_def map_set_keys_present)
  have o: "on_session running ?m j = on_session running m j" for j
    using fs Some by (simp add: on_session_def session_of_map_set)
  have h: "int (length (held_sessions (map_set i (f s) (mg_objects m)))) = int (length (held_sessions (mg_objects m)))"
    using Some fs by (simp add: held_map_set session_of_def)
  have "manager_inv ?m"
    unfolding manager_inv_def o using inv fs Some
    by (auto simp: manager_inv_def session_of_map_set keys h simp del: set_map split: if_splits)
  then show ?thesis by (simp add: update_session_def Some)
qed (simp add: update_session_def)

lemma neutral_updates:
  "neutral (\<lambda>s. s\<lparr>ss_lastActivity := now\<rparr>)" "neutral (\<lambda>s. s\<lparr>ss_stdout := x\<rparr>)" "neutral (\<lambda>s. s\<lparr>ss_stdout := g (ss_stdout s)\<rparr>)"
  "neutral (\<lambda>s. s\<lparr>ss_stderr := g (ss_stderr s)\<rparr>)" "neutral (\<lambda>s. s\<lparr>ss_startupFailed := True, ss_stdinClosed := True\<rparr>)"
  "neutral (\<lambda>s. s\<lparr>ss_bindingSettled := True\<rparr>)" "neutral (\<lambda>s. s\<lparr>ss_stdinClosed := True\<rparr>)"
  "neutral (\<lambda>s. s\<lparr>ss_terminating := True\<rparr>)"
  by (simp_all add: neutral_def)

lemmas session_updates = update_inv [OF neutral_updates(1)] update_inv [OF neutral_updates(3)]
  update_inv [OF neutral_updates(4)] update_inv [OF neutral_updates(5)] update_inv [OF neutral_updates(6)]
  update_inv [OF neutral_updates(7)] update_inv [OF neutral_updates(8)]

lemma mark_activity_inv: "manager_inv m \<Longrightarrow> manager_inv (mark_activity now i m)"
  unfolding mark_activity_def by (rule session_updates)

lemma released_inv [simp]: "manager_inv (m\<lparr>mg_released := r\<rparr>) = manager_inv m"
  by (simp add: manager_inv_def session_of_def on_session_def)

lemma on_session_update: "on_session P (update_session f i m) j = on_session (\<lambda>s. P (if i = j then f s else s)) m j"
  by (auto simp: on_session_def update_session_def session_of_map_set split: option.split)

lemma delete_inv: "\<not> on_session running m i \<Longrightarrow> manager_inv m \<Longrightarrow> manager_inv (delete_session i m)"
  by (rule shrinks_inv [OF shrinks_delete])

section \<open>A new session, and the end of one\<close>

lemma add_inv:
  assumes inv: "manager_inv m" and new: "session_of m i = None" and room: "\<not> table_full m"
    and s: "running s \<longrightarrow> ss_child s"
  shows "manager_inv ((add_session i s m)\<lparr>mg_tracked := (if running s then mg_tracked m @ [i] else mg_tracked m),
      mg_activity := mg_activity m + (if running s \<and> ss_activityHeld s then 1 else 0)\<rparr>)"
proof -
  have "i \<notin> set (map fst (mg_objects m))" using new by (simp add: session_of_def map_of_eq_None_iff)
  then have i: "i \<notin> set (mg_table m)" using inv by (auto simp: manager_inv_def simp del: set_map)
  show ?thesis
    using inv new room s i
    by (auto simp: manager_inv_def add_session_def table_full_def on_session_def session_of_def map_of_map_set
        distinct_map_set keys_map_set held_map_set simp del: set_map split: option.splits)
qed

lemma close_inv:
  assumes inv: "manager_inv m" and s: "session_of m i = Some s" "running s"
    and f: "\<not> running (f s)"
  shows "manager_inv (endRemoteProcessSessionActivity (ss_activityHeld s)
    ((update_session f i m)\<lparr>mg_tracked := removeAll i (mg_tracked m)\<rparr>))"
proof -
  have keys: "map fst (map_set i (f s) (mg_objects m)) = map fst (mg_objects m)"
    using s by (simp add: session_of_def map_set_keys_present)
  have h: "int (length (held_sessions (map_set i (f s) (mg_objects m))))
      = int (length (held_sessions (mg_objects m))) - (if ss_activityHeld s then 1 else 0)"
    using s f by (simp add: held_map_set session_of_def)
  let ?m = "m\<lparr>mg_objects := map_set i (f s) (mg_objects m), mg_tracked := removeAll i (mg_tracked m),
      mg_activity := mg_activity m - (if ss_activityHeld s then 1 else 0)\<rparr>"
  have o: "session_of ?m j = (if j = i then Some (f s) else session_of m j)" for j
    by (simp add: session_of_def map_of_map_set)
  then have r: "on_session running ?m j = (j \<noteq> i \<and> on_session running m j)" for j
    using f by (simp add: on_session_def)
  have "manager_inv ?m"
    unfolding manager_inv_def o r using inv f by (auto simp: manager_inv_def keys h simp del: set_map split: if_splits)
  moreover have "endRemoteProcessSessionActivity (ss_activityHeld s)
      ((update_session f i m)\<lparr>mg_tracked := removeAll i (mg_tracked m)\<rparr>) = ?m"
    by (simp add: update_session_def s(1) endRemoteProcessSessionActivity_def)
  ultimately show ?thesis by simp
qed

lemma step_settle: "manager_inv m \<Longrightarrow> manager_inv (on_settle now wall exit_code signal i m)"
proof (cases "session_of m i")
  case (Some s)
  assume inv: "manager_inv m"
  show ?thesis
  proof (cases "\<not> ss_child s \<or> \<not> running s")
    case False
    then have r: "running s" by simp
    define f :: "session \<Rightarrow> session" where "f = (\<lambda>s. s\<lparr>ss_exitCode := exit_code, ss_signal := signal, ss_closedAt := Some wall,
                       ss_lastActivity := now, ss_stdinClosed := True\<rparr>)"
    define m2 where "m2 = endRemoteProcessSessionActivity (ss_activityHeld s)
       ((update_session f i m)\<lparr>mg_tracked := removeAll i (mg_tracked (update_session f i m))\<rparr>)"
    define m3 where "m3 = (if ss_bindingSettled s then m2\<lparr>mg_released := mg_released m2 @ [i]\<rparr> else m2)"
    have "mg_tracked (update_session f i m) = mg_tracked m" by (simp add: update_session_def Some)
    then have m2: "manager_inv m2" unfolding m2_def using close_inv [OF inv Some r, of f] by (simp add: f_def)
    have c: "\<not> on_session running m2 i"
      using Some by (simp add: m2_def endRemoteProcessSessionActivity_def on_session_def update_session_def session_of_def
          map_of_map_set f_def)
    have m3: "manager_inv m3" using m2 by (simp add: m3_def)
    have "\<not> on_session running m3 i" using c by (simp add: m3_def on_session_def session_of_def)
    with m3 have "manager_inv (if ss_startupFailed s then delete_session i m3 else m3)" by (simp add: delete_inv)
    moreover have "on_settle now wall exit_code signal i m = (if ss_startupFailed s then delete_session i m3 else m3)"
      unfolding on_settle_def Let_def m3_def m2_def f_def using False Some by simp
    ultimately show ?thesis by simp
  qed (use inv Some in \<open>simp add: on_settle_def\<close>)
qed (simp add: on_settle_def)

lemma step_launch:
  assumes inv: "manager_inv m" and new: "session_of m i = None" and c: "is_ok (principalBinding c)"
  shows "manager_inv (fst (start_launch i argv0 cwd now wall c guarded launch spawned m))"
proof -
  define m1 where "m1 = evict_exited m"
  have sh: "shrinks m m1" unfolding m1_def by (rule shrinks_evict)
  then have i1: "manager_inv m1" by (rule shrinks_inv) (rule inv)
  from c obtain own where own: "principalBinding c = Inr own" by (auto simp: is_ok_iff)
  define held where "held = (Option.bind c c_origin = Some ''relay'' \<and> guarded)"
  have b: "beginRemoteProcessSessionActivity c guarded m1
      = (m1\<lparr>mg_activity := mg_activity m1 + (if held then 1 else 0)\<rparr>, held)"
    by (auto simp: beginRemoteProcessSessionActivity_def held_def)
  let ?s = "new_session argv0 cwd now wall held own"
  have s: "running ?s" "ss_child ?s" "ss_activityHeld ?s = held" by (simp_all add: new_session_def)
  have n: "session_of m1 i = None" using new by (simp add: session_of_shrinks [OF sh])
  show ?thesis
  proof (cases "table_full m1 \<or> (\<exists>e. launch = Inl e) \<or> (\<exists>e. spawned = Inl e)")
    case True
    show ?thesis using True i1
      by (auto simp: start_launch_def Let_def m1_def [symmetric] b endRemoteProcessSessionActivity_def split: sum.split)
  next
    case False
    then have "manager_inv ((add_session i ?s m1)\<lparr>mg_tracked := mg_tracked m1 @ [i],
        mg_activity := mg_activity m1 + (if held then 1 else 0)\<rparr>)"
      using add_inv [OF i1 n _, of ?s] s by simp
    moreover have "fst (start_launch i argv0 cwd now wall c guarded launch spawned m)
        = (add_session i ?s m1)\<lparr>mg_tracked := mg_tracked m1 @ [i], mg_activity := mg_activity m1 + (if held then 1 else 0)\<rparr>"
      using False unfolding start_launch_def Let_def m1_def [symmetric] b own
      by (cases m1) (auto simp: add_session_def split: sum.split)
    ultimately show ?thesis by simp
  qed
qed

lemma step_retain:
  assumes inv: "manager_inv m" and new: "session_of m i = None"
  shows "manager_inv (fst (retain_completed i command cwd out err exit_code started finished now wall c m))"
proof -
  define m1 where "m1 = evict_exited (prune_sessions now m)"
  have sh: "shrinks m m1" unfolding m1_def by (rule shrinks_trans [OF shrinks_prune shrinks_evict])
  then have i1: "manager_inv m1" by (rule shrinks_inv) (rule inv)
  have n: "session_of m1 i = None" using new by (simp add: session_of_shrinks [OF sh])
  have "manager_inv (add_session i s m1)" if "\<not> table_full m1" "\<not> running s" for s
    using add_inv [OF i1 n that(1), of s] that(2) by (simp add: add_session_def)
  then show ?thesis using i1
    by (auto simp: retain_completed_def Let_def m1_def [symmetric] split: sum.split)
qed

section \<open>Every event keeps the invariant\<close>

lemma get_inv: "manager_inv m \<Longrightarrow> manager_inv (fst (get_session now sessionId c m))"
  by (rule shrinks_inv [OF shrinks_get])

lemma step_binding: "manager_inv m \<Longrightarrow> manager_inv (binding_settled i m)"
  by (simp add: binding_settled_def Let_def session_updates)

lemma on_session_not: "on_session (\<lambda>s. \<not> P s) m i \<Longrightarrow> \<not> on_session P m i"
  by (auto simp: on_session_def split: option.splits)

lemma step_failed: "manager_inv m \<Longrightarrow> manager_inv (fst (failed_start now requested err i m))"
  by (auto simp: failed_start_def Let_def on_session_update on_session_not intro!: mark_activity_inv delete_inv session_updates)

lemma step_read_begin: "manager_inv m \<Longrightarrow> manager_inv (fst (read_begin az now remote sessionId q c m))"
  using get_inv [of m now sessionId c] by (auto simp: read_begin_def split: sum.split prod.split option.split)

lemma neutral_finish: "neutral (\<lambda>s. fst (finishRemoteProcessRead plan now (s\<lparr>ss_lastActivity := now\<rparr>)))"
  by (simp add: neutral_def finishRemoteProcessRead_def Let_def)

lemma step_read_finish: "manager_inv m \<Longrightarrow> manager_inv (fst (read_finish now q plan i m))"
proof (cases "session_of m i")
  case (Some s)
  assume inv: "manager_inv m"
  have "fst (read_finish now q plan i m)
      = update_session (\<lambda>s. fst (finishRemoteProcessRead plan now (s\<lparr>ss_lastActivity := now\<rparr>))) i m"
    by (simp add: read_finish_def Some update_session_def Let_def split: prod.split)
  then show ?thesis using update_inv [OF neutral_finish inv] by simp
qed (simp add: read_finish_def)

lemma step_write: "manager_inv m \<Longrightarrow> manager_inv (fst (write_session az now sessionId data close_stdin destroyed written c m))"
  using get_inv [of m now sessionId c]
  by (auto simp: write_session_def Let_def session_updates mark_activity_inv split: sum.split prod.split)

lemma step_kill: "manager_inv m \<Longrightarrow> manager_inv (fst (kill_session az now sessionId force delivered c m))"
  using get_inv [of m now sessionId c]
  by (auto simp: kill_session_def Let_def session_updates mark_activity_inv split: sum.split prod.split option.split)

lemma step_start_check: "manager_inv m \<Longrightarrow> manager_inv (fst (start_check now m))"
  using shrinks_inv [OF shrinks_trans [OF shrinks_prune shrinks_evict]] by (simp add: start_check_def Let_def)

lemma step_terminate: "manager_inv m \<Longrightarrow> manager_inv (fst (terminateProcessSessions matches requested m))"
  unfolding terminateProcessSessions_def by (rule shrinks_inv [OF shrinks_terminate_pass])

lemma step_waited: "manager_inv m \<Longrightarrow> manager_inv (fst (settleProcessSession i m))"
  by (simp add: settleProcessSession_def delete_inv)

lemmas manager_steps = step_start_check step_launch step_settle step_binding step_failed step_retain step_read_begin
  step_read_finish step_write step_kill step_terminate step_waited

lemma manager_step_inv: "manager_inv m \<Longrightarrow> manager_inv (manager_step az m e)"
  by (cases e) (auto simp: on_stdout_def on_stderr_def revokeAuthority_def
      intro: manager_steps mark_activity_inv session_updates)

lemma empty_manager_inv: "manager_inv empty_manager"
  by (simp add: manager_inv_def empty_manager_def session_of_def on_session_def held_sessions_def)

interpretation session_manager: step_machine "manager_step az" manager_inv
  by unfold_locales (rule manager_step_inv)

section \<open>Access\<close>

lemma get_session_owned:
  "get_session now sessionId c m = (m', Inr i) \<Longrightarrow>
     sessionId = JStr i \<and> i \<in> set (mg_table m') \<and> on_session (\<lambda>s. visibleToContext (ss_owner s) c) m' i"
  by (cases sessionId)
    (auto simp: get_session_def Let_def on_session_def visibleToContext_def is_session_id_def starts_with_def
      split: if_splits option.splits sum.splits)

section \<open>Properties\<close>

text \<open>
  C32. The session table in every run, whatever the processes, the clients and the timers do and in whatever order:
  it never holds more than eight sessions, a session whose process still runs is never dropped from it (so that it
  can still be read, stopped and counted), the process tracker holds exactly the running sessions, and the remote
  activity that keeps the machine awake is held exactly once for every running session that asked for it.
\<close>

theorem running_sessions_kept:
  fixes az :: "string \<Rightarrow> thrown + unit" and es :: "manager_event list"
  defines "m \<equiv> foldl (manager_step az) empty_manager es"
  shows "length (mg_table m) \<le> 8 \<and> distinct (mg_table m)
       \<and> (\<forall>i. on_session running m i \<longrightarrow> i \<in> set (mg_table m))
       \<and> (\<forall>i. i \<in> set (mg_tracked m) \<longleftrightarrow> on_session running m i)
       \<and> mg_activity m = int (card {i. on_session (\<lambda>s. running s \<and> ss_activityHeld s) m i})"
proof -
  have inv: "manager_inv m"
    unfolding m_def by (rule session_manager.run_inv [OF empty_manager_inv])
  have d: "distinct (map fst (mg_objects m))" using inv by (simp add: manager_inv_def)
  then have "{i. on_session (\<lambda>s. running s \<and> ss_activityHeld s) m i} = set (map fst (held_sessions (mg_objects m)))"
    by (auto simp: on_session_def session_of_def held_sessions_def split: option.splits intro!: image_eqI
        dest: eq_key_imp_eq_value)
  moreover have "distinct (map fst (held_sessions (mg_objects m)))"
    using d by (simp add: held_sessions_def distinct_map_fst_filter)
  ultimately have "card {i. on_session (\<lambda>s. running s \<and> ss_activityHeld s) m i} = length (held_sessions (mg_objects m))"
    by (simp only: distinct_card length_map)
  then show ?thesis
    using inv by (auto simp: manager_inv_def MAX_PROCESS_SESSIONS_def on_session_def split: option.splits)
qed

lemma running_sessions_kept_witness:
  "''proc_a'' \<in> set (mg_table (foldl (manager_step (\<lambda>_. Inr ())) empty_manager
     [StartCheck 0, Launch ''proc_a'' ''/bin/sh'' ''/'' 0 0 None True (Inr ()) (Inr ()), StartCheck 9000000]))"
proof -
  let ?m = "foldl (manager_step (\<lambda>_. Inr ())) empty_manager
     [StartCheck 0, Launch ''proc_a'' ''/bin/sh'' ''/'' 0 0 None True (Inr ()) (Inr ()), StartCheck 9000000]"
  have "on_session running ?m ''proc_a''"
    by (simp add: start_check_def start_launch_def Let_def empty_manager_def prune_sessions_def evict_exited_def
        MAX_PROCESS_SESSIONS_def table_full_def session_of_def principalBinding_def principalForContext_def
        beginRemoteProcessSessionActivity_def add_session_def on_session_def new_session_def)
  then show ?thesis using running_sessions_kept [of "\<lambda>_. Inr ()"
      "[StartCheck 0, Launch ''proc_a'' ''/bin/sh'' ''/'' 0 0 None True (Inr ()) (Inr ()), StartCheck 9000000]"] by blast
qed

end
