(* ===== verification/FileSystem.thy ===== *)
theory FileSystem
  imports Errors Interfaces
begin

text \<open>
  The part of \<open>node:fs\<close> the file transactions use: names that refer to inodes, hard links, and the calls
  \<open>open\<close> with \<open>wx\<close>, \<open>rename\<close>, \<open>link\<close>, \<open>rm\<close> with \<open>force\<close>, \<open>lstat\<close> and the reading of a regular file.  Every call may fail:
  \<open>fault n\<close> is the error code of the \<open>n\<close>-th call, if that call fails, and a call that fails changes nothing.  The
  change time of an inode is the number of the call that last touched it.  Directories are not modelled: a
  name that is no regular file is \<open>Special\<close>, and creating the directory of a file is a call that changes no name.
\<close>

record inode =
  nd_content :: string
  nd_mode :: nat
  nd_ctime :: nat

datatype entry = Regular nat | Special

record fsys =
  fs_names :: "(string \<times> entry) list"
  fs_nodes :: "(nat \<times> inode) list"

record fworld =
  fw_fs :: fsys
  fw_calls :: nat

type_synonym 'a call = "fworld \<Rightarrow> fworld \<times> (thrown + 'a)"

definition entry_at :: "fsys \<Rightarrow> string \<Rightarrow> entry option" where
  "entry_at fs p = map_of (fs_names fs) p"

definition node_at :: "fsys \<Rightarrow> nat \<Rightarrow> inode option" where
  "node_at fs n = map_of (fs_nodes fs) n"

definition nlink :: "fsys \<Rightarrow> nat \<Rightarrow> nat" where
  "nlink fs n = length (filter (\<lambda>(p, e). e = Regular n) (fs_names fs))"

definition fresh_ino :: "fsys \<Rightarrow> nat" where
  "fresh_ino fs = Suc (foldr max (map fst (fs_nodes fs)) 0)"

definition ctime_of :: "fsys \<Rightarrow> nat \<Rightarrow> nat" where
  "ctime_of fs n = (case node_at fs n of Some nd \<Rightarrow> nd_ctime nd | None \<Rightarrow> 0)"

definition touch :: "nat \<Rightarrow> entry \<Rightarrow> fsys \<Rightarrow> fsys" where
  "touch t e fs = (case e of
     Special \<Rightarrow> fs
   | Regular n \<Rightarrow> (case node_at fs n of None \<Rightarrow> fs
                  | Some nd \<Rightarrow> fs\<lparr>fs_nodes := map_set n (nd\<lparr>nd_ctime := t\<rparr>) (fs_nodes fs)\<rparr>))"

text \<open>One call: it takes its number, and fails or acts.\<close>

definition syscall :: "(nat \<Rightarrow> string option) \<Rightarrow> (nat \<Rightarrow> fsys \<Rightarrow> fsys \<times> (thrown + 'a)) \<Rightarrow> 'a call" where
  "syscall fault act w =
     (case fault (fw_calls w) of
        Some c \<Rightarrow> (w\<lparr>fw_calls := Suc (fw_calls w)\<rparr>, Inl (OtherError c))
      | None \<Rightarrow> (let (fs, r) = act (fw_calls w) (fw_fs w) in (\<lparr>fw_fs = fs, fw_calls = Suc (fw_calls w)\<rparr>, r)))"

definition call_bind :: "'a call \<Rightarrow> ('a \<Rightarrow> 'b call) \<Rightarrow> 'b call" where
  "call_bind c k w = (case c w of (w', Inl e) \<Rightarrow> (w', Inl e) | (w', Inr x) \<Rightarrow> k x w')"

definition call_return :: "'a \<Rightarrow> 'a call" where
  "call_return x w = (w, Inr x)"

definition call_throw :: "thrown \<Rightarrow> 'a call" where
  "call_throw e w = (w, Inl e)"

definition sys_mkdir :: "(nat \<Rightarrow> string option) \<Rightarrow> unit call" where
  "sys_mkdir fault = syscall fault (\<lambda>t fs. (fs, Inr ()))"

definition sys_create :: "(nat \<Rightarrow> string option) \<Rightarrow> string \<Rightarrow> nat \<Rightarrow> nat call" where
  "sys_create fault p mode = syscall fault (\<lambda>t fs.
     if entry_at fs p \<noteq> None then (fs, Inl (OtherError ''EEXIST''))
     else let n = fresh_ino fs in
       (\<lparr>fs_names = map_set p (Regular n) (fs_names fs),
         fs_nodes = map_set n \<lparr>nd_content = [], nd_mode = mode, nd_ctime = t\<rparr> (fs_nodes fs)\<rparr>, Inr n))"

definition sys_write :: "(nat \<Rightarrow> string option) \<Rightarrow> nat \<Rightarrow> (inode \<Rightarrow> inode) \<Rightarrow> unit call" where
  "sys_write fault n f = syscall fault (\<lambda>t fs.
     case node_at fs n of None \<Rightarrow> (fs, Inl (OtherError ''EBADF''))
     | Some nd \<Rightarrow> (fs\<lparr>fs_nodes := map_set n ((f nd)\<lparr>nd_ctime := t\<rparr>) (fs_nodes fs)\<rparr>, Inr ()))"

definition sys_flush :: "(nat \<Rightarrow> string option) \<Rightarrow> unit call" where
  "sys_flush fault = syscall fault (\<lambda>t fs. (fs, Inr ()))"

definition sys_rename :: "(nat \<Rightarrow> string option) \<Rightarrow> string \<Rightarrow> string \<Rightarrow> unit call" where
  "sys_rename fault a b = syscall fault (\<lambda>t fs.
     case entry_at fs a of None \<Rightarrow> (fs, Inl (OtherError ''ENOENT''))
     | Some e \<Rightarrow> (touch t e (fs\<lparr>fs_names := map_set b e (map_del a (fs_names fs))\<rparr>), Inr ()))"

definition sys_link :: "(nat \<Rightarrow> string option) \<Rightarrow> string \<Rightarrow> string \<Rightarrow> unit call" where
  "sys_link fault a b = syscall fault (\<lambda>t fs.
     case entry_at fs a of None \<Rightarrow> (fs, Inl (OtherError ''ENOENT''))
     | Some e \<Rightarrow> if entry_at fs b \<noteq> None then (fs, Inl (OtherError ''EEXIST''))
        else (touch t e (fs\<lparr>fs_names := map_set b e (fs_names fs)\<rparr>), Inr ()))"

definition sys_remove :: "(nat \<Rightarrow> string option) \<Rightarrow> string \<Rightarrow> unit call" where
  "sys_remove fault p = syscall fault (\<lambda>t fs.
     case entry_at fs p of None \<Rightarrow> (fs, Inr ())
     | Some e \<Rightarrow> (touch t e (fs\<lparr>fs_names := map_del p (fs_names fs)\<rparr>), Inr ()))"

text \<open>\<open>pathEntryIfExists\<close>.\<close>

definition pathEntryIfExists :: "(nat \<Rightarrow> string option) \<Rightarrow> string \<Rightarrow> entry option call" where
  "pathEntryIfExists fault p w =
     (case syscall fault (\<lambda>t fs. (fs, case entry_at fs p of None \<Rightarrow> Inl (OtherError ''ENOENT'') | Some e \<Rightarrow> Inr e)) w of
        (w', Inr e) \<Rightarrow> (w', Inr (Some e))
      | (w', Inl e) \<Rightarrow> (w', if e = OtherError ''ENOENT'' then Inr None else Inl e))"

text \<open>
  The identity of an inode (\<open>filesystem-identity.mjs\<close>, on one device): its number and its change time.
\<close>

type_synonym identity = "nat \<times> nat"

definition sameFilesystemIdentity :: "identity option \<Rightarrow> identity option \<Rightarrow> bool" where
  "sameFilesystemIdentity a b = (a \<noteq> None \<and> a = b)"

text \<open>Opening a regular file that has no other hard link (\<open>openRegularFileSync\<close>), and reading its text.\<close>

definition open_single_link :: "(nat \<Rightarrow> string option) \<Rightarrow> string \<Rightarrow> nat call" where
  "open_single_link fault p = syscall fault (\<lambda>t fs. (fs,
     case entry_at fs p of
       None \<Rightarrow> Inl (OtherError ''ENOENT'')
     | Some Special \<Rightarrow> Inl (OtherError [])
     | Some (Regular n) \<Rightarrow> if nlink fs n > 1 then Inl (OtherError ''MBM_MULTIPLE_HARD_LINKS'') else Inr n))"

definition snapshotFileIdentitySync :: "(nat \<Rightarrow> string option) \<Rightarrow> string \<Rightarrow> identity call" where
  "snapshotFileIdentitySync fault p =
     call_bind (open_single_link fault p) (\<lambda>n w. (w, Inr (n, ctime_of (fw_fs w) n)))"

definition readBoundedFile :: "(nat \<Rightarrow> string option) \<Rightarrow> string \<Rightarrow> string call" where
  "readBoundedFile fault p = syscall fault (\<lambda>t fs. (fs,
     case entry_at fs p of
       None \<Rightarrow> Inl (OtherError ''ENOENT'')
     | Some Special \<Rightarrow> Inl (Bridge (berr_reason ''invalid_request'' ''unsupported_path_type''))
     | Some (Regular n) \<Rightarrow>
         if nlink fs n > 1 then Inl (Bridge (berr_reason ''permission_denied'' ''multiple_hard_links''))
         else (case node_at fs n of None \<Rightarrow> Inl (OtherError ''EIO'') | Some nd \<Rightarrow> Inr (nd_content nd))))"

end
