(* ===== verification/WorkspaceTransaction.thy ===== *)
theory WorkspaceTransaction
  imports FileSystem PosixPath
begin

text \<open>
  File mutations that are complete or undone: the atomic write of one file and the patch transaction over several
  (\<open>src/local/workspace-file-transaction.mjs\<close>, \<open>workspace-file-transaction-helpers.mjs\<close>), the publication, removal
  and restoration of a file snapshot they rest on (\<open>exclusive-publication-recovery.mjs\<close>), the retried rename
  (\<open>workspace-file-rename-retry.mjs\<close>) and the path keys of \<open>file-mutation-coordinator.mjs\<close>.

  The random names of staging and backup files are arguments, by the position of their operation; so is the hash.
\<close>

type_synonym faults = "nat \<Rightarrow> string option"

section \<open>Helpers\<close>

definition incompleteMutationError :: thrown where
  "incompleteMutationError = Bridge (BridgeError ''internal_error'' None (Some False) None)"

definition patchRecoveryIncompleteError :: thrown where
  "patchRecoveryIncompleteError = Bridge (BridgeError ''execution_failed'' (Some False) (Some True)
     (Some [(''reason'', JStr ''patch_recovery_incomplete'')]))"

definition hasErrorCode :: "thrown \<Rightarrow> string \<Rightarrow> bool" where
  "hasErrorCode e c = (case e of OtherError d \<Rightarrow> d = c | Bridge b \<Rightarrow> code b = c)"

text \<open>Write, change the mode, flush: the first failure is kept, and the file is closed in any case.\<close>

definition write_staged :: "faults \<Rightarrow> nat \<Rightarrow> string \<Rightarrow> nat \<Rightarrow> unit call" where
  "write_staged fault n content mode =
     call_bind (sys_write fault n (\<lambda>nd. nd\<lparr>nd_content := content\<rparr>)) (\<lambda>_.
     call_bind (sys_write fault n (\<lambda>nd. nd\<lparr>nd_mode := mode\<rparr>)) (\<lambda>_. sys_flush fault))"

definition writeFlushedText :: "faults \<Rightarrow> string \<Rightarrow> string \<Rightarrow> nat \<Rightarrow> unit call" where
  "writeFlushedText fault p content mode =
     call_bind (sys_create fault p mode) (\<lambda>n w.
       let (w1, written) = write_staged fault n content mode w;
           (w2, closed_ok) = sys_flush fault w1
       in case (written, closed_ok) of
            (Inr _, Inr _) \<Rightarrow> (w2, Inr ())
          | _ \<Rightarrow>
            let failure = (case written of Inl e \<Rightarrow> (case closed_ok of Inl _ \<Rightarrow> OtherError [] | Inr _ \<Rightarrow> e)
                           | Inr _ \<Rightarrow> (case closed_ok of Inl e \<Rightarrow> e | Inr _ \<Rightarrow> OtherError []))
            in (case sys_remove fault p w2 of
                  (w3, Inl _) \<Rightarrow> (w3, Inl incompleteMutationError)
                | (w3, Inr _) \<Rightarrow> (w3, Inl failure)))"

text \<open>The number of paths that could not be removed.\<close>

fun removeArtifacts :: "faults \<Rightarrow> string list \<Rightarrow> fworld \<Rightarrow> fworld \<times> nat" where
  "removeArtifacts fault [] w = (w, 0)"
| "removeArtifacts fault (p # ps) w =
     (let (w1, r) = sys_remove fault p w; (w2, n) = removeArtifacts fault ps w1
      in (w2, (case r of Inl _ \<Rightarrow> Suc n | Inr _ \<Rightarrow> n)))"

definition isTransientFilesystemMutationError :: "thrown \<Rightarrow> bool" where
  "isTransientFilesystemMutationError e =
     (case e of OtherError c \<Rightarrow> c \<in> {''EACCES'', ''EBUSY'', ''EPERM'', ''ENOTEMPTY''} | Bridge b \<Rightarrow> False)"

fun rename_attempts :: "nat \<Rightarrow> unit call \<Rightarrow> unit call" where
  "rename_attempts 0 move w = (w, Inl (OtherError []))"
| "rename_attempts (Suc k) move w =
     (case move w of
        (w1, Inr _) \<Rightarrow> (w1, Inr ())
      | (w1, Inl e) \<Rightarrow> if \<not> isTransientFilesystemMutationError e \<or> k = 0 then (w1, Inl e) else rename_attempts k move w1)"

definition renameWithRetry :: "unit call \<Rightarrow> unit call" where
  "renameWithRetry move = rename_attempts 32 move"

section \<open>The atomic write of one file\<close>

definition verify_precondition :: "faults \<Rightarrow> (string \<Rightarrow> string) \<Rightarrow> string \<Rightarrow> string option \<Rightarrow> unit call" where
  "verify_precondition fault sha full expectedHash w =
     (case expectedHash of
        None \<Rightarrow> (w, Inr ())
      | Some h \<Rightarrow> (case readBoundedFile fault full w of
            (w1, Inl e) \<Rightarrow> (w1, Inl (if hasErrorCode e ''ENOENT''
                then Bridge (berr_reason ''conflict'' ''precondition_target_missing'') else e))
          | (w1, Inr current) \<Rightarrow>
              (w1, if sha current \<noteq> h then Inl (Bridge (berr_reason ''conflict'' ''hash_mismatch'')) else Inr ())))"

definition atomicWriteText :: "faults \<Rightarrow> (string \<Rightarrow> string) \<Rightarrow> string \<Rightarrow> string \<Rightarrow> string \<Rightarrow> nat option \<Rightarrow> bool \<Rightarrow> string option \<Rightarrow> nat call" where
  "atomicWriteText fault sha temp full content existing createOnly expectedHash =
     call_bind (sys_mkdir fault) (\<lambda>_.
     call_bind (writeFlushedText fault temp content (case existing of Some mode \<Rightarrow> mode mod 512 | None \<Rightarrow> 384)) (\<lambda>_ w.
       let (w1, outcome) =
             (if createOnly
              then call_bind (verify_precondition fault sha full expectedHash) (\<lambda>_.
                   call_bind (sys_link fault temp full) (\<lambda>_ w. let (w', n) = removeArtifacts fault [temp] w in (w', Inr n))) w
              else call_bind (renameWithRetry (call_bind (verify_precondition fault sha full expectedHash)
                     (\<lambda>_. sys_rename fault temp full))) (\<lambda>_. call_return 0) w)
       in case outcome of
            Inr warnings \<Rightarrow> (w1, Inr warnings)
          | Inl e \<Rightarrow> (let (w2, n) = removeArtifacts fault [temp] w1
                     in (w2, Inl (if n > 0 then incompleteMutationError else e)))))"

section \<open>Publishing, removing and restoring a snapshot\<close>

text \<open>The state a publication leaves in its record: whether the target exists, and its identity once confirmed.\<close>

definition publishFileLinkWithIdentity ::
  "faults \<Rightarrow> string \<Rightarrow> string \<Rightarrow> identity option \<Rightarrow> fworld \<Rightarrow> fworld \<times> bool \<times> identity option \<times> thrown option" where
  "publishFileLinkWithIdentity fault source target expected w =
     (case open_single_link fault source w of
        (w1, Inl e) \<Rightarrow> (w1, False, None, Some e)
      | (w1, Inr n) \<Rightarrow>
          if expected \<noteq> None \<and> \<not> sameFilesystemIdentity expected (Some (n, ctime_of (fw_fs w1) n))
          then (w1, False, None, Some (OtherError []))
          else (case sys_link fault source target w1 of
              (w2, Inl e) \<Rightarrow> (w2, False, None, Some e)
            | (w2, Inr _) \<Rightarrow>
                (case syscall fault (\<lambda>t fs. (fs, Inr (nlink fs n, ctime_of fs n))) w2 of
                   (w3, Inl e) \<Rightarrow> (w3, True, None, Some e)
                 | (w3, Inr (links, ct)) \<Rightarrow>
                    (case syscall fault (\<lambda>t fs. (fs, case entry_at fs target of None \<Rightarrow> Inl (OtherError ''ENOENT'') | Some e \<Rightarrow> Inr e)) w3 of
                       (w4, Inl e) \<Rightarrow> (w4, True, None, Some e)
                     | (w4, Inr e) \<Rightarrow>
                        if links \<noteq> 2 \<or> (case e of Special \<Rightarrow> True | Regular k \<Rightarrow> nlink (fw_fs w4) k \<noteq> 2
                             \<or> \<not> sameFilesystemIdentity (Some (n, ct)) (Some (k, ctime_of (fw_fs w4) k)))
                        then (w4, True, None, Some (OtherError []))
                        else (w4, True, Some (n, ct), None)))))"

definition removeLinkedFileSnapshot :: "faults \<Rightarrow> string \<Rightarrow> identity option \<Rightarrow> unit call" where
  "removeLinkedFileSnapshot fault p expected w =
     (case pathEntryIfExists fault p w of
        (w1, Inl e) \<Rightarrow> (w1, Inl e)
      | (w1, Inr None) \<Rightarrow> (w1, Inr ())
      | (w1, Inr (Some Special)) \<Rightarrow> (w1, Inl (OtherError []))
      | (w1, Inr (Some (Regular n))) \<Rightarrow>
          if nlink (fw_fs w1) n \<noteq> 2 \<or> \<not> sameFilesystemIdentity expected (Some (n, ctime_of (fw_fs w1) n))
          then (w1, Inl (OtherError []))
          else sys_remove fault p w1)"

definition restoreFileSnapshotNoReplace :: "faults \<Rightarrow> string \<Rightarrow> string \<Rightarrow> identity option \<Rightarrow> unit call" where
  "restoreFileSnapshotNoReplace fault backup target expected w =
     (if expected = None then (w, Inl (OtherError []))
      else (case publishFileLinkWithIdentity fault backup target expected w of
          (w1, _, _, Some e) \<Rightarrow> (w1, Inl e)
        | (w1, _, restored, None) \<Rightarrow> removeLinkedFileSnapshot fault backup restored w1))"

section \<open>Patch operations\<close>

record patch_operation =
  po_kind :: string
  po_source :: "string option"
  po_target :: "string option"
  po_content :: "string option"
  po_originalHash :: string
  po_mode :: "nat option"

definition fileMutationPathKey :: "string \<Rightarrow> string \<Rightarrow> thrown + string" where
  "fileMutationPathKey platform p =
     (if p = [] \<or> CHR 0x00 \<in> set p \<or> \<not> isAbsolute p then Inl (OtherError [])
      else let absolute = path_resolve ''/'' p
           in Inr (if platform = ''win32'' \<or> platform = ''darwin'' then to_lower absolute else absolute))"

definition operation_paths :: "patch_operation \<Rightarrow> string list" where
  "operation_paths op =
     (if po_source op = po_target op then (case po_source op of Some p \<Rightarrow> [p] | None \<Rightarrow> [])
      else List.map_filter (\<lambda>x. x) [po_source op, po_target op])"

text \<open>The owner of every key is the position of its operation.\<close>

definition assertNoResolvedPatchCollisions :: "string \<Rightarrow> patch_operation list \<Rightarrow> thrown + (string \<times> nat) list" where
  "assertNoResolvedPatchCollisions platform ops =
     res_fold (\<lambda>owners (i, p).
         res_bind (fileMutationPathKey platform p) (\<lambda>key.
           case map_of owners key of
             Some j \<Rightarrow> if j \<noteq> i then Inl (Bridge (berr_reason ''conflict'' ''resolved_path_collision''))
                      else Inr (map_set key i owners)
           | None \<Rightarrow> Inr (map_set key i owners)))
       [] (concat (map (\<lambda>(i, op). map (Pair i) (operation_paths op)) (enumerate 0 ops)))"

section \<open>The patch transaction\<close>

record commit_record =
  cr_index :: nat
  cr_source :: "string option"
  cr_target :: "string option"
  cr_backup :: "string option"
  cr_targetCreated :: bool
  cr_backupIdentity :: "identity option"
  cr_targetIdentity :: "identity option"

text \<open>Staging: a temporary file next to every target that gets new content.\<close>

fun stage_operations :: "faults \<Rightarrow> (nat \<Rightarrow> string) \<Rightarrow> (nat \<times> patch_operation) list \<Rightarrow> nat list \<Rightarrow> fworld \<Rightarrow> fworld \<times> nat list \<times> thrown option" where
  "stage_operations fault temp [] staged w = (w, staged, None)"
| "stage_operations fault temp ((i, op) # ops) staged w =
     (case po_content op of
        None \<Rightarrow> stage_operations fault temp ops staged w
      | Some content \<Rightarrow>
          (case call_bind (sys_mkdir fault) (\<lambda>_. writeFlushedText fault (temp i) content
                   (case po_mode op of Some m \<Rightarrow> m | None \<Rightarrow> 384)) w of
             (w1, Inl e) \<Rightarrow> (w1, staged, Some e)
           | (w1, Inr _) \<Rightarrow> stage_operations fault temp ops (staged @ [i]) w1))"

definition check_operation :: "faults \<Rightarrow> (string \<Rightarrow> string) \<Rightarrow> patch_operation \<Rightarrow> unit call" where
  "check_operation fault sha op =
     call_bind (\<lambda>w. case po_source op of
         None \<Rightarrow> (w, Inr ())
       | Some s \<Rightarrow> (case readBoundedFile fault s w of
            (w1, Inl e) \<Rightarrow> (w1, Inl e)
          | (w1, Inr current) \<Rightarrow> (w1, if sha current \<noteq> po_originalHash op
               then Inl (Bridge (berr_reason ''conflict'' ''hash_mismatch'')) else Inr ()))) (\<lambda>_ w.
       if po_kind op = ''add'' \<or> po_kind op = ''move''
       then (case po_target op of
           None \<Rightarrow> (w, Inl (OtherError []))
         | Some t \<Rightarrow> (case pathEntryIfExists fault t w of
             (w1, Inl e) \<Rightarrow> (w1, Inl e)
           | (w1, Inr (Some _)) \<Rightarrow> (w1, Inl (Bridge (berr_reason ''conflict'' ''target_appeared'')))
           | (w1, Inr None) \<Rightarrow> (w1, Inr ())))
       else (w, Inr ()))"

fun check_operations :: "faults \<Rightarrow> (string \<Rightarrow> string) \<Rightarrow> patch_operation list \<Rightarrow> unit call" where
  "check_operations fault sha [] w = (w, Inr ())"
| "check_operations fault sha (op # ops) w =
     (case check_operation fault sha op w of (w1, Inl e) \<Rightarrow> (w1, Inl e) | (w1, Inr _) \<Rightarrow> check_operations fault sha ops w1)"

text \<open>Once the source has been moved aside: its snapshot is taken and checked, and the staged file is published.\<close>

definition commit_published ::
  "faults \<Rightarrow> (string \<Rightarrow> string) \<Rightarrow> (nat \<Rightarrow> string) \<Rightarrow> nat list \<Rightarrow> patch_operation \<Rightarrow> commit_record \<Rightarrow> fworld
     \<Rightarrow> fworld \<times> commit_record \<times> thrown option" where
  "commit_published fault sha temp staged op r w =
     (if cr_index r \<notin> set staged then (w, r, None)
      else (case cr_target r of
          None \<Rightarrow> (w, r, Some (OtherError []))
        | Some t \<Rightarrow>
            (case publishFileLinkWithIdentity fault (temp (cr_index r)) t None w of
               (w1, created, ident, None) \<Rightarrow> (w1, r\<lparr>cr_targetCreated := created, cr_targetIdentity := ident\<rparr>, None)
             | (w1, created, ident, Some e) \<Rightarrow> (w1, r\<lparr>cr_targetCreated := created, cr_targetIdentity := ident\<rparr>,
                 Some (if hasErrorCode e ''EEXIST'' then Bridge (berr_reason ''conflict'' ''target_appeared'') else e)))))"

definition commit_moved ::
  "faults \<Rightarrow> (string \<Rightarrow> string) \<Rightarrow> (nat \<Rightarrow> string) \<Rightarrow> nat list \<Rightarrow> patch_operation \<Rightarrow> commit_record \<Rightarrow> fworld
     \<Rightarrow> fworld \<times> commit_record \<times> thrown option" where
  "commit_moved fault sha temp staged op r w =
     (case cr_backup r of
        None \<Rightarrow> commit_published fault sha temp staged op r w
      | Some b \<Rightarrow>
          (case snapshotFileIdentitySync fault b w of
             (w1, Inl e) \<Rightarrow> (w1, r, Some e)
           | (w1, Inr ident) \<Rightarrow>
               let r1 = r\<lparr>cr_backupIdentity := Some ident\<rparr> in
               (case readBoundedFile fault b w1 of
                  (w2, Inl e) \<Rightarrow> (w2, r1, Some e)
                | (w2, Inr current) \<Rightarrow>
                    if sha current \<noteq> po_originalHash op
                    then (w2, r1, Some (Bridge (berr_reason ''conflict'' ''hash_mismatch'')))
                    else commit_published fault sha temp staged op r1 w2)))"

fun commit_operations ::
  "faults \<Rightarrow> (string \<Rightarrow> string) \<Rightarrow> (nat \<Rightarrow> string) \<Rightarrow> (nat \<Rightarrow> string) \<Rightarrow> nat list \<Rightarrow> (nat \<times> patch_operation) list \<Rightarrow> commit_record list
     \<Rightarrow> fworld \<Rightarrow> fworld \<times> commit_record list \<times> thrown option" where
  "commit_operations fault sha temp backup staged [] done_records w = (w, done_records, None)"
| "commit_operations fault sha temp backup staged ((i, op) # ops) done_records w =
     (let b = (case po_source op of Some _ \<Rightarrow> Some (backup i) | None \<Rightarrow> None);
          r = \<lparr>cr_index = i, cr_source = po_source op, cr_target = po_target op, cr_backup = b,
               cr_targetCreated = False, cr_backupIdentity = None, cr_targetIdentity = None\<rparr>
      in case (case po_source op of Some s \<Rightarrow> sys_rename fault s (backup i) w | None \<Rightarrow> (w, Inr ())) of
           (w1, Inl e) \<Rightarrow> (w1, done_records, Some e)
         | (w1, Inr _) \<Rightarrow>
             (case commit_moved fault sha temp staged op r w1 of
                (w2, r', Some e) \<Rightarrow> (w2, done_records @ [r'], Some e)
              | (w2, r', None) \<Rightarrow> commit_operations fault sha temp backup staged ops (done_records @ [r']) w2))"

text \<open>The rollback of one record: its target is removed and its source restored; failures are counted.\<close>

definition rollback_target :: "faults \<Rightarrow> commit_record \<Rightarrow> unit call" where
  "rollback_target fault r w =
     (case cr_target r of
        None \<Rightarrow> (w, Inr ())
      | Some t \<Rightarrow> if cr_targetCreated r then removeLinkedFileSnapshot fault t (cr_targetIdentity r) w else (w, Inr ()))"

definition rollback_source :: "faults \<Rightarrow> commit_record \<Rightarrow> unit call" where
  "rollback_source fault r w =
     (case (cr_backup r, cr_source r) of
        (Some b, Some s) \<Rightarrow> restoreFileSnapshotNoReplace fault b s (cr_backupIdentity r) w
      | _ \<Rightarrow> (w, Inr ()))"

fun rollback_records :: "faults \<Rightarrow> commit_record list \<Rightarrow> fworld \<Rightarrow> fworld \<times> nat" where
  "rollback_records fault [] w = (w, 0)"
| "rollback_records fault (r # rs) w =
     (let (w1, a) = rollback_target fault r w; (w2, b) = rollback_source fault r w1;
          (w3, n) = rollback_records fault rs w2
      in (w3, (if is_ok a then 0 else 1) + (if is_ok b then 0 else 1) + n))"

definition abort_transaction :: "faults \<Rightarrow> (nat \<Rightarrow> string) \<Rightarrow> nat list \<Rightarrow> commit_record list \<Rightarrow> thrown \<Rightarrow> nat call" where
  "abort_transaction fault temp staged committed e w =
     (let (w1, rollbackFailures) = rollback_records fault (rev committed) w;
          (w2, cleanupFailures) = removeArtifacts fault (map temp staged) w1
      in (w2, Inl (if rollbackFailures > 0 then patchRecoveryIncompleteError
                   else if cleanupFailures > 0 then incompleteMutationError else e)))"

text \<open>The result of a commit is the number of its artifacts that could not be removed.\<close>

definition commitPatchTransaction ::
  "faults \<Rightarrow> (string \<Rightarrow> string) \<Rightarrow> (nat \<Rightarrow> string) \<Rightarrow> (nat \<Rightarrow> string) \<Rightarrow> patch_operation list \<Rightarrow> nat call" where
  "commitPatchTransaction fault sha temp backup ops w =
     (let numbered = enumerate 0 ops in
      case stage_operations fault temp numbered [] w of
        (w1, staged, Some e) \<Rightarrow> abort_transaction fault temp staged [] e w1
      | (w1, staged, None) \<Rightarrow>
          (case check_operations fault sha ops w1 of
             (w2, Inl e) \<Rightarrow> abort_transaction fault temp staged [] e w2
           | (w2, Inr _) \<Rightarrow>
               (case commit_operations fault sha temp backup staged numbered [] w2 of
                  (w3, committed, Some e) \<Rightarrow> abort_transaction fault temp staged committed e w3
                | (w3, committed, None) \<Rightarrow>
                    let (w4, n) = removeArtifacts fault
                          (map temp staged @ List.map_filter cr_backup committed) w3
                    in (w4, Inr n))))"

end
