(* ===== verification/WorkspaceTransactionSpec.thy ===== *)
theory WorkspaceTransactionSpec
  imports WorkspaceTransaction
begin

text \<open>
  A patch transaction is complete or undone.  The calls are described by their effect on the names (which entry a
  path has) and on the data (content and mode of an inode); a committed operation is a change of the names that its
  rollback undoes, last first, whatever the operations are.
\<close>

section \<open>What the calls do\<close>

definition data :: "fsys \<Rightarrow> nat \<Rightarrow> (string \<times> nat) option" where
  "data fs n = map_option (\<lambda>nd. (nd_content nd, nd_mode nd)) (node_at fs n)"

definition fs_ok :: "fsys \<Rightarrow> bool" where
  "fs_ok fs = (\<forall>p n. entry_at fs p = Some (Regular n) \<longrightarrow> node_at fs n \<noteq> None)"

abbreviation names :: "fworld \<Rightarrow> string \<Rightarrow> entry option" where
  "names w \<equiv> entry_at (fw_fs w)"

abbreviation world_data :: "fworld \<Rightarrow> nat \<Rightarrow> (string \<times> nat) option" where
  "world_data w \<equiv> data (fw_fs w)"

lemma entry_at_simps [simp]:
  "entry_at (fs\<lparr>fs_names := map_set p e ns\<rparr>) q = (if q = p then Some e else map_of ns q)"
  "entry_at (fs\<lparr>fs_nodes := nds\<rparr>) q = entry_at fs q"
  "entry_at \<lparr>fs_names = map_set p e ns, fs_nodes = nds\<rparr> q = (if q = p then Some e else map_of ns q)"
  "entry_at (fs\<lparr>fs_names := map_del p ns\<rparr>) q = (if q = p then None else map_of ns q)"
  by (simp_all add: entry_at_def map_of_map_set map_of_map_del)

lemma data_simps [simp]:
  "data (fs\<lparr>fs_names := ns\<rparr>) = data fs"
  "data (fs\<lparr>fs_nodes := map_set n nd (fs_nodes fs)\<rparr>) m = (if m = n then Some (nd_content nd, nd_mode nd) else data fs m)"
  "data \<lparr>fs_names = ns, fs_nodes = map_set n nd (fs_nodes fs)\<rparr> m = (if m = n then Some (nd_content nd, nd_mode nd) else data fs m)"
  by (auto simp: data_def node_at_def map_of_map_set)

lemma touch_simps [simp]: "entry_at (touch t e fs) = entry_at fs" "data (touch t e fs) = data fs"
  by (rule ext, auto simp: touch_def entry_at_def data_def node_at_def map_of_map_set split: entry.split option.split)+

lemma map_of_names [simp]: "map_of (fs_names fs) p = entry_at fs p"
  by (simp add: entry_at_def)

text \<open>A call that changes neither names nor data.\<close>

definition still :: "fworld \<Rightarrow> fworld \<Rightarrow> bool" where
  "still w w' = (names w' = names w \<and> world_data w' = world_data w)"

lemma still_refl [simp]: "still w w"
  by (simp add: still_def)

lemma still_trans: "still w w' \<Longrightarrow> still w' w'' \<Longrightarrow> still w w''"
  by (simp add: still_def)

lemma syscall_cases:
  assumes "syscall fault act w = (w', r)"
  obtains (failed) c where "r = Inl (OtherError c)" "still w w'"
  | (acted) fs where "act (fw_calls w) (fw_fs w) = (fs, r)" "fw_fs w' = fs"
  using assms by (auto simp: syscall_def still_def split: option.splits prod.splits)

lemma quiet_syscall: "syscall fault (\<lambda>t fs. (fs, f fs)) w = (w', r) \<Longrightarrow> still w w'"
  by (erule syscall_cases) (auto simp: still_def)

lemma rename_effect:
  "sys_rename fault a b w = (w', r) \<Longrightarrow> world_data w' = world_data w \<and>
     (case r of Inl _ \<Rightarrow> names w' = names w
      | Inr _ \<Rightarrow> names w a \<noteq> None \<and> names w' = (names w)(a := None, b := names w a))"
  unfolding sys_rename_def by (erule syscall_cases) (auto simp: still_def fun_eq_iff map_of_map_del split: option.splits)

lemma link_effect:
  "sys_link fault a b w = (w', r) \<Longrightarrow> world_data w' = world_data w \<and>
     (case r of Inl _ \<Rightarrow> names w' = names w
      | Inr _ \<Rightarrow> names w a \<noteq> None \<and> names w b = None \<and> names w' = (names w)(b := names w a))"
  unfolding sys_link_def by (erule syscall_cases) (auto simp: still_def fun_eq_iff split: option.splits if_splits)

lemma remove_effect:
  "sys_remove fault p w = (w', r) \<Longrightarrow> world_data w' = world_data w \<and>
     (case r of Inl _ \<Rightarrow> names w' = names w | Inr _ \<Rightarrow> names w' = (names w)(p := None))"
  unfolding sys_remove_def by (erule syscall_cases) (auto simp: still_def fun_eq_iff split: option.splits)

text \<open>A fault is no false report that a file is missing.\<close>

definition honest :: "faults \<Rightarrow> bool" where
  "honest fault = (\<forall>n. fault n \<noteq> Some ''ENOENT'')"

lemma entry_still:
  "honest fault \<Longrightarrow> pathEntryIfExists fault p w = (w', r) \<Longrightarrow>
     still w w' \<and> (r = Inr None \<longrightarrow> names w p = None) \<and> (r = Inr (Some e) \<longrightarrow> names w p = Some e)"
  unfolding pathEntryIfExists_def honest_def
  by (auto simp: syscall_def still_def split: sum.splits if_splits option.splits)

lemma open_still: "open_single_link fault p w = (w', r) \<Longrightarrow> still w w' \<and> (r = Inr n \<longrightarrow> names w p = Some (Regular n))"
  unfolding open_single_link_def
  by (auto simp: syscall_def still_def split: option.splits if_splits entry.splits)

lemma read_still: "readBoundedFile fault p w = (w', r) \<Longrightarrow>
    still w w' \<and> (r = Inr text \<longrightarrow> (\<exists>n mode. names w p = Some (Regular n) \<and> world_data w n = Some (text, mode)))"
  unfolding readBoundedFile_def
  by (auto simp: syscall_def still_def data_def split: option.splits if_splits entry.splits)

lemma snapshot_still: "snapshotFileIdentitySync fault p w = (w', r) \<Longrightarrow> still w w'"
  unfolding snapshotFileIdentitySync_def call_bind_def
  using open_still by (auto split: prod.splits sum.splits)

section \<open>Publishing and restoring\<close>

lemma publish_effect:
  assumes "publishFileLinkWithIdentity fault source target expected w = (w', created, ident, err)"
  shows "world_data w' = world_data w \<and> (err = None \<longrightarrow> created) \<and>
     (if created then names w source \<noteq> None \<and> names w target = None \<and> names w' = (names w)(target := names w source)
      else names w' = names w)"
proof (cases "open_single_link fault source w")
  case (Pair w1 o1)
  note o1 = this
  have s1: "still w w1" using open_still [OF o1] by blast
  show ?thesis
  proof (cases o1)
    case (Inl e)
    then show ?thesis using assms o1 s1 by (auto simp: publishFileLinkWithIdentity_def still_def)
  next
    case (Inr n)
    show ?thesis
    proof (cases "expected \<noteq> None \<and> \<not> sameFilesystemIdentity expected (Some (n, ctime_of (fw_fs w1) n))")
      case True
      then show ?thesis using assms o1 Inr s1 by (auto simp: publishFileLinkWithIdentity_def still_def)
    next
      case False
      obtain w2 l where l: "sys_link fault source target w1 = (w2, l)" by fastforce
      note le = link_effect [OF l]
      show ?thesis
      proof (cases l)
        case (Inl e)
        then show ?thesis using assms o1 Inr s1 False l le
          by (auto simp: publishFileLinkWithIdentity_def still_def simp del: not_None_eq)
      next
        case (Inr u)
        obtain w3 q where q: "syscall fault (\<lambda>t fs. (fs, Inr (nlink fs n, ctime_of fs n))) w2 = (w3, q)" by fastforce
        have s3: "still w2 w3" using quiet_syscall [OF q] .
        obtain w4 x where x: "syscall fault (\<lambda>t fs. (fs, case entry_at fs target of None \<Rightarrow> Inl (OtherError ''ENOENT'') | Some e \<Rightarrow> Inr e)) w3 = (w4, x)"
          by fastforce
        have s4: "still w3 w4" using quiet_syscall [OF x] .
        have e: "publishFileLinkWithIdentity fault source target expected w
          = (case q of Inl e \<Rightarrow> (w3, True, None, Some e)
             | Inr (links, ct) \<Rightarrow> (case x of Inl e \<Rightarrow> (w4, True, None, Some e)
                 | Inr e \<Rightarrow> if links \<noteq> 2 \<or> (case e of Special \<Rightarrow> True | Regular k \<Rightarrow> nlink (fw_fs w4) k \<noteq> 2
                             \<or> \<not> sameFilesystemIdentity (Some (n, ct)) (Some (k, ctime_of (fw_fs w4) k)))
                        then (w4, True, None, Some (OtherError []))
                        else (w4, True, Some (n, ct), None)))"
          unfolding publishFileLinkWithIdentity_def o1 using \<open>o1 = Inr n\<close> False l Inr q x
          by (simp add: sameFilesystemIdentity_def del: not_None_eq split: sum.split)
        have c: "created" "w' = w3 \<or> w' = w4" using assms unfolding e by (auto split: sum.splits prod.splits if_splits)
        then have "still w2 w'" using s3 still_trans [OF s3 s4] by blast
        then show ?thesis using c le Inr s1 by (auto simp: still_def)
      qed
    qed
  qed
qed

lemma remove_linked_effect:
  assumes "honest fault" "removeLinkedFileSnapshot fault p expected w = (w', r)"
  shows "world_data w' = world_data w \<and> (case r of Inl _ \<Rightarrow> names w' = names w | Inr _ \<Rightarrow> names w' = (names w)(p := None))"
proof (cases "pathEntryIfExists fault p w")
  case (Pair w1 e)
  have s: "still w w1" "e = Inr None \<Longrightarrow> names w p = None" using entry_still [OF assms(1) Pair] by auto
  show ?thesis
    using assms(2) Pair s remove_effect [of fault p w1 w' r]
    by (auto simp: removeLinkedFileSnapshot_def still_def split: sum.splits option.splits entry.splits if_splits)
qed

lemma restore_effect:
  assumes "honest fault" "restoreFileSnapshotNoReplace fault b s expected w = (w', r)"
  shows "world_data w' = world_data w \<and> (is_ok r \<longrightarrow> names w' = (names w)(s := names w b, b := None))"
proof (cases "expected = None")
  case False
  obtain w1 created ident err where p: "publishFileLinkWithIdentity fault b s expected w = (w1, created, ident, err)"
    by (metis prod_cases4)
  note pe = publish_effect [OF p]
  show ?thesis
  proof (cases err)
    case None
    then have "removeLinkedFileSnapshot fault b ident w1 = (w', r)"
      using assms(2) False p by (simp add: restoreFileSnapshotNoReplace_def)
    from remove_linked_effect [OF assms(1) this] show ?thesis using pe None by (cases r) auto
  qed (use assms(2) False p pe in \<open>auto simp: restoreFileSnapshotNoReplace_def\<close>)
qed (use assms(2) in \<open>auto simp: restoreFileSnapshotNoReplace_def\<close>)

section \<open>Committing is undone by rolling back\<close>

text \<open>The change of the names a record stands for, when it is possible, and its inverse.\<close>

definition move_away :: "commit_record \<Rightarrow> (string \<Rightarrow> entry option) \<Rightarrow> string \<Rightarrow> entry option" where
  "move_away r N = (case (cr_backup r, cr_source r) of (Some b, Some s) \<Rightarrow> N(s := None, b := N s) | _ \<Rightarrow> N)"

definition apply_record :: "(nat \<Rightarrow> string) \<Rightarrow> (string \<Rightarrow> entry option) \<Rightarrow> commit_record \<Rightarrow> string \<Rightarrow> entry option" where
  "apply_record temp N r =
     (case cr_target r of
        Some t \<Rightarrow> if cr_targetCreated r then (move_away r N)(t := move_away r N (temp (cr_index r))) else move_away r N
      | None \<Rightarrow> move_away r N)"

definition undo_record :: "(string \<Rightarrow> entry option) \<Rightarrow> commit_record \<Rightarrow> string \<Rightarrow> entry option" where
  "undo_record N r =
     (let N1 = (case cr_target r of Some t \<Rightarrow> if cr_targetCreated r then N(t := None) else N | None \<Rightarrow> N)
      in case (cr_backup r, cr_source r) of (Some b, Some s) \<Rightarrow> N1(s := N1 b, b := None) | _ \<Rightarrow> N1)"

definition applicable :: "(string \<Rightarrow> entry option) \<Rightarrow> commit_record \<Rightarrow> bool" where
  "applicable N r =
     ((\<forall>b s. cr_backup r = Some b \<longrightarrow> cr_source r = Some s \<longrightarrow> N b = None \<and> b \<noteq> s)
      \<and> (\<forall>t. cr_target r = Some t \<longrightarrow> cr_targetCreated r \<longrightarrow> move_away r N t = None \<and> cr_backup r \<noteq> Some t))"

lemma undo_apply: "applicable N r \<Longrightarrow> undo_record (apply_record temp N r) r = N"
  by (rule ext) (auto simp: applicable_def apply_record_def undo_record_def move_away_def Let_def split: option.splits)

fun applicable_all :: "(nat \<Rightarrow> string) \<Rightarrow> (string \<Rightarrow> entry option) \<Rightarrow> commit_record list \<Rightarrow> bool" where
  "applicable_all temp N [] = True"
| "applicable_all temp N (r # rs) = (applicable N r \<and> applicable_all temp (apply_record temp N r) rs)"

lemma undo_all: "applicable_all temp N rs \<Longrightarrow> foldl undo_record (foldl (apply_record temp) N rs) (rev rs) = N"
  by (induction rs arbitrary: N) (simp_all add: undo_apply)

lemma rollback_record_effect:
  assumes "honest fault" "rollback_target fault r w = (w1, a)" "rollback_source fault r w1 = (w2, b)"
  shows "world_data w2 = world_data w \<and> (is_ok a \<longrightarrow> is_ok b \<longrightarrow> names w2 = undo_record (names w) r)"
proof -
  have t: "world_data w1 = world_data w \<and> (is_ok a \<longrightarrow>
      names w1 = (case cr_target r of Some t \<Rightarrow> if cr_targetCreated r then (names w)(t := None) else names w | None \<Rightarrow> names w))"
    using assms(2)
    by (cases a) (auto simp: rollback_target_def dest!: remove_linked_effect [OF assms(1)] split: option.splits if_splits)
  show ?thesis
  proof (cases "\<exists>b s. cr_backup r = Some b \<and> cr_source r = Some s")
    case True
    then obtain bk s where bs: "cr_backup r = Some bk" "cr_source r = Some s" by blast
    then have "restoreFileSnapshotNoReplace fault bk s (cr_backupIdentity r) w1 = (w2, b)"
      using assms(3) by (simp add: rollback_source_def)
    from restore_effect [OF assms(1) this] show ?thesis using t bs by (simp add: undo_record_def Let_def)
  next
    case False
    then have "w2 = w1" using assms(3) by (auto simp: rollback_source_def split: option.splits)
    then show ?thesis using t False by (auto simp: undo_record_def Let_def split: option.splits)
  qed
qed

lemma rollback_effect:
  "honest fault \<Longrightarrow> rollback_records fault rs w = (w', n) \<Longrightarrow>
     world_data w' = world_data w \<and> (n = 0 \<longrightarrow> names w' = foldl undo_record (names w) rs)"
proof (induction rs arbitrary: w n)
  case (Cons r rs)
  obtain w1 a where t: "rollback_target fault r w = (w1, a)" by fastforce
  obtain w2 b where s: "rollback_source fault r w1 = (w2, b)" by fastforce
  obtain k where k: "rollback_records fault rs w2 = (w', k)"
    and n: "n = (if is_ok a then 0 else 1) + (if is_ok b then 0 else 1) + k"
    using Cons.prems(2) by (auto simp: t s Let_def split: prod.splits)
  from rollback_record_effect [OF Cons.prems(1) t s] Cons.IH [OF Cons.prems(1) k] n show ?case by auto
qed simp

section \<open>Committing\<close>

definition new_record :: "(nat \<Rightarrow> string) \<Rightarrow> nat \<Rightarrow> patch_operation \<Rightarrow> commit_record" where
  "new_record backup i op = \<lparr>cr_index = i, cr_source = po_source op, cr_target = po_target op,
     cr_backup = (case po_source op of Some _ \<Rightarrow> Some (backup i) | None \<Rightarrow> None),
     cr_targetCreated = False, cr_backupIdentity = None, cr_targetIdentity = None\<rparr>"

lemma new_record_fields [simp]:
  "cr_index (new_record backup i op) = i" "cr_source (new_record backup i op) = po_source op"
  "cr_target (new_record backup i op) = po_target op" "\<not> cr_targetCreated (new_record backup i op)"
  "cr_backup (new_record backup i op) = (case po_source op of Some _ \<Rightarrow> Some (backup i) | None \<Rightarrow> None)"
  by (simp_all add: new_record_def)

definition same_paths :: "commit_record \<Rightarrow> commit_record \<Rightarrow> bool" where
  "same_paths r r' = (cr_index r' = cr_index r \<and> cr_source r' = cr_source r \<and> cr_target r' = cr_target r \<and> cr_backup r' = cr_backup r)"

lemma move_away_same: "same_paths r r' \<Longrightarrow> move_away r' N = move_away r N"
  by (simp add: move_away_def same_paths_def)

lemma commit_published_effect:
  assumes "commit_published fault sha temp staged op r w = (w', r', err)" "\<not> cr_targetCreated r"
  shows "world_data w' = world_data w \<and> same_paths r r'
    \<and> (err = None \<longrightarrow> cr_targetCreated r' = (cr_index r \<in> set staged))
    \<and> (if cr_targetCreated r' then (\<exists>t. cr_target r = Some t \<and> names w t = None \<and> names w' = (names w)(t := names w (temp (cr_index r))))
       else names w' = names w)"
  using assms
  by (auto simp: commit_published_def same_paths_def dest!: publish_effect split: if_splits option.splits prod.splits)

lemma commit_moved_effect:
  assumes "commit_moved fault sha temp staged op r w = (w', r', err)" "\<not> cr_targetCreated r"
  shows "world_data w' = world_data w \<and> same_paths r r'
    \<and> (err = None \<longrightarrow> cr_targetCreated r' = (cr_index r \<in> set staged))
    \<and> (if cr_targetCreated r' then (\<exists>t. cr_target r = Some t \<and> names w t = None \<and> names w' = (names w)(t := names w (temp (cr_index r))))
       else names w' = names w)"
proof (cases "cr_backup r")
  case None
  with assms show ?thesis using commit_published_effect by (simp add: commit_moved_def)
next
  case (Some b)
  obtain w1 i where i: "snapshotFileIdentitySync fault b w = (w1, i)" by fastforce
  have s1: "still w w1" using snapshot_still [OF i] .
  show ?thesis
  proof (cases i)
    case (Inl e)
    then show ?thesis using assms Some i s1 by (auto simp: commit_moved_def still_def same_paths_def)
  next
    case (Inr ident)
    let ?r = "r\<lparr>cr_backupIdentity := Some ident\<rparr>"
    obtain w2 x where x: "readBoundedFile fault b w1 = (w2, x)" by fastforce
    have s2: "still w w2" using s1 read_still [OF x] still_trans by blast
    show ?thesis
    proof (cases "\<exists>text. x = Inr text \<and> sha text = po_originalHash op")
      case True
      then have "commit_published fault sha temp staged op ?r w2 = (w', r', err)"
        using assms Some i Inr x by (auto simp: commit_moved_def Let_def)
      from commit_published_effect [OF this] assms(2) s2 show ?thesis
        by (auto simp: still_def same_paths_def split: if_splits)
    next
      case False
      then show ?thesis using assms Some i Inr x s2
        by (auto simp: commit_moved_def Let_def still_def same_paths_def split: sum.splits if_splits)
    qed
  qed
qed

text \<open>The names that the operations may touch, and names set aside for backups, which nothing else uses.\<close>

definition touched :: "(nat \<Rightarrow> string) \<Rightarrow> (nat \<times> patch_operation) list \<Rightarrow> string set" where
  "touched temp ops = (\<Union>(i, op) \<in> set ops. insert (temp i) (set_option (po_source op) \<union> set_option (po_target op)))"

definition backups_free :: "(nat \<Rightarrow> string) \<Rightarrow> (nat \<Rightarrow> string) \<Rightarrow> (nat \<times> patch_operation) list \<Rightarrow> (string \<Rightarrow> entry option) \<Rightarrow> bool" where
  "backups_free temp backup ops N =
     (distinct (map (\<lambda>(i, op). backup i) ops)
      \<and> (\<forall>(i, op) \<in> set ops. N (backup i) = None \<and> backup i \<notin> touched temp ops))"

lemma apply_record_other:
  "N q = None \<Longrightarrow> cr_backup r \<noteq> Some q \<Longrightarrow> cr_target r \<noteq> Some q \<Longrightarrow> apply_record temp N r q = None"
  by (auto simp: apply_record_def move_away_def split: option.splits)

lemma commit_operations_effect:
  "commit_operations fault sha temp backup staged ops done_records w = (w', cs, err) \<Longrightarrow> backups_free temp backup ops (names w) \<Longrightarrow>
     \<exists>rs. cs = done_records @ rs \<and> world_data w' = world_data w \<and> names w' = foldl (apply_record temp) (names w) rs
        \<and> applicable_all temp (names w) rs
        \<and> (err = None \<longrightarrow> list_all2 (\<lambda>(i, op) r. same_paths (new_record backup i op) r \<and> cr_targetCreated r = (i \<in> set staged)) ops rs)"
proof (induction ops arbitrary: done_records w)
  case Nil
  then show ?case by (intro exI [of _ "[]"]) simp
next
  case (Cons o1 ops)
  obtain i op where o1: "o1 = (i, op)" by fastforce
  note prems = Cons.prems [unfolded o1]
  let ?r = "new_record backup i op"
  obtain w1 m where m: "(case po_source op of Some s \<Rightarrow> sys_rename fault s (backup i) w | None \<Rightarrow> (w, Inr ())) = (w1, m)"
    by fastforce
  show ?case
  proof (cases m)
    case (Inl e)
    then show ?thesis using prems(1) m unfolding o1
      by (intro exI [of _ "[]"]) (auto simp: Let_def dest!: rename_effect split: option.splits)
  next
    case (Inr u)
    have free: "names w (backup i) = None" "backup i \<notin> touched temp ((i, op) # ops)"
      using prems(2) by (auto simp: backups_free_def)
    have n1: "world_data w1 = world_data w" "names w1 = move_away ?r (names w)"
      using m Inr by (auto simp: move_away_def dest!: rename_effect split: option.splits)
    obtain w2 r' err' where c: "commit_moved fault sha temp staged op ?r w1 = (w2, r', err')" by (metis prod_cases3)
    have eff: "world_data w2 = world_data w1 \<and> same_paths ?r r'
        \<and> (err' = None \<longrightarrow> cr_targetCreated r' = (i \<in> set staged))
        \<and> (if cr_targetCreated r' then (\<exists>t. po_target op = Some t \<and> names w1 t = None \<and> names w2 = (names w1)(t := names w1 (temp i)))
           else names w2 = names w1)"
      using commit_moved_effect [OF c new_record_fields(4)] unfolding new_record_fields .
    have app: "names w2 = apply_record temp (names w) r'" "applicable (names w) r'"
      using eff free n1 move_away_same [of ?r r']
      by (auto simp: apply_record_def applicable_def same_paths_def touched_def split: option.splits if_splits)
    have step: "commit_operations fault sha temp backup staged ((i, op) # ops) done_records w
        = (case err' of Some e \<Rightarrow> (w2, done_records @ [r'], Some e)
           | None \<Rightarrow> commit_operations fault sha temp backup staged ops (done_records @ [r']) w2)"
      using m Inr c by (simp add: new_record_def Let_def split: option.split)
    show ?thesis
    proof (cases err')
      case (Some e)
      then show ?thesis using prems(1) app eff n1 unfolding step o1
        by (intro exI [of _ "[r']"]) auto
    next
      case None
      have "names w2 (backup j) = None \<and> backup j \<notin> touched temp ops" if j: "(j, op') \<in> set ops" for j op'
      proof -
        from j have "backup j \<in> (\<lambda>(i, op). backup i) ` set ops" by force
        moreover have "backup i \<notin> (\<lambda>(i, op). backup i) ` set ops" using prems(2) by (simp add: backups_free_def)
        ultimately have "backup j \<noteq> backup i" by auto
        moreover have "names w (backup j) = None" "backup j \<notin> touched temp ((i, op) # ops)"
          using prems(2) j by (fastforce simp: backups_free_def)+
        ultimately show ?thesis
          unfolding app(1) using eff
          by (intro conjI apply_record_other) (auto simp: touched_def same_paths_def split: option.splits)
      qed
      then have free2: "backups_free temp backup ops (names w2)"
        using prems(2) unfolding backups_free_def by auto
      have "commit_operations fault sha temp backup staged ops (done_records @ [r']) w2 = (w', cs, err)"
        using prems(1) None unfolding step by simp
      from Cons.IH [OF this free2]
      obtain rs where rs: "cs = done_records @ r' # rs" "world_data w' = world_data w2"
        "names w' = foldl (apply_record temp) (names w2) rs" "applicable_all temp (names w2) rs"
        "err = None \<longrightarrow> list_all2 (\<lambda>(i, op) r. same_paths (new_record backup i op) r \<and> cr_targetCreated r = (i \<in> set staged)) ops rs"
        by auto
      with app eff n1 None show ?thesis unfolding o1 by (intro exI [of _ "r' # rs"]) auto
    qed
  qed
qed

section \<open>Staging\<close>

lemma fresh_ino_new: "node_at fs (fresh_ino fs) = None"
proof -
  have "n \<in> set xs \<Longrightarrow> n \<le> foldr max xs 0" for n :: nat and xs
    by (induction xs) auto
  then have "fresh_ino fs \<notin> set (map fst (fs_nodes fs))"
    unfolding fresh_ino_def using Suc_n_not_le_n by blast
  then show ?thesis by (simp add: node_at_def map_of_eq_None_iff)
qed

lemma data_None_iff: "data fs n = None \<longleftrightarrow> node_at fs n = None"
  by (simp add: data_def)

text \<open>What staging keeps: the data of every inode, and every entry there was.\<close>

definition extends :: "fworld \<Rightarrow> fworld \<Rightarrow> bool" where
  "extends w w' = ((\<forall>n. world_data w n \<noteq> None \<longrightarrow> world_data w' n = world_data w n)
     \<and> (\<forall>q. names w q \<noteq> None \<longrightarrow> names w' q = names w q) \<and> (fs_ok (fw_fs w) \<longrightarrow> fs_ok (fw_fs w')))"

lemma extends_trans: "extends w w' \<Longrightarrow> extends w' w'' \<Longrightarrow> extends w w''"
  unfolding extends_def by metis

lemma fs_ok_data: "fs_ok fs \<longleftrightarrow> (\<forall>p n. entry_at fs p = Some (Regular n) \<longrightarrow> data fs n \<noteq> None)"
  by (simp add: fs_ok_def data_None_iff)

lemma still_extends: "still w w' \<Longrightarrow> extends w w'"
  by (simp add: still_def extends_def fs_ok_data)

lemma create_effect:
  assumes "sys_create fault p mode w = (w', r)"
  shows "(\<exists>c. r = Inl (OtherError c) \<and> still w w')
    \<or> (\<exists>n. r = Inr n \<and> names w p = None \<and> world_data w n = None \<and> names w' = (names w)(p := Some (Regular n))
          \<and> world_data w' = (world_data w)(n := Some ([], mode)))"
  using assms unfolding sys_create_def
  by (auto simp: syscall_def still_def Let_def fun_eq_iff data_None_iff fresh_ino_new split: if_splits option.splits)

lemma write_effect:
  assumes "sys_write fault n f w = (w', r)"
  shows "names w' = names w \<and> (\<exists>x. world_data w' = (world_data w)(n := x) \<and> (world_data w n \<noteq> None \<longrightarrow> x \<noteq> None))
     \<and> (r = Inr () \<longrightarrow> (\<exists>nd. node_at (fw_fs w) n = Some nd \<and> world_data w' n = Some (nd_content (f nd), nd_mode (f nd))))"
proof (cases "fault (fw_calls w) = None \<and> node_at (fw_fs w) n \<noteq> None")
  case True
  then obtain nd where "node_at (fw_fs w) n = Some nd" by auto
  with True show ?thesis using assms unfolding sys_write_def
    by (auto simp: syscall_def fun_eq_iff intro!: exI [of _ "world_data w' n"])
next
  case False
  then have "names w' = names w \<and> world_data w' = world_data w \<and> r \<noteq> Inr ()"
    using assms unfolding sys_write_def by (auto simp: syscall_def split: option.splits)
  then show ?thesis by (auto intro!: exI [of _ "world_data w n"])
qed

lemma write_staged_effect:
  assumes "write_staged fault n content mode w = (w', r)"
  shows "names w' = names w \<and> (\<exists>x. world_data w' = (world_data w)(n := x) \<and> (world_data w n \<noteq> None \<longrightarrow> x \<noteq> None))
     \<and> (r = Inr () \<longrightarrow> world_data w' n = Some (content, mode))"
proof -
  obtain w1 r1 where 1: "sys_write fault n (\<lambda>nd. nd\<lparr>nd_content := content\<rparr>) w = (w1, r1)" by fastforce
  obtain w2 r2 where 2: "sys_write fault n (\<lambda>nd. nd\<lparr>nd_mode := mode\<rparr>) w1 = (w2, r2)" by fastforce
  obtain w3 r3 where 3: "sys_flush fault w2 = (w3, r3)" by fastforce
  have s3: "still w2 w3" using quiet_syscall [OF 3 [unfolded sys_flush_def]] .
  note e1 = write_effect [OF 1] and e2 = write_effect [OF 2]
  have d: "world_data w2 n = Some (content, mode)" if "r1 = Inr ()" "r2 = Inr ()"
  proof -
    from e1 that(1) have "world_data w1 n = Some (content, snd (the (world_data w1 n)))" by auto
    moreover from e2 that(2) obtain nd where "node_at (fw_fs w1) n = Some nd" "world_data w2 n = Some (nd_content nd, mode)" by auto
    ultimately show ?thesis by (simp add: data_def)
  qed
  have r: "(w', r) = (case r1 of Inl e \<Rightarrow> (w1, Inl e) | Inr _ \<Rightarrow> (case r2 of Inl e \<Rightarrow> (w2, Inl e) | Inr _ \<Rightarrow> (w3, r3)))"
    using assms 1 2 3 by (auto simp: write_staged_def call_bind_def split: sum.splits)
  obtain x y where x: "world_data w1 = (world_data w)(n := x)" "world_data w n \<noteq> None \<longrightarrow> x \<noteq> None"
    and y: "world_data w2 = (world_data w1)(n := y)" "world_data w1 n \<noteq> None \<longrightarrow> y \<noteq> None" using e1 e2 by blast
  have w2: "world_data w2 = (world_data w)(n := y)" "world_data w n \<noteq> None \<longrightarrow> y \<noteq> None" using x y by auto
  show ?thesis
  proof (cases r1)
    case (Inl e)
    then show ?thesis using r e1 by auto
  next
    case (Inr u)
    note r1 = Inr
    show ?thesis
    proof (cases r2)
      case (Inl e)
      then have "w' = w2" "r = Inl e" using r r1 by auto
      then show ?thesis using e1 e2 w2 by auto
    next
      case (Inr v)
      then have "w' = w3" "r = r3" using r r1 by auto
      then show ?thesis using e1 e2 w2 s3 d r1 Inr by (auto simp: still_def)
    qed
  qed
qed

lemma write_flushed_effect:
  assumes "writeFlushedText fault p content mode w = (w', r)"
  shows "extends w w' \<and> (\<forall>q. q \<noteq> p \<longrightarrow> names w' q = names w q)
     \<and> (case r of Inr _ \<Rightarrow> names w p = None \<and> (\<exists>n. names w' p = Some (Regular n) \<and> world_data w' n = Some (content, mode))
         | Inl e \<Rightarrow> e = incompleteMutationError \<or> names w' = names w)"
proof -
  obtain w1 c where c: "sys_create fault p mode w = (w1, c)" by fastforce
  from create_effect [OF c] show ?thesis
  proof (elim disjE exE conjE)
    fix d
    assume "c = Inl (OtherError d)" "still w w1"
    then show ?thesis using assms c
      by (auto simp: writeFlushedText_def call_bind_def still_extends) (simp add: still_def)+
  next
    fix n
    assume n: "c = Inr n" "names w p = None" "world_data w n = None" "names w1 = (names w)(p := Some (Regular n))"
      "world_data w1 = (world_data w)(n := Some ([], mode))"
    obtain w2 x where x: "write_staged fault n content mode w1 = (w2, x)" by fastforce
    obtain w3 y where y: "sys_flush fault w2 = (w3, y)" by fastforce
    have s3: "still w2 w3" using quiet_syscall [OF y [unfolded sys_flush_def]] .
    obtain w4 z where z: "sys_remove fault p w3 = (w4, z)" by fastforce
    note rm = remove_effect [OF z]
    obtain d where d: "names w3 = (names w)(p := Some (Regular n))" "world_data w3 = (world_data w)(n := Some d)"
      "x = Inr () \<longrightarrow> d = (content, mode)"
      using write_staged_effect [OF x] s3 n(4,5) by (auto simp: still_def)
    have ok: "fs_ok (fw_fs w) \<Longrightarrow> fs_ok (fw_fs w3)" using d(1,2) by (auto simp: fs_ok_data)
    have ex3: "extends w w3" using d n(2,3) ok by (auto simp: extends_def)
    have ex4: "extends w w4" using d n(2,3) ok rm by (auto simp: extends_def fs_ok_data split: sum.splits)
    show ?thesis
    proof (cases "x = Inr () \<and> y = Inr ()")
      case True
      then have "w' = w3" "r = Inr ()" using assms c n(1) x y by (auto simp: writeFlushedText_def call_bind_def)
      then show ?thesis using ex3 d True n(2) by auto
    next
      case False
      then have "w' = w4" "(\<exists>u. z = Inr u \<and> (\<exists>e. r = Inl e)) \<or> r = Inl incompleteMutationError"
        using assms c n(1) x y z by (auto simp: writeFlushedText_def call_bind_def Let_def split: sum.splits)
      then show ?thesis using ex4 rm d n(2) by (auto simp: fun_upd_idem split: sum.splits)
    qed
  qed
qed

definition content_indices :: "(nat \<times> patch_operation) list \<Rightarrow> nat list" where
  "content_indices ops = map fst (filter (\<lambda>(i, op). po_content op \<noteq> None) ops)"

definition staged_content :: "(nat \<Rightarrow> string) \<Rightarrow> fworld \<Rightarrow> nat \<times> patch_operation \<Rightarrow> bool" where
  "staged_content temp w = (\<lambda>(i, op). \<exists>n content. po_content op = Some content \<and> names w (temp i) = Some (Regular n)
     \<and> world_data w n = Some (content, case po_mode op of Some m \<Rightarrow> m | None \<Rightarrow> 384))"

lemma staged_content_extends: "staged_content temp w x \<Longrightarrow> extends w w' \<Longrightarrow> staged_content temp w' x"
  by (cases x) (auto simp: staged_content_def extends_def)

lemma stage_effect:
  "stage_operations fault temp ops staged w = (w', staged', err) \<Longrightarrow>
     extends w w' \<and> (\<forall>q. q \<notin> temp ` fst ` set ops \<longrightarrow> names w' q = names w q)
     \<and> (\<exists>xs. staged' = staged @ xs \<and> set xs \<subseteq> fst ` set ops \<and> (\<forall>q \<in> temp ` set xs. names w q = None)
         \<and> (err = None \<longrightarrow> xs = content_indices ops)
         \<and> (err \<noteq> Some incompleteMutationError \<longrightarrow> (\<forall>q. q \<notin> temp ` set xs \<longrightarrow> names w' q = names w q)))
     \<and> (err = None \<longrightarrow> (\<forall>(i, op) \<in> set ops. po_content op \<noteq> None \<longrightarrow> staged_content temp w' (i, op)))"
proof (induction ops arbitrary: staged w)
  case Nil
  then show ?case by (auto simp: extends_def content_indices_def)
next
  case (Cons o1 ops)
  obtain i op where o1: "o1 = (i, op)" by fastforce
  show ?case
  proof (cases "po_content op")
    case None
    then have "stage_operations fault temp ops staged w = (w', staged', err)" using Cons.prems by (simp add: o1)
    from Cons.IH [OF this] None show ?thesis by (auto simp: o1 content_indices_def)
  next
    case (Some content)
    let ?mode = "case po_mode op of Some m \<Rightarrow> m | None \<Rightarrow> 384"
    obtain w0 a where a: "sys_mkdir fault w = (w0, a)" by fastforce
    have s0: "still w w0" using quiet_syscall [OF a [unfolded sys_mkdir_def]] .
    obtain w1 r where r: "writeFlushedText fault (temp i) content ?mode w0 = (w1, r)" by fastforce
    note wf = write_flushed_effect [OF r]
    show ?thesis
    proof (cases "\<exists>e. a = Inl e")
      case True
      then show ?thesis using Cons.prems Some a s0 by (auto simp: o1 call_bind_def still_extends) (auto simp: still_def)
    next
      case False
      then have cb: "call_bind (sys_mkdir fault) (\<lambda>_. writeFlushedText fault (temp i) content ?mode) w = (w1, r)"
        using a r by (cases a) (auto simp: call_bind_def)
      have ex: "extends w w1" using extends_trans [OF still_extends [OF s0]] wf by blast
      have out: "names w1 q = names w q" if "q \<noteq> temp i" for q using wf s0 that by (auto simp: still_def)
      show ?thesis
      proof (cases r)
        case (Inl e)
        then have "w' = w1" "staged' = staged" "err = Some e" using Cons.prems Some cb by (auto simp: o1)
        then show ?thesis using ex out wf Inl s0 by (auto simp: o1 still_def)
      next
        case (Inr u)
        then have st: "stage_operations fault temp ops (staged @ [i]) w1 = (w', staged', err)"
          using Cons.prems Some cb by (simp add: o1)
        note ih = Cons.IH [OF st]
        have "staged_content temp w1 (i, op)" using wf Inr Some by (auto simp: staged_content_def)
        then have sc: "staged_content temp w' (i, op)" using ih by (blast intro: staged_content_extends)
        have none: "names w q = None" if "names w1 q = None" for q using ex that unfolding extends_def by metis
        have ti: "names w (temp i) = None" using wf Inr s0 by (auto simp: still_def)
        from ih obtain xs where xs: "staged' = (staged @ [i]) @ xs" "set xs \<subseteq> fst ` set ops"
          "\<forall>q \<in> temp ` set xs. names w1 q = None" "err = None \<longrightarrow> xs = content_indices ops"
          "err \<noteq> Some incompleteMutationError \<longrightarrow> (\<forall>q. q \<notin> temp ` set xs \<longrightarrow> names w' q = names w1 q)" by blast
        show ?thesis
          using ih xs ex out sc Some extends_trans [OF ex] none ti
          by (auto simp: o1 content_indices_def intro!: exI [of _ "i # xs"])
      qed
    qed
  qed
qed

section \<open>Aborting\<close>

lemma remove_artifacts_effect:
  "removeArtifacts fault ps w = (w', n) \<Longrightarrow> world_data w' = world_data w
     \<and> (\<forall>q. names w' q = names w q \<or> q \<in> set ps \<and> names w' q = None) \<and> (n = 0 \<longrightarrow> (\<forall>q \<in> set ps. names w' q = None))"
proof (induction ps arbitrary: w n)
  case (Cons p ps)
  obtain w1 r where r: "sys_remove fault p w = (w1, r)" by fastforce
  obtain m where m: "removeArtifacts fault ps w1 = (w', m)" "n = (case r of Inl _ \<Rightarrow> Suc m | Inr _ \<Rightarrow> m)"
    using Cons.prems by (auto simp: r split: prod.splits)
  have q: "names w' q = names w1 q \<or> q \<in> set ps \<and> names w' q = None" for q using Cons.IH [OF m(1)] by blast
  show ?case
    using Cons.IH [OF m(1)] m(2) remove_effect [OF r] q by (auto split: sum.splits if_splits) (metis+)?
qed simp

lemma abort_effect:
  assumes "honest fault" "abort_transaction fault temp staged committed e0 w = (w', r)"
    "names w = foldl (apply_record temp) N committed" "applicable_all temp N committed"
  shows "\<exists>e. r = Inl e \<and> world_data w' = world_data w \<and> (e \<noteq> patchRecoveryIncompleteError \<longrightarrow>
       (\<forall>q. q \<notin> temp ` set staged \<longrightarrow> names w' q = N q)
       \<and> (e \<noteq> incompleteMutationError \<longrightarrow> e = e0 \<and> (\<forall>q \<in> temp ` set staged. names w' q = None)))"
proof -
  obtain w1 k where k: "rollback_records fault (rev committed) w = (w1, k)" by fastforce
  obtain n where n: "removeArtifacts fault (map temp staged) w1 = (w', n)"
    and r: "r = Inl (if k > 0 then patchRecoveryIncompleteError else if n > 0 then incompleteMutationError else e0)"
    using assms(2) by (auto simp: abort_transaction_def k split: prod.splits)
  have "k = 0 \<longrightarrow> names w1 = N" "world_data w1 = world_data w"
    using rollback_effect [OF assms(1) k] undo_all [OF assms(4)] assms(3) by auto
  then show ?thesis using remove_artifacts_effect [OF n] r by auto
qed

section \<open>Checking\<close>

lemma check_operation_effect:
  assumes "honest fault" "check_operation fault sha op w = (w', r)"
  shows "still w w' \<and> (is_ok r \<longrightarrow>
     (\<forall>s. po_source op = Some s \<longrightarrow> (\<exists>n text mode. names w s = Some (Regular n) \<and> world_data w n = Some (text, mode)
         \<and> sha text = po_originalHash op))
     \<and> (po_kind op \<in> {''add'', ''move''} \<longrightarrow> (\<exists>t. po_target op = Some t \<and> names w t = None)))"
proof -
  let ?first = "\<lambda>w. case po_source op of
         None \<Rightarrow> (w, Inr ())
       | Some s \<Rightarrow> (case readBoundedFile fault s w of
            (w1, Inl e) \<Rightarrow> (w1, Inl e)
          | (w1, Inr current) \<Rightarrow> (w1, if sha current \<noteq> po_originalHash op
               then Inl (Bridge (berr_reason ''conflict'' ''hash_mismatch'')) else Inr ()))"
  obtain w1 a where a: "?first w = (w1, a)" by fastforce
  have s: "still w w1" "\<forall>s. is_ok a \<longrightarrow> po_source op = Some s \<longrightarrow> (\<exists>n text mode. names w s = Some (Regular n)
      \<and> world_data w n = Some (text, mode) \<and> sha text = po_originalHash op)"
    using a by (auto dest!: read_still split: option.splits prod.splits sum.splits if_splits)
  show ?thesis
  proof (cases "is_ok a \<and> po_kind op \<in> {''add'', ''move''} \<and> (\<exists>t. po_target op = Some t)")
    case True
    then obtain t where t: "po_target op = Some t" by blast
    obtain w2 b where b: "pathEntryIfExists fault t w1 = (w2, b)" by fastforce
    have "(w', r) = (case b of Inl e \<Rightarrow> (w2, Inl e) | Inr None \<Rightarrow> (w2, Inr ())
        | Inr (Some _) \<Rightarrow> (w2, Inl (Bridge (berr_reason ''conflict'' ''target_appeared''))))"
      using assms(2) a True t b by (auto simp: check_operation_def call_bind_def split: sum.splits option.splits)
    then show ?thesis using entry_still [OF assms(1) b] s True t
      by (auto simp: still_def split: sum.splits option.splits)
  next
    case False
    then have "w' = w1" "is_ok r \<longrightarrow> is_ok a \<and> po_kind op \<notin> {''add'', ''move''}" using assms(2) a
      by (auto simp: check_operation_def call_bind_def split: sum.splits option.splits if_splits)
    then show ?thesis using s by auto
  qed
qed

lemma check_operations_effect:
  "honest fault \<Longrightarrow> check_operations fault sha ops w = (w', r) \<Longrightarrow> still w w' \<and> (is_ok r \<longrightarrow> (\<forall>op \<in> set ops.
     (\<forall>s. po_source op = Some s \<longrightarrow> (\<exists>n text mode. names w s = Some (Regular n) \<and> world_data w n = Some (text, mode)
         \<and> sha text = po_originalHash op))
     \<and> (po_kind op \<in> {''add'', ''move''} \<longrightarrow> (\<exists>t. po_target op = Some t \<and> names w t = None))))"
proof (induction ops arbitrary: w)
  case (Cons op ops)
  obtain w1 a where a: "check_operation fault sha op w = (w1, a)" by fastforce
  note e = check_operation_effect [OF Cons.prems(1) a]
  show ?case
  proof (cases a)
    case (Inl x)
    then show ?thesis using Cons.prems(2) a e by auto
  next
    case (Inr u)
    then have c: "check_operations fault sha ops w1 = (w', r)" using Cons.prems(2) a by simp
    have n: "names w1 = names w" "world_data w1 = world_data w" using e by (auto simp: still_def)
    from Cons.IH [OF Cons.prems(1) c, unfolded n] e Inr show ?thesis by (auto simp: still_def)
  qed
qed simp

section \<open>Undone\<close>

text \<open>What a path shows: nothing, something that is no regular file, or the content and the mode of a file.\<close>

definition view :: "fworld \<Rightarrow> string \<Rightarrow> (string \<times> nat) option option" where
  "view w p = (case names w p of None \<Rightarrow> None | Some Special \<Rightarrow> Some None | Some (Regular n) \<Rightarrow> Some (world_data w n))"

lemma view_same:
  assumes "fs_ok (fw_fs w)" "names w' p = names w p" "\<forall>n. world_data w n \<noteq> None \<longrightarrow> world_data w' n = world_data w n"
  shows "view w' p = view w p"
  using assms by (auto simp: view_def fs_ok_data split: option.splits entry.splits)

lemma abort_view:
  assumes "honest fault" "fs_ok (fw_fs w)" "extends w w1" "\<forall>q. q \<notin> T \<longrightarrow> names w1 q = names w q" "temp ` set staged \<subseteq> T"
    "\<forall>q \<in> temp ` set staged. names w q = None"
    "e0 \<noteq> incompleteMutationError \<longrightarrow> (\<forall>q. q \<notin> temp ` set staged \<longrightarrow> names w1 q = names w q)"
    "names w2 = foldl (apply_record temp) (names w1) committed" "applicable_all temp (names w1) committed"
    "world_data w2 = world_data w1"
    "abort_transaction fault temp staged committed e0 w2 = (w', Inl e)" "e \<noteq> patchRecoveryIncompleteError"
  shows "(\<forall>p. p \<notin> T \<longrightarrow> view w' p = view w p) \<and> (e \<noteq> incompleteMutationError \<longrightarrow> view w' = view w)"
proof -
  have d: "world_data w' = world_data w1" "\<forall>q. q \<notin> temp ` set staged \<longrightarrow> names w' q = names w1 q"
    "e \<noteq> incompleteMutationError \<longrightarrow> e = e0 \<and> (\<forall>q \<in> temp ` set staged. names w' q = None)"
    using abort_effect [OF assms(1,11,8,9)] assms(10,12) by auto
  have k: "\<forall>n. world_data w n \<noteq> None \<longrightarrow> world_data w' n = world_data w n" using assms(3) d(1) by (simp add: extends_def)
  have 1: "view w' p = view w p" if "p \<notin> T" for p
  proof -
    from that assms(5) have "p \<notin> temp ` set staged" by blast
    then show ?thesis using that assms(4) d(2) by (intro view_same [OF assms(2) _ k]) simp
  qed
  have 2: "view w' p = view w p" if "e \<noteq> incompleteMutationError" for p
    using that d(2,3) assms(6,7) by (intro view_same [OF assms(2) _ k]) (cases "p \<in> temp ` set staged", auto)
  show ?thesis using 1 2 by blast
qed

lemma enumerate_fst: "fst ` set (enumerate 0 ops) = {..<length ops}"
  by (metis add_0 atLeast_upt list.set_map map_fst_enumerate)

text \<open>
  C28. A patch that fails is undone.  Whatever calls of the file system fail, when \<open>commitPatchTransaction\<close> ends with an
  error other than \<open>patch_recovery_incomplete\<close>, every path but the staging files shows the content and mode it had
  before; and when the error is not the one for an incomplete cleanup either, every path does, staging files included.
\<close>

lemma failed_patch_is_undone:
  assumes "honest fault" "fs_ok (fw_fs w)" "backups_free temp backup (enumerate 0 ops) (names w)"
    "commitPatchTransaction fault sha temp backup ops w = (w', Inl e)" "e \<noteq> patchRecoveryIncompleteError"
  shows "(\<forall>p. p \<notin> temp ` {..<length ops} \<longrightarrow> view w' p = view w p) \<and> (e \<noteq> incompleteMutationError \<longrightarrow> view w' = view w)"
proof -
  obtain w1 staged err where st: "stage_operations fault temp (enumerate 0 ops) [] w = (w1, staged, err)" by (metis prod_cases3)
  note se = stage_effect [OF st, unfolded enumerate_fst]
  have sd: "extends w w1" "\<forall>q. q \<notin> temp ` {..<length ops} \<longrightarrow> names w1 q = names w q" "temp ` set staged \<subseteq> temp ` {..<length ops}"
    "\<forall>q \<in> temp ` set staged. names w q = None"
    "err \<noteq> Some incompleteMutationError \<longrightarrow> (\<forall>q. q \<notin> temp ` set staged \<longrightarrow> names w1 q = names w q)"
    using se by auto
  note view = abort_view [OF assms(1,2) sd(1-4) _ _ _ _ _ assms(5)]
  show ?thesis
  proof (cases err)
    case (Some e0)
    then have "abort_transaction fault temp staged [] e0 w1 = (w', Inl e)" using assms(4) st by (simp add: commitPatchTransaction_def)
    with view [of e0 w1 "[]" w'] sd(5) Some show ?thesis by simp
  next
    case None
    obtain w2 c where c: "check_operations fault sha ops w1 = (w2, c)" by fastforce
    have s2: "names w2 = names w1" "world_data w2 = world_data w1"
      using check_operations_effect [OF assms(1) c] by (auto simp: still_def)
    show ?thesis
    proof (cases c)
      case (Inl e0)
      then have "abort_transaction fault temp staged [] e0 w2 = (w', Inl e)"
        using assms(4) st None c by (simp add: commitPatchTransaction_def)
      with view [of e0 w2 "[]" w'] sd(5) None s2 show ?thesis by simp
    next
      case (Inr u)
      obtain w3 cs err3 where co: "commit_operations fault sha temp backup staged (enumerate 0 ops) [] w2 = (w3, cs, err3)"
        by (metis prod_cases3)
      obtain e0 where e0: "err3 = Some e0" and ab: "abort_transaction fault temp staged cs e0 w3 = (w', Inl e)"
        using assms(4) st None c Inr co by (auto simp: commitPatchTransaction_def split: option.splits prod.splits)
      have "names w2 (backup i) = names w (backup i)" if "(i, op) \<in> set (enumerate 0 ops)" for i op
      proof -
        from that assms(3) have "backup i \<notin> temp ` {..<length ops}"
          unfolding enumerate_fst [symmetric] backups_free_def touched_def by fastforce
        then show ?thesis using sd(2) s2(1) by simp
      qed
      then have "backups_free temp backup (enumerate 0 ops) (names w2)"
        using assms(3) unfolding backups_free_def by fastforce
      from commit_operations_effect [OF co this] s2
      have "names w3 = foldl (apply_record temp) (names w1) cs" "applicable_all temp (names w1) cs" "world_data w3 = world_data w1"
        by auto
      with view [OF _ this ab] sd(5) None show ?thesis by simp
    qed
  qed
qed

section \<open>Complete\<close>

definition writes :: "commit_record \<Rightarrow> string set" where
  "writes r = set_option (cr_source r) \<union> set_option (cr_target r) \<union> set_option (cr_backup r)"

lemma apply_record_outside: "p \<notin> writes r \<Longrightarrow> apply_record temp N r p = N p"
  by (auto simp: writes_def apply_record_def move_away_def split: option.splits)

lemma apply_record_local:
  "\<forall>q \<in> insert (temp (cr_index r)) (writes r). N' q = N q \<Longrightarrow> p \<in> writes r \<Longrightarrow> apply_record temp N' r p = apply_record temp N r p"
  by (auto simp: writes_def apply_record_def move_away_def split: option.splits)

lemma foldl_apply_outside: "\<forall>r \<in> set rs. p \<notin> writes r \<Longrightarrow> foldl (apply_record temp) N rs p = N p"
  by (induction rs arbitrary: N) (simp_all add: apply_record_outside)

text \<open>Records that write different paths do not disturb each other.\<close>

fun apart :: "(nat \<Rightarrow> string) \<Rightarrow> commit_record list \<Rightarrow> bool" where
  "apart temp [] = True"
| "apart temp (r # rs) = (apart temp rs \<and> temp (cr_index r) \<notin> writes r
     \<and> (\<forall>r' \<in> set rs. writes r \<inter> writes r' = {} \<and> temp (cr_index r) \<notin> writes r' \<and> temp (cr_index r') \<notin> writes r))"

lemma apartI:
  "(\<And>i j. i < length rs \<Longrightarrow> j < length rs \<Longrightarrow> i \<noteq> j \<Longrightarrow> writes (rs ! i) \<inter> writes (rs ! j) = {}) \<Longrightarrow>
   (\<And>i j. i < length rs \<Longrightarrow> j < length rs \<Longrightarrow> temp (cr_index (rs ! i)) \<notin> writes (rs ! j)) \<Longrightarrow> apart temp rs"
proof (induction rs)
  case (Cons r rs)
  have "apart temp rs" using Cons.prems [of "Suc _" "Suc _"] by (intro Cons.IH) simp_all
  then show ?case
    using Cons.prems(1) [of 0 "Suc _"] Cons.prems(2) [of 0 "Suc _"] Cons.prems(2) [of "Suc _" 0] Cons.prems(2) [of 0 0]
    by (auto simp: in_set_conv_nth disjoint_iff)
qed simp

lemma foldl_apply_at:
  "apart temp rs \<Longrightarrow> r \<in> set rs \<Longrightarrow> p \<in> writes r \<Longrightarrow> foldl (apply_record temp) N rs p = apply_record temp N r p"
proof (induction rs arbitrary: N)
  case (Cons r0 rs)
  show ?case
  proof (cases "r \<in> set rs")
    case True
    then have "writes r0 \<inter> writes r = {}" "temp (cr_index r) \<notin> writes r0" using Cons.prems(1) by auto
    then have "apply_record temp (apply_record temp N r0) r p = apply_record temp N r p"
      using Cons.prems(3) by (intro apply_record_local ballI apply_record_outside) auto
    then show ?thesis using Cons True by simp
  next
    case False
    then have "\<forall>r' \<in> set rs. p \<notin> writes r'" using Cons.prems by auto
    then show ?thesis using False Cons.prems(2) by (simp add: foldl_apply_outside)
  qed
qed simp

lemma set_operation_paths: "set (operation_paths op) = set_option (po_source op) \<union> set_option (po_target op)"
  by (cases "po_source op"; cases "po_target op") (auto simp: operation_paths_def map_filter_def)

lemma collision_owners:
  assumes "res_fold (\<lambda>owners (i, p).
         res_bind (fileMutationPathKey platform p) (\<lambda>key.
           case map_of owners key of
             Some j \<Rightarrow> if j \<noteq> i then Inl (Bridge (berr_reason ''conflict'' ''resolved_path_collision''))
                      else Inr (map_set key i owners)
           | None \<Rightarrow> Inr (map_set key i owners))) owners xs = Inr owners'"
  shows "(\<forall>k i. map_of owners k = Some i \<longrightarrow> map_of owners' k = Some i)
     \<and> (\<forall>(i, p) \<in> set xs. \<exists>k. fileMutationPathKey platform p = Inr k \<and> map_of owners' k = Some i)"
  using assms
proof (induction xs arbitrary: owners)
  case (Cons x xs)
  obtain i p where x: "x = (i, p)" by fastforce
  let ?rest = "\<lambda>key. res_fold (\<lambda>owners (i, p).
         res_bind (fileMutationPathKey platform p) (\<lambda>key.
           case map_of owners key of
             Some j \<Rightarrow> if j \<noteq> i then Inl (Bridge (berr_reason ''conflict'' ''resolved_path_collision''))
                      else Inr (map_set key i owners)
           | None \<Rightarrow> Inr (map_set key i owners))) (map_set key i owners) xs = Inr owners'"
  obtain key where k: "fileMutationPathKey platform p = Inr key"
    using Cons.prems unfolding x by (auto simp: res_bind_Inr_iff)
  have o: "map_of owners key = None \<or> map_of owners key = Some i" and rest: "?rest key"
    using Cons.prems unfolding x by (auto simp: k res_bind_def split: option.splits if_splits)
  note k = k o
  from Cons.IH [OF rest]
  have up: "map_of (map_set key i owners) k = Some j \<Longrightarrow> map_of owners' k = Some j" for k j by blast
  then have "map_of owners k = Some j \<Longrightarrow> map_of owners' k = Some j" for k j
    using k(2) by (cases "k = key") (auto simp: map_of_map_set)
  moreover have "map_of owners' key = Some i" by (rule up) (simp add: map_of_map_set)
  ultimately show ?case using Cons.IH [OF rest] k(1) by (auto simp: x)
qed simp

lemma no_collisions:
  assumes "assertNoResolvedPatchCollisions platform ops = Inr owners" "i < length ops" "j < length ops" "i \<noteq> j"
  shows "set (operation_paths (ops ! i)) \<inter> set (operation_paths (ops ! j)) = {}"
proof -
  have "(k, p) \<in> set (concat (map (\<lambda>(i, op). map (Pair i) (operation_paths op)) (enumerate 0 ops)))"
    if "k < length ops" "p \<in> set (operation_paths (ops ! k))" for k p
    using that by (auto simp: in_set_enumerate_eq intro!: bexI [of _ "(k, ops ! k)"])
  then have "\<exists>key. fileMutationPathKey platform p = Inr key \<and> map_of owners key = Some k"
    if "k < length ops" "p \<in> set (operation_paths (ops ! k))" for k p
    using that conjunct2 [OF collision_owners [OF assms(1) [unfolded assertNoResolvedPatchCollisions_def]]] by fastforce
  then show ?thesis using assms(2-4) by (metis disjoint_iff option.inject sum.inject(2))
qed

text \<open>The records of a complete commit, and the entries they leave.\<close>

definition committed_record :: "(nat \<Rightarrow> string) \<Rightarrow> nat \<Rightarrow> patch_operation \<Rightarrow> commit_record \<Rightarrow> bool" where
  "committed_record backup i op r = (same_paths (new_record backup i op) r \<and> cr_targetCreated r = (po_content op \<noteq> None))"

lemma writes_committed:
  "committed_record backup i op r \<Longrightarrow> writes r = set (operation_paths op) \<union> (if po_source op = None then {} else {backup i}) \<and> cr_index r = i"
  by (auto simp: committed_record_def same_paths_def writes_def set_operation_paths split: option.splits)

lemma committed_entries:
  assumes "committed_record backup i op r" "backup i \<notin> set (operation_paths op)" "temp i \<notin> set (operation_paths op)" "temp i \<noteq> backup i"
  shows "(\<forall>t. po_target op = Some t \<longrightarrow> po_content op \<noteq> None \<longrightarrow> apply_record temp N r t = N (temp i))
     \<and> (\<forall>s. po_source op = Some s \<longrightarrow> po_content op = None \<or> po_target op \<noteq> Some s \<longrightarrow> apply_record temp N r s = None)"
  using assms unfolding set_operation_paths
  by (auto simp: committed_record_def same_paths_def apply_record_def move_away_def split: option.splits)

text \<open>The names of staging files are fresh, and the positions of the operations write different paths.\<close>

definition separate :: "(nat \<Rightarrow> string) \<Rightarrow> (nat \<Rightarrow> string) \<Rightarrow> patch_operation list \<Rightarrow> bool" where
  "separate temp backup ops =
     (\<forall>i < length ops. \<forall>j < length ops. temp i \<notin> set (operation_paths (ops ! j))
        \<and> temp i \<noteq> backup j \<and> backup i \<notin> set (operation_paths (ops ! j))
        \<and> (i \<noteq> j \<longrightarrow> temp i \<noteq> temp j \<and> backup i \<noteq> backup j))"

lemma separate_backups:
  assumes "separate temp backup ops" "\<forall>i < length ops. N (backup i) = None"
  shows "backups_free temp backup (enumerate 0 ops) N"
proof -
  have "distinct (map (\<lambda>(i, op). backup i) (enumerate 0 ops))"
    using assms(1) by (auto simp: distinct_conv_nth separate_def nth_enumerate_eq)
  moreover have "backup i \<notin> touched temp (enumerate 0 ops)" if "i < length ops" for i
    using assms(1) that unfolding touched_def separate_def set_operation_paths
    by (fastforce simp: in_set_enumerate_eq)
  ultimately show ?thesis using assms(2) unfolding backups_free_def by (auto simp: in_set_enumerate_eq)
qed

lemma separate_apart:
  assumes "separate temp backup ops" "assertNoResolvedPatchCollisions platform ops = Inr owners"
    "list_all2 (\<lambda>(i, op) r. committed_record backup i op r) (enumerate 0 ops) cs"
  shows "apart temp cs"
proof (rule apartI)
  have l: "length cs = length ops" using list_all2_lengthD [OF assms(3)] by simp
  have c: "committed_record backup i (ops ! i) (cs ! i)" if "i < length ops" for i
    using list_all2_nthD [OF assms(3), of i] that by (simp add: nth_enumerate_eq)
  note w = writes_committed [OF c]
  fix i j
  assume ij: "i < length cs" "j < length cs"
  note s = assms(1) [unfolded separate_def, rule_format]
  show "temp (cr_index (cs ! i)) \<notin> writes (cs ! j)" using w [of i] w [of j] ij s [of i j] l by auto
  assume ne: "i \<noteq> j"
  show "writes (cs ! i) \<inter> writes (cs ! j) = {}"
    using w [of i] w [of j] ij ne s [of i j] s [of j i] l no_collisions [OF assms(2), of i j] by auto
qed

lemma map_filter_backups:
  assumes "list_all2 (\<lambda>(i, op) r. committed_record backup i op r) (enumerate 0 ops) cs"
  shows "set (List.map_filter cr_backup cs) \<subseteq> backup ` {..<length ops}"
  using assms
proof -
  have "\<exists>i < length ops. b = backup i" if b: "r \<in> set cs" "cr_backup r = Some b" for r b
  proof -
    obtain i where i: "i < length cs" "cs ! i = r" using b(1) by (auto simp: in_set_conv_nth)
    then have "committed_record backup i (ops ! i) r" using list_all2_nthD2 [OF assms, of i] list_all2_lengthD [OF assms]
      by (simp add: nth_enumerate_eq)
    then show ?thesis using b(2) i list_all2_lengthD [OF assms]
      by (intro exI [of _ i]) (auto simp: committed_record_def same_paths_def split: option.splits)
  qed
  then show ?thesis by (fastforce simp: map_filter_def)
qed
lemma content_indices_iff: "i \<in> set (content_indices (enumerate 0 ops)) \<longleftrightarrow> i < length ops \<and> po_content (ops ! i) \<noteq> None"
  by (auto simp: content_indices_def in_set_enumerate_eq image_iff)

lemma commit_stages:
  assumes "honest fault" "separate temp backup ops" "\<forall>i < length ops. names w (backup i) = None"
    "commitPatchTransaction fault sha temp backup ops w = (w', Inr n)"
  obtains w1 cs w3 where "extends w w1" "\<forall>q. q \<notin> temp ` {..<length ops} \<longrightarrow> names w1 q = names w q"
    "\<forall>q. q \<notin> temp ` set (content_indices (enumerate 0 ops)) \<longrightarrow> names w1 q = names w q"
    "\<forall>q \<in> temp ` set (content_indices (enumerate 0 ops)). names w q = None"
    "\<forall>i < length ops. po_content (ops ! i) \<noteq> None \<longrightarrow> staged_content temp w1 (i, ops ! i)"
    "\<forall>op \<in> set ops. (\<forall>s. po_source op = Some s \<longrightarrow> (\<exists>n text mode. names w1 s = Some (Regular n)
         \<and> world_data w1 n = Some (text, mode) \<and> sha text = po_originalHash op))
       \<and> (po_kind op \<in> {''add'', ''move''} \<longrightarrow> (\<exists>t. po_target op = Some t \<and> names w1 t = None))"
    "list_all2 (\<lambda>(i, op) r. committed_record backup i op r) (enumerate 0 ops) cs"
    "names w3 = foldl (apply_record temp) (names w1) cs" "world_data w3 = world_data w1"
    "removeArtifacts fault (map temp (content_indices (enumerate 0 ops)) @ List.map_filter cr_backup cs) w3 = (w', n)"
proof -
  obtain w1 staged err where st: "stage_operations fault temp (enumerate 0 ops) [] w = (w1, staged, err)" by (metis prod_cases3)
  have err: "err = None" using assms(4) st by (auto simp: commitPatchTransaction_def abort_transaction_def split: option.splits prod.splits)
  note se = stage_effect [OF st, unfolded enumerate_fst err, simplified]
  have staged: "staged = content_indices (enumerate 0 ops)" using se by blast
  obtain w2 c where c: "check_operations fault sha ops w1 = (w2, c)" by fastforce
  have ok: "is_ok c" using assms(4) st c
    by (cases c) (auto simp: err commitPatchTransaction_def abort_transaction_def split: prod.splits)
  note ce = check_operations_effect [OF assms(1) c]
  have s2: "names w2 = names w1" "world_data w2 = world_data w1" using ce by (auto simp: still_def)
  obtain w3 cs err3 where co: "commit_operations fault sha temp backup staged (enumerate 0 ops) [] w2 = (w3, cs, err3)"
    by (metis prod_cases3)
  have "err3 = None" and rm: "removeArtifacts fault (map temp staged @ List.map_filter cr_backup cs) w3 = (w', n)"
    using assms(4) st c ok co
    by (cases c; auto simp: err commitPatchTransaction_def abort_transaction_def split: option.splits prod.splits)+
  have "names w1 (backup i) = None" if "i < length ops" for i
  proof -
    have "backup i \<notin> temp ` {..<length ops}" using assms(2) that by (force simp: separate_def)
    then show ?thesis using se assms(3) that by auto
  qed
  then have "backups_free temp backup (enumerate 0 ops) (names w2)" using separate_backups [OF assms(2)] s2 by simp
  from commit_operations_effect [OF co this] \<open>err3 = None\<close>
  have w3: "names w3 = foldl (apply_record temp) (names w1) cs" "world_data w3 = world_data w1"
    and l: "list_all2 (\<lambda>(i, op) r. same_paths (new_record backup i op) r \<and> cr_targetCreated r = (i \<in> set staged)) (enumerate 0 ops) cs"
    using s2 by auto
  have l2: "list_all2 (\<lambda>(i, op) r. committed_record backup i op r) (enumerate 0 ops) cs"
    by (rule list.rel_mono_strong [OF l])
      (auto simp: committed_record_def staged content_indices_iff in_set_enumerate_eq)
  have "\<forall>i < length ops. po_content (ops ! i) \<noteq> None \<longrightarrow> staged_content temp w1 (i, ops ! i)"
    using se by (fastforce simp: in_set_enumerate_eq)
  with se ce ok w3 l2 rm staged show ?thesis by (intro that [of w1 cs w3]) simp_all
qed

text \<open>What one operation of a committed patch shows, from the names after staging (\<open>w1\<close>) and at the end (\<open>w'\<close>).\<close>

definition operation_done :: "(string \<Rightarrow> string) \<Rightarrow> fworld \<Rightarrow> fworld \<Rightarrow> patch_operation \<Rightarrow> bool" where
  "operation_done sha w w' op =
     ((\<forall>s. po_source op = Some s \<longrightarrow> (\<exists>text mode. view w s = Some (Some (text, mode)) \<and> sha text = po_originalHash op))
     \<and> (po_kind op \<in> {''add'', ''move''} \<longrightarrow> (\<exists>t. po_target op = Some t \<and> view w t = None))
     \<and> (\<forall>t text. po_target op = Some t \<longrightarrow> po_content op = Some text \<longrightarrow>
          view w' t = Some (Some (text, case po_mode op of Some m \<Rightarrow> m | None \<Rightarrow> 384)))
     \<and> (\<forall>s. po_source op = Some s \<longrightarrow> po_content op = None \<or> po_target op \<noteq> Some s \<longrightarrow> view w' s = None))"

lemma operation_doneI:
  assumes "fs_ok (fw_fs w)" "extends w w1" "world_data w' = world_data w1"
    and same: "\<And>p. p \<in> set (operation_paths op) \<Longrightarrow> names w1 p = names w p"
    and ck: "(\<forall>s. po_source op = Some s \<longrightarrow> (\<exists>n text mode. names w1 s = Some (Regular n)
         \<and> world_data w1 n = Some (text, mode) \<and> sha text = po_originalHash op))
       \<and> (po_kind op \<in> {''add'', ''move''} \<longrightarrow> (\<exists>t. po_target op = Some t \<and> names w1 t = None))"
    and ce: "(\<forall>t. po_target op = Some t \<longrightarrow> po_content op \<noteq> None \<longrightarrow> names w' t = names w1 (temp i))
       \<and> (\<forall>s. po_source op = Some s \<longrightarrow> po_content op = None \<or> po_target op \<noteq> Some s \<longrightarrow> names w' s = None)"
    and staged: "po_content op \<noteq> None \<Longrightarrow> staged_content temp w1 (i, op)"
  shows "operation_done sha w w' op"
proof -
  have before: "view w p = Some (Some x)" if "names w1 p = Some (Regular m)" "names w1 p = names w p" "world_data w1 m = Some x" for p m x
    using that assms(1,2) by (auto simp: view_def fs_ok_data extends_def)
  have source: "\<exists>text mode. view w s = Some (Some (text, mode)) \<and> sha text = po_originalHash op" if "po_source op = Some s" for s
  proof -
    from ck that obtain n c mode where "names w1 s = Some (Regular n)" "world_data w1 n = Some (c, mode)"
      "sha c = po_originalHash op" by blast
    then show ?thesis using before [of s n "(c, mode)"] same [of s] that by (simp add: set_operation_paths)
  qed
  have free: "\<exists>t. po_target op = Some t \<and> view w t = None" if k: "po_kind op \<in> {''add'', ''move''}"
  proof -
    from ck k obtain t where "po_target op = Some t" "names w1 t = None" by blast
    then show ?thesis using same [of t] by (simp add: set_operation_paths view_def)
  qed
  have target: "view w' t = Some (Some (c, case po_mode op of Some m \<Rightarrow> m | None \<Rightarrow> 384))"
    if "po_target op = Some t" "po_content op = Some c" for t c
  proof -
    have "names w' t = names w1 (temp i)" using ce that by simp
    then show ?thesis using that(2) staged by (auto simp: view_def staged_content_def assms(3))
  qed
  show ?thesis using source free target ce by (simp add: operation_done_def view_def)
qed

lemma committed_nth:
  "list_all2 (\<lambda>(i, op) r. committed_record backup i op r) (enumerate 0 ops) cs \<Longrightarrow> i < length ops \<Longrightarrow>
     committed_record backup i (ops ! i) (cs ! i)"
  using list_all2_nthD [of "\<lambda>(i, op) r. committed_record backup i op r" "enumerate 0 ops" cs i] by (simp add: nth_enumerate_eq)

lemma commit_leaves_alone:
  assumes cs: "list_all2 (\<lambda>(i, op) r. committed_record backup i op r) (enumerate 0 ops) cs"
    and p: "\<forall>i < length ops. p \<notin> set (operation_paths (ops ! i))" "p \<notin> set (List.map_filter cr_backup cs)"
  shows "foldl (apply_record temp) N cs p = N p"
proof (intro foldl_apply_outside ballI)
  fix r
  assume "r \<in> set cs"
  then obtain i where i: "i < length ops" "cs ! i = r" using list_all2_lengthD [OF cs] by (auto simp: in_set_conv_nth)
  note rec = committed_nth [OF cs i(1)]
  have "cr_backup r \<noteq> Some p" using p(2) \<open>r \<in> set cs\<close> by (force simp: map_filter_def)
  moreover have "po_source (ops ! i) \<noteq> None \<longrightarrow> cr_backup r = Some (backup i)"
    using rec i(2) by (auto simp: committed_record_def same_paths_def)
  ultimately show "p \<notin> writes r" using writes_committed [OF rec] i p(1) by (auto split: if_splits)
qed

lemma artifacts_named:
  "list_all2 (\<lambda>(i, op) r. committed_record backup i op r) (enumerate 0 ops) cs \<Longrightarrow>
     temp ` set (content_indices (enumerate 0 ops)) \<union> set (List.map_filter cr_backup cs) \<subseteq> temp ` {..<length ops} \<union> backup ` {..<length ops}"
  using map_filter_backups [of backup ops cs] by (auto simp: content_indices_iff)

lemma committed_names:
  assumes sep: "separate temp backup ops" and own: "assertNoResolvedPatchCollisions platform ops = Inr owners"
    and cs: "list_all2 (\<lambda>(i, op) r. committed_record backup i op r) (enumerate 0 ops) cs"
    and w3: "names w3 = foldl (apply_record temp) N cs"
    and rm: "removeArtifacts fault (map temp (content_indices (enumerate 0 ops)) @ List.map_filter cr_backup cs) w3 = (w', n)"
    and i: "i < length ops"
  shows "(\<forall>t. po_target (ops ! i) = Some t \<longrightarrow> po_content (ops ! i) \<noteq> None \<longrightarrow> names w' t = N (temp i))
     \<and> (\<forall>s. po_source (ops ! i) = Some s \<longrightarrow> po_content (ops ! i) = None \<or> po_target (ops ! i) \<noteq> Some s \<longrightarrow> names w' s = None)"
proof -
  note sp = sep [unfolded separate_def, rule_format]
  note rec = committed_nth [OF cs i]
  have path: "names w' p = apply_record temp N (cs ! i) p" if "p \<in> set (operation_paths (ops ! i))" for p
  proof -
    have "p \<in> writes (cs ! i)" using writes_committed [OF rec] that by auto
    then have "names w3 p = apply_record temp N (cs ! i) p"
      using foldl_apply_at [OF separate_apart [OF sep own cs], of "cs ! i" p] i list_all2_lengthD [OF cs] w3 by simp
    moreover have "p \<notin> temp ` {..<length ops} \<union> backup ` {..<length ops}" using that i sp by auto
    ultimately show ?thesis
      using subsetD [OF artifacts_named [OF cs, of temp], of p] conjunct1 [OF conjunct2 [OF remove_artifacts_effect [OF rm]], THEN spec, of p]
      by auto
  qed
  then show ?thesis using committed_entries [OF rec, of temp N] sp [OF i i] by (auto simp: set_operation_paths)
qed

lemma committed_outside:
  assumes free: "\<forall>i < length ops. names w (backup i) = None"
    and cs: "list_all2 (\<lambda>(i, op) r. committed_record backup i op r) (enumerate 0 ops) cs"
    and w3: "names w3 = foldl (apply_record temp) (names w1) cs"
    and rm: "removeArtifacts fault (map temp (content_indices (enumerate 0 ops)) @ List.map_filter cr_backup cs) w3 = (w', n)"
    and out: "\<forall>q. q \<notin> temp ` set (content_indices (enumerate 0 ops)) \<longrightarrow> names w1 q = names w q"
      "\<forall>q \<in> temp ` set (content_indices (enumerate 0 ops)). names w q = None"
    and p: "\<forall>i < length ops. p \<notin> set (operation_paths (ops ! i))" "n = 0 \<or> p \<notin> temp ` {..<length ops} \<union> backup ` {..<length ops}"
  shows "names w' p = names w p"
proof (cases "p \<in> temp ` set (content_indices (enumerate 0 ops)) \<union> set (List.map_filter cr_backup cs)")
  case True
  from subsetD [OF artifacts_named [OF cs] this] p(2) have "n = 0" by simp
  then have "names w' p = None" using True remove_artifacts_effect [OF rm] by auto
  moreover have "names w p = None"
    using True out(2) free subsetD [OF map_filter_backups [OF cs], of p] by auto
  ultimately show ?thesis by simp
next
  case False
  then have "names w' p = names w3 p" using remove_artifacts_effect [OF rm] by auto
  then show ?thesis using False commit_leaves_alone [OF cs p(1), of temp "names w1"] out(1) w3 by simp
qed

text \<open>
  C29. A patch that commits is complete.  When \<open>commitPatchTransaction\<close> returns, every source had the recorded hash, the
  target of every addition and move was free, every target with new content has it with its mode, and sources that
  are deleted or moved are gone; every other path is as before, except that staging and backup files may remain when
  the result counts them.
\<close>

lemma committed_patch_is_complete:
  assumes "honest fault" "fs_ok (fw_fs w)" "separate temp backup ops" "\<forall>i < length ops. names w (backup i) = None"
    "assertNoResolvedPatchCollisions platform ops = Inr owners"
    "commitPatchTransaction fault sha temp backup ops w = (w', Inr n)"
  shows "(\<forall>i < length ops. let op = ops ! i in
       (\<forall>s. po_source op = Some s \<longrightarrow> (\<exists>text mode. view w s = Some (Some (text, mode)) \<and> sha text = po_originalHash op))
       \<and> (po_kind op \<in> {''add'', ''move''} \<longrightarrow> (\<exists>t. po_target op = Some t \<and> view w t = None))
       \<and> (\<forall>t text. po_target op = Some t \<longrightarrow> po_content op = Some text \<longrightarrow>
            view w' t = Some (Some (text, case po_mode op of Some m \<Rightarrow> m | None \<Rightarrow> 384)))
       \<and> (\<forall>s. po_source op = Some s \<longrightarrow> po_content op = None \<or> po_target op \<noteq> Some s \<longrightarrow> view w' s = None))
     \<and> (\<forall>p. (\<forall>i < length ops. p \<notin> set (operation_paths (ops ! i))) \<longrightarrow>
          n = 0 \<or> p \<notin> temp ` {..<length ops} \<union> backup ` {..<length ops} \<longrightarrow> view w' p = view w p)"
proof -
  let ?C = "content_indices (enumerate 0 ops)"
  obtain w1 cs w3 where ext: "extends w w1" and out: "\<forall>q. q \<notin> temp ` {..<length ops} \<longrightarrow> names w1 q = names w q"
    and out': "\<forall>q. q \<notin> temp ` set ?C \<longrightarrow> names w1 q = names w q" "\<forall>q \<in> temp ` set ?C. names w q = None"
    and content: "\<forall>i < length ops. po_content (ops ! i) \<noteq> None \<longrightarrow> staged_content temp w1 (i, ops ! i)"
    and checked: "\<forall>op \<in> set ops. (\<forall>s. po_source op = Some s \<longrightarrow> (\<exists>n text mode. names w1 s = Some (Regular n)
         \<and> world_data w1 n = Some (text, mode) \<and> sha text = po_originalHash op))
       \<and> (po_kind op \<in> {''add'', ''move''} \<longrightarrow> (\<exists>t. po_target op = Some t \<and> names w1 t = None))"
    and cs: "list_all2 (\<lambda>(i, op) r. committed_record backup i op r) (enumerate 0 ops) cs"
    and w3: "names w3 = foldl (apply_record temp) (names w1) cs" "world_data w3 = world_data w1"
    and rm: "removeArtifacts fault (map temp ?C @ List.map_filter cr_backup cs) w3 = (w', n)"
    by (rule commit_stages [OF assms(1,3,4,6)])
  have "operation_done sha w w' (ops ! i)" if i: "i < length ops" for i
  proof (rule operation_doneI [OF assms(2) ext _ _ _ _ content [rule_format, OF i]])
    show "world_data w' = world_data w1" using remove_artifacts_effect [OF rm] w3(2) by simp
    show "names w1 p = names w p" if "p \<in> set (operation_paths (ops ! i))" for p
    proof -
      have "p \<notin> temp ` {..<length ops}" using that i assms(3) [unfolded separate_def, rule_format] by auto
      then show ?thesis using out by simp
    qed
  next
    show "(\<forall>s. po_source (ops ! i) = Some s \<longrightarrow> (\<exists>n text mode. names w1 s = Some (Regular n)
         \<and> world_data w1 n = Some (text, mode) \<and> sha text = po_originalHash (ops ! i)))
       \<and> (po_kind (ops ! i) \<in> {''add'', ''move''} \<longrightarrow> (\<exists>t. po_target (ops ! i) = Some t \<and> names w1 t = None))"
      using i by (intro bspec [OF checked] nth_mem)
  qed (rule committed_names [OF assms(3,5) cs w3(1) rm i])
  moreover have "view w' p = view w p" if "\<forall>i < length ops. p \<notin> set (operation_paths (ops ! i))"
      "n = 0 \<or> p \<notin> temp ` {..<length ops} \<union> backup ` {..<length ops}" for p
    using committed_outside [OF assms(4) cs w3(1) rm out' that] remove_artifacts_effect [OF rm] w3(2) ext
    by (intro view_same [OF assms(2)]) (auto simp: extends_def)
  ultimately show ?thesis unfolding operation_done_def Let_def by blast
qed

definition sample_disk :: fworld where
  "sample_disk = \<lparr>fw_fs = \<lparr>fs_names = [(''/a'', Regular 1), (''/c'', Regular 2)],
     fs_nodes = [(1, \<lparr>nd_content = ''x'', nd_mode = 420, nd_ctime = 0\<rparr>), (2, \<lparr>nd_content = ''z'', nd_mode = 384, nd_ctime = 0\<rparr>)]\<rparr>,
     fw_calls = 0\<rparr>"

definition sample_temp :: "nat \<Rightarrow> string" where "sample_temp i = ''/t'' @ replicate i CHR ''t''"
definition sample_backup :: "nat \<Rightarrow> string" where "sample_backup i = ''/b'' @ replicate i CHR ''b''"

text \<open>Update one file, move another with a new content.\<close>

definition sample_patch :: "patch_operation list" where
  "sample_patch =
     [\<lparr>po_kind = ''update'', po_source = Some ''/a'', po_target = Some ''/a'', po_content = Some ''y'', po_originalHash = ''x'', po_mode = Some 420\<rparr>,
      \<lparr>po_kind = ''move'', po_source = Some ''/c'', po_target = Some ''/d'', po_content = Some ''w'', po_originalHash = ''z'', po_mode = None\<rparr>]"
text \<open>The publication of the second file fails.\<close>

definition sample_fault :: faults where
  "sample_fault n = (if n = 26 then Some ''EIO'' else None)"

lemma sample_separate: "separate sample_temp sample_backup sample_patch \<and> (\<forall>i < length sample_patch. names sample_disk (sample_backup i) = None)
    \<and> fs_ok (fw_fs sample_disk)"
proof -
  have "separate sample_temp sample_backup sample_patch"
    by (auto simp: separate_def sample_patch_def sample_temp_def sample_backup_def operation_paths_def map_filter_def less_Suc_eq)
  moreover have "fs_ok (fw_fs sample_disk)"
    by (auto simp: fs_ok_def sample_disk_def entry_at_def node_at_def split: if_splits)
  moreover have "\<forall>i < length sample_patch. names sample_disk (sample_backup i) = None"
    by (auto simp: sample_patch_def sample_disk_def entry_at_def sample_backup_def less_Suc_eq)
  ultimately show ?thesis by blast
qed

lemma failed_patch_is_undone_witness:
  "let (w', r) = commitPatchTransaction sample_fault (\<lambda>s. s) sample_temp sample_backup sample_patch sample_disk
   in r = Inl (OtherError ''EIO'') \<and> view w' = view sample_disk \<and> view sample_disk ''/a'' = Some (Some (''x'', 420))"
proof -
  obtain w' r where c: "commitPatchTransaction sample_fault (\<lambda>s. s) sample_temp sample_backup sample_patch sample_disk = (w', r)"
    by fastforce
  have "snd (commitPatchTransaction sample_fault (\<lambda>s. s) sample_temp sample_backup sample_patch sample_disk) = Inl (OtherError ''EIO'')"
    by code_simp
  with c have r: "r = Inl (OtherError ''EIO'')" by simp
  have h: "honest sample_fault" by (simp add: honest_def sample_fault_def)
  have v: "view sample_disk ''/a'' = Some (Some (''x'', 420))" by code_simp
  have "view w' = view sample_disk"
    using failed_patch_is_undone [OF h _ separate_backups c [unfolded r]] sample_separate
    by (simp add: patchRecoveryIncompleteError_def incompleteMutationError_def)
  then show ?thesis using c r v by simp
qed

lemma committed_patch_is_complete_witness:
  "let (w', r) = commitPatchTransaction (\<lambda>n. None) (\<lambda>s. s) sample_temp sample_backup sample_patch sample_disk
   in r = Inr 0 \<and> view w' ''/a'' = Some (Some (''y'', 420)) \<and> view w' ''/c'' = None \<and> view w' ''/d'' = Some (Some (''w'', 384))
      \<and> view w' ''/b'' = None"
proof -
  obtain w' r where c: "commitPatchTransaction (\<lambda>n. None) (\<lambda>s. s) sample_temp sample_backup sample_patch sample_disk = (w', r)"
    by fastforce
  have "snd (commitPatchTransaction (\<lambda>n. None) (\<lambda>s. s) sample_temp sample_backup sample_patch sample_disk) = Inr 0"
    by code_simp
  with c have r: "r = Inr 0" by simp
  have h: "honest (\<lambda>n. None)" by (simp add: honest_def)
  have "is_ok (assertNoResolvedPatchCollisions ''linux'' sample_patch)" by code_simp
  then obtain owners where o: "assertNoResolvedPatchCollisions ''linux'' sample_patch = Inr owners" by (auto simp: is_ok_def split: sum.splits)
  note sep = sample_separate [THEN conjunct1] sample_separate [THEN conjunct2, THEN conjunct1] sample_separate [THEN conjunct2, THEN conjunct2]
  note all = committed_patch_is_complete [OF h sep(3,1,2) o c [unfolded r]]
  have b: "view sample_disk ''/b'' = None" by code_simp
  have "\<forall>i < length sample_patch. ''/b'' \<notin> set (operation_paths (sample_patch ! i))"
    by (auto simp: sample_patch_def operation_paths_def map_filter_def less_Suc_eq)
  then have "view w' ''/b'' = None" using conjunct2 [OF all, THEN spec, of "''/b''"] b by simp
  moreover have l: "0 < length sample_patch" "1 < length sample_patch" by (simp_all add: sample_patch_def)
  note at0 = mp [OF spec [OF conjunct1 [OF all], of 0] l(1)] and at1 = mp [OF spec [OF conjunct1 [OF all], of 1] l(2)]
  moreover have "let op = sample_patch ! 0 in (\<forall>t text. po_target op = Some t \<longrightarrow> po_content op = Some text \<longrightarrow>
            view w' t = Some (Some (text, case po_mode op of Some m \<Rightarrow> m | None \<Rightarrow> 384)))"
    "let op = sample_patch ! 1 in (\<forall>t text. po_target op = Some t \<longrightarrow> po_content op = Some text \<longrightarrow>
            view w' t = Some (Some (text, case po_mode op of Some m \<Rightarrow> m | None \<Rightarrow> 384)))
       \<and> (\<forall>s. po_source op = Some s \<longrightarrow> po_content op = None \<or> po_target op \<noteq> Some s \<longrightarrow> view w' s = None)"
    using at0 at1 unfolding Let_def by blast+
  ultimately show ?thesis using c r by (simp add: sample_patch_def)
qed

end
