(* ===== verification/MutationCoordinator.thy ===== *)
theory MutationCoordinator
  imports WorkspaceTransaction "HOL-Library.Char_ord" "HOL-Library.List_Lexorder"
begin

text \<open>
  The coordinator of file mutations (\<open>src/local/file-mutation-coordinator.mjs\<close>).  A mutation reserves all its paths at
  once, waits for the mutations before it on every one of them, runs its callback, and releases its gates.

  The promises are explicit.  A tail is named by its mutation and its key; it resolves, in a step of its own, once the
  gate of its mutation is released and the tail it was chained to has resolved.  Mutations are numbered by the order
  in which they reserve.
\<close>

type_synonym tail = "nat \<times> string"

record reservation =
  rv_key :: string
  rv_current :: "tail option"

datatype phase = Waiting | Running | Released

record mutation =
  mt_reservations :: "reservation list"
  mt_phase :: phase

record coordinator =
  fc_queues :: "(string \<times> tail) list"
  fc_mutations :: "mutation list"
  fc_settled :: "tail list"

definition new_coordinator :: coordinator where
  "new_coordinator = \<lparr>fc_queues = [], fc_mutations = [], fc_settled = []\<rparr>"

text \<open>The reservation of one key: the tail there is becomes the one to wait for, and the new tail takes its place.\<close>

definition reserve_key :: "nat \<Rightarrow> string \<Rightarrow> (string \<times> tail) list \<times> reservation list \<Rightarrow> (string \<times> tail) list \<times> reservation list" where
  "reserve_key i key = (\<lambda>(queues, rs). (map_set key (i, key) queues, rs @ [\<lparr>rv_key = key, rv_current = map_of queues key\<rparr>]))"

definition withPaths :: "string \<Rightarrow> string list \<Rightarrow> coordinator \<Rightarrow> thrown + coordinator" where
  "withPaths platform paths c =
     (if paths = [] then Inl (OtherError [])
      else res_bind (res_map (fileMutationPathKey platform) paths) (\<lambda>found.
        let keys = sort (remdups found);
            (queues, rs) = fold (reserve_key (length (fc_mutations c))) keys (fc_queues c, [])
        in Inr (c\<lparr>fc_queues := queues, fc_mutations := fc_mutations c @ [\<lparr>mt_reservations = rs, mt_phase = Waiting\<rparr>]\<rparr>)))"

definition resolved :: "coordinator \<Rightarrow> tail option \<Rightarrow> bool" where
  "resolved c t = (case t of None \<Rightarrow> True | Some p \<Rightarrow> p \<in> set (fc_settled c))"

datatype mutation_event = WithPaths "string list" | Settle nat string | Start nat | Finish nat

text \<open>When an event can happen: a tail resolves, the callback starts once every current tail has resolved, and it ends.\<close>

definition enabled :: "coordinator \<Rightarrow> mutation_event \<Rightarrow> bool" where
  "enabled c e = (case e of
     WithPaths paths \<Rightarrow> True
   | Settle i key \<Rightarrow> i < length (fc_mutations c) \<and> (i, key) \<notin> set (fc_settled c)
       \<and> mt_phase (fc_mutations c ! i) = Released
       \<and> list_ex (\<lambda>r. rv_key r = key \<and> resolved c (rv_current r)) (mt_reservations (fc_mutations c ! i))
   | Start i \<Rightarrow> i < length (fc_mutations c) \<and> mt_phase (fc_mutations c ! i) = Waiting
       \<and> list_all (\<lambda>r. resolved c (rv_current r)) (mt_reservations (fc_mutations c ! i))
   | Finish i \<Rightarrow> i < length (fc_mutations c) \<and> mt_phase (fc_mutations c ! i) = Running)"

definition set_phase :: "nat \<Rightarrow> phase \<Rightarrow> coordinator \<Rightarrow> coordinator" where
  "set_phase i p c = c\<lparr>fc_mutations := (fc_mutations c)[i := (fc_mutations c ! i)\<lparr>mt_phase := p\<rparr>]\<rparr>"

text \<open>At the end all gates are released, and a queue whose tail is still this mutation's is dropped.\<close>

definition drop_queue :: "nat \<Rightarrow> reservation \<Rightarrow> (string \<times> tail) list \<Rightarrow> (string \<times> tail) list" where
  "drop_queue i r queues = (if map_of queues (rv_key r) = Some (i, rv_key r) then map_del (rv_key r) queues else queues)"

definition finish_mutation :: "nat \<Rightarrow> coordinator \<Rightarrow> coordinator" where
  "finish_mutation i c =
     (set_phase i Released c)\<lparr>fc_queues := fold (drop_queue i) (mt_reservations (fc_mutations c ! i)) (fc_queues c)\<rparr>"

definition mutation_step :: "string \<Rightarrow> coordinator \<Rightarrow> mutation_event \<Rightarrow> coordinator" where
  "mutation_step platform c e =
     (if \<not> enabled c e then c
      else (case e of
          WithPaths paths \<Rightarrow> (case withPaths platform paths c of Inl _ \<Rightarrow> c | Inr c' \<Rightarrow> c')
        | Settle i key \<Rightarrow> c\<lparr>fc_settled := (i, key) # fc_settled c\<rparr>
        | Start i \<Rightarrow> set_phase i Running c
        | Finish i \<Rightarrow> finish_mutation i c))"

section \<open>The order of the mutations of a path\<close>

definition has_key :: "coordinator \<Rightarrow> nat \<Rightarrow> string \<Rightarrow> bool" where
  "has_key c i k = (i < length (fc_mutations c) \<and> k \<in> rv_key ` set (mt_reservations (fc_mutations c ! i)))"

abbreviation phase_of :: "coordinator \<Rightarrow> nat \<Rightarrow> phase" where
  "phase_of c i \<equiv> mt_phase (fc_mutations c ! i)"

text \<open>
  What a reservation waits for covers every earlier mutation of its key that has not released its gate, and so does
  the queue; a settled tail says that all mutations of its key up to its own have.
\<close>

definition settled_ok :: "coordinator \<Rightarrow> bool" where
  "settled_ok c = (\<forall>i k. (i, k) \<in> set (fc_settled c) \<longrightarrow> has_key c i k \<and> (\<forall>j \<le> i. has_key c j k \<longrightarrow> phase_of c j = Released))"

definition covers :: "coordinator \<Rightarrow> tail option \<Rightarrow> nat \<Rightarrow> string \<Rightarrow> bool" where
  "covers c t n k =
     ((case t of None \<Rightarrow> True | Some (m, k') \<Rightarrow> k' = k \<and> m < n \<and> has_key c m k)
      \<and> (\<forall>j < n. has_key c j k \<longrightarrow> phase_of c j = Released \<or> (case t of None \<Rightarrow> False | Some (m, _) \<Rightarrow> j \<le> m)))"

definition reservations_ok :: "coordinator \<Rightarrow> bool" where
  "reservations_ok c = (\<forall>i < length (fc_mutations c). distinct (map rv_key (mt_reservations (fc_mutations c ! i)))
     \<and> (\<forall>r \<in> set (mt_reservations (fc_mutations c ! i)). covers c (rv_current r) i (rv_key r)
         \<and> (phase_of c i \<noteq> Waiting \<longrightarrow> resolved c (rv_current r))))"

definition coordinator_inv :: "coordinator \<Rightarrow> bool" where
  "coordinator_inv c = (settled_ok c \<and> reservations_ok c \<and> (\<forall>k. covers c (map_of (fc_queues c) k) (length (fc_mutations c)) k))"

lemma inv_reservation:
  "coordinator_inv c \<Longrightarrow> i < length (fc_mutations c) \<Longrightarrow> r \<in> set (mt_reservations (fc_mutations c ! i)) \<Longrightarrow>
     covers c (rv_current r) i (rv_key r) \<and> (phase_of c i \<noteq> Waiting \<longrightarrow> resolved c (rv_current r))"
  by (simp add: coordinator_inv_def reservations_ok_def)

lemma covered_released:
  "settled_ok c \<Longrightarrow> covers c t n k \<Longrightarrow> resolved c t \<Longrightarrow> j < n \<Longrightarrow> has_key c j k \<Longrightarrow> phase_of c j = Released"
  by (auto simp: settled_ok_def covers_def resolved_def split: option.splits)

lemma earlier_released:
  "coordinator_inv c \<Longrightarrow> i < length (fc_mutations c) \<Longrightarrow> r \<in> set (mt_reservations (fc_mutations c ! i)) \<Longrightarrow>
     resolved c (rv_current r) \<Longrightarrow> j < i \<Longrightarrow> has_key c j (rv_key r) \<Longrightarrow> phase_of c j = Released"
  using inv_reservation covered_released unfolding coordinator_inv_def by blast

lemma resolved_cong: "fc_settled c' = fc_settled c \<Longrightarrow> resolved c' = resolved c"
  by (rule ext) (simp add: resolved_def split: option.split)

lemma covers_cong: "fc_mutations c' = fc_mutations c \<Longrightarrow> covers c' = covers c"
  by (intro ext) (simp add: covers_def has_key_def split: option.split)

lemma set_phase_simps [simp]:
  "length (fc_mutations (set_phase i p c)) = length (fc_mutations c)" "fc_queues (set_phase i p c) = fc_queues c"
  "fc_settled (set_phase i p c) = fc_settled c" "resolved (set_phase i p c) = resolved c"
  by (simp_all add: set_phase_def) (rule resolved_cong, simp)

lemma set_phase_reservations [simp]:
  "mt_reservations (fc_mutations (set_phase i p c) ! j) = mt_reservations (fc_mutations c ! j)"
  by (cases "i < length (fc_mutations c)"; cases "i = j") (simp_all add: set_phase_def not_less list_update_beyond)

lemma has_key_set_phase [simp]: "has_key (set_phase i p c) = has_key c"
  by (simp add: has_key_def fun_eq_iff)

lemma phase_of_set_phase: "i < length (fc_mutations c) \<Longrightarrow> phase_of (set_phase i p c) j = (if j = i then p else phase_of c j)"
  by (auto simp: set_phase_def nth_list_update)

text \<open>Gates are only released: what was covered stays covered.\<close>

lemma covers_later:
  assumes "covers c t n k" "\<And>j. has_key c' j k = has_key c j k" "\<And>j. j < n \<Longrightarrow> phase_of c j = Released \<Longrightarrow> phase_of c' j = Released"
  shows "covers c' t n k"
  using assms by (auto simp: covers_def split: option.splits)

lemma settled_later:
  assumes "settled_ok c" "has_key c' = has_key c" "fc_settled c' = fc_settled c" "\<And>j. phase_of c j = Released \<Longrightarrow> phase_of c' j = Released"
  shows "settled_ok c'"
  using assms by (auto simp: settled_ok_def)

lemma set_phase_inv:
  assumes "coordinator_inv c" "i < length (fc_mutations c)" "phase_of c i \<noteq> Released"
    "list_all (\<lambda>r. resolved c (rv_current r)) (mt_reservations (fc_mutations c ! i))"
  shows "coordinator_inv (set_phase i p c)"
proof -
  have ph: "phase_of c j = Released \<Longrightarrow> phase_of (set_phase i p c) j = Released" for j
    using assms(3) by (auto simp: phase_of_set_phase [OF assms(2)])
  have cov: "covers c t n k \<Longrightarrow> covers (set_phase i p c) t n k" for t n k
    by (rule covers_later [of c]) (auto dest: ph)
  have "reservations_ok (set_phase i p c)"
    using assms unfolding coordinator_inv_def reservations_ok_def
    by (auto simp: phase_of_set_phase list_all_iff intro: cov)
  then show ?thesis
    using assms(1) cov settled_later [OF _ has_key_set_phase set_phase_simps(3) ph] by (auto simp: coordinator_inv_def)
qed

section \<open>Every step keeps it\<close>

lemma fold_reserve:
  "distinct ks \<Longrightarrow> fold (reserve_key n) ks (q, rs) = (q', rs') \<Longrightarrow>
     rs' = rs @ map (\<lambda>k. \<lparr>rv_key = k, rv_current = map_of q k\<rparr>) ks \<and> (\<forall>k. map_of q' k = (if k \<in> set ks then Some (n, k) else map_of q k))"
proof (induction ks arbitrary: q rs)
  case (Cons k ks)
  have "map (\<lambda>j. \<lparr>rv_key = j, rv_current = map_of (map_set k (n, k) q) j\<rparr>) ks = map (\<lambda>j. \<lparr>rv_key = j, rv_current = map_of q j\<rparr>) ks"
    using Cons.prems(1) by (auto simp: map_of_map_set)
  with Cons.IH [of "map_set k (n, k) q" "rs @ [\<lparr>rv_key = k, rv_current = map_of q k\<rparr>]"] Cons.prems
  show ?case by (auto simp: reserve_key_def map_of_map_set)
qed simp

lemma fold_drop:
  "map_of (fold (drop_queue i) rs q) k = (if k \<in> rv_key ` set rs \<and> map_of q k = Some (i, k) then None else map_of q k)"
  by (induction rs arbitrary: q) (auto simp: drop_queue_def map_of_map_del)

lemma withPaths_shape:
  assumes "withPaths platform paths c = Inr c'"
  obtains ks where "distinct ks" "fc_settled c' = fc_settled c"
    "fc_mutations c' = fc_mutations c @ [\<lparr>mt_reservations = map (\<lambda>k. \<lparr>rv_key = k, rv_current = map_of (fc_queues c) k\<rparr>) ks, mt_phase = Waiting\<rparr>]"
    "\<forall>k. map_of (fc_queues c') k = (if k \<in> set ks then Some (length (fc_mutations c), k) else map_of (fc_queues c) k)"
proof -
  from assms obtain found where f: "paths \<noteq> []" "res_map (fileMutationPathKey platform) paths = Inr found"
    by (auto simp: withPaths_def res_bind_Inr_iff split: if_splits)
  let ?ks = "sort (remdups found)"
  obtain q rs where q: "fold (reserve_key (length (fc_mutations c))) ?ks (fc_queues c, []) = (q, rs)" by fastforce
  have d: "distinct ?ks" by simp
  from fold_reserve [OF d q] assms f q show ?thesis
    by (intro that [OF d]) (auto simp: withPaths_def Let_def)
qed

lemma withPaths_inv:
  assumes "coordinator_inv c" "withPaths platform paths c = Inr c'"
  shows "coordinator_inv c'"
proof -
  obtain ks where ks: "distinct ks" and s: "fc_settled c' = fc_settled c"
    and m: "fc_mutations c' = fc_mutations c @ [\<lparr>mt_reservations = map (\<lambda>k. \<lparr>rv_key = k, rv_current = map_of (fc_queues c) k\<rparr>) ks, mt_phase = Waiting\<rparr>]"
    and q: "\<forall>k. map_of (fc_queues c') k = (if k \<in> set ks then Some (length (fc_mutations c), k) else map_of (fc_queues c) k)"
    using withPaths_shape [OF assms(2)] by blast
  let ?n = "length (fc_mutations c)"
  have old: "fc_mutations c' ! i = fc_mutations c ! i" if "i < ?n" for i using that by (simp add: m nth_append)
  have new: "mt_reservations (fc_mutations c' ! ?n) = map (\<lambda>k. \<lparr>rv_key = k, rv_current = map_of (fc_queues c) k\<rparr>) ks"
    "phase_of c' ?n = Waiting" "length (fc_mutations c') = Suc ?n"
    by (simp_all add: m)
  have hk: "has_key c' i k \<longleftrightarrow> has_key c i k \<or> i = ?n \<and> k \<in> set ks" for i k
    using old [of i] new by (auto simp: has_key_def less_Suc_eq image_image)
  have res: "resolved c' = resolved c" by (rule resolved_cong [OF s])
  have cov: "covers c t n k \<Longrightarrow> n \<le> ?n \<Longrightarrow> covers c' t n k" for t n k
    using old by (auto simp: covers_def hk split: option.split)
  have queue: "covers c (map_of (fc_queues c) k) ?n k" for k using assms(1) by (simp add: coordinator_inv_def)
  have hl: "has_key c i k \<Longrightarrow> i < ?n" for i k by (simp add: has_key_def)
  have ph: "has_key c i k \<Longrightarrow> phase_of c' i = phase_of c i" for i k by (simp add: old hl)
  have "settled_ok c'"
    unfolding settled_ok_def s hk
  proof (intro allI impI conjI)
    fix i k j
    assume ik: "(i, k) \<in> set (fc_settled c)"
    then have st: "has_key c i k" "\<forall>j \<le> i. has_key c j k \<longrightarrow> phase_of c j = Released"
      using assms(1) by (auto simp: coordinator_inv_def settled_ok_def)
    then show "has_key c i k \<or> i = ?n \<and> k \<in> set ks" by simp
    assume "j \<le> i" "has_key c j k \<or> j = ?n \<and> k \<in> set ks"
    then have "has_key c j k" using hl [OF st(1)] by auto
    then show "phase_of c' j = Released" using st(2) \<open>j \<le> i\<close> ph by simp
  qed
  moreover have "reservations_ok c'"
    unfolding reservations_ok_def new(3)
  proof (intro allI impI)
    fix i
    assume i: "i < Suc ?n"
    show "distinct (map rv_key (mt_reservations (fc_mutations c' ! i)))
     \<and> (\<forall>r \<in> set (mt_reservations (fc_mutations c' ! i)). covers c' (rv_current r) i (rv_key r)
         \<and> (phase_of c' i \<noteq> Waiting \<longrightarrow> resolved c' (rv_current r)))"
    proof (cases "i < ?n")
      case True
      then show ?thesis using assms(1) by (auto simp: old res coordinator_inv_def reservations_ok_def intro: cov)
    next
      case False
      then have "i = ?n" using i by simp
      then show ?thesis using ks new cov [OF queue] by (simp add: comp_def)
    qed
  qed
  moreover have "covers c' (map_of (fc_queues c') k) (length (fc_mutations c')) k" for k
  proof (cases "k \<in> set ks")
    case True
    then show ?thesis using q by (auto simp: covers_def hk new)
  next
    case False
    then show ?thesis using cov [OF queue, of k] q hl by (auto simp: covers_def hk new less_Suc_eq split: option.splits)
  qed
  ultimately show ?thesis by (simp add: coordinator_inv_def)
qed

lemma finish_inv:
  assumes "coordinator_inv c" "i < length (fc_mutations c)" "phase_of c i = Running"
  shows "coordinator_inv (finish_mutation i c)"
proof -
  let ?c = "set_phase i Released c"
  let ?r = "mt_reservations (fc_mutations c ! i)"
  have done_before: "list_all (\<lambda>r. resolved c (rv_current r)) ?r"
    using inv_reservation [OF assms(1,2)] assms(3) by (auto simp: list_all_iff)
  have inv: "coordinator_inv ?c" by (rule set_phase_inv) (use assms done_before in auto)
  have fields: "fc_mutations (finish_mutation i c) = fc_mutations ?c" "fc_settled (finish_mutation i c) = fc_settled c"
    "fc_queues (finish_mutation i c) = fold (drop_queue i) ?r (fc_queues c)"
    by (simp_all add: finish_mutation_def)
  have same: "has_key (finish_mutation i c) = has_key c" "resolved (finish_mutation i c) = resolved c"
    by (simp add: has_key_def fields fun_eq_iff) (rule resolved_cong [OF fields(2)])
  have cov: "covers (finish_mutation i c) = covers ?c" by (rule covers_cong [OF fields(1)])
  have "covers (finish_mutation i c) (map_of (fc_queues (finish_mutation i c)) k) (length (fc_mutations c)) k" for k
  proof (cases "k \<in> rv_key ` set ?r \<and> map_of (fc_queues c) k = Some (i, k)")
    case False
    then show ?thesis using inv by (auto simp: cov fields fold_drop coordinator_inv_def)
  next
    case True
    then obtain r where r: "r \<in> set ?r" "rv_key r = k" by blast
    have "phase_of ?c j = Released" if j: "has_key c j k" for j
    proof (cases "j < i")
      case True
      then show ?thesis using earlier_released [OF assms(1,2) r(1)] done_before r j assms(2)
        by (auto simp: list_all_iff phase_of_set_phase)
    next
      case False
      have "phase_of c j = Released \<or> j \<le> i"
        using assms(1) j True \<open>k \<in> _ \<and> _\<close> by (auto simp: coordinator_inv_def covers_def has_key_def split: option.splits)
      then show ?thesis using False assms(2) by (auto simp: phase_of_set_phase)
    qed
    then show ?thesis using True by (simp add: cov fields fold_drop covers_def)
  qed
  then show ?thesis
    using inv by (simp add: coordinator_inv_def settled_ok_def reservations_ok_def fields same cov)
qed

lemma settle_inv:
  assumes "coordinator_inv c" "enabled c (Settle i key)"
  shows "coordinator_inv (c\<lparr>fc_settled := (i, key) # fc_settled c\<rparr>)"
proof -
  let ?c = "c\<lparr>fc_settled := (i, key) # fc_settled c\<rparr>"
  from assms(2) obtain r where i: "i < length (fc_mutations c)" "phase_of c i = Released"
    and r: "r \<in> set (mt_reservations (fc_mutations c ! i))" "rv_key r = key" "resolved c (rv_current r)"
    by (auto simp: enabled_def list_ex_iff)
  have hk: "has_key ?c = has_key c" by (simp add: has_key_def fun_eq_iff)
  have "has_key c i key" using i r by (auto simp: has_key_def)
  moreover have "phase_of c j = Released" if "j \<le> i" "has_key c j key" for j
    using earlier_released [OF assms(1) i(1) r(1,3), of j] that r(2) i(2) by (cases "j = i") auto
  ultimately have "settled_ok ?c" using assms(1) by (auto simp: coordinator_inv_def settled_ok_def hk)
  moreover have "covers ?c = covers c" by (rule covers_cong) simp
  moreover have "resolved c t \<Longrightarrow> resolved ?c t" for t by (auto simp: resolved_def split: option.splits)
  ultimately show ?thesis using assms(1) by (auto simp: coordinator_inv_def reservations_ok_def)
qed

lemma mutation_step_inv: "coordinator_inv c \<Longrightarrow> coordinator_inv (mutation_step platform c e)"
proof (cases "enabled c e")
  case True
  assume inv: "coordinator_inv c"
  show ?thesis
  proof (cases e)
    case (WithPaths paths)
    then show ?thesis using inv withPaths_inv [OF inv] by (auto simp: mutation_step_def split: sum.split)
  next
    case (Settle i key)
    then show ?thesis using inv settle_inv True by (simp add: mutation_step_def)
  next
    case (Start i)
    then show ?thesis using True by (simp add: mutation_step_def enabled_def set_phase_inv [OF inv])
  next
    case (Finish i)
    then show ?thesis using True by (simp add: mutation_step_def enabled_def finish_inv [OF inv])
  qed
qed (simp add: mutation_step_def)

lemma new_coordinator_inv: "coordinator_inv new_coordinator"
  by (simp add: new_coordinator_def coordinator_inv_def settled_ok_def reservations_ok_def covers_def)

interpretation coordinator_machine: step_machine "mutation_step platform" coordinator_inv
  by unfold_locales (rule mutation_step_inv)

section \<open>No mutation is left waiting\<close>

definition phase_work :: "phase \<Rightarrow> nat" where
  "phase_work p = (case p of Waiting \<Rightarrow> 2 | Running \<Rightarrow> 1 | Released \<Rightarrow> 0)"

definition keys_of :: "coordinator \<Rightarrow> nat \<Rightarrow> string set" where
  "keys_of c i = rv_key ` set (mt_reservations (fc_mutations c ! i))"

definition work :: "coordinator \<Rightarrow> nat" where
  "work c = (\<Sum>i < length (fc_mutations c). phase_work (phase_of c i) + card {k \<in> keys_of c i. (i, k) \<notin> set (fc_settled c)})"

definition internal :: "mutation_event \<Rightarrow> bool" where
  "internal e = (case e of WithPaths _ \<Rightarrow> False | _ \<Rightarrow> True)"

fun schedule :: "string \<Rightarrow> coordinator \<Rightarrow> mutation_event list \<Rightarrow> bool" where
  "schedule platform c [] = True"
| "schedule platform c (e # es) = (internal e \<and> enabled c e \<and> schedule platform (mutation_step platform c e) es)"

lemma sum_one_less:
  fixes f g :: "nat \<Rightarrow> nat"
  assumes "i < n" "f i < g i" "\<And>j. j < n \<Longrightarrow> j \<noteq> i \<Longrightarrow> f j = g j"
  shows "(\<Sum>j < n. f j) < (\<Sum>j < n. g j)"
  using assms by (intro sum_strict_mono_ex1) (auto, metis order.refl order.strict_implies_order)

lemma set_phase_work:
  assumes "i < length (fc_mutations c)" "phase_work p < phase_work (phase_of c i)"
    "fc_mutations c' = fc_mutations (set_phase i p c)" "fc_settled c' = fc_settled c"
  shows "work c' < work c"
  unfolding work_def assms(3,4) keys_of_def set_phase_simps
  by (rule sum_one_less [OF assms(1)]) (use assms in \<open>auto simp: phase_of_set_phase\<close>)

lemma mutation_fields:
  "fc_mutations (c\<lparr>fc_settled := x\<rparr>) = fc_mutations c" "fc_settled (c\<lparr>fc_settled := x\<rparr>) = x"
  by simp_all

lemma internal_work:
  assumes "enabled c e" "internal e"
  shows "work (mutation_step platform c e) < work c"
proof (cases e)
  case (WithPaths paths)
  then show ?thesis using assms(2) by (simp add: internal_def)
next
  case (Settle i key)
  let ?c = "c\<lparr>fc_settled := (i, key) # fc_settled c\<rparr>"
  have i: "i < length (fc_mutations c)" "(i, key) \<notin> set (fc_settled c)" "key \<in> keys_of c i"
    using assms(1) by (auto simp: Settle enabled_def list_ex_iff keys_of_def)
  have keys: "keys_of ?c j = keys_of c j" for j by (simp add: keys_of_def)
  have "work ?c < work c"
    unfolding work_def keys
  proof (simp only: mutation_fields, rule sum_one_less [OF i(1)])
    have "{k \<in> keys_of c i. (i, k) \<notin> set ((i, key) # fc_settled c)} \<subset> {k \<in> keys_of c i. (i, k) \<notin> set (fc_settled c)}"
      using i by auto
    then have "card {k \<in> keys_of c i. (i, k) \<notin> set ((i, key) # fc_settled c)} < card {k \<in> keys_of c i. (i, k) \<notin> set (fc_settled c)}"
      by (rule psubset_card_mono [rotated]) (simp add: keys_of_def)
    then show "phase_work (phase_of c i) + card {k \<in> keys_of c i. (i, k) \<notin> set ((i, key) # fc_settled c)}
        < phase_work (phase_of c i) + card {k \<in> keys_of c i. (i, k) \<notin> set (fc_settled c)}" by simp
  qed simp
  then show ?thesis using assms(1) by (simp add: Settle mutation_step_def)
next
  case (Start i)
  then show ?thesis using assms(1)
    by (auto simp: mutation_step_def enabled_def phase_work_def intro!: set_phase_work)
next
  case (Finish i)
  then show ?thesis using assms(1)
    by (auto simp: mutation_step_def enabled_def phase_work_def finish_mutation_def intro!: set_phase_work [of i c Released])
qed

lemma schedule_work: "schedule platform c es \<Longrightarrow> length es + work (foldl (mutation_step platform) c es) \<le> work c"
proof (induction es arbitrary: c)
  case (Cons e es)
  then have "length es + work (foldl (mutation_step platform) (mutation_step platform c e) es) \<le> work (mutation_step platform c e)" by simp
  moreover have "work (mutation_step platform c e) < work c" using Cons.prems by (intro internal_work) simp_all
  ultimately show ?case by simp
qed simp

lemma tail_can_settle:
  assumes "coordinator_inv c"
  shows "has_key c m k \<Longrightarrow> \<forall>j \<le> m. has_key c j k \<longrightarrow> phase_of c j = Released \<Longrightarrow> (m, k) \<notin> set (fc_settled c) \<Longrightarrow>
    \<exists>i. enabled c (Settle i k)"
proof (induction m rule: less_induct)
  case (less m)
  then obtain r where m: "m < length (fc_mutations c)" and r: "r \<in> set (mt_reservations (fc_mutations c ! m))" "rv_key r = k"
    by (auto simp: has_key_def)
  have cov: "covers c (rv_current r) m k" using inv_reservation [OF assms m r(1)] r(2) by simp
  show ?case
  proof (cases "resolved c (rv_current r)")
    case True
    then have "enabled c (Settle m k)" using less.prems m r by (auto simp: enabled_def list_ex_iff)
    then show ?thesis ..
  next
    case False
    then obtain j where j: "rv_current r = Some (j, k)" "j < m" "has_key c j k" "(j, k) \<notin> set (fc_settled c)"
      using cov by (auto simp: resolved_def covers_def split: option.splits)
    then show ?thesis using less.IH [of j] less.prems(2) by auto
  qed
qed

lemma not_stuck:
  assumes "coordinator_inv c" "i < length (fc_mutations c)" "phase_of c i \<noteq> Released"
  shows "\<exists>e. internal e \<and> enabled c e"
proof -
  define n where "n = (LEAST i. i < length (fc_mutations c) \<and> phase_of c i \<noteq> Released)"
  have n: "n < length (fc_mutations c)" "phase_of c n \<noteq> Released"
    unfolding n_def by (rule LeastI2 [of _ i]; use assms in simp)+
  have before: "phase_of c j = Released" if "j < n" for j
    using not_less_Least [OF that [unfolded n_def]] that n(1) by auto
  show ?thesis
  proof (cases "phase_of c n")
    case Running
    then have "enabled c (Finish n)" using n by (simp add: enabled_def)
    then show ?thesis by (intro exI [of _ "Finish n"]) (simp add: internal_def)
  next
    case Waiting
    show ?thesis
    proof (cases "\<forall>r \<in> set (mt_reservations (fc_mutations c ! n)). resolved c (rv_current r)")
      case True
      then have "enabled c (Start n)" using n Waiting by (simp add: enabled_def list_all_iff)
      then show ?thesis by (intro exI [of _ "Start n"]) (simp add: internal_def)
    next
      case False
      then obtain r where r: "r \<in> set (mt_reservations (fc_mutations c ! n))" "\<not> resolved c (rv_current r)" by blast
      then obtain m where m: "m < n" "has_key c m (rv_key r)" "(m, rv_key r) \<notin> set (fc_settled c)"
        using inv_reservation [OF assms(1) n(1) r(1)] by (auto simp: resolved_def covers_def split: option.splits)
      then obtain e where "enabled c (Settle e (rv_key r))" using tail_can_settle [OF assms(1) m(2)] before m by auto
      then show ?thesis by (intro exI [of _ "Settle e (rv_key r)"]) (simp add: internal_def)
    qed
  qed (use n in simp)
qed

section \<open>Properties\<close>

text \<open>
  C39. Mutations of a path run one at a time and in the order in which they reserved it: in every run, when the callback
  of a mutation has started, every earlier mutation that shares a path with it has ended.
\<close>

theorem mutations_in_order:
  assumes "c = foldl (mutation_step platform) new_coordinator es"
    and "i < length (fc_mutations c)" "phase_of c i \<noteq> Waiting" "j < i" "has_key c i key" "has_key c j key"
  shows "phase_of c j = Released"
proof -
  have inv: "coordinator_inv c" unfolding assms(1) by (rule coordinator_machine.run_inv [OF new_coordinator_inv])
  obtain r where r: "r \<in> set (mt_reservations (fc_mutations c ! i))" "rv_key r = key"
    using assms(5) by (auto simp: has_key_def)
  then show ?thesis
    using inv_reservation [OF inv assms(2) r(1)] earlier_released [OF inv assms(2) r(1) _ assms(4)] assms(3,6) by simp
qed

text \<open>
  C40. Mutations never deadlock, however their path lists overlap: from any reachable state, promises resolving and
  callbacks starting and ending in any order come to an end after a bounded number of steps, and when no such step
  is left every callback has run and released its paths.
\<close>

theorem mutations_never_deadlock:
  assumes "c = foldl (mutation_step platform) new_coordinator es" "schedule platform c steps"
  shows "length steps \<le> work c
    \<and> ((\<nexists>e. internal e \<and> enabled (foldl (mutation_step platform) c steps) e) \<longrightarrow>
        (\<forall>i < length (fc_mutations (foldl (mutation_step platform) c steps)). phase_of (foldl (mutation_step platform) c steps) i = Released))"
proof -
  have "coordinator_inv (foldl (mutation_step platform) c steps)"
    unfolding assms(1) by (intro coordinator_machine.run_inv new_coordinator_inv)
  then show ?thesis using not_stuck schedule_work [OF assms(2)] by (meson le_trans le_add1)
qed

definition sample_paths :: "mutation_event list" where
  "sample_paths = [WithPaths [''/b'', ''/a''], WithPaths [''/b'']]"

definition sample_steps :: "mutation_event list" where
  "sample_steps = [Start 0, Finish 0, Settle 0 ''/b'', Start 1, Finish 1, Settle 0 ''/a'', Settle 1 ''/b'']"

lemma mutations_in_order_witness:
  "let c = foldl (mutation_step ''linux'') new_coordinator (sample_paths @ take 4 sample_steps)
   in phase_of c 1 = Running \<and> phase_of c 0 = Released"
proof -
  define c where "c = foldl (mutation_step ''linux'') new_coordinator (sample_paths @ take 4 sample_steps)"
  have "length (fc_mutations c) = 2 \<and> phase_of c 1 = Running \<and> has_key c 0 ''/b'' \<and> has_key c 1 ''/b''"
    unfolding c_def by code_simp
  then show ?thesis
    unfolding c_def [symmetric] Let_def using mutations_in_order [OF c_def, of 1 0 "''/b''"] by simp
qed

lemma mutations_never_deadlock_witness:
  "let c = foldl (mutation_step ''linux'') new_coordinator sample_paths
   in schedule ''linux'' c sample_steps \<and> length sample_steps \<le> work c"
proof -
  define c where "c = foldl (mutation_step ''linux'') new_coordinator sample_paths"
  have "schedule ''linux'' c sample_steps" unfolding c_def by code_simp
  then show ?thesis using mutations_never_deadlock [OF c_def] by (simp add: c_def [symmetric])
qed

end
