(* ===== verification/McpProtocol.thy ===== *)
theory McpProtocol
  imports Interfaces
begin

text \<open>
  The request-level part of the Model Context Protocol (\<open>src/shared/mcp-protocol.mjs\<close>): the bounds on the structure of
  client values, the validation of request metadata, capabilities and subscriptions, and the shapes of results.

  Values come out of \<open>JSON.parse\<close>, so every object is a plain one.  Whether \<open>new URL\<close> accepts a string is the parameter
  \<open>url\<close>.  Message texts are not modelled; an error has its code and its data.
\<close>

section \<open>Constants and errors\<close>

definition MCP_PROTOCOL_VERSION :: string where "MCP_PROTOCOL_VERSION = ''2026-07-28''"

definition MCP_PROTOCOL_VERSIONS :: "string list" where "MCP_PROTOCOL_VERSIONS = [MCP_PROTOCOL_VERSION]"

definition MCP_UNSUPPORTED_PROTOCOL_VERSION :: int where "MCP_UNSUPPORTED_PROTOCOL_VERSION = -32022"

definition PROTOCOL_VERSION_KEY :: string where "PROTOCOL_VERSION_KEY = ''io.modelcontextprotocol/protocolVersion''"
definition CLIENT_INFO_KEY :: string where "CLIENT_INFO_KEY = ''io.modelcontextprotocol/clientInfo''"
definition CLIENT_CAPABILITIES_KEY :: string where "CLIENT_CAPABILITIES_KEY = ''io.modelcontextprotocol/clientCapabilities''"
definition SERVER_INFO_KEY :: string where "SERVER_INFO_KEY = ''io.modelcontextprotocol/serverInfo''"
definition SUBSCRIPTION_ID_KEY :: string where "SUBSCRIPTION_ID_KEY = ''io.modelcontextprotocol/subscriptionId''"

definition LOG_LEVELS :: "string list" where
  "LOG_LEVELS = [''debug'', ''info'', ''notice'', ''warning'', ''error'', ''critical'', ''alert'', ''emergency'']"

definition MAX_MCP_JSON_DEPTH :: nat where "MAX_MCP_JSON_DEPTH = 32"
definition MAX_MCP_JSON_NODES :: nat where "MAX_MCP_JSON_NODES = 4096"
definition MAX_MCP_JSON_KEY_LENGTH :: nat where "MAX_MCP_JSON_KEY_LENGTH = 256"
definition MAX_RESOURCE_SUBSCRIPTIONS :: nat where "MAX_RESOURCE_SUBSCRIPTIONS = 128"
definition MAX_RESOURCE_SUBSCRIPTION_URI_LENGTH :: nat where "MAX_RESOURCE_SUBSCRIPTION_URI_LENGTH = 4096"

datatype mcp_error = McpProtocolError int jsv

definition invalid_params :: mcp_error where
  "invalid_params = McpProtocolError (-32602) JUndef"

definition asMcpObject :: "jsv \<Rightarrow> jsv" where
  "asMcpObject v = (if isRecord v then v else JObj [])"

definition request_params :: "jsv \<Rightarrow> jsv" where
  "request_params v = asMcpObject (js_get (asMcpObject v) ''params'')"

definition requestMeta :: "jsv \<Rightarrow> jsv" where
  "requestMeta v = js_get (request_params v) ''_meta''"

definition requestProtocolVersion :: "jsv \<Rightarrow> string" where
  "requestProtocolVersion v = (case js_get (asMcpObject (requestMeta v)) PROTOCOL_VERSION_KEY of JStr s \<Rightarrow> s | _ \<Rightarrow> [])"

section \<open>The structural bounds\<close>

text \<open>
  One round of the loop: the value on top of the stack is counted and its children are pushed, each with its depth.
  The keys of an object are pushed one by one, each under the bound of its own.
\<close>

fun push_entries :: "nat \<Rightarrow> nat \<Rightarrow> (string \<times> jsv) list \<Rightarrow> (jsv \<times> nat) list \<Rightarrow> mcp_error + (jsv \<times> nat) list" where
  "push_entries nodes depth [] stack = Inr stack"
| "push_entries nodes depth ((key, v) # es) stack =
     (if length key > MAX_MCP_JSON_KEY_LENGTH \<or> length stack + nodes \<ge> MAX_MCP_JSON_NODES then Inl invalid_params
      else push_entries nodes depth es ((v, Suc depth) # stack))"

definition visit :: "nat \<Rightarrow> jsv \<Rightarrow> nat \<Rightarrow> (jsv \<times> nat) list \<Rightarrow> mcp_error + (jsv \<times> nat) list" where
  "visit nodes v depth stack =
     (if nodes > MAX_MCP_JSON_NODES \<or> depth > MAX_MCP_JSON_DEPTH then Inl invalid_params
      else (case v of
          JArr xs \<Rightarrow> if int (length xs) > int MAX_MCP_JSON_NODES - int nodes - int (length stack) then Inl invalid_params
                    else Inr (foldl (\<lambda>s x. (x, Suc depth) # s) stack xs)
        | JObj es \<Rightarrow> push_entries nodes depth es stack
        | _ \<Rightarrow> Inr stack))"

text \<open>A round that is entered with the counter above the bound throws, so the loop ends.\<close>

function bounded_loop :: "nat \<Rightarrow> (jsv \<times> nat) list \<Rightarrow> mcp_error + unit" where
  "bounded_loop nodes [] = Inr ()"
| "bounded_loop nodes ((v, depth) # stack) =
     (if Suc nodes > MAX_MCP_JSON_NODES then Inl invalid_params
      else res_bind (visit (Suc nodes) v depth stack) (\<lambda>stack'. bounded_loop (Suc nodes) stack'))"
  by pat_completeness auto
termination
  by (relation "measure (\<lambda>(nodes, stack). Suc MAX_MCP_JSON_NODES - nodes)") auto

definition assertBoundedMcpJsonStructure :: "jsv \<Rightarrow> mcp_error + unit" where
  "assertBoundedMcpJsonStructure v = bounded_loop 0 [(v, 0)]"

section \<open>Metadata and capabilities\<close>

definition isPlainObject :: "jsv \<Rightarrow> bool" where
  "isPlainObject v = isRecord v"

definition is_alpha :: "char \<Rightarrow> bool" where
  "is_alpha c = (is_lower_az c \<or> is_upper_az c)"

definition is_alnum :: "char \<Rightarrow> bool" where
  "is_alnum c = (is_alpha c \<or> is_digit c)"

text \<open>The two halves of \<open>META_KEY\<close>: a label of the prefix, and the name.\<close>

definition meta_label :: "string \<Rightarrow> bool" where
  "meta_label s = (s \<noteq> [] \<and> is_alpha (hd s) \<and> is_alnum (last s) \<and> list_all (\<lambda>c. is_alnum c \<or> c = CHR ''-'') s)"

definition meta_name :: "string \<Rightarrow> bool" where
  "meta_name s = (s = [] \<or> is_alnum (hd s) \<and> is_alnum (last s) \<and> list_all (\<lambda>c. is_alnum c \<or> c \<in> {CHR ''_'', CHR ''.'', CHR ''-''}) s)"

definition meta_key :: "string \<Rightarrow> bool" where
  "meta_key s = (case split_on (CHR ''/'') s of
     [name] \<Rightarrow> meta_name name
   | [prefix, name] \<Rightarrow> list_all meta_label (split_on (CHR ''.'') prefix) \<and> meta_name name
   | _ \<Rightarrow> False)"

definition require :: "bool \<Rightarrow> mcp_error + unit" where
  "require b = (if b then Inr () else Inl invalid_params)"

definition validateMetaKeys :: "jsv \<Rightarrow> mcp_error + unit" where
  "validateMetaKeys meta =
     require (list_all (\<lambda>(key, _). length key \<le> MAX_MCP_JSON_KEY_LENGTH \<and> meta_key key) (obj_entries meta))"

definition validateCapabilityObject :: "jsv \<Rightarrow> string \<Rightarrow> mcp_error + unit" where
  "validateCapabilityObject v key = require (js_get v key = JUndef \<or> isPlainObject (js_get v key))"

definition validateCapabilityMap :: "jsv \<Rightarrow> string \<Rightarrow> mcp_error + unit" where
  "validateCapabilityMap v key =
     res_bind (validateCapabilityObject v key) (\<lambda>_.
       if js_get v key = JUndef then Inr ()
       else require (list_all (\<lambda>(name, w). length name \<le> MAX_MCP_JSON_KEY_LENGTH \<and> isPlainObject w) (obj_entries (js_get v key))))"

definition validateCapabilityFields :: "jsv \<Rightarrow> string \<Rightarrow> string list \<Rightarrow> mcp_error + unit" where
  "validateCapabilityFields v key fields =
     res_bind (validateCapabilityObject v key) (\<lambda>_.
       if js_get v key = JUndef then Inr ()
       else require (list_all (\<lambda>field. js_get (js_get v key) field = JUndef \<or> isPlainObject (js_get (js_get v key) field)) fields))"

definition validateClientCapabilities :: "jsv \<Rightarrow> mcp_error + unit" where
  "validateClientCapabilities v =
     res_bind (validateCapabilityObject v ''roots'') (\<lambda>_.
     res_bind (validateCapabilityMap v ''experimental'') (\<lambda>_.
     res_bind (validateCapabilityFields v ''sampling'' [''context'', ''tools'']) (\<lambda>_.
     res_bind (validateCapabilityFields v ''elicitation'' [''form'', ''url'']) (\<lambda>_.
       let extensions = js_get v ''extensions'' in
       if extensions = JUndef then Inr ()
       else res_bind (require (isPlainObject extensions)) (\<lambda>_.
         require (list_all (\<lambda>(key, settings). length key \<le> MAX_MCP_JSON_KEY_LENGTH \<and> CHR ''/'' \<in> set key \<and> meta_key key
                    \<and> isPlainObject settings) (obj_entries extensions)))))))"

definition boundedProtocolVersion :: "string \<Rightarrow> string" where
  "boundedProtocolVersion s = (if length s \<le> 128 then s else ''<invalid-length>'')"

definition isProgressToken :: "jsv \<Rightarrow> bool" where
  "isProgressToken v = (case v of JStr _ \<Rightarrow> True | JNum x \<Rightarrow> isFinite x | _ \<Rightarrow> False)"

definition is_text :: "jsv \<Rightarrow> bool" where
  "is_text v = (case v of JStr _ \<Rightarrow> True | _ \<Rightarrow> False)"

definition isAbsoluteUri :: "(string \<Rightarrow> bool) \<Rightarrow> jsv \<Rightarrow> bool" where
  "isAbsoluteUri url v = (case v of JStr s \<Rightarrow> s \<noteq> [] \<and> url s | _ \<Rightarrow> False)"

definition isIcon :: "(string \<Rightarrow> bool) \<Rightarrow> jsv \<Rightarrow> bool" where
  "isIcon url v =
     (isPlainObject v \<and> isAbsoluteUri url (js_get v ''src'')
      \<and> (js_get v ''mimeType'' = JUndef \<or> is_text (js_get v ''mimeType''))
      \<and> (js_get v ''sizes'' = JUndef \<or> isArray (js_get v ''sizes'') \<and> list_all is_text (arr_elems (js_get v ''sizes'')))
      \<and> js_get v ''theme'' \<in> {JUndef, JStr ''light'', JStr ''dark''})"

definition isImplementation :: "(string \<Rightarrow> bool) \<Rightarrow> jsv \<Rightarrow> bool" where
  "isImplementation url v =
     (isPlainObject v \<and> is_text (js_get v ''name'') \<and> is_text (js_get v ''version'')
      \<and> list_all (\<lambda>field. js_get v field = JUndef \<or> is_text (js_get v field)) [''title'', ''description'']
      \<and> (js_get v ''websiteUrl'' = JUndef \<or> isAbsoluteUri url (js_get v ''websiteUrl''))
      \<and> (js_get v ''icons'' = JUndef \<or> isArray (js_get v ''icons'') \<and> list_all (isIcon url) (arr_elems (js_get v ''icons''))))"

record request_metadata =
  rm_version :: string
  rm_clientCapabilities :: jsv
  rm_clientInfo :: jsv
  rm_progressToken :: jsv
  rm_logLevel :: jsv

definition validateRequestMetadata :: "(string \<Rightarrow> bool) \<Rightarrow> string list \<Rightarrow> jsv \<Rightarrow> mcp_error + request_metadata" where
  "validateRequestMetadata url supportedVersions v =
     (let meta = asMcpObject (requestMeta v);
          clientCapabilities = js_get meta CLIENT_CAPABILITIES_KEY;
          clientInfo = js_get meta CLIENT_INFO_KEY;
          progressToken = js_get meta ''progressToken'';
          logLevel = js_get meta ''io.modelcontextprotocol/logLevel''
      in res_bind (assertBoundedMcpJsonStructure meta) (\<lambda>_.
         case js_get meta PROTOCOL_VERSION_KEY of
           JStr version \<Rightarrow>
             if version = [] then Inl invalid_params
             else if version \<notin> set supportedVersions
             then Inl (McpProtocolError MCP_UNSUPPORTED_PROTOCOL_VERSION
                    (JObj [(''supported'', JArr (map JStr supportedVersions)), (''requested'', JStr (boundedProtocolVersion version))]))
             else res_bind (validateMetaKeys meta) (\<lambda>_.
                  res_bind (require (isPlainObject clientCapabilities)) (\<lambda>_.
                  res_bind (validateClientCapabilities clientCapabilities) (\<lambda>_.
                  res_bind (require (clientInfo = JUndef \<or> isImplementation url clientInfo)) (\<lambda>_.
                  res_bind (require (progressToken = JUndef \<or> isProgressToken progressToken)) (\<lambda>_.
                  res_bind (require (logLevel = JUndef \<or> (\<exists>l \<in> set LOG_LEVELS. logLevel = JStr l))) (\<lambda>_.
                    Inr \<lparr>rm_version = version, rm_clientCapabilities = clientCapabilities,
                         rm_clientInfo = (if clientInfo = JUndef then JNull else clientInfo),
                         rm_progressToken = progressToken, rm_logLevel = logLevel\<rparr>))))))
         | _ \<Rightarrow> Inl invalid_params))"

section \<open>Subscriptions\<close>

record subscription =
  sub_toolsListChanged :: bool
  sub_promptsListChanged :: bool
  sub_resourcesListChanged :: bool
  sub_resourceSubscriptions :: "jsv list"

definition is_flag :: "jsv \<Rightarrow> bool" where
  "is_flag v = (case v of JBool _ \<Rightarrow> True | _ \<Rightarrow> False)"

definition subscription_uri :: "jsv \<Rightarrow> bool" where
  "subscription_uri v = (case v of JStr s \<Rightarrow> s \<noteq> [] \<and> length s \<le> MAX_RESOURCE_SUBSCRIPTION_URI_LENGTH | _ \<Rightarrow> False)"

definition validateSubscriptionRequest :: "jsv \<Rightarrow> mcp_error + subscription" where
  "validateSubscriptionRequest v =
     (let notifications = js_get (request_params v) ''notifications'';
          resources = js_get notifications ''resourceSubscriptions'';
          accepted = (\<lambda>uris. \<lparr>sub_toolsListChanged = (js_get notifications ''toolsListChanged'' = JBool True),
                       sub_promptsListChanged = (js_get notifications ''promptsListChanged'' = JBool True),
                       sub_resourcesListChanged = (js_get notifications ''resourcesListChanged'' = JBool True),
                       sub_resourceSubscriptions = uris\<rparr>)
      in res_bind (require (isPlainObject notifications)) (\<lambda>_.
         res_bind (assertBoundedMcpJsonStructure notifications) (\<lambda>_.
         res_bind (require (list_all (\<lambda>key. js_get notifications key = JUndef \<or> is_flag (js_get notifications key))
                     [''toolsListChanged'', ''promptsListChanged'', ''resourcesListChanged''])) (\<lambda>_.
           if resources = JUndef then Inr (accepted [])
           else res_bind (require (isArray resources \<and> length (arr_elems resources) \<le> MAX_RESOURCE_SUBSCRIPTIONS
                                   \<and> list_all subscription_uri (arr_elems resources)))
                  (\<lambda>_. Inr (accepted (arr_elems resources)))))))"

section \<open>Results and notifications\<close>

definition mcp_result :: "string \<Rightarrow> jsv \<Rightarrow> jsv \<Rightarrow> jsv" where
  "mcp_result resultType flds serverInfo =
     (let output = spread flds [(''resultType'', JStr resultType)]
      in if truthy serverInfo
         then spread output [(''_meta'', spread (asMcpObject (js_get output ''_meta'')) [(SERVER_INFO_KEY, serverInfo)])]
         else output)"

definition completeResult :: "jsv \<Rightarrow> jsv \<Rightarrow> jsv" where
  "completeResult flds serverInfo = mcp_result ''complete'' flds serverInfo"

definition taskCreatedResult :: "jsv \<Rightarrow> jsv \<Rightarrow> jsv" where
  "taskCreatedResult flds serverInfo = spread (completeResult flds serverInfo) [(''resultType'', JStr ''task'')]"

definition cacheableResult :: "jsv \<Rightarrow> jsv \<Rightarrow> jsv \<Rightarrow> jsv \<Rightarrow> string + jsv" where
  "cacheableResult flds ttlMs cacheScope serverInfo =
     (let ttl = js_Number ttlMs in
      if \<not> isFinite ttl \<or> num_lt ttl (Fin 0) then Inl ''ttlMs''
      else if cacheScope \<notin> {JStr ''public'', JStr ''private''} then Inl ''cacheScope''
      else Inr (completeResult (spread flds [(''ttlMs'', JNum ttl), (''cacheScope'', cacheScope)]) serverInfo))"

definition discoverResult :: "string list \<Rightarrow> jsv \<Rightarrow> string \<Rightarrow> jsv \<Rightarrow> jsv \<Rightarrow> string + jsv" where
  "discoverResult supportedVersions capabilities instructions ttlMs serverInfo =
     cacheableResult (JObj ([(''supportedVersions'', JArr (map JStr supportedVersions)), (''capabilities'', capabilities)]
         @ (if instructions = [] then [] else [(''instructions'', JStr instructions)])))
       (if ttlMs = JUndef then JNum (Fin 0) else ttlMs) (JStr ''public'') serverInfo"

definition subscriptionAcknowledgement :: "jsv \<Rightarrow> jsv \<Rightarrow> jsv" where
  "subscriptionAcknowledgement requestId notifications =
     JObj [(''jsonrpc'', JStr ''2.0''), (''method'', JStr ''notifications/subscriptions/acknowledged''),
       (''params'', JObj [(''notifications'', if notifications = JUndef then JObj [] else notifications),
          (''_meta'', JObj [(SUBSCRIPTION_ID_KEY, requestId)])])]"

definition toolsListChangedNotification :: "jsv \<Rightarrow> jsv" where
  "toolsListChangedNotification requestId =
     JObj [(''jsonrpc'', JStr ''2.0''), (''method'', JStr ''notifications/tools/list_changed''),
       (''params'', JObj [(''_meta'', JObj [(SUBSCRIPTION_ID_KEY, requestId)])])]"

definition subscriptionCompleteResult :: "jsv \<Rightarrow> jsv \<Rightarrow> jsv" where
  "subscriptionCompleteResult requestId serverInfo =
     (let output = completeResult (JObj []) serverInfo
      in spread output [(''_meta'', spread (asMcpObject (js_get output ''_meta'')) [(SUBSCRIPTION_ID_KEY, requestId)])])"

definition progressNotification :: "jsv \<Rightarrow> jsv \<Rightarrow> jsv \<Rightarrow> string \<Rightarrow> jsv" where
  "progressNotification progressToken progress totalWork message =
     JObj [(''jsonrpc'', JStr ''2.0''), (''method'', JStr ''notifications/progress''),
       (''params'', JObj ([(''progressToken'', progressToken),
           (''progress'', JNum (let p = num_or (js_Number progress) 0 in if num_lt p (Fin 0) then Fin 0 else p))]
          @ (if totalWork = JUndef then [] else [(''total'', totalWork)])
          @ (if message = [] then [] else [(''message'', JStr message)])))]"

definition toolArgumentValidationError :: "jsv \<Rightarrow> jsv" where
  "toolArgumentValidationError issues =
     JObj [(''error'', JObj [(''code'', JStr ''invalid_request''), (''message'', JStr ''Tool arguments do not match the input schema''),
       (''retryable'', JBool False),
       (''details'', JObj [(''side_effects_started'', JBool False), (''validation_issues'', issues)])])]"

definition serverImplementation :: "string \<Rightarrow> string \<Rightarrow> string \<Rightarrow> string \<Rightarrow> jsv" where
  "serverImplementation name version title description =
     JObj ([(''name'', JStr name), (''version'', JStr version)]
       @ (if title = [] then [] else [(''title'', JStr title)])
       @ (if description = [] then [] else [(''description'', JStr description)]))"

text \<open>The schema-generation marker of a tool description.\<close>

definition generation_suffix :: "rat \<Rightarrow> string" where
  "generation_suffix q = ''Tool schema generation '' @ nat_string (nat \<lfloor>q\<rfloor>) @ ''.''"

definition tool_description :: "jsv \<Rightarrow> string" where
  "tool_description tool = (case js_get tool ''description'' of JStr s \<Rightarrow> trim s | _ \<Rightarrow> [])"

definition tagToolSchemaGeneration :: "jsv \<Rightarrow> jsv \<Rightarrow> jsv" where
  "tagToolSchemaGeneration tool generation =
     (case fin_of (js_Number generation) of
        None \<Rightarrow> tool
      | Some q \<Rightarrow>
          if \<not> isSafeInteger (JNum (js_Number generation)) \<or> q < 0 then tool
          else let suffix = generation_suffix q; description = tool_description tool
               in if description = [] then spread tool [(''description'', JStr suffix)]
                  else if ends_with suffix description then tool
                  else spread tool [(''description'', JStr (description @ '' '' @ suffix))])"

end
