(* ===== verification/McpProtocolSpec.thy ===== *)
theory McpProtocolSpec
  imports McpProtocol
begin

text \<open>
  The loop that bounds a client value computes what its specification says: the number of nodes, the depth and the
  lengths of the keys of the value.  Validation of a subscription is a normal form, and the schema-generation marker is
  added once.
\<close>

section \<open>The size of a value\<close>

fun json_nodes :: "jsv \<Rightarrow> nat" where
  "json_nodes (JArr xs) = Suc (sum_list (map json_nodes xs))"
| "json_nodes (JObj es) = Suc (sum_list (map (\<lambda>(k, v). json_nodes v) es))"
| "json_nodes _ = 1"

fun json_depth :: "jsv \<Rightarrow> nat" where
  "json_depth (JArr xs) = foldr (\<lambda>x d. max (Suc (json_depth x)) d) xs 0"
| "json_depth (JObj es) = foldr (\<lambda>(k, x) d. max (Suc (json_depth x)) d) es 0"
| "json_depth _ = 0"

fun json_keys_ok :: "jsv \<Rightarrow> bool" where
  "json_keys_ok (JArr xs) = list_all json_keys_ok xs"
| "json_keys_ok (JObj es) = list_all (\<lambda>(k, v). length k \<le> MAX_MCP_JSON_KEY_LENGTH \<and> json_keys_ok v) es"
| "json_keys_ok _ = True"

definition json_bounded :: "jsv \<Rightarrow> nat \<Rightarrow> bool" where
  "json_bounded v depth = (depth + json_depth v \<le> MAX_MCP_JSON_DEPTH \<and> json_keys_ok v)"

definition stack_nodes :: "(jsv \<times> nat) list \<Rightarrow> nat" where
  "stack_nodes stack = sum_list (map (\<lambda>(v, d). json_nodes v) stack)"

definition stack_ok :: "nat \<Rightarrow> (jsv \<times> nat) list \<Rightarrow> bool" where
  "stack_ok nodes stack = (nodes + stack_nodes stack \<le> MAX_MCP_JSON_NODES \<and> list_all (\<lambda>(v, d). json_bounded v d) stack)"

lemma json_nodes_pos: "1 \<le> json_nodes v"
  by (cases v) simp_all

lemma stack_nodes_simps [simp]: "stack_nodes [] = 0" "stack_nodes ((v, d) # s) = json_nodes v + stack_nodes s"
  by (simp_all add: stack_nodes_def)

lemma length_stack_nodes: "length s \<le> stack_nodes s"
proof (induction s)
  case (Cons p s)
  then show ?case using json_nodes_pos [of "fst p"] by (cases p) simp
qed simp

lemma depth_Arr: "json_bounded (JArr xs) d \<longleftrightarrow> d \<le> MAX_MCP_JSON_DEPTH \<and> (\<forall>x \<in> set xs. json_bounded x (Suc d))"
proof -
  have "d + foldr (\<lambda>x m. max (Suc (json_depth x)) m) ys 0 \<le> N \<longleftrightarrow> d \<le> N \<and> (\<forall>x \<in> set ys. Suc d + json_depth x \<le> N)" for ys N
    by (induction ys) auto
  then show ?thesis by (auto simp: json_bounded_def list_all_iff)
qed

lemma depth_Obj: "json_bounded (JObj es) d \<longleftrightarrow> d \<le> MAX_MCP_JSON_DEPTH
    \<and> (\<forall>(k, x) \<in> set es. length k \<le> MAX_MCP_JSON_KEY_LENGTH \<and> json_bounded x (Suc d))"
proof -
  have "d + foldr (\<lambda>(k, x) m. max (Suc (json_depth x)) m) ys 0 \<le> N \<longleftrightarrow> d \<le> N \<and> (\<forall>(k, x) \<in> set ys. Suc d + json_depth x \<le> N)" for ys :: "(string \<times> jsv) list" and N
    by (induction ys) auto
  then show ?thesis by (auto simp: json_bounded_def list_all_iff split: prod.splits)
qed

section \<open>The loop\<close>

lemma push_array: "stack_nodes (foldl (\<lambda>s x. (x, d) # s) stack xs) = sum_list (map json_nodes xs) + stack_nodes stack"
  "list_all P (foldl (\<lambda>s x. (x, d) # s) stack xs) = ((\<forall>x \<in> set xs. P (x, d)) \<and> list_all P stack)"
  by (induction xs arbitrary: stack) auto

lemma sum_list_length: "length xs \<le> sum_list (map json_nodes xs)"
proof (induction xs)
  case (Cons x xs)
  then show ?case using json_nodes_pos [of x] by simp
qed simp

lemma push_entries_ok:
  "push_entries nodes depth es stack = r \<Longrightarrow>
    (case r of Inl e \<Rightarrow> e = invalid_params \<and> \<not> ((\<forall>(k, x) \<in> set es. length k \<le> MAX_MCP_JSON_KEY_LENGTH)
        \<and> nodes + sum_list (map (\<lambda>(k, v). json_nodes v) es) + stack_nodes stack \<le> MAX_MCP_JSON_NODES)
     | Inr s \<Rightarrow> (\<forall>(k, x) \<in> set es. length k \<le> MAX_MCP_JSON_KEY_LENGTH)
        \<and> stack_nodes s = sum_list (map (\<lambda>(k, v). json_nodes v) es) + stack_nodes stack
        \<and> (\<forall>P. list_all P s = ((\<forall>(k, x) \<in> set es. P (x, Suc depth)) \<and> list_all P stack)))"
proof (induction nodes depth es stack rule: push_entries.induct)
  case (2 nodes depth key v es stack)
  show ?case
  proof (cases "length key > MAX_MCP_JSON_KEY_LENGTH \<or> length stack + nodes \<ge> MAX_MCP_JSON_NODES")
    case True
    then show ?thesis using 2(2) length_stack_nodes [of stack] json_nodes_pos [of v] by auto
  next
    case False
    then show ?thesis using 2(1) 2(2) by (auto split: sum.splits)
  qed
qed auto

lemma visit_ok:
  assumes "nodes \<le> MAX_MCP_JSON_NODES"
  shows "case visit nodes v depth stack of
      Inl e \<Rightarrow> e = invalid_params \<and> \<not> (stack_ok nodes stack \<and> json_bounded v depth \<and> nodes + json_nodes v + stack_nodes stack \<le> Suc MAX_MCP_JSON_NODES)
    | Inr s \<Rightarrow> stack_ok nodes s \<longleftrightarrow> (stack_ok nodes stack \<and> json_bounded v depth \<and> nodes + json_nodes v + stack_nodes stack \<le> Suc MAX_MCP_JSON_NODES)"
proof (cases "depth > MAX_MCP_JSON_DEPTH")
  case True
  then show ?thesis by (simp add: visit_def json_bounded_def)
next
  case False
  note d = False
  show ?thesis
  proof (cases v)
    case (JArr xs)
    show ?thesis
    proof (cases "int (length xs) > int MAX_MCP_JSON_NODES - int nodes - int (length stack)")
      case True
      then show ?thesis using d assms sum_list_length [of xs] length_stack_nodes [of stack] by (simp add: visit_def JArr)
    next
      case False
      then show ?thesis using d assms by (auto simp: visit_def JArr stack_ok_def push_array depth_Arr)
    qed
  next
    case (JObj es)
    show ?thesis
    proof (cases "push_entries nodes depth es stack")
      case (Inl e)
      then show ?thesis using d assms push_entries_ok [OF Inl] by (auto simp: visit_def JObj depth_Obj split: prod.splits)
    next
      case (Inr s)
      then show ?thesis using d assms push_entries_ok [OF Inr]
        by (auto simp: visit_def JObj stack_ok_def depth_Obj split: prod.splits)
    qed
  qed (use d assms in \<open>auto simp: visit_def json_bounded_def stack_ok_def\<close>)
qed

lemma bounded_loop_exact:
  "nodes \<le> MAX_MCP_JSON_NODES \<Longrightarrow> bounded_loop nodes stack = (if stack_ok nodes stack then Inr () else Inl invalid_params)"
proof (induction nodes stack rule: bounded_loop.induct)
  case (1 nodes)
  then show ?case by (simp add: stack_ok_def)
next
  case (2 nodes v depth stack)
  show ?case
  proof (cases "Suc nodes > MAX_MCP_JSON_NODES")
    case True
    then show ?thesis using json_nodes_pos [of v] by (simp add: stack_ok_def)
  next
    case False
    have ok: "stack_ok nodes ((v, depth) # stack) \<longleftrightarrow>
        (stack_ok (Suc nodes) stack \<and> json_bounded v depth \<and> Suc nodes + json_nodes v + stack_nodes stack \<le> Suc MAX_MCP_JSON_NODES)"
      using json_nodes_pos [of v] by (auto simp: stack_ok_def)
    from visit_ok [where nodes = "Suc nodes" and v = v and depth = depth and stack = stack] False 2(1) [OF False] show ?thesis
      by (cases "visit (Suc nodes) v depth stack") (auto simp: ok)
  qed
qed

lemma bounded_structure:
  "assertBoundedMcpJsonStructure v =
     (if json_nodes v \<le> 4096 \<and> json_depth v \<le> 32 \<and> json_keys_ok v then Inr () else Inl invalid_params)"
  using bounded_loop_exact [of 0 "[(v, 0)]"]
  by (auto simp: assertBoundedMcpJsonStructure_def stack_ok_def json_bounded_def MAX_MCP_JSON_NODES_def MAX_MCP_JSON_DEPTH_def)

text \<open>
  C33. The structural check of a client value is exact: it accepts a value just when it has at most 4096 nodes, a depth
  of at most 32, and no key longer than 256 characters; everything else is rejected as invalid parameters.
\<close>

theorem structure_check_exact:
  "assertBoundedMcpJsonStructure v =
     (if json_nodes v \<le> 4096 \<and> json_depth v \<le> 32 \<and> json_keys_ok v then Inr () else Inl invalid_params)"
  by (rule bounded_structure)

section \<open>Errors of the metadata\<close>

lemma require_simps [simp]: "require b = Inr x \<longleftrightarrow> b" "require b = Inl e \<longleftrightarrow> \<not> b \<and> e = invalid_params"
  by (auto simp: require_def)

lemma res_bind_Inl_iff: "res_bind r f = Inl e \<longleftrightarrow> r = Inl e \<or> (\<exists>x. r = Inr x \<and> f x = Inl e)"
  by (cases r) auto

lemma metadata_error_codes:
  assumes "validateRequestMetadata url versions v = Inl (McpProtocolError c d)"
  shows "c = -32602 \<and> d = JUndef \<or> c = -32022 \<and> (\<exists>requested. length requested \<le> 128
     \<and> d = JObj [(''supported'', JArr (map JStr versions)), (''requested'', JStr requested)])"
proof -
  have b: "length (boundedProtocolVersion s) \<le> 128" for s by (simp add: boundedProtocolVersion_def)
  show ?thesis
    using assms
    by (auto simp: validateRequestMetadata_def res_bind_Inl_iff Let_def invalid_params_def bounded_structure
        validateMetaKeys_def validateClientCapabilities_def validateCapabilityObject_def validateCapabilityMap_def
        validateCapabilityFields_def MCP_UNSUPPORTED_PROTOCOL_VERSION_def b split: if_splits jsv.splits)
qed

section \<open>The schema-generation marker\<close>

lemma trim_idem:
  assumes "s \<noteq> []" "\<not> is_ws (hd s)" "\<not> is_ws (last s)"
  shows "trim s = s"
proof -
  have "dropWhile is_ws s = s" using assms by (cases s) auto
  moreover have "dropWhile is_ws (rev s) = rev s" using assms by (cases "rev s") (auto simp: last_rev hd_rev [symmetric])
  ultimately show ?thesis by (simp add: trim_def trim_start_def trim_end_def)
qed

lemma trim_ends:
  assumes "trim s = d" "d \<noteq> []"
  shows "\<not> is_ws (hd d)" "\<not> is_ws (last d)"
proof -
  have d: "d = rev (dropWhile is_ws (rev (dropWhile is_ws s)))" using assms(1) by (simp add: trim_def trim_start_def trim_end_def)
  then show "\<not> is_ws (last d)" using assms(2) hd_dropWhile by (metis hd_rev rev_is_Nil_conv rev_rev_ident)
  obtain w where w: "rev (dropWhile is_ws s) = w @ dropWhile is_ws (rev (dropWhile is_ws s))"
    by (metis takeWhile_dropWhile_id)
  then have "dropWhile is_ws s = d @ rev w" unfolding d by (metis rev_append rev_rev_ident)
  moreover have "dropWhile is_ws s \<noteq> []" using calculation assms(2) by simp
  ultimately show "\<not> is_ws (hd d)" using hd_dropWhile [of is_ws s] assms(2) by (metis hd_append2)
qed

lemma suffix_last: "generation_suffix q \<noteq> []" "last (generation_suffix q) = CHR ''.''" "hd (generation_suffix q) = CHR ''T''"
  by (simp_all add: generation_suffix_def)

lemma ends_with_append [simp]: "ends_with s (d @ s)" "ends_with s s"
  by (simp_all add: ends_with_def starts_with_iff)

lemma tool_description_spread: "tool_description (spread tool [(''description'', JStr s)]) = trim s"
  by (simp add: tool_description_def js_get_spread)

lemma not_ws: "\<not> is_ws (CHR ''.'')" "\<not> is_ws (CHR ''T'')"
  by code_simp+

text \<open>Worker and stdio projections may both tag a tool: the second tag changes nothing.\<close>

lemma tag_idempotent:
  "tagToolSchemaGeneration (tagToolSchemaGeneration tool g) g = tagToolSchemaGeneration tool g"
proof (cases "fin_of (js_Number g)")
  case (Some q)
  show ?thesis
  proof (cases "\<not> isSafeInteger (JNum (js_Number g)) \<or> q < 0")
    case False
    let ?d = "tool_description tool"
    let ?s = "generation_suffix q"
    consider (none) "?d = []" | (tagged) "?d \<noteq> []" "ends_with ?s ?d" | (new) "?d \<noteq> []" "\<not> ends_with ?s ?d" by blast
    then show ?thesis
    proof cases
      case none
      have "trim ?s = ?s" by (rule trim_idem) (simp_all add: suffix_last not_ws)
      then show ?thesis using none False Some
        by (simp add: tagToolSchemaGeneration_def Let_def tool_description_spread suffix_last)
    next
      case tagged
      then show ?thesis using False Some by (simp add: tagToolSchemaGeneration_def Let_def)
    next
      case new
      have "\<not> is_ws (hd ?d)" using new(1)
        by (auto simp: tool_description_def split: jsv.splits dest: trim_ends(1) [OF refl])
      then have "trim (?d @ '' '' @ ?s) = ?d @ '' '' @ ?s"
        using new(1) by (intro trim_idem) (simp_all add: suffix_last not_ws)
      moreover have "ends_with ?s (?d @ '' '' @ ?s)" using ends_with_append(1) [of ?s "?d @ '' ''"] by simp
      ultimately show ?thesis using new False Some
        by (simp add: tagToolSchemaGeneration_def Let_def tool_description_spread)
    qed
  qed (use Some in \<open>auto simp: tagToolSchemaGeneration_def\<close>)
qed (simp add: tagToolSchemaGeneration_def)

section \<open>Subscriptions\<close>

definition subscription_request :: "subscription \<Rightarrow> jsv" where
  "subscription_request s = JObj [(''params'', JObj [(''notifications'', JObj
     [(''toolsListChanged'', JBool (sub_toolsListChanged s)), (''promptsListChanged'', JBool (sub_promptsListChanged s)),
      (''resourcesListChanged'', JBool (sub_resourcesListChanged s)), (''resourceSubscriptions'', JArr (sub_resourceSubscriptions s))])])]"

text \<open>An accepted filter is in normal form: sent again, it is accepted unchanged.\<close>

lemma leaf_array:
  "list_all subscription_uri xs \<Longrightarrow> json_nodes (JArr xs) = Suc (length xs) \<and> json_depth (JArr xs) \<le> 1 \<and> json_keys_ok (JArr xs)"
proof (induction xs)
  case (Cons x xs)
  then show ?case by (cases x) (simp_all add: subscription_uri_def)
qed simp

lemma subscription_normal:
  assumes "validateSubscriptionRequest v = Inr s"
  shows "validateSubscriptionRequest (subscription_request s) = Inr s"
proof -
  have u: "length (sub_resourceSubscriptions s) \<le> 128" "list_all subscription_uri (sub_resourceSubscriptions s)"
    using assms by (auto simp: validateSubscriptionRequest_def Let_def res_bind_Inr_iff MAX_RESOURCE_SUBSCRIPTIONS_def split: if_splits)
  have "length (sub_resourceSubscriptions s) \<le> 4091" using u(1) by simp
  with leaf_array [OF u(2)] show ?thesis
    by (simp add: validateSubscriptionRequest_def subscription_request_def bounded_structure request_params_def asMcpObject_def
        isPlainObject_def u MAX_RESOURCE_SUBSCRIPTIONS_def MAX_MCP_JSON_KEY_LENGTH_def require_def is_flag_def)
qed

end
