(* ===== verification/IsoDate.thy ===== *)
theory IsoDate
  imports JsDate
begin

text \<open>
  \<open>Date.prototype.toISOString\<close> for the times the sources store, and the proof that \<open>Date.parse\<close> reads back what it
  writes, so that every stored time is a valid one.
\<close>


text \<open>The civil date of a day: the year is searched upwards from 1970, the month among the twelve.\<close>

lemma days_from_civil_january:
  "days_from_civil (int (Suc y)) 1 1 \<ge> 365 * int y - 719163"
  by (simp add: days_from_civil_def Let_def zdiv_mono2 div_le_mono)

function civil_year :: "int \<Rightarrow> nat \<Rightarrow> nat" where
  "civil_year d y = (if days_from_civil (int (Suc y)) 1 1 \<le> d then civil_year d (Suc y) else y)"
  by pat_completeness auto
termination
proof (relation "measure (\<lambda>(d, y). nat (d + 719528 - 365 * int y))")
  fix d y
  assume "days_from_civil (int (Suc y)) 1 1 \<le> d"
  then show "((d, Suc y), d, y) \<in> measure (\<lambda>(d, y). nat (d + 719528 - 365 * int y))"
    using days_from_civil_january [of y] by (simp add: algebra_simps)
qed simp

declare civil_year.simps [simp del]

fun civil_month :: "int \<Rightarrow> int \<Rightarrow> nat \<Rightarrow> nat" where
  "civil_month d y 0 = 1"
| "civil_month d y (Suc m) = (if days_from_civil y (int (Suc m)) 1 \<le> d then Suc m else civil_month d y m)"

definition digit_char :: "int \<Rightarrow> char" where
  "digit_char n = char_of (48 + nat (n mod 10))"

definition two_digits :: "int \<Rightarrow> string" where
  "two_digits n = [digit_char (n div 10), digit_char n]"

definition three_digits :: "int \<Rightarrow> string" where
  "three_digits n = digit_char (n div 100) # two_digits n"

definition four_digits :: "int \<Rightarrow> string" where
  "four_digits n = digit_char (n div 1000) # three_digits n"

text \<open>Of a time after the epoch and before the year 10000.\<close>

definition toISOString :: "int \<Rightarrow> string" where
  "toISOString t =
     (let d = t div 86400000; r = t mod 86400000;
          y = int (civil_year d 1970); m = int (civil_month d y 12)
      in four_digits y @ ''-'' @ two_digits m @ ''-'' @ two_digits (d - days_from_civil y m 1 + 1) @ ''T''
         @ two_digits (r div 3600000) @ '':'' @ two_digits (r div 60000 mod 60) @ '':'' @ two_digits (r div 1000 mod 60)
         @ ''.'' @ three_digits (r mod 1000) @ ''Z'')"

lemma digit_char_val [simp]: "digit_val (digit_char n) = nat (n mod 10)" "is_digit (digit_char n)"
proof -
  have "n mod 10 < 10" by simp
  then have b: "nat (n mod 10) < 10" by (simp add: nat_less_iff)
  then have o: "of_char (digit_char n) = 48 + nat (n mod 10)"
    unfolding digit_char_def of_char_of by (simp add: take_bit_nat_eq_self)
  with b show "digit_val (digit_char n) = nat (n mod 10)" "is_digit (digit_char n)" by (simp_all add: digit_val_def is_digit_def)
qed

lemma digits_int_chars: "digits_int (map digit_char ns) = Some (foldl (\<lambda>a n. 10 * a + n mod 10) 0 ns)"
proof -
  have "foldl (\<lambda>a c. 10 * a + int (digit_val c)) a (map digit_char ns) = foldl (\<lambda>a n. 10 * a + n mod 10) a ns" for a
    by (induction ns arbitrary: a) simp_all
  then show ?thesis by (simp add: digits_int_def list_all_iff)
qed

lemma tens: "10 * (n div 10) + n mod 10 = (n :: int)"
  by simp

lemma two_digits_int:
  assumes "0 \<le> n" "n < 100"
  shows "digits_int (two_digits n) = Some n"
proof -
  have "n div 10 mod 10 = n div 10" using assms by (intro mod_pos_pos_trivial) auto
  then have "foldl (\<lambda>a n. 10 * a + n mod 10) 0 [n div 10, n] = n" by simp
  then show ?thesis using digits_int_chars [of "[n div 10, n]"] by (simp add: two_digits_def del: foldl_Cons)
qed

lemma three_digits_int:
  assumes "0 \<le> n" "n < 1000"
  shows "digits_int (three_digits n) = Some n"
proof -
  have "n div 100 mod 10 = n div 100" using assms by (intro mod_pos_pos_trivial) auto
  moreover have "n div 100 = n div 10 div 10" by (simp add: zdiv_zmult2_eq [symmetric])
  ultimately have "foldl (\<lambda>a n. 10 * a + n mod 10) 0 [n div 100, n div 10, n] = n" by (simp add: tens)
  then show ?thesis using digits_int_chars [of "[n div 100, n div 10, n]"] by (simp add: three_digits_def two_digits_def del: foldl_Cons)
qed

lemma four_digits_int:
  assumes "0 \<le> n" "n < 10000"
  shows "digits_int (four_digits n) = Some n"
proof -
  have "n div 1000 mod 10 = n div 1000" using assms by (intro mod_pos_pos_trivial) auto
  moreover have "n div 1000 = n div 10 div 10 div 10" "n div 100 = n div 10 div 10" by (simp_all add: zdiv_zmult2_eq [symmetric])
  ultimately have "foldl (\<lambda>a n. 10 * a + n mod 10) 0 [n div 1000, n div 100, n div 10, n] = n" by (simp add: tens)
  then show ?thesis using digits_int_chars [of "[n div 1000, n div 100, n div 10, n]"]
    by (simp add: four_digits_def three_digits_def two_digits_def del: foldl_Cons)
qed

lemma div_before:
  fixes y k :: int
  assumes "0 < k"
  shows "(y - 1) div k = y div k - (if y mod k = 0 then 1 else 0)"
proof (cases "y mod k = 0")
  case True
  have "y - 1 = k * (y div k - 1) + (k - 1)" using True mult_div_mod_eq [of k y] by (simp add: algebra_simps)
  from int_div_pos_eq [OF this] show ?thesis using True assms by simp
next
  case False
  have "y - 1 = k * (y div k) + (y mod k - 1)" using mult_div_mod_eq [of k y] by simp
  moreover have "0 < y mod k" "y mod k < k" using False assms by (simp_all add: order.not_eq_order_implies_strict)
  ultimately show ?thesis using False int_div_pos_eq [of "y - 1" k "y div k" "y mod k - 1"] by simp
qed

lemma february: "y div 4 - (y - 1) div 4 - (y div 100 - (y - 1) div 100) + (y div 400 - (y - 1) div 400)
    = (if leap_year y then 1 else 0)" for y :: int
proof -
  have "y mod 400 = 0 \<longrightarrow> y mod 100 = 0" unfolding mod_eq_0_iff_dvd by (intro impI, erule dvd_trans [rotated]) simp
  moreover have "y mod 100 = 0 \<longrightarrow> y mod 4 = 0" unfolding mod_eq_0_iff_dvd by (intro impI, erule dvd_trans [rotated]) simp
  ultimately consider "y mod 400 = 0" "y mod 100 = 0" "y mod 4 = 0" | "y mod 400 \<noteq> 0" "y mod 100 = 0" "y mod 4 = 0"
    | "y mod 400 \<noteq> 0" "y mod 100 \<noteq> 0" "y mod 4 = 0" | "y mod 400 \<noteq> 0" "y mod 100 \<noteq> 0" "y mod 4 \<noteq> 0" by argo
  then have "(if y mod 4 = 0 then 1 else 0) - (if y mod 100 = 0 then 1 else 0) + (if y mod 400 = 0 then 1 else 0)
      = (if leap_year y then 1 else (0 :: int))"
    unfolding leap_year_def by cases simp_all
  moreover have "a - (a - p) - (b - (b - q)) + (c - (c - r)) = p - q + r" for a b c p q r :: int by simp
  ultimately show ?thesis
    by (simp only: div_before [of 4 y, simplified] div_before [of 100 y, simplified] div_before [of 400 y, simplified])
qed

lemma february_step: "days_from_civil y 3 1 = days_from_civil y 2 1 + days_in_month y 2"
  using february [of y] by (cases "leap_year y") (simp_all add: days_from_civil_def days_in_month_def Let_def)

lemma month_step:
  assumes "1 \<le> m" "m \<le> 11"
  shows "days_from_civil y (int (Suc m)) 1 = days_from_civil y (int m) 1 + days_in_month y (int m)"
proof (cases "m = 2")
  case True
  then show ?thesis using february_step by simp
next
  case False
  then have "m \<in> {1, 3, 4, 5, 6, 7, 8, 9, 10, 11}" using assms by simp arith
  then show ?thesis by (auto simp: days_from_civil_def days_in_month_def Let_def)
qed

lemma year_step: "days_from_civil (y + 1) 1 1 = days_from_civil y 12 1 + 31"
  by (simp add: days_from_civil_def)

lemma days_day: "days_from_civil y m k = days_from_civil y m 1 + k - 1"
  by (simp add: days_from_civil_def Let_def)

lemma civil_year_bounds:
  "days_from_civil (int y) 1 1 \<le> d \<Longrightarrow>
     days_from_civil (int (civil_year d y)) 1 1 \<le> d \<and> d < days_from_civil (int (civil_year d y) + 1) 1 1 \<and> y \<le> civil_year d y"
proof (induction d y rule: civil_year.induct)
  case (1 d y)
  show ?case
  proof (cases "days_from_civil (int (Suc y)) 1 1 \<le> d")
    case True
    then show ?thesis using 1(1) [OF True True] by (subst (1 2 3) civil_year.simps) (simp del: of_nat_Suc)
  next
    case False
    then show ?thesis using 1(2) by (subst (1 2 3) civil_year.simps) (simp add: add.commute)
  qed
qed

lemma civil_month_down:
  "days_from_civil y 1 1 \<le> d \<Longrightarrow> 1 \<le> n \<Longrightarrow> n \<le> 12 \<Longrightarrow>
     d < (if n = 12 then days_from_civil (y + 1) 1 1 else days_from_civil y (int (Suc n)) 1) \<Longrightarrow>
   (let m = civil_month d y n in 1 \<le> m \<and> m \<le> 12 \<and> days_from_civil y (int m) 1 \<le> d
      \<and> d < days_from_civil y (int m) 1 + days_in_month y (int m))"
proof (induction n)
  case (Suc n)
  show ?case
  proof (cases "days_from_civil y (int (Suc n)) 1 \<le> d")
    case True
    have "(if Suc n = 12 then days_from_civil (y + 1) 1 1 else days_from_civil y (int (Suc (Suc n))) 1)
        = days_from_civil y (int (Suc n)) 1 + days_in_month y (int (Suc n))"
    proof (cases "Suc n = 12")
      case True
      then show ?thesis using year_step [of y] by (simp add: days_in_month_def)
    next
      case False
      then show ?thesis using month_step [of "Suc n" y] Suc.prems(3) by simp
    qed
    then show ?thesis using True Suc.prems by (simp add: Let_def del: of_nat_Suc)
  next
    case False
    then have "1 \<le> n" using Suc.prems(1) by (cases n) auto
    then show ?thesis using Suc False by (simp add: Let_def del: of_nat_Suc)
  qed
qed simp

lemma civil_month_bounds:
  assumes "days_from_civil y 1 1 \<le> d" "d < days_from_civil (y + 1) 1 1"
  defines "m \<equiv> int (civil_month d y 12)"
  shows "1 \<le> m \<and> m \<le> 12 \<and> days_from_civil y m 1 \<le> d \<and> d < days_from_civil y m 1 + days_in_month y m"
  using civil_month_down [of y d 12] assms by (simp add: Let_def)

lemma date_parse_format:
  assumes "digits_int ys = Some y" "digits_int ms = Some m" "digits_int ds = Some d" "digits_int hs = Some h" "digits_int is = Some mi"
    "digits_int ss = Some sec" "digits_int ts = Some milli"
    "length ys = 4" "length ms = 2" "length ds = 2" "length hs = 2" "length is = 2" "length ss = 2" "length ts = 3"
  shows "date_fields (ys @ ''-'' @ ms @ ''-'' @ ds @ ''T'' @ hs @ '':'' @ is @ '':'' @ ss @ ''.'' @ ts @ ''Z'') = Some [y, m, d, h, mi, sec, milli]"
  using assms by (simp add: date_fields_def nth_append)

lemma parse_toISOString:
  assumes "0 \<le> t" "t < 253402300800000"
  shows "dateParse (toISOString t) = Some t"
proof -
  define d where "d = t div 86400000"
  define r where "r = t mod 86400000"
  define y where "y = int (civil_year d 1970)"
  define m where "m = int (civil_month d y 12)"
  have d: "0 \<le> d" "d < 2932897" using assms by (simp_all add: d_def)
  have yb: "days_from_civil y 1 1 \<le> d" "d < days_from_civil (y + 1) 1 1" "1970 \<le> y"
    using civil_year_bounds [of 1970 d] d(1) by (simp_all add: y_def days_from_civil_def)
  have "y < 10000"
  proof (rule ccontr)
    assume "\<not> y < 10000"
    then have "days_from_civil 10000 1 1 \<le> days_from_civil y 1 1"
      by (simp add: days_from_civil_def Let_def)
    then show False using yb(1) d(2) by (simp add: days_from_civil_def)
  qed
  note mb = civil_month_bounds [OF yb(1,2), folded m_def]
  have dm: "days_in_month y m \<le> 31" by (simp add: days_in_month_def)
  have r: "0 \<le> r" "r < 86400000" by (simp_all add: r_def)
  have f: "date_fields (toISOString t) = Some [y, m, d - days_from_civil y m 1 + 1, r div 3600000, r div 60000 mod 60, r div 1000 mod 60, r mod 1000]"
    unfolding toISOString_def Let_def d_def [symmetric] r_def [symmetric] y_def [symmetric] m_def [symmetric]
    using \<open>y < 10000\<close> yb(3) mb dm r
    by (intro date_parse_format two_digits_int three_digits_int four_digits_int) (simp_all add: four_digits_def three_digits_def two_digits_def)
  have "r = ((r div 3600000 * 60 + r div 60000 mod 60) * 60 + r div 1000 mod 60) * 1000 + r mod 1000"
  proof -
    have "r div 60000 = r div 1000 div 60" "r div 3600000 = r div 1000 div 60 div 60" by (simp_all add: zdiv_zmult2_eq [symmetric])
    moreover have "r = ((h * 60 + b) * 60 + c) * 1000 + e"
      if "1000 * a + e = r" "60 * a' + c = a" "60 * h + b = a'" for a a' b c e h using that by simp
    ultimately show ?thesis
      using mult_div_mod_eq [of 1000 r] mult_div_mod_eq [of 60 "r div 1000"] mult_div_mod_eq [of 60 "r div 1000 div 60"] by (simp only:)
  qed
  moreover have "days_from_civil y m (d - days_from_civil y m 1 + 1) = d" using days_day [of y m "d - days_from_civil y m 1 + 1"] by simp
  moreover have "t = d * 86400000 + r" by (simp add: d_def r_def)
  moreover have "(((d * 24 + h) * 60 + mi) * 60 + sec) * 1000 + ms = d * 86400000 + (((h * 60 + mi) * 60 + sec) * 1000 + ms)"
    for h mi sec ms :: int by simp
  moreover have "r div 3600000 \<le> 23" "r div 60000 mod 60 \<le> 59" "r div 1000 mod 60 \<le> 59"
    using r zdiv_mono1 [of r 86399999 3600000] pos_mod_bound [of 60 "r div 60000"] pos_mod_bound [of 60 "r div 1000"]
    by (simp_all only: zle_diff1_eq [symmetric])
  ultimately show ?thesis
    using mb unfolding dateParse_def f by simp
qed
end
