(* ===== verification/ProcessIdentity.thy ===== *)
theory ProcessIdentity
  imports IsoDate ResourceAccounting
begin

text \<open>
  Which process a record belongs to (\<open>src/local/process-identity.mjs\<close>): the readings of \<open>/proc\<close> and of the process
  table, the splitting of a command line, and the verdict whether the owner of a record is still the process that
  wrote it.  The signals and the process table are parameters; a start time is a number of milliseconds.
\<close>

section \<open>Readings\<close>

text \<open>\<open>kill 0\<close> succeeds or fails with a code; a negative argument addresses a process group.\<close>

definition kill_alive :: "(int \<Rightarrow> string option) \<Rightarrow> int \<Rightarrow> bool" where
  "kill_alive kill target = (case kill target of None \<Rightarrow> True | Some code \<Rightarrow> code = ''EPERM'')"

definition isPidAlive :: "(int \<Rightarrow> string option) \<Rightarrow> jsv \<Rightarrow> bool" where
  "isPidAlive kill pid = (let parsed = normalizePid pid in if parsed = 0 then False else kill_alive kill (int parsed))"

text \<open>\<open>text.slice(text.lastIndexOf(")") + 1)\<close>, when there is one.\<close>

definition after_last :: "char \<Rightarrow> string \<Rightarrow> string option" where
  "after_last c s = (if c \<in> set s then Some (rev (takeWhile (\<lambda>d. d \<noteq> c) (rev s))) else None)"

text \<open>\<open>s.split(/\s+/)\<close>.\<close>

function split_ws :: "string \<Rightarrow> string list" where
  "split_ws s =
     (let w = takeWhile (\<lambda>c. \<not> is_ws c) s; r = dropWhile (\<lambda>c. \<not> is_ws c) s
      in if r = [] then [w] else w # split_ws (dropWhile is_ws r))"
  by pat_completeness auto
termination
proof (relation "measure length")
  fix s w r
  assume r: "(r :: string) = dropWhile (\<lambda>c. \<not> is_ws c) s" "r \<noteq> []"
  then have "is_ws (hd r)" by (metis hd_dropWhile)
  then have "length (dropWhile is_ws r) < length r"
    using r(2) by (cases r) (auto simp: le_imp_less_Suc length_dropWhile_le)
  moreover have "length r \<le> length s" unfolding r(1) by (rule length_dropWhile_le)
  ultimately show "(dropWhile is_ws r, s) \<in> measure length" by simp
qed simp

declare split_ws.simps [simp del]

definition parseLinuxProcessStartTicks :: "string \<Rightarrow> rat option" where
  "parseLinuxProcessStartTicks stat = (case after_last (CHR '')'') stat of
     None \<Rightarrow> None
   | Some r \<Rightarrow> (let fields = split_ws (trim r); value = (if 19 < length fields then str_Number (fields ! 19) else NaN)
       in if isSafeInteger (JNum value) \<and> num_le (Fin 0) value then fin_of value else None))"

text \<open>The expression \<open>/^btime\s+(\d+)\s*$/m\<close> at the beginning of a line, and its first match.\<close>

definition is_newline :: "char \<Rightarrow> bool" where
  "is_newline c = (of_char c \<in> {10, 13 :: nat})"

definition btime_here :: "string \<Rightarrow> string option" where
  "btime_here s =
     (let r = drop 5 s; ds = takeWhile is_digit (dropWhile is_ws r); rest = dropWhile is_digit (dropWhile is_ws r);
          ws = takeWhile is_ws rest
      in if starts_with ''btime'' s \<and> r \<noteq> [] \<and> is_ws (hd r) \<and> ds \<noteq> [] \<and> (dropWhile is_ws rest = [] \<or> list_ex is_newline ws)
         then Some ds else None)"

fun btime_search :: "bool \<Rightarrow> string \<Rightarrow> string option" where
  "btime_search bol [] = None"
| "btime_search bol (c # s) =
     (case (if bol then btime_here (c # s) else None) of Some ds \<Rightarrow> Some ds | None \<Rightarrow> btime_search (is_newline c) s)"

definition parseLinuxBootTimeMs :: "string \<Rightarrow> rat option" where
  "parseLinuxBootTimeMs procStat = (case btime_search True procStat of
     None \<Rightarrow> None
   | Some ds \<Rightarrow> (let seconds = digits_rat ds in
       if isSafeInteger (JNum (Fin seconds)) \<and> seconds > 0 then Some (seconds * 1000) else None))"

definition parseLinuxProcessStartTime :: "string \<Rightarrow> string \<Rightarrow> rat option" where
  "parseLinuxProcessStartTime stat procStat =
     (case (parseLinuxProcessStartTicks stat, parseLinuxBootTimeMs procStat) of
        (Some ticks, Some boot) \<Rightarrow> Some (boot + of_int (round (ticks * (1000 / 100))))
      | _ \<Rightarrow> None)"

text \<open>One line of the process table, \<open>pid|time\<close> or \<open>pid time\<close>; \<open>parseTime\<close> reads the time of the platform's listing.\<close>

definition snapshot_match :: "string \<Rightarrow> (string \<times> string) option" where
  "snapshot_match line =
     (let ds = takeWhile is_digit line; rest = dropWhile is_digit line;
          dot = (\<lambda>s. if s \<noteq> [] \<and> \<not> list_ex is_newline s then Some (ds, s) else None)
      in if ds = [] \<or> hd ds = CHR ''0'' \<or> rest = [] then None
         else if hd rest = CHR ''|'' then dot (tl rest)
         else if is_ws (hd rest) then dot (dropWhile is_ws rest) else None)"

definition parseProcessStartSnapshotLine :: "(string \<Rightarrow> rat option) \<Rightarrow> string \<Rightarrow> (nat \<times> rat) option" where
  "parseProcessStartSnapshotLine parseTime value =
     (let line = trim value in
      if line = [] then None
      else (case snapshot_match line of
          None \<Rightarrow> None
        | Some (ds, time) \<Rightarrow>
            (if digits_rat ds > 9007199254740991 \<or> digits_rat ds \<le> 0 then None
             else map_option (\<lambda>t. (nat \<lfloor>digits_rat ds\<rfloor>, t)) (parseTime time))))"

definition snapshot_lines :: "string \<Rightarrow> string list" where
  "snapshot_lines s = (case split_on (CHR 0x0A) s of [] \<Rightarrow> []
     | ls \<Rightarrow> map (\<lambda>l. if l \<noteq> [] \<and> last l = CHR 0x0D then butlast l else l) (butlast ls) @ [last ls])"

definition sampleProcessStartTimes :: "(string \<Rightarrow> rat option) \<Rightarrow> string option \<Rightarrow> jsv" where
  "sampleProcessStartTimes parseTime output = (case output of
     None \<Rightarrow> JNull
   | Some stdout \<Rightarrow> JObj (foldl (\<lambda>starts line. case parseProcessStartSnapshotLine parseTime line of
        None \<Rightarrow> starts | Some (pid, t) \<Rightarrow> map_set (nat_string pid) (JNum (Fin t)) starts) [] (snapshot_lines stdout)))"

definition processStartTimeFromSnapshot :: "jsv \<Rightarrow> jsv \<Rightarrow> rat option" where
  "processStartTimeFromSnapshot snapshot pid =
     (if \<not> isRecord snapshot then None
      else (let parsed = normalizePid pid in
        if parsed = 0 then None
        else (case js_get snapshot (nat_string parsed) of
            JNum x \<Rightarrow> (case fin_of x of Some q \<Rightarrow> if q > 0 then Some q else None | None \<Rightarrow> None)
          | _ \<Rightarrow> None)))"

section \<open>Splitting a command line\<close>

definition escapable :: "char \<Rightarrow> bool" where
  "escapable c = (is_ws c \<or> c \<in> {CHR 0x27, CHR 0x22, CHR 0x5C})"

text \<open>The loop: the open quote, the argument read so far, and the rest of the line.\<close>

fun split_command :: "char option \<Rightarrow> string \<Rightarrow> string \<Rightarrow> string list" where
  "split_command quote current [] = (if current = [] then [] else [current])"
| "split_command (Some q) current (c # s) =
     (if c = q then split_command None current s
      else if c = CHR 0x5C \<and> q = CHR 0x22 \<and> s \<noteq> [] \<and> hd s \<in> {CHR 0x22, CHR 0x5C}
        then split_command (Some q) (current @ [hd s]) (tl s)
      else split_command (Some q) (current @ [c]) s)"
| "split_command None current (c # s) =
     (if c = CHR 0x22 \<or> c = CHR 0x27 then split_command (Some c) current s
      else if is_ws c then (if current \<noteq> [] then current # split_command None [] s else split_command None current s)
      else if c = CHR 0x5C \<and> s \<noteq> [] \<and> escapable (hd s) then split_command None (current @ [hd s]) (tl s)
      else split_command None (current @ [c]) s)"

definition splitProcessCommandLine :: "string \<Rightarrow> string list" where
  "splitProcessCommandLine s = split_command None [] s"

section \<open>Whether the owner is still the same process\<close>

definition START_TIME_TOLERANCE_MS :: rat where
  "START_TIME_TOLERANCE_MS = 15000"

definition exactOwnerPid :: "jsv \<Rightarrow> nat" where
  "exactOwnerPid v = (if isSafeInteger v \<and> finite_number v > 0 then nat \<lfloor>finite_number v\<rfloor> else 0)"

definition exactOwnerTime :: "jsv \<Rightarrow> int option" where
  "exactOwnerTime v = (case v of
     JStr s \<Rightarrow> if trim s = [] then None
       else (case dateParse s of None \<Rightarrow> None | Some t \<Rightarrow> if t > 0 \<and> toISOString t = s then Some t else None)
   | _ \<Rightarrow> None)"

record instance_status =
  is_current :: bool
  is_alive :: bool
  is_reclaimable :: bool
  is_reason :: string
  is_pid :: "nat option"
  is_age :: "rat option"
  is_process_start :: "rat option"

definition instance_verdict :: "bool \<Rightarrow> bool \<Rightarrow> string \<Rightarrow> nat option \<Rightarrow> instance_status" where
  "instance_verdict alive reclaimable why pid =
     \<lparr>is_current = False, is_alive = alive, is_reclaimable = reclaimable, is_reason = why, is_pid = pid, is_age = None, is_process_start = None\<rparr>"

text \<open>The start the record gives, or the time of the record itself, against the start that is observed.\<close>

definition owner_reused :: "int option \<Rightarrow> int \<Rightarrow> rat \<Rightarrow> bool" where
  "owner_reused recorded lockStartedAt observed = (case recorded of
     Some r \<Rightarrow> \<bar>observed - of_int r\<bar> > START_TIME_TOLERANCE_MS
   | None \<Rightarrow> of_int lockStartedAt + START_TIME_TOLERANCE_MS < observed)"

definition inspectProcessInstance ::
  "(nat \<Rightarrow> bool) \<Rightarrow> (nat \<Rightarrow> rat option) \<Rightarrow> int \<Rightarrow> rat option \<Rightarrow> jsv \<Rightarrow> instance_status" where
  "inspectProcessInstance isAlive getProcessStartTime now maxAgeMs owner =
     (let pid = exactOwnerPid (js_get owner ''pid'') in
      if pid = 0 then instance_verdict False True ''invalid_pid'' None
      else if \<not> isAlive pid then instance_verdict False True ''not_running'' (Some pid)
      else (case exactOwnerTime (js_get owner ''startedAt'') of
          None \<Rightarrow> instance_verdict True False ''invalid_lock_timestamp'' (Some pid)
        | Some lockStartedAt \<Rightarrow>
           (if of_int lockStartedAt > of_int now + START_TIME_TOLERANCE_MS
            then instance_verdict True False ''future_lock_timestamp'' (Some pid)
            else
             (let observed = getProcessStartTime pid; given = js_get owner ''processStartedAt'' \<noteq> JUndef;
                  recorded = (if given then exactOwnerTime (js_get owner ''processStartedAt'') else None);
                  age = of_int (now - lockStartedAt) :: rat
              in if given \<and> recorded = None then instance_verdict True False ''invalid_process_timestamp'' (Some pid)
                 else if (case observed of Some t \<Rightarrow> t > 0 \<and> owner_reused recorded lockStartedAt t | None \<Rightarrow> False)
                   then (instance_verdict True True ''pid_reused'' (Some pid))\<lparr>is_process_start := observed\<rparr>
                 else if (case maxAgeMs of Some m \<Rightarrow> m > 0 \<and> age > m | None \<Rightarrow> False)
                   then (instance_verdict True False ''lock_expired'' (Some pid))\<lparr>is_age := Some age\<rparr>
                 else \<lparr>is_current = True, is_alive = True, is_reclaimable = False, is_reason = ''current_process'',
                        is_pid = Some pid, is_age = Some (max 0 age), is_process_start = observed\<rparr>))))"

section \<open>Properties\<close>

lemma trim_Nil_iff: "trim s = [] \<longleftrightarrow> list_all is_ws s"
proof -
  have "list_all is_ws (dropWhile is_ws s) \<longleftrightarrow> list_all is_ws s" by (induction s) auto
  then show ?thesis by (simp add: trim_def trim_end_def trim_start_def list_all_iff)
qed

lemma toISOString_nonempty [simp]: "trim (toISOString t) \<noteq> []"
  by (simp add: trim_Nil_iff toISOString_def Let_def is_ws_def)

lemma exactOwnerTime_written:
  "0 < t \<Longrightarrow> t < 253402300800000 \<Longrightarrow> exactOwnerTime (JStr (toISOString t)) = Some t"
  by (simp add: exactOwnerTime_def parse_toISOString)

lemma exactOwnerPid_positive: "isSafeInteger v \<Longrightarrow> finite_number v > 0 \<Longrightarrow> exactOwnerPid v \<noteq> 0"
proof -
  assume v: "isSafeInteger v" "finite_number v > 0"
  then obtain x q where x: "v = JNum x" "fin_of x = Some q" "rat_is_int q" "q > 0"
    by (auto simp: isSafeInteger_def finite_number_def split: jsv.splits option.splits)
  then have "of_int \<lfloor>q\<rfloor> > (0 :: rat)" unfolding rat_is_int_def by metis
  then have "0 < \<lfloor>q\<rfloor>" by (simp only: of_int_0_less_iff)
  with v x(1,2,4) show ?thesis by (simp only: exactOwnerPid_def finite_number_def) simp
qed

text \<open>A reclaimable owner is dead, or its pid belongs to a process that started at another time.\<close>

lemma reclaimable_cases:
  assumes "is_reclaimable (inspectProcessInstance isAlive start now m owner)" "exactOwnerPid (js_get owner ''pid'') = pid" "pid \<noteq> 0"
  shows "\<not> isAlive pid
     \<or> (\<exists>lock t. exactOwnerTime (js_get owner ''startedAt'') = Some lock \<and> start pid = Some t \<and> t > 0
          \<and> owner_reused (exactOwnerTime (js_get owner ''processStartedAt'')) lock t)"
  using assms unfolding inspectProcessInstance_def instance_verdict_def Let_def
  by (auto split: if_splits option.splits simp: exactOwnerTime_def)

text \<open>The owner that is the same live process is never reclaimable.\<close>

lemma same_process_kept:
  assumes "isAlive pid" "exactOwnerPid (js_get owner ''pid'') = pid" "pid \<noteq> 0"
    "exactOwnerTime (js_get owner ''processStartedAt'') = Some r"
    "case start pid of None \<Rightarrow> True | Some t \<Rightarrow> \<bar>t - of_int r\<bar> \<le> START_TIME_TOLERANCE_MS"
  shows "\<not> is_reclaimable (inspectProcessInstance isAlive start now m owner)"
proof
  assume "is_reclaimable (inspectProcessInstance isAlive start now m owner)"
  from reclaimable_cases [OF this assms(2,3)] assms show False by (auto simp: owner_reused_def split: option.splits)
qed

lemma dead_owner_reclaimed: "\<not> isAlive (exactOwnerPid (js_get owner ''pid'')) \<Longrightarrow> is_reclaimable (inspectProcessInstance isAlive start now m owner)"
  by (simp add: inspectProcessInstance_def instance_verdict_def Let_def)

text \<open>The arguments, each in double quotes.\<close>

definition quote_argument :: "string \<Rightarrow> string" where
  "quote_argument a = CHR 0x22 # concat (map (\<lambda>c. if c = CHR 0x22 \<or> c = CHR 0x5C then [CHR 0x5C, c] else [c]) a) @ [CHR 0x22]"

lemma split_quoted_chars:
  "split_command (Some (CHR 0x22)) current (concat (map (\<lambda>c. if c = CHR 0x22 \<or> c = CHR 0x5C then [CHR 0x5C, c] else [c]) a) @ CHR 0x22 # s)
     = split_command None (current @ a) s"
proof (induction a arbitrary: current)
  case (Cons c a)
  show ?case
  proof (cases "c = CHR 0x22 \<or> c = CHR 0x5C")
    case True
    then show ?thesis using Cons [of "current @ [c]"] by auto
  next
    case False
    then show ?thesis using Cons [of "current @ [c]"] by auto
  qed
qed simp

lemma split_quoted_argument: "split_command None [] (quote_argument a @ s) = split_command None a s"
  using split_quoted_chars [of "[]" a s] by (simp add: quote_argument_def)

lemma split_space: "split_command None a (CHR '' '' # s) = (if a \<noteq> [] then [a] else []) @ split_command None [] s"
  by (simp add: is_ws_def)

lemma split_quoted: "splitProcessCommandLine (join '' '' (map quote_argument args)) = filter (\<lambda>a. a \<noteq> []) args"
proof (induction args)
  case (Cons a args)
  show ?case
  proof (cases args)
    case Nil
    then show ?thesis using split_quoted_argument [of a "[]"] by (simp add: splitProcessCommandLine_def)
  next
    case (Cons b bs)
    with Cons.IH show ?thesis
      by (simp add: splitProcessCommandLine_def split_quoted_argument split_space del: split_command.simps)
  qed
qed (simp add: splitProcessCommandLine_def)

end
