(* ===== verification/ResourceCoordinator.thy ===== *)
theory ResourceCoordinator
  imports ProcessIdentity ResourceWaiters
begin

text \<open>
  The resource coordinator (\<open>src/local/resource-admission.mjs\<close>) over its directory: the liveness of leases
  (\<open>resource-lease-liveness.mjs\<close>), the files of waiters (\<open>resource-waiters.mjs\<close>), the key of a project
  (\<open>resource-project-key.mjs\<close>), the cached host sample (\<open>resource-host-cache.mjs\<close>), and the transactions the
  processes run under the lock: an attempt to acquire, binding, release, and the snapshot.

  The directory is a value: the lease files, the waiter files and the host sample, each file its JSON value.  A
  transaction is a function on it, since the lock makes it atomic.  The environment of a transaction gives the
  process that runs it, the clock, the signals, and the process tables it has sampled.  Staging files
  of interrupted writes, hard links and failing file calls are not modelled.
\<close>

definition PROVISIONAL_TTL_MS :: int where
  "PROVISIONAL_TTL_MS = 30000"

definition WAITER_GRACE_MS :: int where
  "WAITER_GRACE_MS = 5000"

record coordinator_env =
  ce_platform :: string
  ce_pid :: nat
  ce_start :: rat
  ce_kill :: "int \<Rightarrow> string option"
  ce_now :: int
  ce_starts :: jsv
  ce_parents :: jsv
  ce_project :: string

type_synonym directory = "(string \<times> jsv) list"

record resource_store =
  st_leases :: directory
  st_waiters :: directory
  st_sample :: jsv

definition empty_store :: resource_store where
  "empty_store = \<lparr>st_leases = [], st_waiters = [], st_sample = JNull\<rparr>"

section \<open>Files\<close>

definition matches_expected :: "jsv \<Rightarrow> (string \<times> jsv) list \<Rightarrow> bool" where
  "matches_expected value expected = list_all (\<lambda>(k, v). js_get value k = v) expected"

definition removeOwnedJsonFile :: "string \<Rightarrow> (string \<times> jsv) list \<Rightarrow> directory \<Rightarrow> directory \<times> bool" where
  "removeOwnedJsonFile name expected dir = (case map_of dir name of
     None \<Rightarrow> (dir, False)
   | Some value \<Rightarrow> if isRecord value \<and> matches_expected value expected then (map_del name dir, True) else (dir, False))"

definition createExclusiveFile :: "string \<Rightarrow> jsv \<Rightarrow> directory \<Rightarrow> string + directory" where
  "createExclusiveFile name value dir = (if map_of dir name \<noteq> None then Inl ''EEXIST'' else Inr (map_set name value dir))"

definition isIgnorableCoordinatorMetadata :: "string \<Rightarrow> bool" where
  "isIgnorableCoordinatorMetadata name =
     (name \<in> {''.DS_Store'', ''Icon'' @ [CHR 0x0D], ''Thumbs.db'', ''desktop.ini''})"

definition hex_id :: "string \<Rightarrow> bool" where
  "hex_id s = (length s = 32 \<and> list_all is_hex_lower s)"

text \<open>A file name of the form \<open>prefix<id>.json\<close>.\<close>

definition record_name :: "string \<Rightarrow> string \<Rightarrow> string" where
  "record_name prefix i = prefix @ i @ ''.json''"

definition is_record_name :: "string \<Rightarrow> string \<Rightarrow> bool" where
  "is_record_name prefix name = (\<exists>i \<in> {take 32 (drop (length prefix) name)}. hex_id i \<and> name = record_name prefix i)"

definition leasePath :: "string \<Rightarrow> string + string" where
  "leasePath i = (if hex_id i then Inr (record_name ''lease_'' i) else Inl ''invalid resource lease id'')"

definition waiterPath :: "string \<Rightarrow> string + string" where
  "waiterPath i = (if hex_id i then Inr (record_name ''wait_'' i) else Inl ''invalid resource waiter id'')"

section \<open>Whether a lease is alive\<close>

definition env_alive :: "coordinator_env \<Rightarrow> nat \<Rightarrow> bool" where
  "env_alive env pid = kill_alive (ce_kill env) (int pid)"

definition env_start :: "coordinator_env \<Rightarrow> nat \<Rightarrow> rat option" where
  "env_start env pid = (if pid = ce_pid env then Some (ce_start env)
     else processStartTimeFromSnapshot (ce_starts env) (JNum (Fin (of_nat pid))))"

definition lease_owner :: "jsv \<Rightarrow> jsv" where
  "lease_owner l = js_get l ''owner''"

definition resourceLeaseOwnerStatusFromStart :: "coordinator_env \<Rightarrow> jsv \<Rightarrow> rat option \<Rightarrow> instance_status" where
  "resourceLeaseOwnerStatusFromStart env l observedStart =
     inspectProcessInstance (env_alive env) (\<lambda>_. observedStart) (ce_now env) None
       (JObj [(''pid'', js_get (lease_owner l) ''pid''), (''startedAt'', js_get l ''acquired_at''),
              (''processStartedAt'', js_get (lease_owner l) ''process_started_at'')])"

definition resourceLeaseOwnerStatus :: "coordinator_env \<Rightarrow> jsv \<Rightarrow> instance_status" where
  "resourceLeaseOwnerStatus env l =
     resourceLeaseOwnerStatusFromStart env l (env_start env (exactOwnerPid (js_get (lease_owner l) ''pid'')))"

definition resourceProcessGroupAlive :: "coordinator_env \<Rightarrow> jsv \<Rightarrow> bool" where
  "resourceProcessGroupAlive env v = (case fin_of (js_Number v) of
     None \<Rightarrow> False
   | Some pgid \<Rightarrow> ce_platform env \<noteq> ''win32'' \<and> rat_is_int pgid \<and> pgid > 0 \<and> kill_alive (ce_kill env) (- \<lfloor>pgid\<rfloor>))"

definition resourceLeaseIsStale :: "coordinator_env \<Rightarrow> int \<Rightarrow> jsv \<Rightarrow> bool" where
  "resourceLeaseIsStale env provisionalTtlMs l =
     (let w = lease_owner l; status = resourceLeaseOwnerStatus env l in
      if js_get w ''kind'' = JStr ''process'' \<and> is_reason status = ''pid_reused'' then True
      else if js_get w ''kind'' = JStr ''process'' \<and> js_get w ''process_group_isolated'' = JBool True
              \<and> resourceProcessGroupAlive env (js_get w ''process_group_id'') then False
      else if js_get w ''kind'' = JStr ''provisional''
              \<and> (case parse_time (js_get l ''acquired_at'') of Some t \<Rightarrow> ce_now env - t > provisionalTtlMs | None \<Rightarrow> False) then True
      else is_reclaimable status)"

section \<open>Leases\<close>

definition validOwner :: "jsv \<Rightarrow> bool" where
  "validOwner w = (js_get w ''kind'' \<in> JStr ` {''provisional'', ''process''}
     \<and> positive_safe_integer (js_get w ''pid'') \<and> parse_time (js_get w ''process_started_at'') \<noteq> None)"

definition valid_binding :: "jsv \<Rightarrow> string + unit" where
  "valid_binding l =
     (let w = lease_owner l; isolated = js_get w ''process_group_isolated'' in
      if js_get w ''kind'' = JStr ''process''
      then (if parse_time (js_get l ''bound_at'') = None \<or> \<not> isBool isolated
              then Inl ''resource coordinator process lease is invalid''
            else if isolated = JBool True \<and> js_get w ''process_group_id'' \<noteq> js_get w ''pid''
              then Inl ''resource coordinator process group is invalid''
            else if isolated \<noteq> JBool True \<and> js_get w ''process_group_id'' \<noteq> JNull
              then Inl ''resource coordinator process group is invalid''
            else Inr ())
      else if js_get l ''bound_at'' \<noteq> JNull then Inl ''resource coordinator provisional lease is invalid''
      else Inr ())"

definition validateLease :: "jsv \<Rightarrow> string + unit" where
  "validateLease l =
     (if js_get l ''schema_version'' \<noteq> JNum (Fin 1) \<or> \<not> hex_string 32 (js_get l ''lease_id'') \<or> \<not> hex_string 64 (js_get l ''token'')
      then Inl ''resource coordinator lease is invalid''
      else if parse_time (js_get l ''acquired_at'') = None \<or> \<not> validOwner (lease_owner l)
      then Inl ''resource coordinator lease ownership is invalid''
      else res_bind (validateResourceRequest (lease_request l)) (\<lambda>_. valid_binding l))"

definition assertLeaseToken :: "jsv \<Rightarrow> jsv \<Rightarrow> string + unit" where
  "assertLeaseToken l token =
     res_bind (validateLease l) (\<lambda>_. if js_get l ''token'' \<noteq> token then Inl ''resource lease ownership changed'' else Inr ())"

definition lease_key :: "jsv \<Rightarrow> (string \<times> jsv) list" where
  "lease_key l = [(''lease_id'', js_get l ''lease_id''), (''token'', js_get l ''token'')]"

text \<open>The loop over the entries, which prunes the stale leases and collects the others.\<close>

fun prune_leases :: "coordinator_env \<Rightarrow> directory \<Rightarrow> directory \<Rightarrow> directory \<times> (string + jsv list)" where
  "prune_leases env [] dir = (dir, Inr [])"
| "prune_leases env ((name, l) # entries) dir =
     (if isIgnorableCoordinatorMetadata name then prune_leases env entries dir
      else if \<not> is_record_name ''lease_'' name
        then (dir, Inl ''resource coordinator lease directory contains an unexpected entry'')
      else (case validateLease l of
          Inl e \<Rightarrow> (dir, Inl e)
        | Inr _ \<Rightarrow>
           (if resourceLeaseIsStale env PROVISIONAL_TTL_MS l
            then (let (dir', removed) = removeOwnedJsonFile name (lease_key l) dir in
              if removed then prune_leases env entries dir' else (dir', Inl ''resource lease changed during stale pruning''))
            else (let (dir', r) = prune_leases env entries dir in (dir', res_bind r (\<lambda>ls. Inr (l # ls)))))))"

definition pruneAndReadLeases :: "coordinator_env \<Rightarrow> resource_store \<Rightarrow> resource_store \<times> (string + jsv list)" where
  "pruneAndReadLeases env s = (let (dir, r) = prune_leases env (st_leases s) (st_leases s) in (s\<lparr>st_leases := dir\<rparr>, r))"

definition createLease :: "coordinator_env \<Rightarrow> string \<Rightarrow> string \<Rightarrow> jsv \<Rightarrow> jsv" where
  "createLease env i token request =
     JObj [(''schema_version'', JNum (Fin 1)), (''lease_id'', JStr i), (''token'', JStr token),
       (''acquired_at'', JStr (toISOString (ce_now env))), (''bound_at'', JNull), (''project_hash'', JStr (ce_project env)),
       (''owner'', JObj [(''kind'', JStr ''provisional''), (''pid'', JNum (Fin (of_nat (ce_pid env)))),
          (''process_started_at'', JStr (toISOString \<lfloor>ce_start env\<rfloor>))]),
       (''request'', normalizeResourceRequest request)]"

section \<open>Waiters\<close>

definition createResourceWaiter :: "coordinator_env \<Rightarrow> string \<Rightarrow> string \<Rightarrow> jsv \<Rightarrow> int \<Rightarrow> jsv" where
  "createResourceWaiter env i token request waitMs =
     JObj [(''schema_version'', JNum (Fin 1)), (''waiter_id'', JStr i), (''token'', JStr token),
       (''enqueued_at'', JStr (toISOString (ce_now env))),
       (''expires_at'', JStr (toISOString (ce_now env + max 5000 waitMs + WAITER_GRACE_MS))),
       (''owner'', JObj [(''pid'', JNum (Fin (of_nat (ce_pid env)))), (''process_started_at'', JStr (toISOString \<lfloor>ce_start env\<rfloor>))]),
       (''request'', normalizeResourceRequest request)]"

definition waiter_key :: "jsv \<Rightarrow> (string \<times> jsv) list" where
  "waiter_key w = [(''waiter_id'', js_get w ''waiter_id''), (''token'', js_get w ''token'')]"

definition removeResourceWaiter :: "jsv \<Rightarrow> directory \<Rightarrow> directory \<times> bool" where
  "removeResourceWaiter w dir =
     (if \<not> truthy (js_get w ''waiter_id'') \<or> \<not> truthy (js_get w ''token'') then (dir, False)
      else removeOwnedJsonFile (record_name ''wait_'' (waiter_id w)) (waiter_key w) dir)"

definition waiterIsStale :: "coordinator_env \<Rightarrow> jsv \<Rightarrow> bool" where
  "waiterIsStale env w =
     (if (case parse_time (js_get w ''expires_at'') of Some t \<Rightarrow> t < ce_now env | None \<Rightarrow> False) then True
      else is_reclaimable (inspectProcessInstance (env_alive env) (env_start env) (ce_now env) None
        (JObj [(''pid'', js_get (js_get w ''owner'') ''pid''), (''startedAt'', js_get w ''enqueued_at''),
               (''processStartedAt'', js_get (js_get w ''owner'') ''process_started_at'')])))"

fun prune_waiters :: "coordinator_env \<Rightarrow> directory \<Rightarrow> directory \<Rightarrow> directory \<times> (string + jsv list)" where
  "prune_waiters env [] dir = (dir, Inr [])"
| "prune_waiters env ((name, w) # entries) dir =
     (if isIgnorableCoordinatorMetadata name then prune_waiters env entries dir
      else if \<not> is_record_name ''wait_'' name
        then (dir, Inl ''resource coordinator waiter directory contains an unexpected entry'')
      else (case validateWaiter w of
          Inl e \<Rightarrow> (dir, Inl e)
        | Inr _ \<Rightarrow>
           (if waiterIsStale env w
            then (let (dir', removed) = removeResourceWaiter w dir in
              if removed then prune_waiters env entries dir' else (dir', Inl ''resource waiter changed during stale pruning''))
            else (let (dir', r) = prune_waiters env entries dir in (dir', res_bind r (\<lambda>ws. Inr (w # ws)))))))"

definition pruneAndReadWaiters :: "coordinator_env \<Rightarrow> resource_store \<Rightarrow> resource_store \<times> (string + jsv list)" where
  "pruneAndReadWaiters env s = (let (dir, r) = prune_waiters env (st_waiters s) (st_waiters s) in (s\<lparr>st_waiters := dir\<rparr>, r))"

section \<open>The project and the host sample\<close>

definition normalizeResourceProjectIdentity :: "string \<Rightarrow> string \<Rightarrow> string" where
  "normalizeResourceProjectIdentity platform value =
     (if platform \<noteq> ''win32'' then value
      else (let t = map (\<lambda>c. if c = CHR ''/'' then CHR 0x5C else c) value; folded = to_lower t;
                bs = CHR 0x5C; extended = [bs, bs, CHR ''?'', bs]
            in to_lower (if starts_with (extended @ ''unc'' @ [bs]) folded then [bs, bs] @ drop 8 t
                         else if starts_with extended folded then drop 4 t else t)))"

definition resourceProjectContentionKey :: "(string \<Rightarrow> string) \<Rightarrow> jsv \<Rightarrow> string \<Rightarrow> string" where
  "resourceProjectContentionKey sha256 family projectIdentity =
     take 32 (sha256 (''agent-resource-contention-v1'' @ [CHR 0x00]
       @ (case family of JStr f \<Rightarrow> if f \<noteq> [] then f else ''unknown'' | _ \<Rightarrow> ''unknown'') @ [CHR 0x00] @ projectIdentity))"

text \<open>The symbols of an elastic request are copied with its properties.\<close>

definition resourceRequestForProject :: "(string \<Rightarrow> string) \<Rightarrow> string \<Rightarrow> elastic_request \<Rightarrow> elastic_request" where
  "resourceRequestForProject sha256 project r =
     (if js_get (body r) ''serialize_project'' \<noteq> JBool True then r
      else r\<lparr>body := spread (body r)
        [(''contention_key'', JStr (resourceProjectContentionKey sha256 (js_get (body r) ''family'') project))]\<rparr>)"

definition resourceHostNeedsFreshIo :: "jsv \<Rightarrow> bool" where
  "resourceHostNeedsFreshIo r = (js_get r ''resource_class'' \<in> {JStr ''io'', JStr ''unbounded''})"

definition nullish :: "jsv \<Rightarrow> jsv \<Rightarrow> jsv" where
  "nullish v d = (if v \<in> {JUndef, JNull} then d else v)"

definition withCachedIo :: "jsv \<Rightarrow> jsv \<Rightarrow> jsv" where
  "withCachedIo sample cached = spread sample
     [(''disk_mb_per_s'', nullish (js_get cached ''disk_mb_per_s'') JNull),
      (''disk_iops'', nullish (js_get cached ''disk_iops'') JNull),
      (''io_sampled'', JBool True),
      (''io_sampled_at_ms'', JNum (let x = js_Number (js_get cached ''io_sampled_at_ms'') in
         if isFinite x then x else js_Number (js_get cached ''sampled_at_ms'')))]"

text \<open>The age of a time stamp, where it is a number, between zero and the bound.\<close>

definition fresh_stamp :: "int \<Rightarrow> jsv \<Rightarrow> rat \<Rightarrow> bool" where
  "fresh_stamp current stamp bound = (case fin_of (js_Number stamp) of
     Some t \<Rightarrow> 0 \<le> of_int current - t \<and> of_int current - t \<le> bound | None \<Rightarrow> False)"

text \<open>\<open>sampleHost\<close> takes whether the sample is quick, and the previous sample.\<close>

definition freshResourceHostSnapshot :: "jsv \<Rightarrow> int \<Rightarrow> (bool \<Rightarrow> jsv \<Rightarrow> jsv) \<Rightarrow> jsv \<Rightarrow> string \<Rightarrow> jsv" where
  "freshResourceHostSnapshot cached current sampleHost request scope =
     (let scoped = (if js_get cached ''sample_scope'' = JStr scope then cached else JNull);
          cpuPrevious = (if isRecord cached \<and> fresh_stamp current (js_get cached ''sampled_at_ms'') 2000 then cached else JNull);
          needsIo = resourceHostNeedsFreshIo request;
          ioSampled = (js_get scoped ''io_sampled'' = JBool True);
          ioFresh = fresh_stamp current (nullish (js_get scoped ''io_sampled_at_ms'') (js_get scoped ''sampled_at_ms'')) 5000;
          scope_field = [(''sample_scope'', JStr scope)]
      in if isRecord scoped \<and> fresh_stamp current (js_get scoped ''sampled_at_ms'') 500 \<and> (\<not> needsIo \<or> ioSampled) then scoped
         else if \<not> needsIo
           then (let quick = spread (sampleHost True cpuPrevious) scope_field in
             if \<not> ioSampled \<or> \<not> ioFresh then quick else withCachedIo quick scoped)
         else if ioSampled \<and> ioFresh then withCachedIo (spread (sampleHost True cpuPrevious) scope_field) scoped
         else spread (sampleHost False cpuPrevious) scope_field)"

definition publicHost :: "jsv \<Rightarrow> jsv" where
  "publicHost host = JObj (filter (\<lambda>(k, v).
     k \<notin> {''pageouts_total'', ''swapouts_total'', ''cpu_time_ms_total'', ''cpu_idle_ms_total'', ''sample_scope''}) (obj_entries host))"

section \<open>The transactions\<close>

definition store_sample :: "jsv \<Rightarrow> resource_store \<Rightarrow> resource_store \<times> jsv" where
  "store_sample host s = (let enriched = deriveHostRates host (st_sample s) in (s\<lparr>st_sample := enriched\<rparr>, enriched))"

text \<open>The strict inequality of two fields.\<close>

definition js_differs :: "jsv \<Rightarrow> jsv \<Rightarrow> bool" where
  "js_differs a b = (case (a, b) of
     (JNum x, JNum y) \<Rightarrow> x = NaN \<or> y = NaN \<or> fin_of x \<noteq> fin_of y \<or> (fin_of x = None \<and> x \<noteq> y)
   | _ \<Rightarrow> a \<noteq> b)"

definition refit_waiter :: "jsv \<Rightarrow> jsv \<Rightarrow> resource_store \<Rightarrow> jsv \<times> resource_store" where
  "refit_waiter w effectiveRequest s =
     (if list_ex (\<lambda>k. js_differs (js_get (waiter_request w) k) (js_get effectiveRequest k)) [''cpu'', ''memory_mb'', ''compiler_jobs'']
      then (let w' = spread w [(''request'', normalizeResourceRequest effectiveRequest)]
            in (w', s\<lparr>st_waiters := map_set (record_name ''wait_'' (waiter_id w)) w' (st_waiters s)\<rparr>))
      else (w, s))"

text \<open>The request of the lease: the decision declares what it reserves.\<close>

definition reserved_request :: "jsv \<Rightarrow> admission_decision \<Rightarrow> jsv" where
  "reserved_request r d = (case evaluated d of None \<Rightarrow> r | Some ev \<Rightarrow> spread r (vector_fields (reservation ev)))"

definition fairness_wait :: "admission_decision \<Rightarrow> admission_decision" where
  "fairness_wait d = (if admitted d then d\<lparr>admitted := False, decision_reason := ''fairness_wait''\<rparr> else d)"

text \<open>What the decision rests on, once the leases are read and the sample is stored.\<close>

definition effective_request :: "coordinator_env \<Rightarrow> jsv \<Rightarrow> jsv list \<Rightarrow> elastic_request \<Rightarrow> jsv \<Rightarrow> jsv" where
  "effective_request env enriched ls r w =
     (let a = fst (resourceCoordinatorAccounting ls (ce_parents env) (js_get (js_get w ''owner'') ''pid''))
      in body (fitElasticRequestToPressure r
          (Some (resourcePressureSnapshot enriched ls (js_get (body r) ''priority'') a (body r)))))"

definition coordinator_evaluator :: "coordinator_env \<Rightarrow> jsv \<Rightarrow> evaluator" where
  "coordinator_evaluator env w =
     resourceCoordinatorEvaluator evaluateResourceAdmission (ce_parents env) (js_get (js_get w ''owner'') ''pid'')"

definition grant_lease :: "coordinator_env \<Rightarrow> string \<Rightarrow> string \<Rightarrow> jsv \<Rightarrow> jsv \<Rightarrow> resource_store \<Rightarrow> resource_store \<times> (string + jsv)" where
  "grant_lease env i token request w s =
     (let l = createLease env i token request in
      case res_bind (leasePath i) (\<lambda>name. createExclusiveFile name l (st_leases s)) of
        Inl e \<Rightarrow> (s, Inl e)
      | Inr dir \<Rightarrow> (s\<lparr>st_leases := dir, st_waiters := fst (removeResourceWaiter w (st_waiters s))\<rparr>, Inr l))"

text \<open>
  One attempt to acquire: the transaction of the loop of \<open>acquire\<close>, with the identifier and the token a lease would
  get.  It returns the waiter, whose request may have been fitted to the pressure, and the decision with the lease.
\<close>

definition acquire_transaction ::
  "coordinator_env \<Rightarrow> jsv \<Rightarrow> elastic_request \<Rightarrow> string \<Rightarrow> string \<Rightarrow> jsv \<Rightarrow> resource_store
    \<Rightarrow> resource_store \<times> jsv \<times> (string + admission_decision \<times> jsv option)" where
  "acquire_transaction env host r i token w s0 =
     (case pruneAndReadLeases env s0 of
        (s1, Inl e) \<Rightarrow> (s1, w, Inl e)
      | (s1, Inr ls) \<Rightarrow>
         (let (s2, enriched) = store_sample host s1;
              eff = effective_request env enriched ls r w;
              (w', s3) = refit_waiter w eff s2
          in case pruneAndReadWaiters env s3 of
               (s4, Inl e) \<Rightarrow> (s4, w', Inl e)
             | (s4, Inr ws) \<Rightarrow>
                (let evaluate = coordinator_evaluator env w';
                     d = evaluate enriched ls eff w';
                     selected = selectedResourceWaiter evaluate ws ls enriched (ce_now env)
                 in if \<not> admitted d \<or> map_option (\<lambda>v. js_get v ''waiter_id'') selected \<noteq> Some (js_get w' ''waiter_id'')
                    then (s4, w', Inr (fairness_wait d, None))
                    else (case grant_lease env i token (reserved_request eff d) w' s4 of
                        (s5, Inl e) \<Rightarrow> (s5, w', Inl e)
                      | (s5, Inr l) \<Rightarrow> (s5, w', Inr (d, Some l))))))"

text \<open>After an attempt the loop returns the lease, gives up, or waits and tries again.\<close>

datatype acquire_next = Granted jsv | GiveUp admission_decision | RetryAfter int

definition acquire_step :: "elastic_request \<Rightarrow> rat \<Rightarrow> nat \<Rightarrow> rat \<Rightarrow> rat option \<Rightarrow> admission_decision \<times> jsv option \<Rightarrow> acquire_next" where
  "acquire_step r waitMs retryAttempt elapsed random result = (case result of
     (d, Some l) \<Rightarrow> Granted l
   | (d, None) \<Rightarrow>
      (if \<not> resourceAdmissionDecisionRetryable d \<or> elapsed \<ge> waitMs then GiveUp d
       else RetryAfter (resourceRetryDelayMs (of_nat retryAttempt)
          (case js_get (body r) ''priority'' of JStr p \<Rightarrow> p | _ \<Rightarrow> ''ordinary'') (decision_reason d)
          (JNum (Fin (max 1 (waitMs - elapsed)))) random)))"

definition acquire_wait_ms :: "jsv \<Rightarrow> rat" where
  "acquire_wait_ms v = max 0 (min (30 * 60000) (case num_or (js_Number v) 0 of PosInf \<Rightarrow> 30 * 60000 | x \<Rightarrow> or_zero (fin_of x)))"

text \<open>Binding a lease to the process it was taken for; \<open>observedStart\<close> is the start of the child.\<close>

definition process_owner :: "coordinator_env \<Rightarrow> rat \<Rightarrow> rat option \<Rightarrow> bool \<Rightarrow> jsv" where
  "process_owner env pid observedStart isolated =
     JObj [(''kind'', JStr ''process''), (''pid'', JNum (Fin pid)),
       (''process_started_at'', JStr (toISOString (case observedStart of Some t \<Rightarrow> \<lfloor>t\<rfloor> | None \<Rightarrow> ce_now env))),
       (''process_group_id'', if isolated then JNum (Fin pid) else JNull), (''process_group_isolated'', JBool isolated)]"

definition bindLease ::
  "coordinator_env \<Rightarrow> string \<Rightarrow> jsv \<Rightarrow> jsv \<Rightarrow> rat option \<Rightarrow> bool \<Rightarrow> resource_store \<Rightarrow> resource_store \<times> (string + jsv)" where
  "bindLease env i token childPid observedStart isolatedOption s =
     (if \<not> positive_safe_integer childPid then (s, Inl ''resource lease requires a spawned child pid'')
      else (case leasePath i of
          Inl e \<Rightarrow> (s, Inl e)
        | Inr name \<Rightarrow> (case map_of (st_leases s) name of
            None \<Rightarrow> (s, Inl ''ENOENT'')
          | Some l \<Rightarrow> (case assertLeaseToken l token of
              Inl e \<Rightarrow> (s, Inl e)
            | Inr _ \<Rightarrow>
               (let isolated = (isolatedOption \<and> ce_platform env \<noteq> ''win32''); pid = finite_number childPid;
                    owner = lease_owner l in
                if js_get owner ''kind'' = JStr ''process''
                then (if finite_number (js_get owner ''pid'') \<noteq> pid \<or> js_get owner ''process_group_isolated'' \<noteq> JBool isolated
                         \<or> (if isolated then js_differs (js_get owner ''process_group_id'') (JNum (Fin pid))
                            else js_get owner ''process_group_id'' \<noteq> JNull)
                      then (s, Inl ''resource lease is already bound with different process ownership semantics'')
                      else (s, Inr l))
                else (let l' = spread l [(''owner'', process_owner env pid observedStart isolated),
                                (''bound_at'', JStr (toISOString (ce_now env)))]
                      in (s\<lparr>st_leases := map_set name l' (st_leases s)\<rparr>, Inr l')))))))"

text \<open>
  Release first reads the lease without the lock, to sample the start of its process, and then removes it under the
  lock, unless the process group it owns is still alive: then the lease stays until the group is gone.
\<close>

definition release_observe :: "string \<Rightarrow> jsv \<Rightarrow> resource_store \<Rightarrow> string + nat option option" where
  "release_observe i token s = res_bind (leasePath i) (\<lambda>name. case map_of (st_leases s) name of
     None \<Rightarrow> Inr None
   | Some l \<Rightarrow> res_bind (assertLeaseToken l token) (\<lambda>_.
       Inr (Some (if js_get (lease_owner l) ''kind'' = JStr ''process'' then Some (exactOwnerPid (js_get (lease_owner l) ''pid'')) else None))))"

definition release_transaction ::
  "coordinator_env \<Rightarrow> string \<Rightarrow> jsv \<Rightarrow> nat option \<Rightarrow> rat option \<Rightarrow> resource_store \<Rightarrow> resource_store \<times> (string + bool)" where
  "release_transaction env i token observedPid observedStart s =
     (case leasePath i of
        Inl e \<Rightarrow> (s, Inl e)
      | Inr name \<Rightarrow> (case map_of (st_leases s) name of
          None \<Rightarrow> (s, Inr False)
        | Some l \<Rightarrow> (case assertLeaseToken l token of
            Inl e \<Rightarrow> (s, Inl e)
          | Inr _ \<Rightarrow>
             (let w = lease_owner l; owned = (js_get w ''kind'' = JStr ''process'');
                  status = resourceLeaseOwnerStatusFromStart env l
                    (if Some (exactOwnerPid (js_get w ''pid'')) = observedPid then observedStart else None)
              in if owned \<and> js_get w ''process_group_isolated'' = JBool True \<and> is_reason status \<noteq> ''pid_reused''
                    \<and> resourceProcessGroupAlive env (js_get w ''process_group_id'')
                 then (s, Inr True)
                 else (let (dir, removed) = removeOwnedJsonFile name [(''lease_id'', JStr i), (''token'', token)] (st_leases s) in
                   if removed then (s\<lparr>st_leases := dir\<rparr>, Inr True)
                   else (s\<lparr>st_leases := dir\<rparr>, Inl ''resource lease changed before release; state may require inspection''))))))"

definition releaseLease ::
  "coordinator_env \<Rightarrow> jsv \<Rightarrow> jsv \<Rightarrow> (nat \<Rightarrow> rat option) \<Rightarrow> resource_store \<Rightarrow> resource_store \<times> (string + bool)" where
  "releaseLease env givenId token startOf s = (case givenId of
     JStr i \<Rightarrow>
       (if i = [] \<or> \<not> truthy token then (s, Inr False)
        else (case release_observe i token s of
            Inl e \<Rightarrow> (s, Inl e)
          | Inr None \<Rightarrow> (s, Inr False)
          | Inr (Some observed) \<Rightarrow> release_transaction env i token observed (case observed of Some p \<Rightarrow> startOf p | None \<Rightarrow> None) s))
   | _ \<Rightarrow> (s, if truthy givenId \<and> truthy token then Inl ''invalid resource lease id'' else Inr False))"

record coordinator_snapshot =
  cs_host :: jsv
  cs_pressure :: pressure_snapshot
  cs_active_leases :: nat
  cs_resources :: resource_vector
  cs_waiters :: "jsv list"

definition snapshot_transaction :: "coordinator_env \<Rightarrow> jsv \<Rightarrow> jsv \<Rightarrow> resource_store \<Rightarrow> resource_store \<times> (string + coordinator_snapshot)" where
  "snapshot_transaction env host priority s0 =
     (case pruneAndReadLeases env s0 of
        (s1, Inl e) \<Rightarrow> (s1, Inl e)
      | (s1, Inr ls) \<Rightarrow> (case pruneAndReadWaiters env s1 of
          (s2, Inl e) \<Rightarrow> (s2, Inl e)
        | (s2, Inr ws) \<Rightarrow>
           (let (s3, enriched) = store_sample host s2; (a, resources) = resourceCoordinatorAccounting ls (ce_parents env) JUndef
            in (s3, Inr \<lparr>cs_host = publicHost enriched,
                 cs_pressure = resourcePressureSnapshot enriched ls (if truthy priority then priority else JStr ''ordinary'') a JUndef,
                 cs_active_leases = length ls, cs_resources = resources, cs_waiters = ws\<rparr>))))"

section \<open>The lease object\<close>

record held_lease =
  hl_id :: jsv
  hl_token :: jsv
  hl_coordinated :: bool
  hl_released :: bool

definition light_lease :: held_lease where
  "light_lease = \<lparr>hl_id = JNull, hl_token = JNull, hl_coordinated = False, hl_released = False\<rparr>"

definition new_lease :: "jsv \<Rightarrow> held_lease" where
  "new_lease l = \<lparr>hl_id = js_get l ''lease_id'', hl_token = js_get l ''token'', hl_coordinated = True, hl_released = False\<rparr>"

definition lease_active :: "held_lease \<Rightarrow> bool" where
  "lease_active h = (hl_coordinated h \<and> truthy (hl_id h) \<and> \<not> hl_released h)"

definition bindProcess ::
  "coordinator_env \<Rightarrow> jsv \<Rightarrow> rat option \<Rightarrow> bool \<Rightarrow> held_lease \<Rightarrow> resource_store \<Rightarrow> resource_store \<times> (string + held_lease)" where
  "bindProcess env childPid observedStart isolated h s =
     (if lease_active h
      then (let (s', r) = bindLease env (case hl_id h of JStr i \<Rightarrow> i | _ \<Rightarrow> []) (hl_token h) childPid observedStart isolated s
            in (s', res_bind r (\<lambda>_. Inr h)))
      else (s, Inr h))"

definition release :: "coordinator_env \<Rightarrow> (nat \<Rightarrow> rat option) \<Rightarrow> held_lease \<Rightarrow> resource_store \<Rightarrow> resource_store \<times> held_lease \<times> (string + bool)" where
  "release env startOf h s =
     (if \<not> lease_active h then (s, h, Inr False)
      else (let (s', r) = releaseLease env (hl_id h) (hl_token h) startOf s
            in (s', if is_ok r then h\<lparr>hl_released := True\<rparr> else h, r)))"

end
