(* ===== verification/ResourceCoordinatorSpec.thy ===== *)
theory ResourceCoordinatorSpec
  imports ResourceCoordinator ResourceRequestsSpec
begin

text \<open>
  The coordinator keeps its directory readable in every run, never loses the lease of a living process, grants a lease
  only within the limits of the machine, and lets only the holder bind or release one.
\<close>

section \<open>Valid requests\<close>

definition ranged :: "jsv \<Rightarrow> rat \<Rightarrow> bool" where
  "ranged v hi = (case v of JNum x \<Rightarrow> (case fin_of x of Some q \<Rightarrow> 0 \<le> q \<and> q \<le> hi | None \<Rightarrow> False) | _ \<Rightarrow> False)"

lemma ranged_Fin [simp]: "ranged (JNum (Fin q)) hi \<longleftrightarrow> 0 \<le> q \<and> q \<le> hi"
  by (simp add: ranged_def)

lemma ranged_number: "ranged v hi \<Longrightarrow> 0 \<le> finite_number v \<and> finite_number v \<le> hi"
  by (auto simp: ranged_def finite_number_def split: jsv.splits option.splits)

lemma finiteRange_ok: "finiteRange v 0 hi what = Inr () \<longleftrightarrow> ranged v hi"
  by (auto simp: finiteRange_def ranged_def not_less split: jsv.split option.split)

definition valid_contention :: "jsv \<Rightarrow> bool" where
  "valid_contention v = (case v of JNull \<Rightarrow> True | JStr s \<Rightarrow> is_contention_key s | _ \<Rightarrow> False)"

lemma valid_request_iff:
  "validateResourceRequest r = Inr () \<longleftrightarrow> isRecord r \<and> request_contract r
     \<and> ranged (js_get r ''cpu'') 1024 \<and> ranged (js_get r ''io'') 1024
     \<and> ranged (js_get r ''memory_mb'') (16 * 1024 * 1024) \<and> ranged (js_get r ''disk_reserve_bytes'') (1024 ^ 5)
     \<and> valid_jobs (js_get r ''compiler_jobs'') \<and> valid_contention (js_get r ''contention_key'')"
  by (auto simp: validateResourceRequest_def res_bind_Inr_iff finiteRange_ok valid_contention_def split: jsv.splits)

lemma contract_cong:
  "(\<And>k. k \<in> {''family'', ''resource_class'', ''priority'', ''heavy'', ''unbounded'', ''serialize_project''} \<Longrightarrow> js_get r' k = js_get r k)
     \<Longrightarrow> request_contract r' = request_contract r"
  by (simp add: request_contract_def)

text \<open>The quantities of a request may be replaced within their ranges.\<close>

definition quantity_ok :: "string \<Rightarrow> jsv \<Rightarrow> bool" where
  "quantity_ok k v = (if k = ''cpu'' \<or> k = ''io'' then ranged v 1024 else if k = ''memory_mb'' then ranged v (16 * 1024 * 1024)
     else if k = ''disk_reserve_bytes'' then ranged v (1024 ^ 5) else k = ''compiler_jobs'' \<and> valid_jobs v)"

lemma quantity_ok_simps [simp]:
  "quantity_ok ''cpu'' v = ranged v 1024" "quantity_ok ''io'' v = ranged v 1024"
  "quantity_ok ''memory_mb'' v = ranged v (16 * 1024 * 1024)" "quantity_ok ''disk_reserve_bytes'' v = ranged v (1024 ^ 5)"
  "quantity_ok ''compiler_jobs'' v = valid_jobs v"
  by (simp_all add: quantity_ok_def)

lemma valid_spread:
  assumes r: "validateResourceRequest r = Inr ()" and fs: "list_all (\<lambda>(k, v). quantity_ok k v) fs"
  shows "validateResourceRequest (spread r fs) = Inr ()"
proof -
  have q: "quantity_ok k (js_get (spread r fs) k)" if "quantity_ok k (js_get r k)" for k
    using fs that by (auto simp: js_get_spread list_all_iff split: option.split dest!: map_of_SomeD)
  have same: "js_get (spread r fs) k = js_get r k" if "\<And>v. \<not> quantity_ok k v" for k
    using fs that by (force simp: js_get_spread list_all_iff split: option.split dest!: map_of_SomeD)
  have "request_contract (spread r fs) = request_contract r"
    by (rule contract_cong) (auto intro!: same simp: quantity_ok_def)
  moreover have "js_get (spread r fs) ''contention_key'' = js_get r ''contention_key''" by (rule same) (simp add: quantity_ok_def)
  moreover have "isRecord (spread r fs)" by (simp add: spread_def)
  ultimately show ?thesis
    using r q [of "''cpu''"] q [of "''io''"] q [of "''memory_mb''"] q [of "''disk_reserve_bytes''"] q [of "''compiler_jobs''"]
    unfolding valid_request_iff quantity_ok_simps by metis
qed

lemma js_get_normalize:
  "js_get (normalizeResourceRequest r) k = (if k \<in> set RESOURCE_REQUEST_KEYS then nullish (js_get r k) JNull else JUndef)"
proof -
  have "js_get (JObj (map (\<lambda>k. (k, f k)) ks)) k = (if k \<in> set ks then f k else JUndef)" for f ks
    by (induction ks) auto
  then show ?thesis by (simp add: normalizeResourceRequest_def nullish_def del: js_get_simps)
qed

lemma isRecord_normalize: "isRecord (normalizeResourceRequest r)"
  by (simp add: normalizeResourceRequest_def)

lemma valid_normalize:
  assumes "validateResourceRequest r = Inr ()"
  shows "validateResourceRequest (normalizeResourceRequest r) = Inr ()"
proof -
  have n: "ranged v hi \<Longrightarrow> ranged (nullish v JNull) hi" "valid_jobs v \<Longrightarrow> nullish v JNull = v" "valid_contention v \<Longrightarrow> nullish v JNull = v"
    "v \<in> range JStr \<Longrightarrow> nullish v JNull = v" "v \<in> range JBool \<Longrightarrow> nullish v JNull = v" for v hi
    by (auto simp: ranged_def valid_jobs_def isInteger_def valid_contention_def nullish_def split: jsv.splits)
  have c: "request_contract r" using assms by (simp add: valid_request_iff)
  have "nullish (js_get r k) JNull = js_get r k"
    if "k \<in> {''family'', ''resource_class'', ''priority'', ''heavy'', ''unbounded'', ''serialize_project''}" for k
  proof -
    have "js_get r ''family'' \<in> range JStr" "js_get r ''resource_class'' \<in> range JStr" "js_get r ''priority'' \<in> range JStr"
      "js_get r ''heavy'' \<in> range JBool" "js_get r ''unbounded'' \<in> range JBool" "js_get r ''serialize_project'' \<in> range JBool"
      using c by (auto simp: request_contract_def isBool_def split: jsv.splits)
    note k = this(1-3) [THEN n(4)] this(4-6) [THEN n(5)]
    from that show ?thesis by (elim insertE emptyE) (simp_all only: k)
  qed
  then have "request_contract (normalizeResourceRequest r) = request_contract r"
    by (intro contract_cong) (auto simp: js_get_normalize RESOURCE_REQUEST_KEYS_def)
  then show ?thesis
    using assms by (simp add: valid_request_iff js_get_normalize RESOURCE_REQUEST_KEYS_def n isRecord_normalize)
qed

lemma valid_fit:
  assumes "validateResourceRequest (body r) = Inr ()"
  shows "validateResourceRequest (body (fitElasticRequestToPressure r p)) = Inr ()"
proof (cases "fitElasticRequestToPressure r p = r")
  case False
  then obtain fl q where fl: "elastic r = Some fl" "p = Some q" and lt: "fitted_jobs r q fl < compiler_jobs r"
    and b: "body (fitElasticRequestToPressure r p) = spread (body r)
            [(''cpu'', JNum (Fin (min (number_at_least 0 (js_get (body r) ''cpu'') 0) (of_int (fitted_jobs r q fl))))),
             (''memory_mb'', case fl of None \<Rightarrow> js_get (body r) ''memory_mb''
                              | Some f \<Rightarrow> JNum (Fin (elasticMemoryMb r (fitted_jobs r q fl) fl))),
             (''compiler_jobs'', JNum (Fin (of_int (fitted_jobs r q fl))))]"
    by (auto simp: fitElasticRequestToPressure_def Let_def split: option.splits if_splits)
  let ?j = "fitted_jobs r q fl"
  have j: "1 \<le> ?j" by (rule fitted_jobs_facts)
  have v: "ranged (js_get (body r) ''cpu'') 1024" "ranged (js_get (body r) ''memory_mb'') (16 * 1024 * 1024)"
    "valid_jobs (js_get (body r) ''compiler_jobs'')"
    using assms by (simp_all add: valid_request_iff)
  have "compiler_jobs r \<le> 1024"
    using v(3) lt j unfolding valid_jobs_def compiler_jobs_def by (auto simp: finite_number_def floor_le_iff)
  with lt j have jobs: "valid_jobs (JNum (Fin (of_int ?j)))"
    by (simp add: valid_jobs_def isInteger_def num_isInteger_def finite_number_def)
  have n: "number_at_least 0 (js_get (body r) ''cpu'') 0 = finite_number (js_get (body r) ''cpu'')"
    using v(1) by (auto simp: ranged_def number_at_least_def finite_number_def num_or_def split: jsv.splits option.splits)
  have cpu: "ranged (JNum (Fin (min (number_at_least 0 (js_get (body r) ''cpu'') 0) (of_int ?j)))) 1024"
    using ranged_number [OF v(1)] j unfolding n by auto
  have mem: "ranged (JNum (Fin (elasticMemoryMb r ?j (Some f)))) (16 * 1024 * 1024)" for f
  proof -
    have m: "0 \<le> request_number r ''memory_mb''" "request_number r ''memory_mb'' \<le> 16 * 1024 * 1024"
      using ranged_number [OF v(2)] by (simp_all add: request_number_def)
    have "0 \<le> request_number r ''memory_mb'' * of_int ?j / of_int (compiler_jobs r)"
      using m(1) j lt by simp
    then have c: "0 \<le> (of_int \<lceil>request_number r ''memory_mb'' * of_int ?j / of_int (compiler_jobs r)\<rceil> :: rat)"
      by (metis ceiling_mono ceiling_zero of_int_0_le_iff)
    have "ranged (JNum (Fin (min x (max f c)))) hi" if "0 \<le> x" "x \<le> hi" "0 \<le> c" for x c hi
      using that by (auto simp: le_max_iff_disj min_le_iff_disj)
    from this [OF m c] show ?thesis by (simp add: elasticMemoryMb_def Let_def)
  qed
  from assms show ?thesis unfolding b
  proof (rule valid_spread)
    have "ranged (case fl of None \<Rightarrow> js_get (body r) ''memory_mb'' | Some f \<Rightarrow> JNum (Fin (elasticMemoryMb r ?j fl))) (16 * 1024 * 1024)"
      using mem v(2) by (cases fl) auto
    then show "list_all (\<lambda>(k, v). quantity_ok k v)
            [(''cpu'', JNum (Fin (min (number_at_least 0 (js_get (body r) ''cpu'') 0) (of_int ?j)))),
             (''memory_mb'', case fl of None \<Rightarrow> js_get (body r) ''memory_mb'' | Some f \<Rightarrow> JNum (Fin (elasticMemoryMb r ?j fl))),
             (''compiler_jobs'', JNum (Fin (of_int ?j)))]"
      using cpu jobs by (simp del: ranged_Fin)
  qed
qed (use assms in simp)

section \<open>Valid records\<close>

definition TIME_END :: int where
  "TIME_END = 253402300800000"

text \<open>A process whose clock, start and pid are in range; the last moment leaves room for the expiry of a waiter.\<close>

definition env_ok :: "coordinator_env \<Rightarrow> bool" where
  "env_ok env = (0 < ce_now env \<and> ce_now env + 1805000 < TIME_END \<and> 0 \<le> ce_start env \<and> ce_start env < of_int TIME_END
     \<and> 0 < ce_pid env \<and> ce_pid env \<le> 9007199254740991)"

lemma parse_time_written [simp]: "0 \<le> t \<Longrightarrow> t < TIME_END \<Longrightarrow> parse_time (JStr (toISOString t)) = Some t"
  by (simp add: parse_time_def parse_toISOString TIME_END_def)

lemma positive_pid: "0 < n \<Longrightarrow> n \<le> 9007199254740991 \<Longrightarrow> positive_safe_integer (JNum (Fin (of_nat n)))"
proof -
  assume n: "0 < n" "n \<le> 9007199254740991"
  have "(of_nat n :: rat) \<le> of_nat 9007199254740991" unfolding of_nat_le_iff by (rule n(2))
  moreover have "rat_is_int (of_nat n)" using rat_is_int_of_int [of "int n"] by simp
  ultimately show ?thesis using n(1) by (simp add: positive_safe_integer_def isSafeInteger_def finite_number_def)
qed

lemma started: "env_ok env \<Longrightarrow> 0 \<le> \<lfloor>ce_start env\<rfloor> \<and> \<lfloor>ce_start env\<rfloor> < TIME_END"
  by (auto simp: env_ok_def floor_less_iff)

lemma validOwner_provisional: "env_ok env \<Longrightarrow> validOwner (JObj [(''kind'', JStr ''provisional''), (''pid'', JNum (Fin (of_nat (ce_pid env)))),
    (''process_started_at'', JStr (toISOString \<lfloor>ce_start env\<rfloor>))])"
  using started [of env] by (auto simp: validOwner_def env_ok_def intro: positive_pid)

lemma if_Inl_Inr: "(if c then Inl e else r) = Inr y \<longleftrightarrow> \<not> c \<and> r = Inr y"
  by simp

lemma validateLease_iff:
  "validateLease l = Inr () \<longleftrightarrow> js_get l ''schema_version'' = JNum (Fin 1) \<and> hex_string 32 (js_get l ''lease_id'')
     \<and> hex_string 64 (js_get l ''token'') \<and> parse_time (js_get l ''acquired_at'') \<noteq> None \<and> validOwner (lease_owner l)
     \<and> validateResourceRequest (lease_request l) = Inr () \<and> valid_binding l = Inr ()"
  unfolding validateLease_def if_Inl_Inr res_bind_Inr_iff by auto

lemma validateWaiter_iff:
  "validateWaiter w = Inr () \<longleftrightarrow> js_get w ''schema_version'' = JNum (Fin 1) \<and> hex_string 32 (js_get w ''waiter_id'')
     \<and> hex_string 64 (js_get w ''token'') \<and> enqueued_at w \<noteq> None \<and> parse_time (js_get w ''expires_at'') \<noteq> None
     \<and> positive_safe_integer (js_get (js_get w ''owner'') ''pid'')
     \<and> parse_time (js_get (js_get w ''owner'') ''process_started_at'') \<noteq> None \<and> validateResourceRequest (waiter_request w) = Inr ()"
  unfolding validateWaiter_def if_Inl_Inr by auto

lemma hex_string_iff: "hex_string n v \<longleftrightarrow> (\<exists>s. v = JStr s \<and> length s = n \<and> list_all is_hex_lower s)"
  by (simp add: hex_string_def split: jsv.split)

lemma createLease_valid:
  assumes "env_ok env" "hex_id i" "hex_string 64 (JStr token)" "validateResourceRequest r = Inr ()"
  shows "validateLease (createLease env i token r) = Inr ()"
proof -
  have "parse_time (JStr (toISOString (ce_now env))) \<noteq> None" using assms(1) by (simp add: env_ok_def)
  then show ?thesis
    using assms validOwner_provisional [OF assms(1)]
    by (simp add: validateLease_iff createLease_def lease_owner_def lease_request_def valid_normalize hex_string_def hex_id_def valid_binding_def)
qed

lemma createResourceWaiter_valid:
  assumes "env_ok env" "hex_id i" "hex_string 64 (JStr token)" "validateResourceRequest r = Inr ()" "waitMs \<le> 1800000"
  shows "validateWaiter (createResourceWaiter env i token r waitMs) = Inr ()"
proof -
  have "parse_time (JStr (toISOString (ce_now env))) \<noteq> None"
    "parse_time (JStr (toISOString (ce_now env + max 5000 waitMs + WAITER_GRACE_MS))) \<noteq> None"
    "parse_time (JStr (toISOString \<lfloor>ce_start env\<rfloor>)) \<noteq> None"
    "positive_safe_integer (JNum (Fin (of_nat (ce_pid env))))"
    using assms(1,5) started [OF assms(1)] by (auto simp: env_ok_def WAITER_GRACE_MS_def intro: positive_pid)
  then show ?thesis
    using assms by (simp add: validateWaiter_iff createResourceWaiter_def waiter_request_def valid_normalize hex_string_def hex_id_def enqueued_at_def)
qed

lemma process_binding:
  assumes "js_get (lease_owner l) ''kind'' = JStr ''process''" "parse_time (js_get l ''bound_at'') \<noteq> None"
    "js_get (lease_owner l) ''process_group_isolated'' = JBool b"
    "js_get (lease_owner l) ''process_group_id'' = (if b then js_get (lease_owner l) ''pid'' else JNull)"
  shows "valid_binding l = Inr ()"
  using assms by (simp add: valid_binding_def Let_def)

lemma rebound_valid:
  assumes "validateLease l = Inr ()" "js_get (lease_owner l) ''kind'' \<noteq> JStr ''process''" "env_ok env"
    and "positive_safe_integer childPid" "case start of None \<Rightarrow> True | Some t \<Rightarrow> 0 \<le> t \<and> t < of_int TIME_END"
  shows "validateLease (spread l [(''owner'', process_owner env (finite_number childPid) start isolated),
            (''bound_at'', JStr (toISOString (ce_now env)))]) = Inr ()"
proof -
  have b: "parse_time (JStr (toISOString (ce_now env))) \<noteq> None" using assms(3) by (simp add: env_ok_def)
  have "parse_time (JStr (toISOString (case start of Some t \<Rightarrow> \<lfloor>t\<rfloor> | None \<Rightarrow> ce_now env))) \<noteq> None"
    using assms(3,5) by (auto simp: env_ok_def floor_less_iff split: option.splits)
  moreover have "positive_safe_integer (JNum (Fin (finite_number childPid)))"
    using assms(4) by (auto simp: positive_safe_integer_def isSafeInteger_def finite_number_def split: jsv.splits option.splits)
  ultimately have w: "validOwner (process_owner env (finite_number childPid) start isolated)"
    by (simp add: validOwner_def process_owner_def)
  define ow where "ow = process_owner env (finite_number childPid) start isolated"
  have f: "js_get ow ''kind'' = JStr ''process''" "js_get ow ''process_group_isolated'' = JBool isolated"
    "js_get ow ''process_group_id'' = (if isolated then js_get ow ''pid'' else JNull)"
    by (simp_all add: ow_def process_owner_def)
  let ?l = "spread l [(''owner'', ow), (''bound_at'', JStr (toISOString (ce_now env)))]"
  have o: "lease_owner ?l = ow" "lease_request ?l = lease_request l" "js_get ?l ''bound_at'' = JStr (toISOString (ce_now env))"
    by (simp_all add: lease_owner_def lease_request_def js_get_spread)
  have "valid_binding ?l = Inr ()"
    by (rule process_binding [where b = isolated]) (use b in \<open>simp_all only: o f not_False_eq_True\<close>)
  moreover have "validOwner ow" unfolding ow_def by (rule w)
  moreover have "js_get ?l k = js_get l k" if "k \<notin> {''owner'', ''bound_at''}" for k
    using that by (auto simp: js_get_spread)
  ultimately have "validateLease ?l = Inr ()"
    using assms(1) unfolding validateLease_iff o by simp
  then show ?thesis unfolding ow_def .
qed

lemma refitted_valid:
  assumes "validateWaiter w = Inr ()" "validateResourceRequest r = Inr ()"
  shows "validateWaiter (spread w [(''request'', normalizeResourceRequest r)]) = Inr ()"
  using assms by (simp add: validateWaiter_iff js_get_spread waiter_request_def enqueued_at_def valid_normalize)

section \<open>The loops that prune\<close>

locale pruning =
  fixes prune :: "directory \<Rightarrow> directory \<Rightarrow> directory \<times> (string + jsv list)"
    and good :: "string \<Rightarrow> jsv \<Rightarrow> bool"
    and stale :: "jsv \<Rightarrow> bool"
  assumes prune_none: "prune [] dir = (dir, Inr [])"
    and prune_stale: "good n v \<Longrightarrow> map_of dir n = Some v \<Longrightarrow> stale v \<Longrightarrow> prune ((n, v) # es) dir = prune es (map_del n dir)"
    and prune_live: "good n v \<Longrightarrow> \<not> stale v
      \<Longrightarrow> prune ((n, v) # es) dir = (let (d, r) = prune es dir in (d, res_bind r (\<lambda>vs. Inr (v # vs))))"
begin

lemma prune_entries:
  "list_all (\<lambda>(n, v). good n v) es \<Longrightarrow> distinct (map fst es) \<Longrightarrow> (\<And>n v. (n, v) \<in> set es \<Longrightarrow> map_of dir n = Some v)
     \<Longrightarrow> prune es dir = (filter (\<lambda>(n, v). \<not> (\<exists>v'. (n, v') \<in> set es \<and> stale v')) dir, Inr (map snd (filter (\<lambda>(n, v). \<not> stale v) es)))"
proof (induction es arbitrary: dir)
  case Nil
  have "filter (\<lambda>(n, v). True) dir = dir" by (induction dir) auto
  then show ?case by (simp add: prune_none)
next
  case (Cons e es)
  obtain n v where e: "e = (n, v)" by (cases e)
  have g: "good n v" "map_of dir n = Some v" "list_all (\<lambda>(n, v). good n v) es" "distinct (map fst es)" "n \<notin> fst ` set es"
    using Cons.prems by (auto simp: e)
  show ?case
  proof (cases "stale v")
    case True
    have "map_of (map_del n dir) m = Some u" if "(m, u) \<in> set es" for m u
      using that g(5) Cons.prems(3) [of m u] by (auto simp: map_of_map_del rev_image_eqI)
    from Cons.IH [OF g(3,4) this] show ?thesis
      using True g(5) by (auto simp: e prune_stale [OF g(1,2) True] map_del_def intro!: filter_cong)
  next
    case False
    have "map_of dir m = Some u" if "(m, u) \<in> set es" for m u
      using that Cons.prems(3) by simp
    from Cons.IH [OF g(3,4) this] show ?thesis
      using False g(5) by (auto simp: e prune_live [OF g(1) False] intro!: filter_cong)
  qed
qed

lemma prune_directory:
  assumes "list_all (\<lambda>(n, v). good n v) dir" "distinct (map fst dir)"
  shows "prune dir dir = (filter (\<lambda>(n, v). \<not> stale v) dir, Inr (map snd (filter (\<lambda>(n, v). \<not> stale v) dir)))"
proof -
  have "\<not> (\<exists>v'. (n, v') \<in> set dir \<and> stale v') \<longleftrightarrow> \<not> stale v" if "(n, v) \<in> set dir" for n v
  proof -
    have "v' = v" if "(n, v') \<in> set dir" for v'
      using that \<open>(n, v) \<in> set dir\<close> assms(2) by (metis map_of_distinct_iff option.inject)
    with that show ?thesis by blast
  qed
  then have "filter (\<lambda>(n, v). \<not> (\<exists>v'. (n, v') \<in> set dir \<and> stale v')) dir = filter (\<lambda>(n, v). \<not> stale v) dir"
    by (auto intro!: filter_cong)
  then show ?thesis using assms by (subst prune_entries) (auto simp: map_of_distinct_iff)
qed

end

text \<open>The files of a directory: valid records under their own names.\<close>

definition lease_file :: "string \<Rightarrow> jsv \<Rightarrow> bool" where
  "lease_file n l = (validateLease l = Inr () \<and> (\<exists>i. js_get l ''lease_id'' = JStr i \<and> n = record_name ''lease_'' i))"

definition waiter_file :: "string \<Rightarrow> jsv \<Rightarrow> bool" where
  "waiter_file n w = (validateWaiter w = Inr () \<and> n = record_name ''wait_'' (waiter_id w))"

lemma record_name_facts:
  assumes "hex_id i"
  shows "is_record_name ''lease_'' (record_name ''lease_'' i)" "is_record_name ''wait_'' (record_name ''wait_'' i)"
    "\<not> isIgnorableCoordinatorMetadata (record_name ''lease_'' i)" "\<not> isIgnorableCoordinatorMetadata (record_name ''wait_'' i)"
  using assms by (auto simp: is_record_name_def record_name_def hex_id_def isIgnorableCoordinatorMetadata_def)

lemma valid_lease_id: "validateLease l = Inr () \<Longrightarrow> js_get l ''lease_id'' = JStr i \<Longrightarrow> hex_id i"
  by (auto simp: validateLease_iff hex_string_iff hex_id_def)

lemma valid_waiter_id: "validateWaiter w = Inr () \<Longrightarrow> hex_id (waiter_id w) \<and> js_get w ''waiter_id'' = JStr (waiter_id w)"
  by (auto simp: validateWaiter_iff hex_string_iff hex_id_def waiter_id_def)

lemma valid_records: "validateLease l = Inr () \<Longrightarrow> isRecord l" "validateWaiter w = Inr () \<Longrightarrow> isRecord w"
  by (auto simp: validateLease_iff validateWaiter_iff isRecord_def js_get_def split: jsv.splits)

lemma remove_own:
  "map_of dir n = Some v \<Longrightarrow> isRecord v \<Longrightarrow> removeOwnedJsonFile n (lease_key v) dir = (map_del n dir, True)"
  "map_of dir n = Some v \<Longrightarrow> isRecord v \<Longrightarrow> removeOwnedJsonFile n (waiter_key v) dir = (map_del n dir, True)"
  by (simp_all add: removeOwnedJsonFile_def matches_expected_def lease_key_def waiter_key_def)

lemma waiter_removal:
  assumes "waiter_file n w"
  shows "removeResourceWaiter w dir = removeOwnedJsonFile n (waiter_key w) dir"
proof -
  have "hex_id (waiter_id w)" "js_get w ''waiter_id'' = JStr (waiter_id w)" "hex_string 64 (js_get w ''token'')"
    using assms valid_waiter_id [of w] by (auto simp: waiter_file_def validateWaiter_iff)
  then have "truthy (js_get w ''waiter_id'')" "truthy (js_get w ''token'')"
    by (auto simp: hex_id_def hex_string_iff)
  with assms show ?thesis by (simp add: removeResourceWaiter_def waiter_file_def)
qed

interpretation leases: pruning "prune_leases env" lease_file "resourceLeaseIsStale env PROVISIONAL_TTL_MS" for env
proof unfold_locales
  fix n v dir es
  assume "lease_file n v"
  then obtain i where v: "validateLease v = Inr ()" "n = record_name ''lease_'' i" "hex_id i"
    using valid_lease_id by (auto simp: lease_file_def)
  note n = record_name_facts [OF v(3)]
  {
    assume "map_of dir n = Some v" "resourceLeaseIsStale env PROVISIONAL_TTL_MS v"
    then show "prune_leases env ((n, v) # es) dir = prune_leases env es (map_del n dir)"
      using v(1) n valid_records(1) [OF v(1)] by (simp add: v(2) remove_own(1))
  next
    assume "\<not> resourceLeaseIsStale env PROVISIONAL_TTL_MS v"
    then show "prune_leases env ((n, v) # es) dir = (let (d, r) = prune_leases env es dir in (d, res_bind r (\<lambda>vs. Inr (v # vs))))"
      using v(1) n by (simp add: v(2))
  }
qed simp

interpretation waiters: pruning "prune_waiters env" waiter_file "waiterIsStale env" for env
proof unfold_locales
  fix n v dir es
  assume f: "waiter_file n v"
  then have v: "validateWaiter v = Inr ()" "n = record_name ''wait_'' (waiter_id v)" "hex_id (waiter_id v)"
    using valid_waiter_id by (auto simp: waiter_file_def)
  note n = record_name_facts [OF v(3)]
  {
    assume "map_of dir n = Some v" "waiterIsStale env v"
    then show "prune_waiters env ((n, v) # es) dir = prune_waiters env es (map_del n dir)"
      using v(1) n valid_records(2) [OF v(1)] waiter_removal [OF f, of dir] by (simp add: v(2) [symmetric] remove_own(2))
  next
    assume "\<not> waiterIsStale env v"
    then show "prune_waiters env ((n, v) # es) dir = (let (d, r) = prune_waiters env es dir in (d, res_bind r (\<lambda>vs. Inr (v # vs))))"
      using v(1) n by (simp add: v(2) [symmetric])
  }
qed simp

section \<open>What the directory always is\<close>

definition dir_ok :: "(string \<Rightarrow> jsv \<Rightarrow> bool) \<Rightarrow> directory \<Rightarrow> bool" where
  "dir_ok good dir = (list_all (\<lambda>(n, v). good n v) dir \<and> distinct (map fst dir))"

definition store_ok :: "resource_store \<Rightarrow> bool" where
  "store_ok s = (dir_ok lease_file (st_leases s) \<and> dir_ok waiter_file (st_waiters s))"

lemma dir_ok_member: "dir_ok good dir \<Longrightarrow> (n, v) \<in> set dir \<Longrightarrow> good n v"
  by (auto simp: dir_ok_def list_all_iff)

lemma dir_ok_lookup: "dir_ok good dir \<Longrightarrow> map_of dir n = Some v \<longleftrightarrow> (n, v) \<in> set dir"
  by (simp add: dir_ok_def map_of_distinct_iff)

lemma dir_ok_filter: "dir_ok good dir \<Longrightarrow> dir_ok good (filter P dir)"
  by (auto simp: dir_ok_def list_all_iff distinct_map_fst_filter)

lemma dir_ok_del: "dir_ok good dir \<Longrightarrow> dir_ok good (map_del n dir)"
  by (simp add: map_del_def dir_ok_filter)

lemma set_map_set: "set (map_set k v m) \<subseteq> insert (k, v) (set m)"
  by (induction k v m rule: map_set.induct) auto

lemma dir_ok_set: "dir_ok good dir \<Longrightarrow> good n v \<Longrightarrow> dir_ok good (map_set n v dir)"
  using set_map_set [of n v dir] distinct_map_set [of dir n v] by (auto simp: dir_ok_def list_all_iff)

lemma remove_shape: "removeOwnedJsonFile n ex dir = (d, b) \<Longrightarrow> d = dir \<or> d = map_del n dir"
  by (auto simp: removeOwnedJsonFile_def split: option.splits if_splits)

lemma waiter_removal_shape: "\<exists>n. fst (removeResourceWaiter w dir) \<in> {dir, map_del n dir}"
  by (cases "removeOwnedJsonFile (record_name ''wait_'' (waiter_id w)) (waiter_key w) dir")
    (auto simp: removeResourceWaiter_def dest: remove_shape)

lemma prune_leases_ok:
  fixes env s
  assumes "store_ok s"
  defines "live \<equiv> filter (\<lambda>(n, l). \<not> resourceLeaseIsStale env PROVISIONAL_TTL_MS l) (st_leases s)"
  shows "pruneAndReadLeases env s = (s\<lparr>st_leases := live\<rparr>, Inr (map snd live))"
  using assms leases.prune_directory [of "st_leases s"] by (simp add: pruneAndReadLeases_def store_ok_def dir_ok_def)

lemma prune_waiters_ok:
  fixes env s
  assumes "store_ok s"
  defines "live \<equiv> filter (\<lambda>(n, w). \<not> waiterIsStale env w) (st_waiters s)"
  shows "pruneAndReadWaiters env s = (s\<lparr>st_waiters := live\<rparr>, Inr (map snd live))"
  using assms waiters.prune_directory [of "st_waiters s"] by (simp add: pruneAndReadWaiters_def store_ok_def dir_ok_def)

section \<open>The reserved request\<close>

definition host_ok :: "jsv \<Rightarrow> bool" where
  "host_ok host = (number_at_least 1 (js_get host ''cpu_cores'') 1 \<le> 1024)"

lemma js_get_spread_other: "k \<notin> fst ` set fs \<Longrightarrow> js_get (spread r fs) k = js_get r k"
  by (metis (no_types, lifting) js_get_spread map_of_eq_None_iff option.simps(4) set_rev)

lemma rate_keys:
  "(k, v) \<in> set (set_rate now prev t key rate) \<Longrightarrow> k = rate" "(k, v) \<in> set (busy_cores now prev) \<Longrightarrow> k = ''cpu_busy_cores''"
  by (auto simp: set_rate_def busy_cores_def Let_def split: option.splits if_splits)

lemma host_ok_derived: "host_ok (deriveHostRates now prev) = host_ok now"
proof -
  have "js_get (deriveHostRates now prev) ''cpu_cores'' = js_get now ''cpu_cores''"
    unfolding deriveHostRates_def Let_def
    by (auto split: option.split intro!: js_get_spread_other dest!: rate_keys)
  then show ?thesis by (simp add: host_ok_def)
qed

lemma cpu_limit_bounds: "0 \<le> cpu_limit (evaluate_limits host r p) \<and> (host_ok host \<longrightarrow> cpu_limit (evaluate_limits host r p) \<le> 1024)"
proof -
  have l: "cpu_limit (resourceLimits cores mem prio st rs)
      = max 1 (cores - ((if prio = JStr ''background'' then 2 else if prio = JStr ''interactive'' then 1 else 3 / 2)
          + (if st \<noteq> ''green'' \<and> (''cpu_busy'' \<in> set rs \<or> ''psi_cpu_some'' \<in> set rs) then 1 else 0)))" for cores mem prio st rs
    by (simp only: resourceLimits_def Let_def resource_limits.simps diff_diff_eq)
  have m: "0 \<le> max 1 (c - (x + y)) \<and> (c \<le> 1024 \<longrightarrow> max 1 (c - (x + y)) \<le> 1024)" if "0 \<le> x" "0 \<le> y" for c x y :: rat
    using that by auto
  show ?thesis unfolding evaluate_limits_def l host_ok_def by (rule m) simp_all
qed

lemma number_of_ranged: "ranged v hi \<Longrightarrow> number_at_least 0 v 0 = finite_number v"
  by (auto simp: ranged_def number_at_least_def finite_number_def num_or_def split: jsv.splits option.splits)

lemma declared_ranges:
  fixes host r p
  assumes "validateResourceRequest r = Inr ()" "host_ok host"
  defines "v \<equiv> declared_vector (evaluate_limits host r p) r"
  shows "list_all (\<lambda>(k, v). quantity_ok k v) (vector_fields v)" "requestVector (declared_request (evaluate_limits host r p) r) = v"
proof -
  note q = assms(1) [unfolded valid_request_iff]
  have n: "ranged (JNum (Fin (number_at_least 0 (js_get r k) 0))) hi" if "ranged (js_get r k) hi" for k hi
    using ranged_number [OF that] by (simp add: number_of_ranged [OF that])
  have c: "ranged (JNum (Fin (cpu v))) 1024"
    using cpu_limit_bounds [of host r p] assms(2) n [of "''cpu''" 1024] q by (simp add: v_def declared_vector_def)
  have "ranged (JNum (Fin (io v))) 1024" "ranged (JNum (Fin (memory_mb v))) (16 * 1024 * 1024)"
    "ranged (JNum (Fin (disk_reserve_bytes v))) (1024 ^ 5)"
    using n [of "''io''" 1024] n [of "''memory_mb''" "16 * 1024 * 1024"] n [of "''disk_reserve_bytes''" "1024 ^ 5"] q
    by (simp_all add: v_def declared_vector_def del: ranged_Fin)
  note rs = c this
  from rs show "list_all (\<lambda>(k, v). quantity_ok k v) (vector_fields v)" by (simp add: vector_fields_def del: ranged_Fin)
  show "requestVector (declared_request (evaluate_limits host r p) r) = v"
    using rs by (simp add: declared_request_def v_def [symmetric] requestVector_def js_get_spread vector_fields_def finite_number_def)
qed

lemma evaluated_reservation:
  assumes "truthy (js_get r ''heavy'')" "evaluateResourceAdmission host ls r a = d"
  shows "\<exists>ev. evaluated d = Some ev \<and> reservation ev = declared_vector (evaluate_limits host r (resourcePressureState host (aggregateResourceLeases ls a))) r"
proof -
  have "\<exists>ev. evaluated (evaluateResourceAdmission host ls r a) = Some ev
      \<and> reservation ev = declared_vector (evaluate_limits host r (resourcePressureState host (aggregateResourceLeases ls a))) r"
    by (simp only: evaluateResourceAdmission_def assms(1) not_True_eq_False if_False Let_def if_distrib [of evaluated]
      admission_decision.simps if_cancel option.inject evaluation.simps ex_simps simp_thms)
  then show ?thesis by (simp only: assms(2))
qed

lemma valid_heavy: "validateResourceRequest r = Inr () \<Longrightarrow> truthy (js_get r ''heavy'')"
  by (simp add: valid_request_iff request_contract_def)

lemma reserved_request_facts:
  fixes host ls r a
  assumes "validateResourceRequest r = Inr ()" "host_ok host"
  defines "lm \<equiv> evaluate_limits host r (resourcePressureState host (aggregateResourceLeases ls a))"
  defines "r' \<equiv> reserved_request r (evaluateResourceAdmission host ls r a)"
  shows "validateResourceRequest r' = Inr ()" "requestVector (normalizeResourceRequest r') = requestVector (declared_request lm r)"
    "js_get (normalizeResourceRequest r') ''heavy'' = JBool True"
proof -
  have r': "r' = spread r (vector_fields (declared_vector lm r))"
    using evaluated_reservation [OF valid_heavy [OF assms(1)] refl, of host ls a] by (auto simp: r'_def lm_def reserved_request_def)
  show v: "validateResourceRequest r' = Inr ()"
    unfolding r' lm_def using assms(1,2) by (intro valid_spread declared_ranges)
  have d: "requestVector (declared_request lm r) = declared_vector lm r"
    unfolding lm_def using assms(1,2) by (rule declared_ranges)
  have "requestVector r' = requestVector (declared_request lm r)"
    by (simp add: requestVector_def r' declared_request_def js_get_spread vector_fields_def)
  moreover have "requestVector (normalizeResourceRequest q) = requestVector q" for q
  proof -
    have "finite_number (nullish v JNull) = finite_number v" for v by (auto simp: nullish_def finite_number_def)
    moreover have "{''cpu'', ''io'', ''memory_mb'', ''disk_reserve_bytes''} \<subseteq> set RESOURCE_REQUEST_KEYS" by code_simp
    ultimately show ?thesis by (simp add: requestVector_def js_get_normalize)
  qed
  ultimately show "requestVector (normalizeResourceRequest r') = requestVector (declared_request lm r)" by simp
  show "js_get (normalizeResourceRequest r') ''heavy'' = JBool True"
    using v by (simp add: valid_request_iff request_contract_def js_get_normalize RESOURCE_REQUEST_KEYS_def nullish_def)
qed

section \<open>An attempt\<close>

lemma refit_ok:
  assumes "validateWaiter w = Inr ()" "validateResourceRequest eff = Inr ()" "store_ok s"
    and "refit_waiter w eff s = (w', s')"
  shows "store_ok s'" "validateWaiter w' = Inr ()" "waiter_id w' = waiter_id w" "st_leases s' = st_leases s"
    "js_get w' ''owner'' = js_get w ''owner''" "js_get w' ''waiter_id'' = js_get w ''waiter_id''"
proof -
  let ?w = "spread w [(''request'', normalizeResourceRequest eff)]"
  have v: "validateWaiter ?w = Inr ()" using assms(1,2) by (rule refitted_valid)
  have i: "waiter_id ?w = waiter_id w" by (simp add: waiter_id_def js_get_spread)
  then have "waiter_file (record_name ''wait_'' (waiter_id w)) ?w" using v by (simp add: waiter_file_def)
  then have "dir_ok waiter_file (map_set (record_name ''wait_'' (waiter_id w)) ?w (st_waiters s))"
    using assms(3) by (intro dir_ok_set) (simp_all add: store_ok_def)
  then show "store_ok s'" "validateWaiter w' = Inr ()" "waiter_id w' = waiter_id w" "st_leases s' = st_leases s"
    "js_get w' ''owner'' = js_get w ''owner''" "js_get w' ''waiter_id'' = js_get w ''waiter_id''"
    using assms(1,3,4) v i by (auto simp: refit_waiter_def Let_def store_ok_def js_get_spread split: if_splits)
qed

text \<open>An attempt, once the pruning is known to succeed.\<close>

lemma acquire_shape:
  fixes env host r i token w s
  assumes "store_ok s" "validateWaiter w = Inr ()" "validateResourceRequest (body r) = Inr ()"
  defines "live \<equiv> filter (\<lambda>(n, l). \<not> resourceLeaseIsStale env PROVISIONAL_TTL_MS l) (st_leases s)"
  defines "h \<equiv> deriveHostRates host (st_sample s)"
  defines "eff \<equiv> effective_request env h (map snd live) r w"
  obtains w' s4 ws where "st_leases s4 = live" "store_ok s4" "validateWaiter w' = Inr ()" "validateResourceRequest eff = Inr ()"
    "js_get w' ''owner'' = js_get w ''owner''"
    "acquire_transaction env host r i token w s =
       (let d = evaluateResourceAdmission h (map snd live) eff
              (resourceLeaseAccountingContext (map snd live) (ce_parents env) (js_get (js_get w ''owner'') ''pid''));
            selected = selectedResourceWaiter (coordinator_evaluator env w') ws (map snd live) h (ce_now env)
        in if \<not> admitted d \<or> map_option (\<lambda>v. js_get v ''waiter_id'') selected \<noteq> Some (js_get w' ''waiter_id'')
           then (s4, w', Inr (fairness_wait d, None))
           else (case grant_lease env i token (reserved_request eff d) w' s4 of
               (s5, Inl e) \<Rightarrow> (s5, w', Inl e) | (s5, Inr l) \<Rightarrow> (s5, w', Inr (d, Some l))))"
proof -
  obtain w' s3 where f: "refit_waiter w eff (s\<lparr>st_leases := live, st_sample := h\<rparr>) = (w', s3)" by fastforce
  have eff: "validateResourceRequest eff = Inr ()" unfolding eff_def effective_request_def Let_def using assms(3) by (rule valid_fit)
  have s2: "store_ok (s\<lparr>st_leases := live, st_sample := h\<rparr>)" using assms(1) by (simp add: store_ok_def live_def dir_ok_filter)
  note r = refit_ok [OF assms(2) eff s2 f]
  define s4 where "s4 = s3\<lparr>st_waiters := filter (\<lambda>(n, w). \<not> waiterIsStale env w) (st_waiters s3)\<rparr>"
  have s4: "store_ok s4" using r(1) by (simp add: s4_def store_ok_def dir_ok_filter)
  have p: "pruneAndReadWaiters env s3 = (s4, Inr (map snd (st_waiters s4)))"
    using prune_waiters_ok [OF r(1), of env] by (simp add: s4_def)
  have l: "pruneAndReadLeases env s = (s\<lparr>st_leases := live\<rparr>, Inr (map snd live))"
    unfolding live_def using assms(1) by (rule prune_leases_ok)
  have sample: "store_sample host (s\<lparr>st_leases := live\<rparr>) = (s\<lparr>st_leases := live, st_sample := h\<rparr>, h)"
    by (simp add: store_sample_def h_def Let_def)
  have ev: "coordinator_evaluator env w' h ls q w' = evaluateResourceAdmission h ls q
      (resourceLeaseAccountingContext ls (ce_parents env) (js_get (js_get w ''owner'') ''pid''))" for ls q
    by (simp add: coordinator_evaluator_def resourceCoordinatorEvaluator_def r(5))
  show thesis
  proof (rule that [of s4 w' "map snd (st_waiters s4)"])
    show "st_leases s4 = live" using r(4) by (simp add: s4_def)
    show "acquire_transaction env host r i token w s =
       (let d = evaluateResourceAdmission h (map snd live) eff
              (resourceLeaseAccountingContext (map snd live) (ce_parents env) (js_get (js_get w ''owner'') ''pid''));
            selected = selectedResourceWaiter (coordinator_evaluator env w') (map snd (st_waiters s4)) (map snd live) h (ce_now env)
        in if \<not> admitted d \<or> map_option (\<lambda>v. js_get v ''waiter_id'') selected \<noteq> Some (js_get w' ''waiter_id'')
           then (s4, w', Inr (fairness_wait d, None))
           else (case grant_lease env i token (reserved_request eff d) w' s4 of
               (s5, Inl e) \<Rightarrow> (s5, w', Inl e) | (s5, Inr l) \<Rightarrow> (s5, w', Inr (d, Some l))))"
      unfolding acquire_transaction_def l prod.case sum.case sample Let_def eff_def [symmetric] f p ev ..
  qed (use s4 r(2,5) eff in simp_all)
qed

section \<open>Runs of the coordinator\<close>

text \<open>
  The transactions of all processes, in the order in which they get the lock.  A waiter is created and removed without
  it; an attempt carries the waiter the process holds in memory, and a release what it observed before the lock.
\<close>

datatype coordinator_event =
    Enqueue coordinator_env jsv string string int
  | Attempt coordinator_env jsv elastic_request string string jsv
  | Abandon coordinator_env jsv
  | BindLease coordinator_env string jsv jsv "rat option" bool
  | ReleaseLease coordinator_env string jsv "nat option" "rat option"
  | Snapshot coordinator_env jsv jsv

fun event_env :: "coordinator_event \<Rightarrow> coordinator_env" where
  "event_env (Enqueue env r i token waitMs) = env"
| "event_env (Attempt env host r i token w) = env"
| "event_env (Abandon env w) = env"
| "event_env (BindLease env i token childPid start isolated) = env"
| "event_env (ReleaseLease env i token observedPid start) = env"
| "event_env (Snapshot env host priority) = env"

fun coordinator_step :: "resource_store \<Rightarrow> coordinator_event \<Rightarrow> resource_store" where
  "coordinator_step s (Enqueue env r i token waitMs) =
     (case createExclusiveFile (record_name ''wait_'' i) (createResourceWaiter env i token r waitMs) (st_waiters s) of
        Inl e \<Rightarrow> s | Inr dir \<Rightarrow> s\<lparr>st_waiters := dir\<rparr>)"
| "coordinator_step s (Attempt env host r i token w) = fst (acquire_transaction env host r i token w s)"
| "coordinator_step s (Abandon env w) = s\<lparr>st_waiters := fst (removeResourceWaiter w (st_waiters s))\<rparr>"
| "coordinator_step s (BindLease env i token childPid start isolated) = fst (bindLease env i token childPid start isolated s)"
| "coordinator_step s (ReleaseLease env i token observedPid start) = fst (release_transaction env i token observedPid start s)"
| "coordinator_step s (Snapshot env host priority) = fst (snapshot_transaction env host priority s)"

definition hex_token :: "string \<Rightarrow> bool" where
  "hex_token t = hex_string 64 (JStr t)"

text \<open>
  Events within bounds: valid requests and waiters, identifiers and tokens of the right form, clocks in range; and an
  attempt on a machine whose cores a request may name.
\<close>

fun event_valid :: "coordinator_event \<Rightarrow> bool" where
  "event_valid (Enqueue env r i token waitMs) =
     (env_ok env \<and> validateResourceRequest r = Inr () \<and> hex_id i \<and> hex_token token \<and> waitMs \<le> 1800000)"
| "event_valid (Attempt env host r i token w) =
     (env_ok env \<and> validateResourceRequest (body r) = Inr () \<and> hex_id i \<and> hex_token token \<and> validateWaiter w = Inr ())"
| "event_valid (Abandon env w) = env_ok env"
| "event_valid (BindLease env i token childPid start isolated) =
     (env_ok env \<and> (case start of None \<Rightarrow> True | Some t \<Rightarrow> 0 \<le> t \<and> t < of_int TIME_END))"
| "event_valid (ReleaseLease env i token observedPid start) = env_ok env"
| "event_valid (Snapshot env host priority) = env_ok env"

fun event_ok :: "coordinator_event \<Rightarrow> bool" where
  "event_ok (Attempt env host r i token w) = (event_valid (Attempt env host r i token w) \<and> host_ok host)"
| "event_ok e = event_valid e"

lemma grant_shape:
  assumes "grant_lease env i token req w s = (s', res)"
  shows "(s' = s \<and> (\<exists>e. res = Inl e)) \<or> (\<exists>l. res = Inr l \<and> l = createLease env i token req \<and> hex_id i \<and> map_of (st_leases s) (record_name ''lease_'' i) = None
    \<and> s' = s\<lparr>st_leases := st_leases s @ [(record_name ''lease_'' i, l)], st_waiters := fst (removeResourceWaiter w (st_waiters s))\<rparr>)"
  using assms by (auto simp: grant_lease_def leasePath_def createExclusiveFile_def Let_def map_set_new map_of_eq_None_iff split: if_splits)

lemma created_lease_file:
  assumes "env_ok env" "hex_id i" "hex_token token" "validateResourceRequest r = Inr ()"
  shows "lease_file (record_name ''lease_'' i) (createLease env i token r)"
  using createLease_valid [OF assms(1,2) _ assms(4), of token] assms(3) by (simp add: lease_file_def hex_token_def) (simp add: createLease_def)

lemma dir_ok_append: "dir_ok good dir \<Longrightarrow> good n v \<Longrightarrow> map_of dir n = None \<Longrightarrow> dir_ok good (dir @ [(n, v)])"
  using dir_ok_set [of good dir n v] by (simp add: map_set_new map_of_eq_None_iff)

lemma attempt_ok:
  assumes s: "store_ok s" and e: "event_ok (Attempt env host r i token w)"
  shows "store_ok (coordinator_step s (Attempt env host r i token w))"
proof -
  let ?h = "deriveHostRates host (st_sample s)" and ?live = "filter (\<lambda>(n, l). \<not> resourceLeaseIsStale env PROVISIONAL_TTL_MS l) (st_leases s)"
  let ?eff = "effective_request env ?h (map snd ?live) r w"
  define d where "d = evaluateResourceAdmission ?h (map snd ?live) ?eff
              (resourceLeaseAccountingContext (map snd ?live) (ce_parents env) (js_get (js_get w ''owner'') ''pid''))"
  have e': "env_ok env" "host_ok ?h" "validateResourceRequest (body r) = Inr ()" "hex_id i" "hex_token token" "validateWaiter w = Inr ()"
    using e by (simp_all add: host_ok_derived)
  obtain w' s4 ws where a: "st_leases s4 = ?live" "store_ok s4" "validateWaiter w' = Inr ()" "validateResourceRequest ?eff = Inr ()"
    "js_get w' ''owner'' = js_get w ''owner''"
    and t: "acquire_transaction env host r i token w s =
       (let d = evaluateResourceAdmission ?h (map snd ?live) ?eff
              (resourceLeaseAccountingContext (map snd ?live) (ce_parents env) (js_get (js_get w ''owner'') ''pid''));
            selected = selectedResourceWaiter (coordinator_evaluator env w') ws (map snd ?live) ?h (ce_now env)
        in if \<not> admitted d \<or> map_option (\<lambda>v. js_get v ''waiter_id'') selected \<noteq> Some (js_get w' ''waiter_id'')
           then (s4, w', Inr (fairness_wait d, None))
           else (case grant_lease env i token (reserved_request ?eff d) w' s4 of
               (s5, Inl e) \<Rightarrow> (s5, w', Inl e) | (s5, Inr l) \<Rightarrow> (s5, w', Inr (d, Some l))))"
    by (rule acquire_shape [OF s e'(6,3)])
  obtain s5 res where g: "grant_lease env i token (reserved_request ?eff d) w' s4 = (s5, res)" by fastforce
  have v: "validateResourceRequest (reserved_request ?eff d) = Inr ()"
    unfolding d_def using a(4) e'(2) by (rule reserved_request_facts)
  have "store_ok s5"
    using grant_shape [OF g]
  proof (elim disjE conjE exE)
    fix l assume l: "l = createLease env i token (reserved_request ?eff d)" "map_of (st_leases s4) (record_name ''lease_'' i) = None"
      "s5 = s4\<lparr>st_leases := st_leases s4 @ [(record_name ''lease_'' i, l)], st_waiters := fst (removeResourceWaiter w' (st_waiters s4))\<rparr>"
    have "dir_ok lease_file (st_leases s4 @ [(record_name ''lease_'' i, l)])"
      using a(2) l(2) created_lease_file [OF e'(1,4,5) v] by (intro dir_ok_append) (simp_all add: store_ok_def l(1))
    moreover have "dir_ok waiter_file (fst (removeResourceWaiter w' (st_waiters s4)))"
      using a(2) waiter_removal_shape [of w' "st_waiters s4"] by (auto simp: store_ok_def intro: dir_ok_del)
    ultimately show "store_ok s5" by (simp add: store_ok_def l(3))
  qed (use a(2) in simp)
  then have "store_ok (fst (acquire_transaction env host r i token w s))"
    using a(2) unfolding t Let_def d_def [symmetric] g by (cases res) auto
  then show ?thesis by simp
qed

lemma bind_ok:
  assumes s: "store_ok s" and e: "event_ok (BindLease env i token childPid start isolated)"
  shows "store_ok (coordinator_step s (BindLease env i token childPid start isolated))"
proof -
  have "store_ok s'" if b: "bindLease env i token childPid start isolated s = (s', res)" for s' res
  proof (cases "s' = s")
    case False
    let ?n = "record_name ''lease_'' i"
    from b False obtain l where l: "map_of (st_leases s) ?n = Some l" "js_get (lease_owner l) ''kind'' \<noteq> JStr ''process''"
      "positive_safe_integer childPid"
      "s' = s\<lparr>st_leases := map_set ?n (spread l [(''owner'', process_owner env (finite_number childPid) start
              (isolated \<and> ce_platform env \<noteq> ''win32'')), (''bound_at'', JStr (toISOString (ce_now env)))]) (st_leases s)\<rparr>"
      unfolding bindLease_def leasePath_def Let_def by (auto split: if_splits option.splits sum.splits)
    have f: "lease_file ?n l" using s l(1) dir_ok_lookup [of lease_file "st_leases s"] dir_ok_member by (auto simp: store_ok_def)
    then have "lease_file ?n (spread l [(''owner'', process_owner env (finite_number childPid) start
              (isolated \<and> ce_platform env \<noteq> ''win32'')), (''bound_at'', JStr (toISOString (ce_now env)))])"
      using rebound_valid [of l env childPid start "isolated \<and> ce_platform env \<noteq> ''win32''"] l(2,3) e
      by (simp add: lease_file_def) (simp add: js_get_spread)
    then show ?thesis using s by (simp add: l(4) store_ok_def dir_ok_set)
  qed (use s in simp)
  then show ?thesis by (metis coordinator_step.simps(4) prod.collapse)
qed

lemma release_shape: "st_waiters (fst (release_transaction env i token p start s)) = st_waiters s
   \<and> (\<exists>n. st_leases (fst (release_transaction env i token p start s)) \<in> {st_leases s, map_del n (st_leases s)})"
  by (auto simp: release_transaction_def Let_def split: sum.splits option.splits prod.splits dest!: remove_shape)

lemma step_ok:
  assumes "store_ok s" "event_ok e"
  shows "store_ok (coordinator_step s e)"
proof (cases e)
  case (Enqueue env r i token waitMs)
  let ?w = "createResourceWaiter env i token r waitMs"
  have "validateWaiter ?w = Inr ()" using assms(2) by (simp add: Enqueue hex_token_def createResourceWaiter_valid)
  then have "waiter_file (record_name ''wait_'' i) ?w" by (simp add: waiter_file_def) (simp add: createResourceWaiter_def waiter_id_def)
  then show ?thesis using assms(1) by (simp add: Enqueue createExclusiveFile_def store_ok_def dir_ok_set)
next
  case (Abandon env w)
  then show ?thesis using assms(1) waiter_removal_shape [of w "st_waiters s"] by (auto simp: store_ok_def intro: dir_ok_del)
next
  case (ReleaseLease env i token p start)
  then show ?thesis using assms(1) release_shape [of env i token p start s] by (auto simp: store_ok_def intro: dir_ok_del)
next
  case (Snapshot env host priority)
  have "store_ok (s\<lparr>st_leases := filter (\<lambda>(n, l). \<not> resourceLeaseIsStale env PROVISIONAL_TTL_MS l) (st_leases s)\<rparr>)"
    using assms(1) by (simp add: store_ok_def dir_ok_filter)
  then show ?thesis
    using assms(1) by (simp add: Snapshot snapshot_transaction_def prune_leases_ok prune_waiters_ok store_sample_def Let_def
      store_ok_def dir_ok_filter split: prod.split)
qed (use assms attempt_ok bind_ok in blast)+

lemma run_ok: "store_ok s \<Longrightarrow> list_all event_ok es \<Longrightarrow> store_ok (foldl coordinator_step s es)"
  by (induction es arbitrary: s) (simp_all add: step_ok)

section \<open>The directory never becomes unreadable\<close>

text \<open>
  C36. On machines of at most 1024 cores the coordinator never makes its own directory unreadable: in every run of valid
  events (requests, identifiers, tokens and clocks in range) in which each attempt sees at most 1024 cores, every file is a valid lease or waiter under its own name, so
  reading and pruning never fail, and they return exactly the records that are not stale and keep exactly their
  files.  The bound on the cores is needed: \<open>large_host_unreadable\<close> is a run on a larger machine.
\<close>

theorem directory_stays_readable:
  fixes es env
  assumes "list_all event_valid es"
    and "\<forall>env host r i token w. Attempt env host r i token w \<in> set es \<longrightarrow> number_at_least 1 (js_get host ''cpu_cores'') 1 \<le> 1024"
  defines "s \<equiv> foldl coordinator_step empty_store es"
  defines "leases \<equiv> filter (\<lambda>(n, l). \<not> resourceLeaseIsStale env PROVISIONAL_TTL_MS l) (st_leases s)"
  defines "waiters \<equiv> filter (\<lambda>(n, w). \<not> waiterIsStale env w) (st_waiters s)"
  shows "store_ok s \<and> pruneAndReadLeases env s = (s\<lparr>st_leases := leases\<rparr>, Inr (map snd leases))
     \<and> pruneAndReadWaiters env s = (s\<lparr>st_waiters := waiters\<rparr>, Inr (map snd waiters))"
proof -
  have "event_ok e" if "e \<in> set es" for e
  proof -
    have "event_valid e" using that assms(1) by (simp add: list_all_iff)
    then show ?thesis using that assms(2) by (cases e) (simp_all add: host_ok_def del: event_valid.simps, blast)
  qed
  then have "list_all event_ok es" by (simp add: list_all_iff)
  moreover have "store_ok empty_store" by (simp add: store_ok_def dir_ok_def empty_store_def)
  ultimately have s: "store_ok s" unfolding s_def by (intro run_ok)
  then show ?thesis unfolding leases_def waiters_def by (simp add: prune_leases_ok prune_waiters_ok)
qed

section \<open>A live lease is kept\<close>

text \<open>
  The process of a bound lease is seen alive, as the process the lease was bound to, or its leader is gone and the
  group it leads is alive.
\<close>

definition holder_lives :: "coordinator_env \<Rightarrow> jsv \<Rightarrow> bool" where
  "holder_lives env l =
     (let w = lease_owner l; pid = exactOwnerPid (js_get w ''pid'') in
      (env_alive env pid \<and> (case (env_start env pid, exactOwnerTime (js_get w ''process_started_at'')) of
           (Some t, Some r) \<Rightarrow> \<bar>t - of_int r\<bar> \<le> START_TIME_TOLERANCE_MS | (None, Some r) \<Rightarrow> True | _ \<Rightarrow> False))
      \<or> (\<not> env_alive env pid \<and> js_get w ''process_group_isolated'' = JBool True \<and> resourceProcessGroupAlive env (js_get w ''process_group_id'')))"

text \<open>The one event that may remove a bound lease of a live process: its own release.\<close>

fun releases :: "coordinator_event \<Rightarrow> jsv \<Rightarrow> bool" where
  "releases (ReleaseLease env i token p start) l = (js_get l ''lease_id'' = JStr i \<and> js_get l ''token'' = token)"
| "releases e l = False"

lemma same_process_status:
  assumes "isAlive pid" "exactOwnerPid (js_get owner ''pid'') = pid" "pid \<noteq> 0"
    "exactOwnerTime (js_get owner ''processStartedAt'') = Some r"
    "case start pid of None \<Rightarrow> True | Some t \<Rightarrow> \<bar>t - of_int r\<bar> \<le> START_TIME_TOLERANCE_MS"
  shows "is_reason (inspectProcessInstance isAlive start now m owner) \<noteq> ''pid_reused''"
  using assms unfolding inspectProcessInstance_def instance_verdict_def Let_def owner_reused_def
  by (auto simp: exactOwnerTime_def split: option.splits)

lemma lease_pid: "validateLease l = Inr () \<Longrightarrow> exactOwnerPid (js_get (lease_owner l) ''pid'') \<noteq> 0"
  by (rule exactOwnerPid_positive) (simp_all add: validateLease_iff validOwner_def positive_safe_integer_def)

lemma live_not_stale:
  assumes "validateLease l = Inr ()" "js_get (lease_owner l) ''kind'' = JStr ''process''" "holder_lives env l"
  shows "\<not> resourceLeaseIsStale env ttl l"
proof -
  let ?pid = "exactOwnerPid (js_get (lease_owner l) ''pid'')"
  define owner where "owner = JObj [(''pid'', js_get (lease_owner l) ''pid''), (''startedAt'', js_get l ''acquired_at''),
              (''processStartedAt'', js_get (lease_owner l) ''process_started_at'')]"
  have o: "js_get owner ''pid'' = js_get (lease_owner l) ''pid''" "js_get owner ''processStartedAt'' = js_get (lease_owner l) ''process_started_at''"
    by (simp_all add: owner_def)
  let ?status = "inspectProcessInstance (env_alive env) (\<lambda>_. env_start env ?pid) (ce_now env) None owner"
  have st: "resourceLeaseOwnerStatus env l = ?status"
    by (simp add: resourceLeaseOwnerStatus_def resourceLeaseOwnerStatusFromStart_def owner_def)
  have p: "?pid \<noteq> 0" using assms(1) by (rule lease_pid)
  show ?thesis
  proof (cases "env_alive env ?pid")
    case True
    with assms(3) obtain r where r: "exactOwnerTime (js_get (lease_owner l) ''process_started_at'') = Some r"
      "case env_start env ?pid of None \<Rightarrow> True | Some t \<Rightarrow> \<bar>t - of_int r\<bar> \<le> START_TIME_TOLERANCE_MS"
      by (auto simp: holder_lives_def Let_def split: option.splits)
    have "is_reason ?status \<noteq> ''pid_reused''" "\<not> is_reclaimable ?status"
      using True p r o by (simp_all only: same_process_status [of "env_alive env" ?pid owner r "\<lambda>_. env_start env ?pid"]
        same_process_kept [of "env_alive env" ?pid owner r "\<lambda>_. env_start env ?pid"] not_False_eq_True)
    then show ?thesis using assms(2) by (simp add: resourceLeaseIsStale_def Let_def st)
  next
    case False
    then have "is_reason ?status = ''not_running''" using p by (simp add: inspectProcessInstance_def instance_verdict_def Let_def o)
    with False assms(2,3) show ?thesis by (simp add: resourceLeaseIsStale_def Let_def st holder_lives_def)
  qed
qed

lemma attempt_keeps:
  assumes s: "store_ok s" and e: "event_ok (Attempt env host r i token w)" and m: "(n, l) \<in> set (st_leases s)"
    and live: "\<not> resourceLeaseIsStale env PROVISIONAL_TTL_MS l"
  shows "(n, l) \<in> set (st_leases (coordinator_step s (Attempt env host r i token w)))"
proof -
  let ?h = "deriveHostRates host (st_sample s)" and ?live = "filter (\<lambda>(n, l). \<not> resourceLeaseIsStale env PROVISIONAL_TTL_MS l) (st_leases s)"
  let ?eff = "effective_request env ?h (map snd ?live) r w"
  have e': "validateWaiter w = Inr ()" "validateResourceRequest (body r) = Inr ()" using e by simp_all
  obtain w' s4 ws where a: "st_leases s4 = ?live" "store_ok s4" "validateWaiter w' = Inr ()" "validateResourceRequest ?eff = Inr ()"
    "js_get w' ''owner'' = js_get w ''owner''"
    and t: "acquire_transaction env host r i token w s =
       (let d = evaluateResourceAdmission ?h (map snd ?live) ?eff
              (resourceLeaseAccountingContext (map snd ?live) (ce_parents env) (js_get (js_get w ''owner'') ''pid''));
            selected = selectedResourceWaiter (coordinator_evaluator env w') ws (map snd ?live) ?h (ce_now env)
        in if \<not> admitted d \<or> map_option (\<lambda>v. js_get v ''waiter_id'') selected \<noteq> Some (js_get w' ''waiter_id'')
           then (s4, w', Inr (fairness_wait d, None))
           else (case grant_lease env i token (reserved_request ?eff d) w' s4 of
               (s5, Inl e) \<Rightarrow> (s5, w', Inl e) | (s5, Inr l) \<Rightarrow> (s5, w', Inr (d, Some l))))"
    by (rule acquire_shape [OF s e'])
  have "(n, l) \<in> set (st_leases s4)" using m live by (simp add: a(1))
  moreover have "(n, l) \<in> set (st_leases s5)" if "grant_lease env i token q w' s4 = (s5, res)" "(n, l) \<in> set (st_leases s4)" for q s5 res
    using grant_shape [OF that(1)] that(2) by auto
  ultimately show ?thesis
    unfolding coordinator_step.simps t Let_def by (auto split: prod.split sum.split)
qed

lemma bind_changes:
  "fst (bindLease env i token childPid start isolated s) = s
   \<or> (\<exists>l l'. map_of (st_leases s) (record_name ''lease_'' i) = Some l \<and> js_get (lease_owner l) ''kind'' \<noteq> JStr ''process''
        \<and> st_leases (fst (bindLease env i token childPid start isolated s)) = map_set (record_name ''lease_'' i) l' (st_leases s))"
proof (cases "positive_safe_integer childPid \<and> hex_id i")
  case True
  let ?n = "record_name ''lease_'' i"
  show ?thesis
  proof (cases "map_of (st_leases s) ?n")
    case (Some l)
    show ?thesis
      by (cases "assertLeaseToken l token"; cases "js_get (lease_owner l) ''kind'' = JStr ''process''")
        (use True Some in \<open>simp_all add: bindLease_def leasePath_def Let_def del: not_ex\<close>, blast)
  qed (use True in \<open>simp add: bindLease_def leasePath_def\<close>)
qed (auto simp: bindLease_def leasePath_def)

lemma release_changes:
  "fst (release_transaction env i token p start s) = s
   \<or> (\<exists>l. map_of (st_leases s) (record_name ''lease_'' i) = Some l \<and> js_get l ''token'' = token
        \<and> st_leases (fst (release_transaction env i token p start s)) = map_del (record_name ''lease_'' i) (st_leases s))"
proof (cases "hex_id i")
  case True
  let ?n = "record_name ''lease_'' i"
  show ?thesis
  proof (cases "map_of (st_leases s) ?n")
    case (Some l)
    show ?thesis
    proof (cases "assertLeaseToken l token")
      case (Inr u)
      then have t: "js_get l ''token'' = token" by (auto simp: assertLeaseToken_def res_bind_Inr_iff split: if_splits)
      obtain d b where d: "removeOwnedJsonFile ?n [(''lease_id'', JStr i), (''token'', token)] (st_leases s) = (d, b)" by fastforce
      have "d = st_leases s \<or> d = map_del ?n (st_leases s)" using d by (rule remove_shape)
      then show ?thesis using True Some Inr t by (auto simp: release_transaction_def leasePath_def Let_def d)
    qed (use True Some in \<open>simp add: release_transaction_def leasePath_def\<close>)
  qed (use True in \<open>simp add: release_transaction_def leasePath_def\<close>)
qed (simp add: release_transaction_def leasePath_def)

lemma step_keeps:
  assumes s: "store_ok s" and e: "event_ok e" and m: "(n, l) \<in> set (st_leases s)"
    and k: "js_get (lease_owner l) ''kind'' = JStr ''process''" and h: "holder_lives (event_env e) l" and r: "\<not> releases e l"
  shows "(n, l) \<in> set (st_leases (coordinator_step s e))"
proof -
  have f: "lease_file n l" using s m by (auto simp: store_ok_def intro: dir_ok_member)
  then have v: "validateLease l = Inr ()" by (simp add: lease_file_def)
  have live: "\<not> resourceLeaseIsStale (event_env e) PROVISIONAL_TTL_MS l" using v k h by (rule live_not_stale)
  have lookup: "map_of (st_leases s) n' = Some l' \<longleftrightarrow> (n', l') \<in> set (st_leases s)" for n' l'
    using s dir_ok_lookup [of lease_file "st_leases s"] by (simp add: store_ok_def)
  show ?thesis
  proof (cases e)
    case (Enqueue env q i token waitMs)
    then show ?thesis using m by (simp split: sum.split)
  next
    case (BindLease env i token childPid start isolated)
    have "map_of (st_leases (fst (bindLease env i token childPid start isolated s))) n = Some l"
      using bind_changes [of env i token childPid start isolated s] m k unfolding lookup [symmetric] by (auto simp: map_of_map_set)
    then show ?thesis by (simp add: BindLease map_of_SomeD)
  next
    case (ReleaseLease env i token p start)
    have other: "n \<noteq> n'" if "map_of (st_leases s) n' = Some l'" "js_get l' ''token'' = token" "n' = record_name ''lease_'' i" for n' l'
    proof
      assume "n = n'"
      with that m have "l' = l" using lookup by (metis option.inject)
      moreover have "js_get l ''lease_id'' = JStr i"
        using f \<open>n = n'\<close> that(3) by (auto simp: lease_file_def record_name_def)
      ultimately show False using r that(2) by (simp add: ReleaseLease)
    qed
    have "map_of (st_leases (fst (release_transaction env i token p start s))) n = Some l"
      using release_changes [of env i token p start s] m other unfolding lookup [symmetric] by (auto simp: map_of_map_del)
    then show ?thesis by (simp add: ReleaseLease map_of_SomeD)
  next
    case (Snapshot env host priority)
    have "store_ok (s\<lparr>st_leases := filter (\<lambda>(n, l). \<not> resourceLeaseIsStale env PROVISIONAL_TTL_MS l) (st_leases s)\<rparr>)"
      using s by (simp add: store_ok_def dir_ok_filter)
    then show ?thesis
      using s m live by (simp add: Snapshot snapshot_transaction_def prune_leases_ok prune_waiters_ok store_sample_def Let_def split: prod.split)
  qed (use s e m live attempt_keeps in auto)
qed

text \<open>
  C35. A lease bound to a living process is never lost: whatever the other processes do, it stays in the directory,
  unchanged, until its own holder releases it, as long as every transaction sees the process alive, or the
  group it leads.
\<close>

theorem live_lease_kept:
  assumes "store_ok s" "list_all event_ok es" "(n, l) \<in> set (st_leases s)" "js_get (lease_owner l) ''kind'' = JStr ''process''"
    and "list_all (\<lambda>e. holder_lives (event_env e) l \<and> \<not> releases e l) es"
  shows "(n, l) \<in> set (st_leases (foldl coordinator_step s es))"
  using assms
proof (induction es arbitrary: s)
  case (Cons e es)
  from Cons.prems have "(n, l) \<in> set (st_leases (coordinator_step s e))" by (intro step_keeps) simp_all
  moreover have "store_ok (coordinator_step s e)" using Cons.prems by (intro step_ok) simp_all
  ultimately show ?case using Cons.IH [of "coordinator_step s e"] Cons.prems by simp
qed simp

text \<open>
  Only the holder can bind or release a lease: with any other token both fail, and nothing is changed.
\<close>

lemma wrong_token_rejected:
  assumes "store_ok s" "(record_name ''lease_'' i, l) \<in> set (st_leases s)" "js_get l ''token'' \<noteq> token"
  shows "(positive_safe_integer childPid \<longrightarrow> bindLease env i token childPid start isolated s = (s, Inl ''resource lease ownership changed''))
     \<and> release_transaction env i token p observed s = (s, Inl ''resource lease ownership changed'')"
proof -
  have f: "lease_file (record_name ''lease_'' i) l" using assms(1,2) by (auto simp: store_ok_def intro: dir_ok_member)
  then have "validateLease l = Inr ()" "hex_id i" using valid_lease_id by (auto simp: lease_file_def record_name_def)
  moreover have "map_of (st_leases s) (record_name ''lease_'' i) = Some l" 
    using assms(1,2) dir_ok_lookup [of lease_file "st_leases s"] by (simp add: store_ok_def)
  ultimately show ?thesis
    using assms(3) by (simp add: bindLease_def release_transaction_def leasePath_def assertLeaseToken_def)
qed

section \<open>What a granted lease keeps\<close>

text \<open>Leases that count the same: the same identifier, and requests of the same vector.\<close>

definition counts_same :: "jsv \<Rightarrow> jsv \<Rightarrow> bool" where
  "counts_same l l' = (leaseId l = leaseId l' \<and> requestVector (lease_request l) = requestVector (lease_request l')
     \<and> (js_get (lease_request l) ''heavy'' = JBool False \<longleftrightarrow> js_get (lease_request l') ''heavy'' = JBool False))"

definition index_same :: "(string \<times> jsv) list \<Rightarrow> (string \<times> jsv) list \<Rightarrow> bool" where
  "index_same idx idx' = list_all2 (\<lambda>(i, l) (i', l'). i = i' \<and> counts_same l l') idx idx'"

lemma lease_ids_same: "list_all2 counts_same ls ls' \<Longrightarrow> lease_ids ls = lease_ids ls'"
  by (induction rule: list_all2_induct) (simp_all add: counts_same_def lease_ids_def List.map_filter_simps split: option.split)

lemma index_from_same:
  "list_all2 counts_same ls ls' \<Longrightarrow> index_same m m' \<Longrightarrow> rel_option index_same (index_from n m ls) (index_from n m' ls')"
proof (induction ls ls' arbitrary: n m m' rule: list_all2_induct)
  case (Cons l ls l' ls')
  have fst: "map fst m = map fst m'"
    using Cons.prems by (simp add: index_same_def) (induction rule: list_all2_induct, auto)
  define i where "i = (case leaseId l of Some s \<Rightarrow> s | None \<Rightarrow> ''__anonymous_'' @ nat_string n)"
  have i': "(case leaseId l' of Some s \<Rightarrow> s | None \<Rightarrow> ''__anonymous_'' @ nat_string n) = i"
    using Cons.hyps(1) by (simp add: i_def counts_same_def)
  have "index_same (m @ [(i, l)]) (m' @ [(i, l')])"
    using Cons.prems Cons.hyps(1) by (simp add: index_same_def list_all2_appendI)
  then show ?case
    using Cons.IH [of "m @ [(i, l)]" "m' @ [(i, l')]" "Suc n"] fst by (simp add: Let_def i_def [symmetric] i' del: set_map)
qed simp

lemma effective_same: "index_same idx idx' \<Longrightarrow> effective n idx ps i = effective n idx' ps i"
proof (induction n arbitrary: i)
  case (Suc n)
  have fst: "map fst idx = map fst idx'" and own: "own_request idx i = own_request idx' i"
    using Suc.prems unfolding index_same_def
    by (induction rule: list_all2_induct) (auto simp: own_request_def counts_same_def)
  have "children_of idx ps i = children_of idx' ps i" unfolding children_of_def fst ..
  moreover have "effective n idx ps = effective n idx' ps" by (rule ext) (rule Suc.IH [OF Suc.prems])
  ultimately show ?case using own by (simp add: effective_Suc del: effective.simps(2))
qed simp

lemma naive_same:
  assumes "list_all2 counts_same ls ls'"
  shows "naiveAggregate ls = naiveAggregate ls'"
proof -
  let ?f = "\<lambda>t l. if js_get (lease_request l) ''heavy'' = JBool False then t else add_root t (requestVector (lease_request l))"
  have "foldl ?f t ls = foldl ?f t ls'" for t
    using assms by (induction arbitrary: t rule: list_all2_induct) (auto simp: counts_same_def)
  then show ?thesis by (simp add: naiveAggregate_def)
qed

lemma aggregate_same:
  assumes "list_all2 counts_same ls ls'"
  shows "aggregateEffective ls ps = aggregateEffective ls' ps"
proof -
  have v: "validParentForest ls ps = validParentForest ls' ps"
    by (simp add: validParentForest_def lease_ids_same [OF assms])
  have "rel_option index_same (indexLeases ls) (indexLeases ls')"
    unfolding indexLeases_def by (rule index_from_same [OF assms]) (simp add: index_same_def)
  then show ?thesis
  proof (cases rule: option.rel_cases)
    case None
    then show ?thesis by (simp add: aggregateEffective_def naive_same [OF assms])
  next
    case (Some idx idx')
    have len: "length idx = length idx'" and fst: "map fst idx = map fst idx'"
      using Some(3) unfolding index_same_def by (auto dest: list_all2_lengthD) (induction rule: list_all2_induct, auto)
    have r: "forest_roots idx ps = forest_roots idx' ps" unfolding forest_roots_def fst ..
    show ?thesis by (simp add: aggregateEffective_def Some v naive_same [OF assms] len r effective_same [OF Some(3)])
  qed
qed

lemma pending_same:
  assumes "requestVector r = requestVector r'" "js_get r ''heavy'' \<noteq> JBool False" "js_get r' ''heavy'' \<noteq> JBool False"
  shows "aggregateEffective (ls @ [pending_lease r]) ps = aggregateEffective (ls @ [pending_lease r']) ps"
proof -
  have "list_all2 counts_same ls ls" by (rule list_all2_refl) (simp add: counts_same_def)
  then show ?thesis
    using assms by (intro aggregate_same list_all2_appendI) (simp_all add: counts_same_def)
qed

lemma stored_ids_not_pending:
  assumes "dir_ok lease_file dir"
  shows "pendingId \<notin> set (lease_ids (map snd dir))"
proof
  assume "pendingId \<in> set (lease_ids (map snd dir))"
  then obtain n l where l: "(n, l) \<in> set dir" "leaseId l = Some pendingId"
    by (auto simp: lease_ids_def List.map_filter_def)
  then have "js_get l ''lease_id'' = JStr pendingId" by (auto simp: leaseId_def split: jsv.splits if_splits)
  moreover have "validateLease l = Inr ()" using dir_ok_member [OF assms l(1)] by (simp add: lease_file_def)
  ultimately have "hex_id pendingId" by (metis valid_lease_id)
  moreover have "\<not> hex_id pendingId" by (simp add: hex_id_def pendingId_def)
  ultimately show False by simp
qed

text \<open>
  C34. A granted lease keeps the machine within its limits.  The lease is stored beside the leases that are not stale, under
  the identifier and token it was given; with it the CPU, the input-output and the memory reserved on the machine stay
  within the overcommitted limits of the pressure measured in the same transaction, the host is not critical (disk reclaim
  apart), the free disk covers every reservation above the hard floor, no lease but an enclosing one
  holds its contention key, and it reserves what the decision declared.
\<close>

theorem granted_lease_fits:
  fixes env host r i token w s
  assumes "store_ok s" "event_ok (Attempt env host r i token w)"
    and "acquire_transaction env host r i token w s = (s', w', Inr (d, Some l))"
  defines "live \<equiv> filter (\<lambda>(n, l). \<not> resourceLeaseIsStale env PROVISIONAL_TTL_MS l) (st_leases s)"
  defines "h \<equiv> deriveHostRates host (st_sample s)"
  defines "a \<equiv> resourceLeaseAccountingContext (map snd live) (ce_parents env) (js_get (js_get w ''owner'') ''pid'')"
  defines "eff \<equiv> effective_request env h (map snd live) r w"
  defines "p \<equiv> resourcePressureState h (aggregateResourceLeases (map snd live) a)"
  defines "lm \<equiv> evaluate_limits h eff p"
  defines "after \<equiv> used_vector (aggregateEffective (map snd live @ [pending_lease (lease_request l)]) (pending_parents a))"
  shows "st_leases s' = live @ [(record_name ''lease_'' i, l)] \<and> js_get l ''lease_id'' = JStr i \<and> js_get l ''token'' = JStr token
     \<and> requestVector (lease_request l) = declared_vector lm eff
     \<and> cpu after \<le> cpu_limit lm * cpu_overcommit lm + 1 / 100 \<and> io after \<le> io_limit lm * io_overcommit lm + 1 / 100
     \<and> memory_mb after \<le> memory_limit lm * memory_overcommit lm + 1
     \<and> (ps_state p = ''red'' \<longrightarrow> disk_only_critical eff p)
     \<and> (isDiskReclaimRequest eff \<or> diskReservationFits h 0 (disk_reserve_bytes after))
     \<and> \<not> contention_busy (map snd live) eff a"
proof -
  have e': "validateWaiter w = Inr ()" "validateResourceRequest (body r) = Inr ()" "host_ok h"
    using assms(2) by (simp_all add: h_def host_ok_derived)
  obtain v s4 ws where t: "st_leases s4 = live" "store_ok s4" "validateWaiter v = Inr ()" "validateResourceRequest eff = Inr ()"
    "js_get v ''owner'' = js_get w ''owner''"
    "acquire_transaction env host r i token w s =
       (let d = evaluateResourceAdmission h (map snd live) eff a;
            selected = selectedResourceWaiter (coordinator_evaluator env v) ws (map snd live) h (ce_now env)
        in if \<not> admitted d \<or> map_option (\<lambda>v. js_get v ''waiter_id'') selected \<noteq> Some (js_get v ''waiter_id'')
           then (s4, v, Inr (fairness_wait d, None))
           else (case grant_lease env i token (reserved_request eff d) v s4 of
               (s5, Inl e) \<Rightarrow> (s5, v, Inl e) | (s5, Inr l) \<Rightarrow> (s5, v, Inr (d, Some l))))"
    unfolding live_def h_def eff_def a_def by (rule acquire_shape [OF assms(1) e'(1,2)])
  obtain s5 res where g: "grant_lease env i token (reserved_request eff (evaluateResourceAdmission h (map snd live) eff a)) v s4 = (s5, res)"
    by fastforce
  have d: "admitted d" "d = evaluateResourceAdmission h (map snd live) eff a" "res = Inr l" "s5 = s'"
    using assms(3) unfolding t(6) Let_def g by (auto split: if_splits sum.splits)
  have l: "l = createLease env i token (reserved_request eff d)" "s' = s4\<lparr>st_leases := live @ [(record_name ''lease_'' i, l)],
      st_waiters := fst (removeResourceWaiter v (st_waiters s4))\<rparr>"
    using grant_shape [OF g] by (auto simp: d t(1))
  have q: "lease_request l = normalizeResourceRequest (reserved_request eff d)"
    by (simp add: l(1) createLease_def lease_request_def)
  note rf = reserved_request_facts [OF t(4) e'(3), of "map snd live" a, folded p_def lm_def d(2)]
  have heavy: "truthy (js_get eff ''heavy'')" using t(4) by (rule valid_heavy)
  have "js_get (declared_request lm eff) ''heavy'' = js_get eff ''heavy''"
    by (simp add: declared_request_def js_get_spread vector_fields_def)
  then have after: "after = used_vector (aggregateEffective (map snd live @ [pending_lease (declared_request lm eff)]) (pending_parents a))"
    unfolding after_def q using rf(2,3) heavy by (subst pending_same [of _ "declared_request lm eff"]) auto
  have "pendingId \<notin> set (lease_ids (map snd live))"
    using t(1,2) by (intro stored_ids_not_pending) (auto simp: store_ok_def)
  from admission_keeps_limits [OF this heavy d(1) [unfolded d(2) a_def], folded a_def, folded p_def, folded lm_def, folded after]
  show ?thesis
    using declared_ranges(2) [OF t(4) e'(3), of p, folded lm_def] rf(2)
    by (simp add: l(2) q) (simp add: l(1) createLease_def)
qed

definition sample_env :: coordinator_env where
  "sample_env = \<lparr>ce_platform = ''linux'', ce_pid = 7, ce_start = 1000, ce_kill = (\<lambda>p. if p = 7 then None else Some ''ESRCH''),
     ce_now = 5000, ce_starts = JObj [], ce_parents = JNull, ce_project = ''p''\<rparr>"

definition sample_request :: jsv where
  "sample_request = JObj [(''family'', JStr ''compile''), (''resource_class'', JStr ''cpu''), (''priority'', JStr ''ordinary''),
     (''cpu'', JNum (Fin 4)), (''io'', JNum (Fin 0)), (''memory_mb'', JNum (Fin 2048)), (''disk_reserve_bytes'', JNum (Fin 0)),
     (''heavy'', JBool True), (''compiler_jobs'', JNum (Fin 4)), (''unbounded'', JBool False), (''serialize_project'', JBool False),
     (''contention_key'', JNull)]"

definition sample_id :: string where
  "sample_id = replicate 32 (CHR ''a'')"

definition sample_token :: string where
  "sample_token = replicate 64 (CHR ''b'')"

definition sample_waiter :: jsv where
  "sample_waiter = createResourceWaiter sample_env sample_id sample_token sample_request 10000"

definition sample_store :: resource_store where
  "sample_store = coordinator_step empty_store (Enqueue sample_env sample_request sample_id sample_token 10000)"

definition sample_attempt :: coordinator_event where
  "sample_attempt = Attempt sample_env calm_host \<lparr>body = sample_request, elastic = None, preserved = False\<rparr> sample_id sample_token sample_waiter"

lemma sample_id_hex: "hex_id sample_id"
  by code_simp

lemma sample_env_ok: "env_ok sample_env"
  by (simp add: env_ok_def sample_env_def TIME_END_def)

lemma sample_records: "validateWaiter sample_waiter = Inr ()" "validateResourceRequest sample_request = Inr ()"
  "hex_id sample_id" "hex_token sample_token" "host_ok calm_host"
  by code_simp+

lemma sample_events: "event_ok sample_attempt" "event_ok (Enqueue sample_env sample_request sample_id sample_token 10000)"
  by (simp_all add: sample_attempt_def sample_env_ok sample_records)

lemma sample_host: "deriveHostRates calm_host JNull = calm_host"
  by code_simp

lemma sample_waiter_request: "waiter_request sample_waiter = sample_request" "js_get (js_get sample_waiter ''owner'') ''pid'' = JNum (Fin 7)"
  by code_simp+

lemma sample_store_eq: "sample_store = \<lparr>st_leases = [], st_waiters = [(record_name ''wait_'' sample_id, sample_waiter)], st_sample = JNull\<rparr>"
  by (simp add: sample_store_def empty_store_def createExclusiveFile_def sample_waiter_def)

lemma sample_not_stale: "\<not> waiterIsStale sample_env sample_waiter" "waiter_id sample_waiter = sample_id"
  by code_simp+

lemma sample_effective:
  "effective_request sample_env h ls \<lparr>body = sample_request, elastic = None, preserved = False\<rparr> w = sample_request"
  by (simp add: effective_request_def fitElasticRequestToPressure_def)

lemma sample_limits: "evaluate_limits calm_host sample_request \<lparr>ps_state = ''green'', ps_reasons = [], ps_critical = []\<rparr> =
   \<lparr>cpu_limit = 13 / 2, io_limit = 5 / 4, memory_limit = 57344 / 5, cpu_overcommit = 27 / 20, io_overcommit = 5 / 4, memory_overcommit = 5 / 4\<rparr>"
  by code_simp

lemma sample_vector: "requestVector (declared_request
     \<lparr>cpu_limit = 13 / 2, io_limit = 5 / 4, memory_limit = 57344 / 5, cpu_overcommit = 27 / 20, io_overcommit = 5 / 4, memory_overcommit = 5 / 4\<rparr> sample_request)
   = \<lparr>cpu = 4, io = 0, memory_mb = 2048, disk_reserve_bytes = 0\<rparr>"
  by code_simp

lemma sample_host_facts: "truthy (js_get sample_request ''heavy'')" "\<not> contention_busy [] sample_request no_accounting"
  "unobservedResourceCpu [] no_accounting (js_get calm_host ''sampled_at_ms'') = 0" "finite_number (js_get calm_host ''cpu_busy_cores'') = 1"
  "\<not> isDiskReclaimRequest sample_request" "diskReservationFits calm_host 0 0"
  "cpu_limit (resourceLimits (number_at_least 1 (js_get calm_host ''cpu_cores'') 1) (number_at_least 1024 (js_get calm_host ''total_memory_mb'') 1024)
     (js_get sample_request ''priority'') ''green'' []) = 13 / 2"
  by code_simp+

lemma sample_admitted: "admitted (evaluateResourceAdmission calm_host [] sample_request no_accounting)"
  unfolding evaluateResourceAdmission_def Let_def aggregate_no_lease increment_no_lease calm_pressure sample_limits sample_vector
  by (simp add: sample_host_facts emptyVector_def)

text \<open>The first attempt on an empty directory, for a request whose waiter is alone in the queue.\<close>

lemma first_grant:
  fixes host q w
  defines "store \<equiv> \<lparr>st_leases = [], st_waiters = [(record_name ''wait_'' sample_id, w)], st_sample = JNull\<rparr>"
    and "d \<equiv> evaluateResourceAdmission host [] q no_accounting"
  assumes sample: "deriveHostRates host JNull = host" and w: "validateWaiter w = Inr ()" "waiter_id w = sample_id" "\<not> waiterIsStale sample_env w"
    and q: "waiter_request w = q" "\<not> list_ex (\<lambda>k. js_differs (js_get q k) (js_get q k)) [''cpu'', ''memory_mb'', ''compiler_jobs'']"
    and d: "admitted d"
  shows "\<exists>s'. acquire_transaction sample_env host \<lparr>body = q, elastic = None, preserved = False\<rparr> sample_id sample_token w store
      = (s', w, Inr (d, Some (createLease sample_env sample_id sample_token (reserved_request q d))))
     \<and> st_leases s' = [(record_name ''lease_'' sample_id, createLease sample_env sample_id sample_token (reserved_request q d))]"
proof -
  have eff: "effective_request sample_env h ls \<lparr>body = q, elastic = None, preserved = False\<rparr> v = q" for h ls v
    by (simp add: effective_request_def fitElasticRequestToPressure_def)
  have ev: "coordinator_evaluator sample_env w h ls r w = evaluateResourceAdmission h ls r no_accounting" for h ls r
    by (simp add: coordinator_evaluator_def resourceCoordinatorEvaluator_def resourceLeaseAccountingContext_def sample_env_def)
  have leases: "pruneAndReadLeases sample_env store = (store, Inr [])" by (simp add: pruneAndReadLeases_def store_def)
  have stored: "store_sample host store = (store\<lparr>st_sample := host\<rparr>, host)" by (simp add: store_sample_def store_def sample)
  have refit: "refit_waiter w q s = (w, s)" for s using q by (simp add: refit_waiter_def)
  have waiters: "pruneAndReadWaiters sample_env (store\<lparr>st_sample := host\<rparr>) = (store\<lparr>st_sample := host\<rparr>, Inr [w])"
    using prune_waiters_ok [of "store\<lparr>st_sample := host\<rparr>" sample_env] w
    by (simp add: store_ok_def dir_ok_def store_def waiter_file_def)
  have sel: "selectedResourceWaiter (coordinator_evaluator sample_env w) [w] [] host (ce_now sample_env) = Some w"
    using d by (simp add: selectedResourceWaiter_def resourceWaiterSelectionState_def ranked_waiters_def ev q(1) d_def)
  have path: "leasePath sample_id = Inr (record_name ''lease_'' sample_id)" using sample_id_hex by (simp add: leasePath_def)
  have grant: "\<exists>s'. grant_lease sample_env sample_id sample_token r w (store\<lparr>st_sample := host\<rparr>)
      = (s', Inr (createLease sample_env sample_id sample_token r))
      \<and> st_leases s' = [(record_name ''lease_'' sample_id, createLease sample_env sample_id sample_token r)]" for r
    by (simp add: grant_lease_def path createExclusiveFile_def store_def Let_def)
  show ?thesis
    unfolding acquire_transaction_def leases prod.case sum.case stored Let_def eff refit waiters sel ev
    using grant [of "reserved_request q d"] d by (auto simp: d_def)
qed

lemma sample_grant:
  "\<exists>d l s'. acquire_transaction sample_env calm_host \<lparr>body = sample_request, elastic = None, preserved = False\<rparr> sample_id sample_token
      sample_waiter sample_store = (s', sample_waiter, Inr (d, Some l))"
proof -
  have "\<not> list_ex (\<lambda>k. js_differs (js_get sample_request k) (js_get sample_request k)) [''cpu'', ''memory_mb'', ''compiler_jobs'']"
    by code_simp
  from first_grant [OF sample_host sample_records(1) sample_not_stale(2,1) sample_waiter_request(1) this sample_admitted]
  show ?thesis by (auto simp: sample_store_eq)
qed

text \<open>
  A machine of 1040 cores: an unbounded request reserves all the cores it may use, more than a request may name, and the
  lease that is written for it makes the next reading of the directory fail.
\<close>

definition large_host :: jsv where
  "large_host = JObj [(''cpu_cores'', JNum (Fin 1040)), (''total_memory_mb'', JNum (Fin 16384)), (''cpu_busy_cores'', JNum (Fin 0))]"

definition unbounded_request :: jsv where
  "unbounded_request = JObj [(''family'', JStr ''compile''), (''resource_class'', JStr ''unbounded''), (''priority'', JStr ''ordinary''),
     (''cpu'', JNum (Fin 4)), (''io'', JNum (Fin 0)), (''memory_mb'', JNum (Fin 2048)), (''disk_reserve_bytes'', JNum (Fin 0)),
     (''heavy'', JBool True), (''compiler_jobs'', JNull), (''unbounded'', JBool True), (''serialize_project'', JBool False),
     (''contention_key'', JNull)]"

definition large_waiter :: jsv where
  "large_waiter = createResourceWaiter sample_env sample_id sample_token unbounded_request 10000"

definition large_run :: "coordinator_event list" where
  "large_run = [Enqueue sample_env unbounded_request sample_id sample_token 10000,
     Attempt sample_env large_host \<lparr>body = unbounded_request, elastic = None, preserved = False\<rparr> sample_id sample_token large_waiter]"

lemma large_facts: "deriveHostRates large_host JNull = large_host" "validateWaiter large_waiter = Inr ()" "waiter_id large_waiter = sample_id"
  "\<not> waiterIsStale sample_env large_waiter" "waiter_request large_waiter = unbounded_request" "validateResourceRequest unbounded_request = Inr ()"
  "\<not> list_ex (\<lambda>k. js_differs (js_get unbounded_request k) (js_get unbounded_request k)) [''cpu'', ''memory_mb'', ''compiler_jobs'']"
  by code_simp+

lemma large_pressure: "resourcePressureState large_host emptyAggregate = \<lparr>ps_state = ''green'', ps_reasons = [], ps_critical = []\<rparr>"
  by code_simp

lemma large_limits: "evaluate_limits large_host unbounded_request \<lparr>ps_state = ''green'', ps_reasons = [], ps_critical = []\<rparr> =
   \<lparr>cpu_limit = 2077 / 2, io_limit = 5 / 4, memory_limit = 57344 / 5, cpu_overcommit = 27 / 20, io_overcommit = 5 / 4, memory_overcommit = 5 / 4\<rparr>"
  by code_simp

lemma large_vector: "declared_vector
     \<lparr>cpu_limit = 2077 / 2, io_limit = 5 / 4, memory_limit = 57344 / 5, cpu_overcommit = 27 / 20, io_overcommit = 5 / 4, memory_overcommit = 5 / 4\<rparr> unbounded_request
   = \<lparr>cpu = 2077 / 2, io = 0, memory_mb = 2048, disk_reserve_bytes = 0\<rparr>"
  "requestVector (declared_request
     \<lparr>cpu_limit = 2077 / 2, io_limit = 5 / 4, memory_limit = 57344 / 5, cpu_overcommit = 27 / 20, io_overcommit = 5 / 4, memory_overcommit = 5 / 4\<rparr> unbounded_request)
   = \<lparr>cpu = 2077 / 2, io = 0, memory_mb = 2048, disk_reserve_bytes = 0\<rparr>"
  by code_simp+

lemma large_host_facts: "truthy (js_get unbounded_request ''heavy'')" "truthy (js_get unbounded_request ''unbounded'')" "\<not> contention_busy [] unbounded_request no_accounting"
  "unobservedResourceCpu [] no_accounting (js_get large_host ''sampled_at_ms'') = 0" "finite_number (js_get large_host ''cpu_busy_cores'') = 0"
  "\<not> isDiskReclaimRequest unbounded_request" "diskReservationFits large_host 0 0"
  by code_simp+

lemma large_admitted: "admitted (evaluateResourceAdmission large_host [] unbounded_request no_accounting)"
  unfolding evaluateResourceAdmission_def Let_def aggregate_no_lease increment_no_lease large_pressure large_limits large_vector
  by (simp add: large_host_facts emptyVector_def)

lemma large_lease_invalid:
  "\<not> is_ok (validateLease (createLease sample_env sample_id sample_token
     (spread unbounded_request (vector_fields \<lparr>cpu = 2077 / 2, io = 0, memory_mb = 2048, disk_reserve_bytes = 0\<rparr>))))"
  by code_simp

lemma large_host_unreadable:
  "list_all event_valid large_run \<and> \<not> is_ok (snd (pruneAndReadLeases sample_env (foldl coordinator_step empty_store large_run)))"
proof -
  let ?d = "evaluateResourceAdmission large_host [] unbounded_request no_accounting"
  let ?l = "createLease sample_env sample_id sample_token (reserved_request unbounded_request ?d)"
  obtain s' where s': "acquire_transaction sample_env large_host \<lparr>body = unbounded_request, elastic = None, preserved = False\<rparr> sample_id sample_token
      large_waiter \<lparr>st_leases = [], st_waiters = [(record_name ''wait_'' sample_id, large_waiter)], st_sample = JNull\<rparr> = (s', large_waiter, Inr (?d, Some ?l))"
    "st_leases s' = [(record_name ''lease_'' sample_id, ?l)]"
    using first_grant [OF large_facts(1,2,3,4,5,7) large_admitted] by blast
  have "reserved_request unbounded_request ?d = spread unbounded_request (vector_fields \<lparr>cpu = 2077 / 2, io = 0, memory_mb = 2048, disk_reserve_bytes = 0\<rparr>)"
    using evaluated_reservation [OF large_host_facts(1) refl, of large_host "[]" no_accounting]
    by (auto simp: reserved_request_def large_pressure large_limits large_vector)
  with large_lease_invalid have "\<not> is_ok (validateLease ?l)" by simp
  moreover have "foldl coordinator_step empty_store large_run = s'"
    using s'(1) by (simp add: large_run_def empty_store_def createExclusiveFile_def large_waiter_def [symmetric])
  moreover have "is_record_name ''lease_'' (record_name ''lease_'' sample_id)" "\<not> isIgnorableCoordinatorMetadata (record_name ''lease_'' sample_id)"
    by code_simp+
  moreover have "list_all event_valid large_run"
    by (simp add: large_run_def sample_env_ok large_facts sample_records)
  ultimately show ?thesis by (auto simp: pruneAndReadLeases_def s'(2) Let_def is_ok_def split: sum.splits)
qed

lemma empty_store_ok: "store_ok empty_store"
  by (simp add: store_ok_def dir_ok_def empty_store_def)

lemma sample_store_ok: "store_ok sample_store"
  unfolding sample_store_def by (rule step_ok [OF empty_store_ok sample_events(2)])

lemma no_pending_parents: "pending_parents no_accounting = []"
  by (simp add: pending_parents_def no_accounting_def)

lemma granted_lease_fits_witness:
  "\<exists>d l s'. acquire_transaction sample_env calm_host \<lparr>body = sample_request, elastic = None, preserved = False\<rparr> sample_id sample_token
       sample_waiter sample_store = (s', sample_waiter, Inr (d, Some l)) \<and> st_leases s' = [(record_name ''lease_'' sample_id, l)]
     \<and> cpu (used_vector (aggregateEffective [pending_lease (lease_request l)] [])) \<le> 13 / 2 * (27 / 20) + 1 / 100"
proof -
  obtain d l s' where g: "acquire_transaction sample_env calm_host \<lparr>body = sample_request, elastic = None, preserved = False\<rparr> sample_id sample_token
      sample_waiter sample_store = (s', sample_waiter, Inr (d, Some l))"
    using sample_grant by blast
  have "resourceLeaseAccountingContext ls (ce_parents sample_env) q = no_accounting" for ls q
    by (simp add: resourceLeaseAccountingContext_def sample_env_def)
  moreover have "st_leases sample_store = []" "st_sample sample_store = JNull" by (simp_all add: sample_store_eq)
  ultimately have "st_leases s' = [(record_name ''lease_'' sample_id, l)]"
    "cpu (used_vector (aggregateEffective [pending_lease (lease_request l)] [])) \<le> 13 / 2 * (27 / 20) + 1 / 100"
    using granted_lease_fits [OF sample_store_ok sample_events(1) [unfolded sample_attempt_def] g]
    by (simp_all add: sample_effective sample_host calm_pressure sample_limits no_pending_parents)
  with g show ?thesis by blast
qed

lemma directory_stays_readable_witness:
  "snd (pruneAndReadWaiters sample_env (foldl coordinator_step empty_store [Enqueue sample_env sample_request sample_id sample_token 10000]))
     = Inr [sample_waiter]"
proof -
  have "list_all event_valid [Enqueue sample_env sample_request sample_id sample_token 10000]" using sample_events(2) by simp
  from directory_stays_readable [OF this, of sample_env]
  have "pruneAndReadWaiters sample_env sample_store = (sample_store\<lparr>st_waiters := filter (\<lambda>(n, w). \<not> waiterIsStale sample_env w) (st_waiters sample_store)\<rparr>,
      Inr (map snd (filter (\<lambda>(n, w). \<not> waiterIsStale sample_env w) (st_waiters sample_store))))"
    by (simp add: sample_store_def del: coordinator_step.simps)
  then show ?thesis using sample_not_stale(1) by (simp add: sample_store_def [symmetric] del: coordinator_step.simps) (simp add: sample_store_eq)
qed

definition bound_lease :: jsv where
  "bound_lease = spread (createLease sample_env sample_id sample_token sample_request)
     [(''owner'', process_owner sample_env 7 (Some 1000) False), (''bound_at'', JStr (toISOString 5000))]"

definition bound_store :: resource_store where
  "bound_store = \<lparr>st_leases = [(record_name ''lease_'' sample_id, bound_lease)], st_waiters = [], st_sample = JNull\<rparr>"

lemma bound_lease_facts:
  "validateLease bound_lease = Inr ()" "js_get bound_lease ''lease_id'' = JStr sample_id" "js_get bound_lease ''token'' = JStr sample_token"
  "js_get (lease_owner bound_lease) ''kind'' = JStr ''process''" "holder_lives sample_env bound_lease"
  by code_simp+

lemma bound_store_ok: "store_ok bound_store"
  using bound_lease_facts(1,2) by (simp add: store_ok_def dir_ok_def bound_store_def lease_file_def)

lemma live_lease_kept_witness:
  "(record_name ''lease_'' sample_id, bound_lease)
     \<in> set (st_leases (foldl coordinator_step bound_store
          [Snapshot sample_env calm_host JUndef, ReleaseLease sample_env sample_id (JStr ''other'') None None, sample_attempt]))"
proof -
  have t: "sample_token \<noteq> ''other''" by code_simp
  show ?thesis
  proof (rule live_lease_kept [OF bound_store_ok])
    show "list_all event_ok [Snapshot sample_env calm_host JUndef, ReleaseLease sample_env sample_id (JStr ''other'') None None, sample_attempt]"
      using sample_events(1) by (simp add: sample_env_ok)
    show "(record_name ''lease_'' sample_id, bound_lease) \<in> set (st_leases bound_store)" by (simp add: bound_store_def)
    show "list_all (\<lambda>e. holder_lives (event_env e) bound_lease \<and> \<not> releases e bound_lease)
        [Snapshot sample_env calm_host JUndef, ReleaseLease sample_env sample_id (JStr ''other'') None None, sample_attempt]"
      using bound_lease_facts(3,5) t by (simp add: sample_attempt_def)
  qed (rule bound_lease_facts(4))
qed

lemma wrong_token_rejected_sample:
  "release_transaction sample_env sample_id (JStr ''other'') None None bound_store = (bound_store, Inl ''resource lease ownership changed'')"
proof -
  have "sample_token \<noteq> ''other''" by code_simp
  with wrong_token_rejected [OF bound_store_ok, of sample_id bound_lease "JStr ''other''"] bound_lease_facts(3)
  show ?thesis by (simp add: bound_store_def)
qed

end
