(* ===== verification/TransactionLock.thy ===== *)
theory TransactionLock
  imports ProcessIdentity ResourceWaiters
begin

text \<open>
  The lock of the resource coordinator (\<open>src/local/resource-transaction-lock.mjs\<close>, \<open>removeOwnedJsonFileSync\<close> of
  \<open>exclusive-file.mjs\<close>): a file that names its owner, created exclusively, which a waiting call removes when
  its owner is dead.

  The calls of \<open>withResourceTransactionLock\<close> in all processes interleave, one file access a step.  The file has an
  inode number, fresh for every file created; the calls of a process stop when it dies, and their files stay.
  The test hook \<open>beforeReclaim\<close>, symbolic links, extra hard links and failing file calls are not modelled.
\<close>

definition LOCK_PURPOSE :: string where
  "LOCK_PURPOSE = ''resource-coordinator''"

text \<open>Removal of the file of a record, to reclaim it or, with the outcome of the callback, to release it.\<close>

datatype removal = Reclaim jsv | Release bool

datatype lock_phase =
    Trying
  | Inspecting
  | Judging jsv
  | FirstSnapshot removal
  | LinkStatus removal nat
  | SecondSnapshot removal nat
  | Unlinking removal
  | Sleeping
  | Running
  | Returned bool
  | Busy
  | Failed string

record lock_call =
  lc_pid :: nat
  lc_owner :: jsv
  lc_phase :: lock_phase

record lock_state =
  lk_file :: "(nat \<times> jsv) option"
  lk_next :: nat
  lk_calls :: "lock_call list"
  lk_dead :: "nat list"

definition fileOwner :: "string \<Rightarrow> nat \<Rightarrow> int \<Rightarrow> rat \<Rightarrow> jsv" where
  "fileOwner token pid now start =
     JObj [(''token'', JStr token), (''pid'', JNum (Fin (of_nat pid))), (''purpose'', JStr LOCK_PURPOSE),
       (''startedAt'', JStr (toISOString now)), (''processStartedAt'', JStr (toISOString \<lfloor>start\<rfloor>))]"

definition validFileOwner :: "jsv \<Rightarrow> bool" where
  "validFileOwner v =
     (positive_safe_integer (js_get v ''pid'') \<and> js_get v ''purpose'' = JStr LOCK_PURPOSE
      \<and> parse_time (js_get v ''startedAt'') \<noteq> None \<and> parse_time (js_get v ''processStartedAt'') \<noteq> None
      \<and> hex_string 32 (js_get v ''token''))"

definition lock_owned_by :: "jsv \<Rightarrow> jsv \<Rightarrow> bool" where
  "lock_owned_by v owner = (isRecord v \<and> js_get v ''token'' = js_get owner ''token'' \<and> js_get v ''purpose'' = JStr LOCK_PURPOSE)"

definition removal_owner :: "lock_call \<Rightarrow> removal \<Rightarrow> jsv" where
  "removal_owner c r = (case r of Reclaim owner \<Rightarrow> owner | Release ok \<Rightarrow> lc_owner c)"

definition retry_phase :: "bool \<Rightarrow> lock_phase" where
  "retry_phase expired = (if expired then Busy else Sleeping)"

definition lock_changed :: string where
  "lock_changed = ''resource coordinator transaction lock changed before release; state may require inspection''"

text \<open>What the call does with the answer of the removal.\<close>

definition removed_phase :: "removal \<Rightarrow> bool \<Rightarrow> bool \<Rightarrow> lock_phase" where
  "removed_phase r removed expired = (case r of
     Reclaim owner \<Rightarrow> if removed then Trying else retry_phase expired
   | Release ok \<Rightarrow> if removed then Returned ok else Failed lock_changed)"

text \<open>The next access of a call: \<open>expired\<close> tells whether its deadline has passed, the rest what it observes.\<close>

datatype lock_event =
    Access nat bool int "rat option"
  | Finish nat bool
  | Crash nat

definition process_alive :: "lock_state \<Rightarrow> nat \<Rightarrow> bool" where
  "process_alive s pid = (pid \<notin> set (lk_dead s))"

definition set_lock_phase :: "nat \<Rightarrow> lock_phase \<Rightarrow> lock_state \<Rightarrow> lock_state" where
  "set_lock_phase i p s = s\<lparr>lk_calls := (lk_calls s)[i := (lk_calls s ! i)\<lparr>lc_phase := p\<rparr>]\<rparr>"

definition tryAcquireFileLock :: "nat \<Rightarrow> lock_state \<Rightarrow> lock_state" where
  "tryAcquireFileLock i s = (case lk_file s of
     None \<Rightarrow> (set_lock_phase i Running s)\<lparr>lk_file := Some (lk_next s, lc_owner (lk_calls s ! i)), lk_next := Suc (lk_next s)\<rparr>
   | Some f \<Rightarrow> set_lock_phase i Inspecting s)"

definition inspectExistingLock :: "bool \<Rightarrow> lock_state \<Rightarrow> lock_phase" where
  "inspectExistingLock expired s = (case lk_file s of
     None \<Rightarrow> if expired then Busy else Trying
   | Some (n, v) \<Rightarrow> if validFileOwner v then Judging v else Failed ''resource coordinator owner-state lock is invalid'')"

definition inspectFileLock :: "bool \<Rightarrow> int \<Rightarrow> rat option \<Rightarrow> jsv \<Rightarrow> lock_state \<Rightarrow> lock_phase" where
  "inspectFileLock expired now start owner s =
     (if is_reclaimable (inspectProcessInstance (process_alive s) (\<lambda>_. start) now None owner)
      then FirstSnapshot (Reclaim owner) else retry_phase expired)"

definition first_snapshot :: "lock_call \<Rightarrow> removal \<Rightarrow> bool \<Rightarrow> lock_state \<Rightarrow> lock_phase" where
  "first_snapshot c r expired s = (case lk_file s of
     Some (n, v) \<Rightarrow> if lock_owned_by v (removal_owner c r) then LinkStatus r n else removed_phase r False expired
   | None \<Rightarrow> removed_phase r False expired)"

definition link_status :: "removal \<Rightarrow> nat \<Rightarrow> bool \<Rightarrow> lock_state \<Rightarrow> lock_phase" where
  "link_status r n expired s = (case lk_file s of
     Some (m, v) \<Rightarrow> if m = n then SecondSnapshot r n else removed_phase r False expired
   | None \<Rightarrow> removed_phase r True expired)"

definition second_snapshot :: "lock_call \<Rightarrow> removal \<Rightarrow> nat \<Rightarrow> bool \<Rightarrow> lock_state \<Rightarrow> lock_phase" where
  "second_snapshot c r n expired s = (case lk_file s of
     Some (m, v) \<Rightarrow> if m = n \<and> lock_owned_by v (removal_owner c r) then Unlinking r else removed_phase r False expired
   | None \<Rightarrow> removed_phase r False expired)"

definition lock_access :: "nat \<Rightarrow> bool \<Rightarrow> int \<Rightarrow> rat option \<Rightarrow> lock_state \<Rightarrow> lock_state" where
  "lock_access i expired now start s =
     (let c = lk_calls s ! i in
      case lc_phase c of
        Trying \<Rightarrow> tryAcquireFileLock i s
      | Inspecting \<Rightarrow> set_lock_phase i (inspectExistingLock expired s) s
      | Judging owner \<Rightarrow> set_lock_phase i (inspectFileLock expired now start owner s) s
      | FirstSnapshot r \<Rightarrow> set_lock_phase i (first_snapshot c r expired s) s
      | LinkStatus r n \<Rightarrow> set_lock_phase i (link_status r n expired s) s
      | SecondSnapshot r n \<Rightarrow> set_lock_phase i (second_snapshot c r n expired s) s
      | Unlinking r \<Rightarrow> (set_lock_phase i (removed_phase r True expired) s)\<lparr>lk_file := None\<rparr>
      | Sleeping \<Rightarrow> set_lock_phase i Trying s
      | _ \<Rightarrow> s)"

text \<open>A call that ended, or whose process is dead, does nothing.\<close>

definition lock_step :: "lock_state \<Rightarrow> lock_event \<Rightarrow> lock_state" where
  "lock_step s e = (case e of
     Access i expired now start \<Rightarrow>
       if i < length (lk_calls s) \<and> process_alive s (lc_pid (lk_calls s ! i)) then lock_access i expired now start s else s
   | Finish i ok \<Rightarrow>
       if i < length (lk_calls s) \<and> process_alive s (lc_pid (lk_calls s ! i)) \<and> lc_phase (lk_calls s ! i) = Running
       then set_lock_phase i (FirstSnapshot (Release ok)) s else s
   | Crash pid \<Rightarrow> s\<lparr>lk_dead := pid # lk_dead s\<rparr>)"

end
