(* ===== verification/TransactionLockSpec.thy ===== *)
theory TransactionLockSpec
  imports TransactionLock
begin

text \<open>
  Mutual exclusion of the lock, its recovery from a dead owner, and the race of two reclaims.
\<close>

section \<open>Reachable states\<close>

definition owner_pid :: "jsv \<Rightarrow> nat" where
  "owner_pid v = exactOwnerPid (js_get v ''pid'')"

text \<open>The record of a call is the one \<open>fileOwner\<close> writes: valid, under the pid of its process.\<close>

definition call_ok :: "lock_call \<Rightarrow> bool" where
  "call_ok c = (validFileOwner (lc_owner c) \<and> owner_pid (lc_owner c) = lc_pid c \<and> exactOwnerTime (js_get (lc_owner c) ''processStartedAt'') \<noteq> None)"

definition call_alive :: "lock_state \<Rightarrow> nat \<Rightarrow> bool" where
  "call_alive s i = (i < length (lk_calls s) \<and> process_alive s (lc_pid (lk_calls s ! i)))"

text \<open>
  At the beginning the calls of living processes have not tried yet, their tokens differ, and the lock file, if there is
  one, is that of a call whose process died.
\<close>

definition lock_initial :: "lock_state \<Rightarrow> bool" where
  "lock_initial s =
     (list_all call_ok (lk_calls s) \<and> distinct (map (\<lambda>c. js_get (lc_owner c) ''token'') (lk_calls s))
      \<and> (\<forall>i < length (lk_calls s). call_alive s i \<longrightarrow> lc_phase (lk_calls s ! i) = Trying)
      \<and> (case lk_file s of None \<Rightarrow> True | Some (n, v) \<Rightarrow> list_ex (\<lambda>c. lc_owner c = v \<and> \<not> process_alive s (lc_pid c)) (lk_calls s)))"

text \<open>The start a call observes for a living process is the one its record gives, within the tolerance.\<close>

definition honest :: "lock_state \<Rightarrow> lock_event \<Rightarrow> bool" where
  "honest s e = (case e of
     Access i expired now start \<Rightarrow>
       i < length (lk_calls s) \<longrightarrow> (case lc_phase (lk_calls s ! i) of
          Judging v \<Rightarrow> process_alive s (owner_pid v) \<longrightarrow> (case (start, exactOwnerTime (js_get v ''processStartedAt'')) of
             (Some t, Some r) \<Rightarrow> \<bar>t - of_int r\<bar> \<le> START_TIME_TOLERANCE_MS | _ \<Rightarrow> True)
        | _ \<Rightarrow> True)
   | _ \<Rightarrow> True)"

definition about_to_reclaim :: "lock_state \<Rightarrow> nat \<Rightarrow> bool" where
  "about_to_reclaim s i = (call_alive s i \<and> (\<exists>v. lc_phase (lk_calls s ! i) = Unlinking (Reclaim v)))"

text \<open>Only one living call at a time stands between its last check of a dead owner's file and the unlinking.\<close>

definition solitary :: "lock_state \<Rightarrow> bool" where
  "solitary s = (\<forall>i j. about_to_reclaim s i \<and> about_to_reclaim s j \<longrightarrow> i = j)"

inductive lock_reach :: "(lock_state \<Rightarrow> bool) \<Rightarrow> lock_state \<Rightarrow> lock_state \<Rightarrow> bool" for timing s0 where
  reach_start: "lock_reach timing s0 s0"
| reach_step: "lock_reach timing s0 s \<Longrightarrow> honest s e \<Longrightarrow> timing (lock_step s e) \<Longrightarrow> lock_reach timing s0 (lock_step s e)"

text \<open>A call holds the lock from the creation of its file to the end of its release.\<close>

fun holding :: "lock_phase \<Rightarrow> bool" where
  "holding Running = True"
| "holding (FirstSnapshot (Release ok)) = True"
| "holding (LinkStatus (Release ok) n) = True"
| "holding (SecondSnapshot (Release ok) n) = True"
| "holding (Unlinking (Release ok)) = True"
| "holding _ = False"

fun checked_inode :: "lock_phase \<Rightarrow> nat option" where
  "checked_inode (LinkStatus (Release ok) n) = Some n"
| "checked_inode (SecondSnapshot (Release ok) n) = Some n"
| "checked_inode _ = None"

fun reclaiming :: "lock_phase \<Rightarrow> jsv option" where
  "reclaiming (FirstSnapshot (Reclaim v)) = Some v"
| "reclaiming (LinkStatus (Reclaim v) n) = Some v"
| "reclaiming (SecondSnapshot (Reclaim v) n) = Some v"
| "reclaiming (Unlinking (Reclaim v)) = Some v"
| "reclaiming _ = None"

definition records :: "lock_state \<Rightarrow> jsv set" where
  "records s = lc_owner ` set (lk_calls s)"

section \<open>The invariant\<close>

definition phase_ok :: "lock_state \<Rightarrow> (nat \<times> jsv) option \<Rightarrow> lock_call \<Rightarrow> lock_phase \<Rightarrow> bool" where
  "phase_ok s f c p =
     ((\<forall>v. p = Judging v \<longrightarrow> v \<in> records s)
      \<and> (\<forall>v. reclaiming p = Some v \<longrightarrow> v \<in> records s \<and> \<not> process_alive s (owner_pid v))
      \<and> (holding p \<longrightarrow> (\<exists>n. f = Some (n, lc_owner c) \<and> checked_inode p \<in> {None, Some n}))
      \<and> (\<forall>v. p = Unlinking (Reclaim v) \<longrightarrow> (\<exists>n. f = Some (n, v)))
      \<and> p \<noteq> Failed lock_changed)"

definition lock_inv :: "lock_state \<Rightarrow> bool" where
  "lock_inv s =
     (list_all call_ok (lk_calls s) \<and> distinct (map (\<lambda>c. js_get (lc_owner c) ''token'') (lk_calls s))
      \<and> (\<forall>n v. lk_file s = Some (n, v) \<longrightarrow> v \<in> records s)
      \<and> (\<forall>i. call_alive s i \<longrightarrow> phase_ok s (lk_file s) (lk_calls s ! i) (lc_phase (lk_calls s ! i))))"

lemma calls_set_phase:
  "i < length (lk_calls s) \<Longrightarrow> lk_calls (set_lock_phase i p s) ! j = (if j = i then (lk_calls s ! i)\<lparr>lc_phase := p\<rparr> else lk_calls s ! j)"
  by (simp add: set_lock_phase_def nth_list_update)

lemma frame_set_phase [simp]:
  "length (lk_calls (set_lock_phase i p s)) = length (lk_calls s)" "lk_file (set_lock_phase i p s) = lk_file s"
  "lk_dead (set_lock_phase i p s) = lk_dead s" "lk_next (set_lock_phase i p s) = lk_next s"
  by (simp_all add: set_lock_phase_def)

lemma same_token:
  assumes "distinct (map (\<lambda>c. js_get (lc_owner c) ''token'') (lk_calls s))" "v \<in> records s" "w \<in> records s"
    "js_get v ''token'' = js_get w ''token''"
  shows "v = w"
proof -
  obtain i j where i: "i < length (lk_calls s)" "v = lc_owner (lk_calls s ! i)" and j: "j < length (lk_calls s)" "w = lc_owner (lk_calls s ! j)"
    using assms(2,3) by (auto simp: records_def in_set_conv_nth)
  with assms(1,4) have "i = j" by (auto simp: distinct_conv_nth)
  with i j show ?thesis by simp
qed

lemma same_owner:
  assumes "distinct (map (\<lambda>c. js_get (lc_owner c) ''token'') (lk_calls s))" "i < length (lk_calls s)" "j < length (lk_calls s)"
    "lc_owner (lk_calls s ! i) = lc_owner (lk_calls s ! j)"
  shows "i = j"
  using assms by (simp add: distinct_conv_nth) metis

lemma records_set_phase [simp]: "i < length (lk_calls s) \<Longrightarrow> records (set_lock_phase i p s) = records s"
proof -
  assume i: "i < length (lk_calls s)"
  have "map lc_owner (lk_calls (set_lock_phase i p s)) = map lc_owner (lk_calls s)"
    by (rule nth_equalityI) (use i in \<open>simp_all add: calls_set_phase\<close>)
  then show ?thesis by (simp only: records_def set_map [symmetric])
qed

lemma inv_update:
  assumes inv: "lock_inv s" and i: "call_alive s i"
    and s': "s' = (set_lock_phase i p s)\<lparr>lk_file := f, lk_next := k\<rparr>"
    and f: "\<And>n v. f = Some (n, v) \<Longrightarrow> v \<in> records s"
    and p: "phase_ok s f (lk_calls s ! i) p"
    and others: "\<And>j. j \<noteq> i \<Longrightarrow> call_alive s j \<Longrightarrow> holding (lc_phase (lk_calls s ! j)) \<or> (\<exists>v. lc_phase (lk_calls s ! j) = Unlinking (Reclaim v))
      \<Longrightarrow> f = lk_file s"
  shows "lock_inv s'"
proof -
  have n: "i < length (lk_calls s)" using i by (simp add: call_alive_def)
  have calls: "lk_calls s' = (lk_calls s)[i := (lk_calls s ! i)\<lparr>lc_phase := p\<rparr>]" "lk_dead s' = lk_dead s" "lk_file s' = f"
    by (simp_all add: s' set_lock_phase_def)
  have at: "lk_calls s' ! j = (if j = i then (lk_calls s ! i)\<lparr>lc_phase := p\<rparr> else lk_calls s ! j)" for j
    using n by (simp add: calls(1) nth_list_update)
  have "records s' = records (set_lock_phase i p s)" by (simp add: s' records_def)
  with n have rec: "records s' = records s" by simp
  have alive: "process_alive s' = process_alive s" "call_alive s' = call_alive s"
    by (auto simp: process_alive_def call_alive_def calls(2) at fun_eq_iff) (simp_all add: calls(1))
  have ok: "phase_ok s' g c q = phase_ok s g c q" for g c q by (simp add: phase_ok_def rec alive)
  have own: "phase_ok s g (c\<lparr>lc_phase := q'\<rparr>) q = phase_ok s g c q" for g c q q' by (simp add: phase_ok_def)
  have "list_all call_ok (lk_calls s')" "distinct (map (\<lambda>c. js_get (lc_owner c) ''token'') (lk_calls s'))"
  proof -
    have "call_ok ((lk_calls s ! i)\<lparr>lc_phase := p\<rparr>)" using inv n by (simp add: lock_inv_def list_all_length call_ok_def)
    then show "list_all call_ok (lk_calls s')" using inv by (simp add: lock_inv_def list_all_length at) (simp add: calls(1))
    have "map (\<lambda>c. js_get (lc_owner c) ''token'') (lk_calls s') = map (\<lambda>c. js_get (lc_owner c) ''token'') (lk_calls s)"
      by (rule nth_equalityI) (simp_all add: calls(1) nth_list_update n)
    then show "distinct (map (\<lambda>c. js_get (lc_owner c) ''token'') (lk_calls s'))" using inv by (simp add: lock_inv_def)
  qed
  moreover have "v \<in> records s'" if "lk_file s' = Some (m, v)" for m v using that f by (simp add: calls(3) rec)
  moreover have "phase_ok s' (lk_file s') (lk_calls s' ! j) (lc_phase (lk_calls s' ! j))" if "call_alive s' j" for j
  proof (cases "j = i")
    case True
    then show ?thesis using p by (simp add: ok own at calls(3))
  next
    case False
    have "phase_ok s (lk_file s) (lk_calls s ! j) (lc_phase (lk_calls s ! j))" using inv that by (simp add: lock_inv_def alive)
    then have "phase_ok s f (lk_calls s ! j) (lc_phase (lk_calls s ! j))"
      using others [OF False that [unfolded alive]] unfolding phase_ok_def by metis
    then show ?thesis using False by (simp add: ok at calls(3))
  qed
  ultimately show ?thesis unfolding lock_inv_def by blast
qed

lemma phase_update:
  assumes "lock_inv s" "call_alive s i" "phase_ok s (lk_file s) (lk_calls s ! i) p"
  shows "lock_inv (set_lock_phase i p s)"
  using assms(1) by (intro inv_update [OF assms(1,2) _ _ assms(3), where k = "lk_next s"]) (auto simp: lock_inv_def)

lemma removed_phase_ok:
  "removed \<or> (\<exists>v. r = Reclaim v) \<Longrightarrow> phase_ok s f c (removed_phase r removed expired)"
  by (auto simp: phase_ok_def removed_phase_def retry_phase_def lock_changed_def split: removal.split)

lemma owned_record:
  assumes "lock_inv s" "v \<in> records s" "w \<in> records s"
  shows "lock_owned_by v w \<longleftrightarrow> v = w"
proof
  assume "lock_owned_by v w"
  then show "v = w" using assms same_token by (auto simp: lock_owned_by_def lock_inv_def)
next
  assume "v = w"
  have "validFileOwner w" using assms(1,3) by (auto simp: lock_inv_def records_def call_ok_def list_all_iff)
  then have "isRecord w" "js_get w ''purpose'' = JStr LOCK_PURPOSE"
    by (auto simp: validFileOwner_def isRecord_def js_get_def split: jsv.splits)
  then show "lock_owned_by v w" by (simp add: lock_owned_by_def \<open>v = w\<close>)
qed

lemma live_record:
  assumes "lock_inv s" "call_alive s i"
  shows "lc_owner (lk_calls s ! i) \<in> records s" "process_alive s (owner_pid (lc_owner (lk_calls s ! i)))"
  using assms by (auto simp: call_alive_def records_def lock_inv_def list_all_length call_ok_def)

lemma access_inv:
  assumes inv: "lock_inv s" and sol: "solitary s" and hon: "honest s (Access i expired now start)" and i: "call_alive s i"
  shows "lock_inv (lock_access i expired now start s)"
proof -
  let ?c = "lk_calls s ! i"
  have ok: "phase_ok s (lk_file s) ?c (lc_phase ?c)" using inv i by (simp add: lock_inv_def)
  have n: "i < length (lk_calls s)" using i by (simp add: call_alive_def)
  have stored: "v \<in> records s" if "lk_file s = Some (m, v)" for m v using inv that by (simp add: lock_inv_def)
  note me = live_record [OF inv i]
  show ?thesis
  proof (cases "lc_phase ?c")
    case Trying
    show ?thesis
    proof (cases "lk_file s")
      case None
      have "phase_ok s (Some (m, lc_owner ?c)) ?c Running" for m by (simp add: phase_ok_def)
      moreover have False if "call_alive s j" "holding (lc_phase (lk_calls s ! j)) \<or> (\<exists>v. lc_phase (lk_calls s ! j) = Unlinking (Reclaim v))" for j
        using inv that None by (auto simp: lock_inv_def phase_ok_def)
      ultimately have "lock_inv ((set_lock_phase i Running s)\<lparr>lk_file := Some (lk_next s, lc_owner ?c), lk_next := Suc (lk_next s)\<rparr>)"
        by (intro inv_update [OF inv i refl]) (use me in auto)
      then show ?thesis by (simp add: lock_access_def Trying tryAcquireFileLock_def None)
    next
      case (Some g)
      have "lock_inv (set_lock_phase i Inspecting s)" using inv i by (rule phase_update) (simp add: phase_ok_def)
      then show ?thesis by (simp add: lock_access_def Trying tryAcquireFileLock_def Some)
    qed
  next
    case Inspecting
    have "phase_ok s (lk_file s) ?c (inspectExistingLock expired s)"
      using stored by (auto simp: phase_ok_def inspectExistingLock_def lock_changed_def split: option.splits)
    with inv i have "lock_inv (set_lock_phase i (inspectExistingLock expired s) s)" by (rule phase_update)
    then show ?thesis by (simp add: lock_access_def Inspecting)
  next
    case (Judging v)
    have v: "v \<in> records s" using ok by (simp add: phase_ok_def Judging)
    then have c: "exactOwnerTime (js_get v ''processStartedAt'') \<noteq> None" "validFileOwner v"
      using inv by (auto simp: lock_inv_def records_def call_ok_def list_all_iff)
    have pid: "owner_pid v \<noteq> 0"
      using c(2) by (simp add: validFileOwner_def owner_pid_def positive_safe_integer_def exactOwnerPid_positive)
    have "\<not> process_alive s (owner_pid v)"
      if "is_reclaimable (inspectProcessInstance (process_alive s) (\<lambda>_. start) now None v)"
    proof
      assume a: "process_alive s (owner_pid v)"
      obtain t where t: "exactOwnerTime (js_get v ''processStartedAt'') = Some t" using c(1) by auto
      have "case start of None \<Rightarrow> True | Some u \<Rightarrow> \<bar>u - of_int t\<bar> \<le> START_TIME_TOLERANCE_MS"
        using hon n a t by (auto simp: honest_def Judging split: option.splits)
      then have "\<not> is_reclaimable (inspectProcessInstance (process_alive s) (\<lambda>_. start) now None v)"
        using a pid t by (intro same_process_kept [where pid = "owner_pid v" and r = t]) (simp_all only: owner_pid_def not_False_eq_True)
      with that show False by simp
    qed
    then have "phase_ok s (lk_file s) ?c (inspectFileLock expired now start v s)"
      using v by (auto simp: phase_ok_def inspectFileLock_def retry_phase_def lock_changed_def)
    with inv i have "lock_inv (set_lock_phase i (inspectFileLock expired now start v s) s)" by (rule phase_update)
    then show ?thesis by (simp add: lock_access_def Judging)
  next
    case (FirstSnapshot r)
    have "phase_ok s (lk_file s) ?c (first_snapshot ?c r expired s)"
    proof (cases r)
      case (Reclaim v)
      have "phase_ok s f ?c (LinkStatus r m)" for f m using ok by (simp add: phase_ok_def FirstSnapshot Reclaim)
      then show ?thesis using removed_phase_ok [of False r] by (simp add: first_snapshot_def Reclaim split: option.split prod.split)
    next
      case (Release q)
      then obtain m where "lk_file s = Some (m, lc_owner ?c)" using ok by (auto simp: phase_ok_def FirstSnapshot)
      then show ?thesis using owned_record [OF inv me(1) me(1)] by (simp add: first_snapshot_def removal_owner_def Release phase_ok_def)
    qed
    with inv i have "lock_inv (set_lock_phase i (first_snapshot ?c r expired s) s)" by (rule phase_update)
    then show ?thesis by (simp add: lock_access_def FirstSnapshot)
  next
    case (LinkStatus r m)
    have "phase_ok s (lk_file s) ?c (link_status r m expired s)"
    proof (cases r)
      case (Reclaim v)
      have "phase_ok s f ?c (SecondSnapshot r m)" for f using ok by (simp add: phase_ok_def LinkStatus Reclaim)
      then show ?thesis
        using removed_phase_ok [of False r] removed_phase_ok [of True r] by (simp add: link_status_def Reclaim split: option.split prod.split)
    next
      case (Release q)
      then have "lk_file s = Some (m, lc_owner ?c)" using ok by (auto simp: phase_ok_def LinkStatus)
      then show ?thesis by (simp add: link_status_def Release phase_ok_def)
    qed
    with inv i have "lock_inv (set_lock_phase i (link_status r m expired s) s)" by (rule phase_update)
    then show ?thesis by (simp add: lock_access_def LinkStatus)
  next
    case (SecondSnapshot r m)
    have "phase_ok s (lk_file s) ?c (second_snapshot ?c r m expired s)"
    proof (cases r)
      case (Reclaim v)
      then have v: "v \<in> records s" "\<not> process_alive s (owner_pid v)" using ok by (auto simp: phase_ok_def SecondSnapshot)
      have "phase_ok s (lk_file s) ?c (Unlinking r)" if "lk_file s = Some (k, u)" "lock_owned_by u v" for k u
        using that v owned_record [OF inv stored [OF that(1)] v(1)] by (simp add: phase_ok_def Reclaim)
      then show ?thesis
        using removed_phase_ok [of False r] by (auto simp: second_snapshot_def removal_owner_def Reclaim split: option.split)
    next
      case (Release q)
      then have "lk_file s = Some (m, lc_owner ?c)" using ok by (auto simp: phase_ok_def SecondSnapshot)
      then show ?thesis using owned_record [OF inv me(1) me(1)] by (simp add: second_snapshot_def removal_owner_def Release phase_ok_def)
    qed
    with inv i have "lock_inv (set_lock_phase i (second_snapshot ?c r m expired s) s)" by (rule phase_update)
    then show ?thesis by (simp add: lock_access_def SecondSnapshot)
  next
    case (Unlinking r)
    have False if j: "j \<noteq> i" "call_alive s j" "holding (lc_phase (lk_calls s ! j)) \<or> (\<exists>v. lc_phase (lk_calls s ! j) = Unlinking (Reclaim v))" for j
    proof -
      have okj: "phase_ok s (lk_file s) (lk_calls s ! j) (lc_phase (lk_calls s ! j))" using inv j(2) by (simp add: lock_inv_def)
      note you = live_record [OF inv j(2)]
      have d: "distinct (map (\<lambda>c. js_get (lc_owner c) ''token'') (lk_calls s))" using inv by (simp add: lock_inv_def)
      have nj: "j < length (lk_calls s)" using j(2) by (simp add: call_alive_def)
      show False
      proof (cases r)
        case (Reclaim v)
        then obtain m where m: "lk_file s = Some (m, v)" "\<not> process_alive s (owner_pid v)" using ok by (auto simp: phase_ok_def Unlinking)
        have "about_to_reclaim s i" using i by (simp add: about_to_reclaim_def Unlinking Reclaim)
        then have "\<not> about_to_reclaim s j" using sol j(1) by (auto simp: solitary_def)
        then have "holding (lc_phase (lk_calls s ! j))" using j(2,3) by (auto simp: about_to_reclaim_def)
        then show False using okj m you(2) by (auto simp: phase_ok_def)
      next
        case (Release q)
        then obtain m where m: "lk_file s = Some (m, lc_owner ?c)" using ok by (auto simp: phase_ok_def Unlinking)
        from j(3) show False
        proof
          assume "holding (lc_phase (lk_calls s ! j))"
          then have "lc_owner (lk_calls s ! j) = lc_owner ?c" using okj m by (auto simp: phase_ok_def)
          then show False using same_owner [OF d nj n] j(1) by simp
        next
          assume "\<exists>v. lc_phase (lk_calls s ! j) = Unlinking (Reclaim v)"
          then show False using okj m me(2) by (auto simp: phase_ok_def)
        qed
      qed
    qed
    then have "lock_inv ((set_lock_phase i (removed_phase r True expired) s)\<lparr>lk_file := None, lk_next := lk_next s\<rparr>)"
      by (intro inv_update [OF inv i refl]) (use removed_phase_ok [of True] in auto)
    moreover have "(set_lock_phase i (removed_phase r True expired) s)\<lparr>lk_file := None, lk_next := lk_next s\<rparr>
        = (set_lock_phase i (removed_phase r True expired) s)\<lparr>lk_file := None\<rparr>" by (simp add: set_lock_phase_def)
    ultimately show ?thesis by (simp add: lock_access_def Unlinking)
  next
    case Sleeping
    have "lock_inv (set_lock_phase i Trying s)" using inv i by (rule phase_update) (simp add: phase_ok_def)
    then show ?thesis by (simp add: lock_access_def Sleeping)
  qed (simp_all add: lock_access_def inv)
qed

section \<open>Mutual exclusion\<close>

lemma step_inv:
  assumes "lock_inv s" "solitary s" "honest s e"
  shows "lock_inv (lock_step s e)"
proof (cases e)
  case (Access i expired now start)
  then show ?thesis
    using assms access_inv [OF assms(1,2), of i expired now start] by (simp add: lock_step_def call_alive_def)
next
  case (Finish i ok)
  show ?thesis
  proof (cases "call_alive s i \<and> lc_phase (lk_calls s ! i) = Running")
    case True
    then have "phase_ok s (lk_file s) (lk_calls s ! i) (FirstSnapshot (Release ok))"
      using assms(1) by (auto simp: lock_inv_def phase_ok_def)
    then have "lock_inv (set_lock_phase i (FirstSnapshot (Release ok)) s)" using assms(1) True by (intro phase_update) simp_all
    then show ?thesis using True by (simp add: lock_step_def Finish call_alive_def)
  next
    case False
    then show ?thesis using assms(1) by (auto simp: lock_step_def Finish call_alive_def)
  qed
next
  case (Crash pid)
  have "call_alive (s\<lparr>lk_dead := pid # lk_dead s\<rparr>) i \<Longrightarrow> call_alive s i" for i by (simp add: call_alive_def process_alive_def)
  moreover have "phase_ok (s\<lparr>lk_dead := pid # lk_dead s\<rparr>) f c p" if "phase_ok s f c p" for f c p
    using that by (simp add: phase_ok_def records_def process_alive_def)
  ultimately show ?thesis using assms(1) by (simp add: lock_step_def Crash lock_inv_def records_def)
qed

lemma initial_inv: "lock_initial s \<Longrightarrow> lock_inv s \<and> solitary s"
proof
  assume s: "lock_initial s"
  have "v \<in> records s" if "lk_file s = Some (n, v)" for n v
    using s that by (auto simp: lock_initial_def records_def list_ex_iff)
  moreover have "phase_ok s (lk_file s) (lk_calls s ! i) (lc_phase (lk_calls s ! i))" if "call_alive s i" for i
  proof -
    have "lc_phase (lk_calls s ! i) = Trying" using s that by (simp add: lock_initial_def call_alive_def)
    then show ?thesis by (simp add: phase_ok_def)
  qed
  ultimately show "lock_inv s" using s by (simp add: lock_inv_def lock_initial_def)
  show "solitary s"
    using s by (auto simp: solitary_def about_to_reclaim_def lock_initial_def call_alive_def)
qed

lemma reach_inv: "lock_reach solitary s0 s \<Longrightarrow> lock_initial s0 \<Longrightarrow> lock_inv s \<and> solitary s"
  by (induction rule: lock_reach.induct) (auto simp: initial_inv intro: step_inv)

text \<open>
  C37. The lock excludes: in every reachable state at most one living call holds it, and the lock file is its own; its
  release never finds the file changed.  This holds for any number of calls in any number of processes that die
  at any time, when the starts that are observed are those of the processes and no two living calls stand at once
  between the last check of a dead owner's file and its unlinking.
\<close>

theorem lock_excludes:
  assumes "lock_initial s0" "lock_reach solitary s0 s" "call_alive s i" "holding (lc_phase (lk_calls s ! i))"
  shows "(\<exists>n. lk_file s = Some (n, lc_owner (lk_calls s ! i)))
     \<and> (\<forall>j. call_alive s j \<longrightarrow> (holding (lc_phase (lk_calls s ! j)) \<longrightarrow> j = i) \<and> lc_phase (lk_calls s ! j) \<noteq> Failed lock_changed)"
proof -
  have inv: "lock_inv s" using reach_inv [OF assms(2,1)] by simp
  have ok: "phase_ok s (lk_file s) (lk_calls s ! j) (lc_phase (lk_calls s ! j))" if "call_alive s j" for j
    using inv that by (simp add: lock_inv_def)
  obtain n where n: "lk_file s = Some (n, lc_owner (lk_calls s ! i))" using ok [OF assms(3)] assms(4) by (auto simp: phase_ok_def)
  have "j = i" if "call_alive s j" "holding (lc_phase (lk_calls s ! j))" for j
  proof (rule same_owner [of s])
    show "lc_owner (lk_calls s ! j) = lc_owner (lk_calls s ! i)" using ok [OF that(1)] that(2) n by (auto simp: phase_ok_def)
  qed (use inv that assms(3) in \<open>auto simp: lock_inv_def call_alive_def\<close>)
  then show ?thesis using n ok by (auto simp: phase_ok_def)
qed

section \<open>A dead owner's lock is recovered\<close>

text \<open>A living call in a phase, the file, and the dead.\<close>

definition situation :: "nat \<Rightarrow> nat list \<Rightarrow> lock_phase \<Rightarrow> (nat \<times> jsv) option \<Rightarrow> lock_state \<Rightarrow> bool" where
  "situation i dead p f s = (call_alive s i \<and> lk_dead s = dead \<and> lc_phase (lk_calls s ! i) = p \<and> lk_file s = f)"

lemma situation_access: "situation i dead p f s \<Longrightarrow> lock_step s (Access i expired now start) = lock_access i expired now start s"
  by (simp add: situation_def call_alive_def lock_step_def)

lemma situation_phase: "situation i dead p f s \<Longrightarrow> situation i dead q f (set_lock_phase i q s)"
  by (auto simp: situation_def call_alive_def calls_set_phase process_alive_def)

lemma situation_file: "situation i dead p f s \<Longrightarrow> situation i dead p g (s\<lparr>lk_file := g\<rparr>)" "situation i dead p f s \<Longrightarrow> situation i dead p f (s\<lparr>lk_next := k\<rparr>)"
  by (auto simp: situation_def call_alive_def process_alive_def)

lemma recovery_steps:
  assumes "validFileOwner v" "owner_pid v \<in> set dead"
  shows "situation i dead Trying (Some (n, v)) s \<Longrightarrow> situation i dead Inspecting (Some (n, v)) (lock_step s (Access i e t u))"
    "situation i dead Inspecting (Some (n, v)) s \<Longrightarrow> situation i dead (Judging v) (Some (n, v)) (lock_step s (Access i e t u))"
    "situation i dead (Judging v) (Some (n, v)) s \<Longrightarrow> situation i dead (FirstSnapshot (Reclaim v)) (Some (n, v)) (lock_step s (Access i e t u))"
    "situation i dead (FirstSnapshot (Reclaim v)) (Some (n, v)) s \<Longrightarrow> situation i dead (LinkStatus (Reclaim v) n) (Some (n, v)) (lock_step s (Access i e t u))"
    "situation i dead (LinkStatus (Reclaim v) n) (Some (n, v)) s \<Longrightarrow> situation i dead (SecondSnapshot (Reclaim v) n) (Some (n, v)) (lock_step s (Access i e t u))"
    "situation i dead (SecondSnapshot (Reclaim v) n) (Some (n, v)) s \<Longrightarrow> situation i dead (Unlinking (Reclaim v)) (Some (n, v)) (lock_step s (Access i e t u))"
    "situation i dead (Unlinking (Reclaim v)) (Some (n, v)) s \<Longrightarrow> situation i dead Trying None (lock_step s (Access i e t u))"
proof -
  have own: "lock_owned_by v v"
    using assms(1) by (auto simp: lock_owned_by_def validFileOwner_def isRecord_def js_get_def split: jsv.splits)
  show "situation i dead Inspecting (Some (n, v)) (lock_step s (Access i e t u))" if h: "situation i dead Trying (Some (n, v)) s"
  proof -
    note f = h [unfolded situation_def]
    have "lock_step s (Access i e t u) = set_lock_phase i Inspecting s"
      using f by (simp add: situation_access [OF h] lock_access_def tryAcquireFileLock_def)
    then show ?thesis using situation_phase [OF h, of "Inspecting"] by simp
  qed
  show "situation i dead (Judging v) (Some (n, v)) (lock_step s (Access i e t u))" if h: "situation i dead Inspecting (Some (n, v)) s"
  proof -
    note f = h [unfolded situation_def]
    have "lock_step s (Access i e t u) = set_lock_phase i (Judging v) s"
      using f by (simp add: situation_access [OF h] lock_access_def inspectExistingLock_def assms(1))
    then show ?thesis using situation_phase [OF h, of "(Judging v)"] by simp
  qed
  show "situation i dead (FirstSnapshot (Reclaim v)) (Some (n, v)) (lock_step s (Access i e t u))" if h: "situation i dead (Judging v) (Some (n, v)) s"
  proof -
    note f = h [unfolded situation_def]
    have rec: "is_reclaimable (inspectProcessInstance (process_alive s) (\<lambda>_. u) t None v)"
      using assms(2) f by (intro dead_owner_reclaimed) (simp add: process_alive_def owner_pid_def)
    have "lock_step s (Access i e t u) = set_lock_phase i (FirstSnapshot (Reclaim v)) s"
      using f by (simp add: situation_access [OF h] lock_access_def inspectFileLock_def rec)
    then show ?thesis using situation_phase [OF h, of "(FirstSnapshot (Reclaim v))"] by simp
  qed
  show "situation i dead (LinkStatus (Reclaim v) n) (Some (n, v)) (lock_step s (Access i e t u))" if h: "situation i dead (FirstSnapshot (Reclaim v)) (Some (n, v)) s"
  proof -
    note f = h [unfolded situation_def]
    have "lock_step s (Access i e t u) = set_lock_phase i (LinkStatus (Reclaim v) n) s"
      using f by (simp add: situation_access [OF h] lock_access_def first_snapshot_def removal_owner_def own)
    then show ?thesis using situation_phase [OF h, of "(LinkStatus (Reclaim v) n)"] by simp
  qed
  show "situation i dead (SecondSnapshot (Reclaim v) n) (Some (n, v)) (lock_step s (Access i e t u))" if h: "situation i dead (LinkStatus (Reclaim v) n) (Some (n, v)) s"
  proof -
    note f = h [unfolded situation_def]
    have "lock_step s (Access i e t u) = set_lock_phase i (SecondSnapshot (Reclaim v) n) s"
      using f by (simp add: situation_access [OF h] lock_access_def link_status_def)
    then show ?thesis using situation_phase [OF h, of "(SecondSnapshot (Reclaim v) n)"] by simp
  qed
  show "situation i dead (Unlinking (Reclaim v)) (Some (n, v)) (lock_step s (Access i e t u))" if h: "situation i dead (SecondSnapshot (Reclaim v) n) (Some (n, v)) s"
  proof -
    note f = h [unfolded situation_def]
    have "lock_step s (Access i e t u) = set_lock_phase i (Unlinking (Reclaim v)) s"
      using f by (simp add: situation_access [OF h] lock_access_def second_snapshot_def removal_owner_def own)
    then show ?thesis using situation_phase [OF h, of "(Unlinking (Reclaim v))"] by simp
  qed
  show "situation i dead Trying None (lock_step s (Access i e t u))" if h: "situation i dead (Unlinking (Reclaim v)) (Some (n, v)) s"
  proof -
    note f = h [unfolded situation_def]
    have "lock_step s (Access i e t u) = (set_lock_phase i Trying s)\<lparr>lk_file := None\<rparr>"
      using f by (simp add: situation_access [OF h] lock_access_def removed_phase_def)
    then show ?thesis using situation_file(1) [OF situation_phase [OF h, of Trying], of None] by simp
  qed
qed

lemma free_lock_taken:
  assumes h: "situation i dead Trying None s"
  shows "situation i dead Running (Some (lk_next s, lc_owner (lk_calls s ! i))) (lock_step s (Access i e t u))"
proof -
  note f = h [unfolded situation_def]
  have "lock_step s (Access i e t u) = (set_lock_phase i Running s)\<lparr>lk_file := Some (lk_next s, lc_owner (lk_calls s ! i)), lk_next := Suc (lk_next s)\<rparr>"
    using f by (simp add: situation_access [OF h] lock_access_def tryAcquireFileLock_def)
  then show ?thesis using situation_file(2) [OF situation_file(1) [OF situation_phase [OF h, of Running]]] by simp
qed

text \<open>
  C38. The lock of a dead owner does not stay: a call that is left to itself holds the lock after eight accesses,
  whatever its clock, its deadline and the starts it observes.
\<close>

theorem dead_owner_recovered:
  assumes "lk_file s = Some (n, v)" "validFileOwner v" "\<not> process_alive s (owner_pid v)"
    and "call_alive s i" "lc_phase (lk_calls s ! i) = Trying" "length observations = 8"
  shows "lc_phase (lk_calls (foldl lock_step s (map (\<lambda>(expired, now, start). Access i expired now start) observations)) ! i) = Running"
proof -
  have 0: "situation i (lk_dead s) Trying (Some (n, v)) s" using assms by (simp add: situation_def)
  have d: "owner_pid v \<in> set (lk_dead s)" using assms(3) by (simp add: process_alive_def)
  obtain a b c d' e f g h where o: "observations = [a, b, c, d', e, f, g, h]"
    using assms(6) by (auto simp: eval_nat_numeral length_Suc_conv)
  note r = recovery_steps [OF assms(2) d]
  note r(1) [OF 0, THEN r(2), THEN r(3), THEN r(4), THEN r(5), THEN r(6), THEN r(7), THEN free_lock_taken]
  from this [of "fst a" "fst (snd a)" "snd (snd a)" "fst b" "fst (snd b)" "snd (snd b)" "fst c" "fst (snd c)" "snd (snd c)"]
  show ?thesis by (simp add: o situation_def case_prod_unfold)
qed

section \<open>The race of two reclaims\<close>

text \<open>Without a bound on the timing the lock does not exclude.\<close>

fun honest_run :: "lock_state \<Rightarrow> lock_event list \<Rightarrow> bool" where
  "honest_run s [] = True"
| "honest_run s (e # es) = (honest s e \<and> honest_run (lock_step s e) es)"

lemma reach_run: "lock_reach (\<lambda>s. True) s0 s \<Longrightarrow> honest_run s es \<Longrightarrow> lock_reach (\<lambda>s. True) s0 (foldl lock_step s es)"
  by (induction es arbitrary: s) (auto intro: reach_step)

definition sample_call :: "char \<Rightarrow> nat \<Rightarrow> lock_phase \<Rightarrow> lock_call" where
  "sample_call c pid p = \<lparr>lc_pid = pid, lc_owner = JObj [(''token'', JStr (replicate 32 c)), (''pid'', JNum (Fin (of_nat pid))),
       (''purpose'', JStr LOCK_PURPOSE), (''startedAt'', JStr ''1970-01-01T00:00:05.000Z''),
       (''processStartedAt'', JStr ''1970-01-01T00:00:01.000Z'')], lc_phase = p\<rparr>"

lemma sample_call_owner: "lc_owner (sample_call c pid p) = fileOwner (replicate 32 c) pid 5000 1000"
proof -
  have "toISOString 5000 = ''1970-01-01T00:00:05.000Z''" "toISOString 1000 = ''1970-01-01T00:00:01.000Z''" by code_simp+
  then show ?thesis by (simp add: sample_call_def fileOwner_def)
qed

text \<open>Process 1 died with the lock; processes 2 and 3 want it.\<close>

definition race_start :: lock_state where
  "race_start = \<lparr>lk_file = Some (0, lc_owner (sample_call (CHR ''a'') 1 Running)), lk_next = 1,
     lk_calls = [sample_call (CHR ''a'') 1 Running, sample_call (CHR ''b'') 2 Trying, sample_call (CHR ''c'') 3 Trying], lk_dead = [1]\<rparr>"

definition accesses :: "nat \<Rightarrow> nat \<Rightarrow> lock_event list" where
  "accesses k i = replicate k (Access i False 5000 None)"

text \<open>Both check the dead owner's file; then call 1 unlinks it and takes the lock, and call 2 unlinks the lock of call 1.\<close>

definition race :: "lock_event list" where
  "race = accesses 6 1 @ accesses 6 2 @ accesses 2 1 @ accesses 2 2"

lemma sample_calls_ok:
  "call_ok (sample_call (CHR ''a'') 1 Running)" "call_ok (sample_call (CHR ''b'') 2 Trying)" "call_ok (sample_call (CHR ''c'') 3 Trying)"
  by code_simp+

lemma sample_call_parts:
  "lc_pid (sample_call c pid p) = pid" "lc_phase (sample_call c pid p) = p"
  "js_get (lc_owner (sample_call c pid p)) ''token'' = JStr (replicate 32 c)"
  by (simp_all add: sample_call_def)

lemma sample_tokens:
  "replicate 32 (CHR ''a'') \<noteq> replicate 32 (CHR ''b'')" "replicate 32 (CHR ''a'') \<noteq> replicate 32 (CHR ''c'')"
  "replicate 32 (CHR ''b'') \<noteq> replicate 32 (CHR ''c'')"
  by code_simp+

lemma race_initial: "lock_initial race_start"
  using sample_calls_ok sample_tokens
  by (simp add: lock_initial_def race_start_def call_alive_def process_alive_def sample_call_parts less_Suc_eq all_conj_distrib)

lemma race_honest: "honest_run race_start race"
  by code_simp

lemma race_end:
  "lc_phase (lk_calls (foldl lock_step race_start race) ! 1) = Running" "lc_phase (lk_calls (foldl lock_step race_start race) ! 2) = Running"
  by code_simp+

text \<open>
  Two calls can hold the lock: if both have verified the file of a dead owner before either unlinks it, the second
  unlinks the file the first has created in the meantime, and both callbacks run.
\<close>

lemma reclaim_race:
  "lock_initial race_start \<and> (\<exists>s. lock_reach (\<lambda>s. True) race_start s
     \<and> lc_phase (lk_calls s ! 1) = Running \<and> lc_phase (lk_calls s ! 2) = Running)"
  using race_initial reach_run [OF reach_start race_honest] race_end by blast

section \<open>Samples\<close>

lemma solitary_single: "length (lk_calls s) = 1 \<Longrightarrow> solitary s"
  by (simp add: solitary_def about_to_reclaim_def call_alive_def)

definition single_start :: lock_state where
  "single_start = \<lparr>lk_file = None, lk_next = 0, lk_calls = [sample_call (CHR ''b'') 2 Trying], lk_dead = []\<rparr>"

lemma single_initial: "lock_initial single_start"
  using sample_calls_ok(2) by (simp add: lock_initial_def single_start_def call_alive_def process_alive_def sample_call_parts)

lemma single_facts: "length (lk_calls (lock_step single_start (Access 0 False 5000 None))) = 1"
  "lc_phase (lk_calls (lock_step single_start (Access 0 False 5000 None)) ! 0) = Running"
  "call_alive (lock_step single_start (Access 0 False 5000 None)) 0" "honest single_start (Access 0 False 5000 None)"
  by code_simp+

lemma lock_excludes_witness:
  "\<exists>n. lk_file (lock_step single_start (Access 0 False 5000 None)) = Some (n, lc_owner (lk_calls (lock_step single_start (Access 0 False 5000 None)) ! 0))"
proof -
  have "lock_reach solitary single_start (lock_step single_start (Access 0 False 5000 None))"
    by (intro reach_step reach_start single_facts solitary_single)
  from lock_excludes [OF single_initial this single_facts(3)] show ?thesis by (simp add: single_facts(2))
qed

lemma race_facts: "validFileOwner (lc_owner (sample_call (CHR ''a'') 1 Running))"
  "\<not> process_alive race_start (owner_pid (lc_owner (sample_call (CHR ''a'') 1 Running)))" "call_alive race_start 1"
  by code_simp+

lemma dead_owner_recovered_witness:
  "lc_phase (lk_calls (foldl lock_step race_start (map (\<lambda>(expired, now, start). Access 1 expired now start) (replicate 8 (True, 0, Some 7)))) ! 1) = Running"
  by (rule dead_owner_recovered [OF _ race_facts]) (simp_all add: race_start_def sample_call_def)

end
