(* ===== verification/Spec2Isabelle.thy ===== *)
theory Spec2Isabelle
  imports PatchSpec PatchApply ToolExecutorSpec ResourceRequestsSpec ResourceWaitersSpec
    RelayRecoverySpec RelayHeartbeatSpec ManagedJobsSpec ProcessSessionsSpec WorkspaceTransactionSpec
    MutationCoordinator McpProtocolSpec ResourceCoordinatorSpec TransactionLockSpec
begin

text \<open>
  Machine Bridge: the daemon that runs tool calls on a machine for remote accounts.

  A remote client calls tools through a Worker, which relays each call over a socket to the daemon on the user's
  machine.  The daemon decides what a call may do (policy, account role, operation risk), admits it against the
  capacity of the process and the resources of the machine, runs its handler, keeps its result until the Worker has
  acknowledged it, and lets long work run as durable jobs.  This development models that decision and life-cycle core,
  the JavaScript under \<open>src/local\<close> and \<open>src/shared\<close>, definition by definition.  A definition has the name of the
  function it translates; a class is a record with one function per method, whose result is the new state.

  \<^bold>\<open>How the parts interact.\<close>  A relayed call enters the runtime (\<open>RelayRecovery\<close>), which checks that its id is not in
  use and hands it to the pipeline of the tool executor (\<open>ToolExecutor\<close>).  The pipeline registers the call
  (\<open>CallRegistry\<close>, against \<open>CallCapacity\<close>), resolves its authority (\<open>Authority\<close>, from the daemon policy and the account
  role of \<open>Policy\<close>), validates its arguments (\<open>ToolValidation\<close> on the schemas \<open>ToolSchema\<close> compiled), classifies what the
  operation would touch and authorises it (\<open>OperationRisk\<close>, \<open>OperationAuthorization\<close>), passes the audit gate and runs
  the handler.  Handlers that start heavy work ask the resource layer first (\<open>ResourceRequests\<close>, \<open>ResourceAdmission\<close>,
  \<open>ResourceAccounting\<close>, and \<open>ResourceWaiters\<close> when they have to wait); a file edit goes through the patch engine
  (\<open>PatchParse\<close>, \<open>PatchApply\<close>); several daemons on one machine share the leases and waiters through files
  (\<open>ResourceCoordinator\<close>, under the lock of \<open>TransactionLock\<close>); work that outlives the call is a managed job (\<open>ManagedJobs\<close>).  The liveness monitors
  (\<open>RelayHeartbeat\<close>) decide when the connection is lost, which starts the grace period of \<open>RelayRecovery\<close>.

  \<^bold>\<open>Foundations.\<close>
  \<^item> \<open>Prelude\<close>: JavaScript values and numbers, the string and map operations of the standard library, lemmas on lists.
  \<^item> \<open>Interfaces\<close>: the locales.  \<open>step_machine\<close> and \<open>monotone_machine\<close> (a machine that keeps an invariant, and one that
    never undoes what it has recorded) are interpreted by the call registry and the relay recovery; \<open>restriction\<close> (an
    operation that narrows a capability) by the intersection of policies; \<open>keyed_store\<close> by the insertion-ordered map;
    \<open>step_machine\<close> also by the process sessions, \<open>append_log\<close> (a bounded view of an append-only log) by the output stream.
    The locale \<open>pruning\<close> of \<open>ResourceCoordinatorSpec\<close> (a pass over a directory that keeps valid live records) is
    interpreted by the leases and by the waiters.
  \<^item> \<open>Errors\<close>: \<open>errors.mjs\<close>, \<open>BridgeError\<close> with its codes, the mapping of system errors, the public projection.
  \<^item> \<open>PosixPath\<close>, \<open>JsDate\<close>, \<open>IsoDate\<close>: the part of Node's \<open>path\<close>, of \<open>Date.parse\<close> and of \<open>toISOString\<close> the sources use;
    parsing is inverse to printing.

  \<^bold>\<open>Who may do what.\<close>
  \<^item> \<open>Policy\<close>: \<open>policy.mjs\<close> with its contract and the tool catalog.  The intersection of two policies is their greatest
    lower bound, normalisation is canonical, availability is monotone.
  \<^item> \<open>Authority\<close>: \<open>authority-context.mjs\<close>, \<open>account-access.mjs\<close>, \<open>authority-revocation.mjs\<close>, \<open>call-authority.mjs\<close>.
    Ownership isolates sessions, a relayed authority never exceeds the policy or the role, a revocation is exact.
  \<^item> \<open>OperationRisk\<close>, \<open>OperationAuthorization\<close>: \<open>operation-risk.mjs\<close>, \<open>operation-authorization.mjs\<close>, and the authority
    stage of \<open>tool-executor.mjs\<close>.  The first section of this theory composes them: the ceiling of delegated calls, the
    confinement of their writes, the protected roots against the file tools of every account
    (\<open>control_root_in_workspace\<close> is the case in which a root lies in the workspace).

  \<^bold>\<open>The life of a call.\<close>
  \<^item> \<open>ToolSchema\<close>, \<open>ToolValidation\<close>, \<open>ToolValidationSpec\<close>: \<open>tool-argument-validation.mjs\<close>.  The specification is the relation
    \<open>sat\<close> between a compiled schema and a value; validation implements it within its issue limit and its work budget.
  \<^item> \<open>CallCapacity\<close>, \<open>CallRegistry\<close>: \<open>numbers.mjs\<close>, \<open>tool-call-capacity.mjs\<close>, \<open>call-capacity.mjs\<close>, \<open>call-registry.mjs\<close>,
    \<open>call-registry-drain.mjs\<close>.  The registry is a step machine over its operations and timers: capacity, revocation, drain.
  \<^item> \<open>ToolExecutor\<close>, \<open>ToolExecutorSpec\<close>: the stages of \<open>tool-executor.mjs\<close> in their order, with the schema extensions, timeouts,
    audit gate and result bound they use.  A call is observed once, leaves the registry, and reaches its handler only
    when every stage has admitted it.
  \<^item> \<open>RelayRecovery\<close>, \<open>RelayRecoverySpec\<close>: \<open>relay-recovery.mjs\<close>, \<open>relay-result-retention.mjs\<close>, \<open>relay-call-recovery.mjs\<close> and the relay
    part of \<open>runtime.mjs\<close>, as a step machine over the messages of the Worker, the settlement of calls, and the timers.
    A call that has begun is not reported missing as long as no event gives it up; results and tombstones are bounded.
    \<open>expired_call_reported_missing\<close> is the run that shows why the grace timer is such an event: when it expires with the
    call in flight, the result is suppressed without a tombstone, and the Worker is then told that the call never arrived.
  \<^item> \<open>RelayHeartbeat\<close>, \<open>RelayHeartbeatSpec\<close>: the probe, confirmation, stall and liveness modules of the relay.  A transport
    timeout is justified in every run; a transport that stops answering is found out, by a refinement of the tick
    into five phases whose waits are bounded.

  \<^bold>\<open>Work and files.\<close>
  \<^item> \<open>PatchParse\<close>, \<open>PatchApply\<close>, \<open>PatchSpec\<close>: \<open>patch.mjs\<close>.  Parsing is inverse to rendering; a hunk applies where its context
    decides it, changes only the matched lines, and keeps the line endings.
  \<^item> \<open>ResourceAccounting\<close>, \<open>ResourceAdmission\<close>, \<open>ResourceRequests\<close>, \<open>ResourceWaiters\<close> and their \<open>Spec\<close> theories: lease accounting
    over a forest of nested processes, pressure and limits, the admission decision, elastic requests, retry delays and
    the fair queue.  Accounting is exact and adds up independent reservations; admission keeps the limits; waiting is rewarded.
  \<^item> \<open>ProcessIdentity\<close>: \<open>process-identity.mjs\<close>, the parsing of process statistics and command lines and the verdict on the
    owner of a record.  A process that still runs with its recorded start is never reclaimed, a dead one always is.
  \<^item> \<open>ResourceCoordinator\<close>, \<open>ResourceCoordinatorSpec\<close>: \<open>resource-admission.mjs\<close> with \<open>resource-lease-liveness.mjs\<close>, the files of
    \<open>resource-waiters.mjs\<close>, \<open>resource-project-key.mjs\<close> and \<open>resource-host-cache.mjs\<close>: the transactions that acquire, bind,
    release and report, on two directories of records.  A granted lease fits the limits beside all the leases it was
    admitted with; the lease of a live owner survives every transaction; every record written is one the next
    transaction accepts on machines of at most 1024 cores, so that the directory stays readable there
    (\<open>large_host_unreadable\<close> is the run on a larger one); a wrong token releases nothing.
  \<^item> \<open>TransactionLock\<close>, \<open>TransactionLockSpec\<close>: \<open>resource-transaction-lock.mjs\<close> with the guarded removal of
    \<open>exclusive-file.mjs\<close>, a step machine over the file accesses of any number of processes, which may die at any
    point.  No two callbacks run at a time while at most one removal is between its last check and its unlink, and the
    lock of a dead owner is recovered.  \<open>reclaim_race\<close> is the run in which two removals overlap and both callbacks run.
  \<^item> \<open>ManagedJobs\<close>, \<open>ManagedJobsSpec\<close>: \<open>managed-job-terminal.mjs\<close>, \<open>managed-job-dependency-metadata.mjs\<close>,
    \<open>managed-job-dependency-admission.mjs\<close>, \<open>managed-job-dependencies.mjs\<close>, \<open>managed-job-retention-policy.mjs\<close>,
    \<open>monotonic-deadline.mjs\<close>.  The gate opens only on success and always settles; a terminal record survives a crash
    between any two of its writes; eviction spares undelivered results.

  \<^item> \<open>ProcessOutput\<close>, \<open>ProcessOutputSpec\<close>: \<open>process-output-stream.mjs\<close>, the ring buffer behind a running process.  It refines the log
    of all output; a client that polls from where it stopped misses nothing without being told.
  \<^item> \<open>ProcessSessions\<close>, \<open>ProcessSessionsSpec\<close>: \<open>process-sessions.mjs\<close> and its modules for reads, remote pacing, termination and
    activity, as a step machine over client operations, process events and timers.  A running session is never
    dropped, and the process tracker and the activity guard agree with the table.
  \<^item> \<open>FileSystem\<close>, \<open>WorkspaceTransaction\<close>, \<open>WorkspaceTransactionSpec\<close>: \<open>workspace-file-transaction.mjs\<close> with its helpers,
    \<open>exclusive-publication-recovery.mjs\<close> and \<open>workspace-file-rename-retry.mjs\<close> on names, inodes and hard links.  Every call
    may fail.  A committed record is a change of the names whose rollback is its inverse, so a patch is complete or undone.
  \<^item> \<open>MutationCoordinator\<close>: \<open>file-mutation-coordinator.mjs\<close> with its promises as explicit tails, a step machine over
    reservations, resolutions, starts and ends of callbacks.  Mutations of a path run in the order of their reservations,
    and none is left waiting.
  \<^item> \<open>McpProtocol\<close>, \<open>McpProtocolSpec\<close>: \<open>mcp-protocol.mjs\<close>, the validation of what a client sends.  The structural check is
    equivalent to the bounds on nodes, depth and keys; an accepted subscription is a normal form; tagging is idempotent.

  \<^bold>\<open>Parameters.\<close>  What the code takes from outside is an argument of the definitions that use it: the regular expression
  engine (validity of a pattern, the test), \<open>realpath\<close> and the path resolvers, keyed digests, the handlers, the outcome
  of the audit store, the length of a serialised result, clock readings, whether a send was accepted, and the outcome of
  each read and write of the job store, and which calls of the file system fail, with which code.  The file system
  itself is a model of documented behaviour of \<open>node:fs\<close>; one process uses it at a time.  Events that may happen while a stage awaits are an explicit list.

  \<^bold>\<open>Numbers.\<close>  A JavaScript number is NaN, an infinity, negative zero, or an exact rational.  The rounding of doubles is not
  modelled; an infinite resource quantity counts as absent.  Strings are lists of code units up to 255.

  \<^bold>\<open>Bounds and fuel.\<close>  Schema compilation descends at most \<open>maximumDepth + 1\<close> levels, after which the code itself throws.
  The recursion over the lease forest has as many levels as leases, and the search for the nearest lease stops after 2048
  steps as in the source.  The polling loop of a job's gate carries fuel, and \<open>gate_terminates\<close> proves that fourteen
  days' worth of rounds (1209601, one per second) always settle it.  A rename is tried 32 times, as in the source.

  \<^bold>\<open>Not modelled.\<close>  The texts of error messages, log lines and diagnostic snapshots.  Of the resource coordinator the
  creation of its directory and marker file, the recovery of staging files, the change signals, the sharing of a host
  sample in flight, host sampling and command profiles; of \<open>exclusive-file.mjs\<close> the publication by hard links and the
  directory syncs.  The managed-job store, its runner and recovery; relay reconnection and the HTTP fallback; the spawning
  of processes, the other workspace operations, Git, the browser bridge and extension, computer use, agent context,
  services, installation and command line, which are mostly input and output.  The Worker is TypeScript and the native
  helpers are Swift; what the daemon assumes of the Worker enters as the messages it sends.
\<close>

section \<open>A concrete runtime\<close>

definition sample_call :: "string \<Rightarrow> string \<Rightarrow> thrown + authority \<times> decision option" where
  "sample_call r tool = admit_call sample_authorizer sample_gate (\<lambda>_ _. Inr ()) tool (Some ''relay'')
     (sample_authorization r) (JObj [(''path'', JStr ''notes'')])"

lemma sample_call_ok: "case sample_call ''editor'' ''write_file'' of Inl _ \<Rightarrow> False | Inr (a, d) \<Rightarrow> \<not> owner a"
  by code_simp

lemma sample_call_admitted:
  obtains a d where "admit_call sample_authorizer sample_gate (\<lambda>_ _. Inr ()) ''write_file'' (Some ''relay'')
     (sample_authorization ''editor'') (JObj [(''path'', JStr ''notes'')]) = Inr (a, d)" "\<not> owner a"
  using sample_call_ok by (cases "sample_call ''editor'' ''write_file''") (auto simp: sample_call_def)

definition owner_authority :: authority where
  "owner_authority = the (sample_authority ''owner'')"

section \<open>Admission of remote calls\<close>

text \<open>
  C1. The ceiling of a delegated (non-owner) remote call: once admitted, the daemon policy and the account role
  both allow its tool, the tool is neither owner-only nor in the shell family, its effective capabilities are
  below both policies, and the only approval scope it may carry is \<open>persistent-job\<close>.
\<close>

theorem delegated_call_ceiling:
  assumes "admit_call az gate argCheck tool (Some ''relay'') authorization args = Inr (a, d)" "\<not> owner a"
  shows "policyAllowsTool (policy_js (gate_policy gate)) tool
       \<and> policyAllowsTool (policy_js (accountPolicy a)) tool
       \<and> tool \<notin> set ownerOnlyTools \<and> \<not> in_family ''shell'' tool
       \<and> le_caps (caps_of (effectivePolicy a)) (caps_of (normalizePolicy (policy_js (gate_policy gate))))
       \<and> le_caps (caps_of (effectivePolicy a)) (caps_of (accountPolicy a))
       \<and> (\<exists>dec. d = Some dec \<and> d_allowed dec \<and> set (d_scopes dec) \<subseteq> {''persistent-job''})"
  using assms(1)
proof (rule admit_relay)
  fix dec
  assume st: "authority_stage gate tool (Some ''relay'') authorization = Inr a" and d: "d = Some dec"
    and au: "fst (authorize az (Some ''relay'') (Some a) tool args) = Inr dec"
  from st assms(2) au have "d_allowed dec \<and> set (d_scopes dec) \<subseteq> {''persistent-job''}"
    by (rule delegated_scopes) (auto simp: operationDecision_def normalizeScopes_set split: option.split)
  moreover from st obtain q where "policyAllowsTool (policy_js (gate_policy gate)) tool"
    "policyAllowsTool (policy_js (accountPolicy a)) tool" "owner a \<or> tool \<notin> set ownerOnlyTools"
    "le_caps (caps_of (effectivePolicy a)) (caps_of (normalizePolicy (policy_js (gate_policy gate))))"
    "le_caps (caps_of (effectivePolicy a)) (caps_of (accountPolicy a))"
    by (rule stage_relay) blast
  ultimately show ?thesis using d shell_owner_only assms(2) by blast
qed

lemma delegated_call_ceiling_witness:
  "\<exists>a d. sample_call ''editor'' ''write_file'' = Inr (a, d) \<and> \<not> owner a
     \<and> policyAllowsTool (policy_js (accountPolicy a)) ''write_file''"
proof (rule sample_call_admitted)
  fix a d
  assume "admit_call sample_authorizer sample_gate (\<lambda>_ _. Inr ()) ''write_file'' (Some ''relay'')
     (sample_authorization ''editor'') (JObj [(''path'', JStr ''notes'')]) = Inr (a, d)" "\<not> owner a"
  then show ?thesis using delegated_call_ceiling [of sample_authorizer sample_gate] by (auto simp: sample_call_def)
qed

text \<open>
  C3. A delegated remote file write is confined: the path the resolver returned lies in the workspace and is no
  credential or persistence path.
\<close>

theorem delegated_file_confinement:
  assumes "admit_call az gate argCheck tool (Some ''relay'') authorization args = Inr (a, d)" "\<not> owner a"
    and "in_family ''file-write'' tool" "env_resolveWrite (az_env az) = Some f" "f (js_get args ''path'') = Inr t"
  shows "isWithin (env_cwd (az_env az)) (env_workspace (az_env az)) t
       \<and> \<not> isSensitiveWritePath (env_cwd (az_env az)) t"
  using assms(1)
proof (rule admit_relay)
  fix dec
  assume st: "authority_stage gate tool (Some ''relay'') authorization = Inr a"
    and au: "fst (authorize az (Some ''relay'') (Some a) tool args) = Inr dec"
  from st assms(2) au obtain req where c: "classifyOperation (az_env az) tool args = Inr req"
    and s: "\<And>q. req = Some q \<Longrightarrow> set (req_scopes q) \<subseteq> {''persistent-job''}"
    by (rule delegated_scopes) blast
  have nf: "\<not> in_family ''patch'' tool" "\<not> in_family ''file-read'' tool"
    using assms(3) by (auto simp: in_family_def)
  have "classifyOperation (az_env az) tool args = classify_write (az_env az) tool args"
    using assms(3) nf by (cases "classify_write (az_env az) tool args")
      (auto simp: classify_file_family file_family_def classify_files_def)
  then have w: "classify_write (az_env az) tool args = Inr req" using c by simp
  have "req = None"
  proof (rule ccontr)
    assume "req \<noteq> None"
    then obtain q where q: "req = Some q" by blast
    then have "\<exists>c. mk_requirement (az_env az) (pathWriteScopes (az_env az) t) c tool (JObj [(''path'', JStr t)]) = Inr (Some q)"
      using w assms(4,5) by (auto simp: classify_write_def canonicalPath_def Let_def split: if_splits)
    then have "req_scopes q = normalizeScopes (pathWriteScopes (az_env az) t)" "req_scopes q \<noteq> []"
      using mk_requirement_Some by blast+
    then have "set (req_scopes q) \<subseteq> {''external-write'', ''sensitive-write''}" "req_scopes q \<noteq> []"
      by (auto simp: normalizeScopes_set pathWriteScopes_def)
    with s [OF q] show False by (cases "req_scopes q") auto
  qed
  with w show ?thesis using classify_write_None [OF _ assms(4,5)] by simp
qed

lemma delegated_file_confinement_witness:
  "isWithin ''/'' ''/w'' ''/w/notes'' \<and> \<not> isSensitiveWritePath ''/'' ''/w/notes''"
proof (rule sample_call_admitted)
  fix a d
  assume h: "admit_call sample_authorizer sample_gate (\<lambda>_ _. Inr ()) ''write_file'' (Some ''relay'')
     (sample_authorization ''editor'') (JObj [(''path'', JStr ''notes'')]) = Inr (a, d)" "\<not> owner a"
  have e: "in_family ''file-write'' ''write_file''" "path_resolve ''/w'' ''notes'' = ''/w/notes''"
    "env_cwd (az_env sample_authorizer) = ''/''" "env_workspace (az_env sample_authorizer) = ''/w''" by code_simp+
  have f: "env_resolveWrite (az_env sample_authorizer) = Some (\<lambda>v. Inr (path_resolve ''/w'' (arg_text v)))"
    by (simp add: sample_authorizer_def mk_authorizer_def)
  show ?thesis
    using delegated_file_confinement [OF h e(1) f, of "''/w/notes''"] e by (simp add: arg_text_def)
qed

lemma within_resolved: "isWithin cwd a (path_resolve cwd t) = isWithin cwd a t"
  by (simp add: isWithin_iff path_resolve_def resolve_render resolve_segs_clean)

lemma within_comparable: "isWithin cwd a t \<Longrightarrow> isWithin cwd b t \<Longrightarrow> isWithin cwd a b \<or> isWithin cwd b a"
  unfolding isWithin_iff by (metis append_eq_append_conv2)

text \<open>
  C2. The file tools of a remote account, the owner's included, and the protected roots.  When an operation is
  authorised, no absolute path it names (as the resolver returned it) lies canonically below a protected root, unless it is an
  ordinary path of the workspace, which needs no scope and is not checked.  Such a path is out of the roots as
  well when the resolver returned it in canonical form and neither the workspace contains the root nor the root the
  workspace.
\<close>

theorem protected_roots_untouchable:
  fixes az
  defines "env \<equiv> az_env az"
  assumes "fst (authorize az (Some ''relay'') (Some a) tool args) = Inr d"
    and "names_target env tool args t" "isAbsolute t" "r \<in> set (az_protectedRoots az)"
  defines "c \<equiv> canonicalizePathForPolicy (az_realpath az) (env_cwd env) t"
  shows "(isWithin (env_cwd env) r c \<longrightarrow> isWithin (env_cwd env) (env_workspace env) t \<and> \<not> sensitive_for env tool t)
     \<and> (c = path_resolve (env_cwd env) t \<and> \<not> isWithin (env_cwd env) (env_workspace env) r \<and> \<not> isWithin (env_cwd env) r (env_workspace env)
          \<longrightarrow> \<not> isWithin (env_cwd env) r c)"
  using assms(2)
proof (rule authorize_relay_ok)
  fix p req
  assume cl: "classifyOperation (az_env az) tool args = Inr req"
    and q: "\<And>q. req = Some q \<Longrightarrow> \<not> list_ex (isProtectedPath az) (req_targets q)
        \<and> assertRequirementWithinAuthority q (effectivePolicy a) (owner a) (role p) tool = Inr ()"
  have cov: "target_covered env tool t req"
    using classify_targets [OF cl [folded env_def] assms(3,4)] .
  have c: "canonicalizePathForPolicy (az_realpath az) (env_cwd env) (path_resolve (env_cwd env) t) = c"
    by (simp add: c_def canonicalizePathForPolicy_def path_resolve_def resolve_render resolve_segs_clean)
  have 1: "isWithin (env_cwd env) (env_workspace env) t \<and> \<not> sensitive_for env tool t" if "isWithin (env_cwd env) r c"
  proof (cases req)
    case (Some u)
    with cov q [OF Some] have "\<not> isProtectedPath az (path_resolve (env_cwd env) t)"
      by (auto simp: target_covered_def list_ex_iff)
    with that assms(5) show ?thesis by (auto simp: isProtectedPath_def c env_def [symmetric] Let_def list_ex_iff)
  qed (use cov in \<open>simp add: target_covered_def\<close>)
  have "isWithin (env_cwd env) (env_workspace env) r \<or> isWithin (env_cwd env) r (env_workspace env)"
    if "c = path_resolve (env_cwd env) t" "isWithin (env_cwd env) r c"
    using 1 [OF that(2)] within_comparable [OF _ that(2)] by (simp add: that(1) within_resolved)
  with 1 show ?thesis by blast
qed

lemma protected_roots_untouchable_witness: "\<not> isWithin ''/'' ''/state'' ''/etc/notes''"
proof -
  let ?args = "JObj [(''path'', JStr ''/etc/notes'')]" and ?env = "az_env sample_authorizer"
  have 1: "is_ok (fst (authorize sample_authorizer (Some ''relay'') (Some owner_authority) ''write_file'' ?args))" by code_simp
  have 2: "names_target ?env ''write_file'' ?args ''/etc/notes''" "isAbsolute ''/etc/notes''" "''/state'' \<in> set (az_protectedRoots sample_authorizer)"
    "\<not> isWithin ''/'' (env_workspace ?env) ''/etc/notes''" "env_cwd ?env = ''/''"
    "canonicalizePathForPolicy (az_realpath sample_authorizer) ''/'' ''/etc/notes'' = ''/etc/notes''" by code_simp+
  from 1 obtain d where d: "fst (authorize sample_authorizer (Some ''relay'') (Some owner_authority) ''write_file'' ?args) = Inr d"
    by (auto simp: is_ok_iff)
  show ?thesis using protected_roots_untouchable [OF d 2(1,2,3)] 2(4,5,6) by auto
qed

text \<open>
  The separation is needed.  The program demands it of its state root when it starts
  (\<open>assertStateRootSeparatedFromWorkspace\<close>), but not of the service control root, which lies in the home directory: with the
  home directory as workspace and the state root elsewhere, an editor may overwrite the lock of the service (here under
  shorter names).
\<close>

definition home_authorizer :: authorizer where
  "home_authorizer = mk_authorizer
     \<lparr>env_cwd = ''/'', env_workspace = ''/h'',
      env_resolveExisting = Some (\<lambda>v. Inr (path_resolve ''/h'' (arg_text v))),
      env_resolveWrite = Some (\<lambda>v. Inr (path_resolve ''/h'' (arg_text v))),
      env_digest = (\<lambda>t v. t), env_sha = (\<lambda>s. s)\<rparr> (\<lambda>p. Some p)
     [''/state'', ''/h/control''] (\<lambda>s. s)"

lemma control_root_in_workspace:
  "case authority_stage sample_gate ''write_file'' (Some ''relay'') (sample_authorization ''editor'') of
     Inl e \<Rightarrow> False
   | Inr a \<Rightarrow> \<not> owner a \<and> is_ok (fst (authorize home_authorizer (Some ''relay'') (Some a) ''write_file''
       (JObj [(''path'', JStr ''control/lock'')])))"
  by code_simp

text \<open>
  C8. The account roles form a ladder: each sees the tools of the one below, the owner sees the whole catalog,
  no delegated role sees an owner-only tool, and a reviewer sees only tools without side effects.
\<close>

lemma role_ladder:
  assumes "accountRoleToolNames (JStr ''reviewer'') = Inr reviewer" "accountRoleToolNames (JStr ''editor'') = Inr editor"
    "accountRoleToolNames (JStr ''operator'') = Inr operator" "accountRoleToolNames (JStr ''owner'') = Inr own"
  shows "set reviewer \<subseteq> set editor \<and> set editor \<subseteq> set operator \<and> set operator \<subseteq> set own
     \<and> set own = set allToolNames \<and> set operator \<inter> set ownerOnlyTools = {}
     \<and> (\<forall>t \<in> set reviewer. \<not> operationMayHaveSideEffects t)"
proof -
  have r: "x \<in> set (map fst ACCOUNT_ROLES)" if "x \<in> {''reviewer'', ''editor'', ''operator'', ''owner''}" for x
    using that by (auto simp: ACCOUNT_ROLES_def)
  note t = role_tools_iff [OF r assms(1)] role_tools_iff [OF r assms(2)] role_tools_iff [OF r assms(3)] role_tools_iff [OF r assms(4)]
  have "set reviewer \<subseteq> set editor" "set editor \<subseteq> set operator" "set operator \<inter> set ownerOnlyTools = {}"
    by (auto simp: t role_availability_def)
  moreover have o': "tool \<in> set own \<longleftrightarrow> tool \<in> set allToolNames" for tool
    using contract_lookup by (force simp: t allToolNames_def role_availability_def)
  moreover have "set operator \<subseteq> set own"
    unfolding o' subset_iff by (auto simp: t allToolNames_def intro: rev_image_eqI)
  moreover have "\<not> operationMayHaveSideEffects tool" if "tool \<in> set reviewer" for tool
    using that contract_lookup by (fastforce simp: t role_availability_def operationMayHaveSideEffects_def)
  ultimately show ?thesis by blast
qed

lemma role_ladder_witness:
  "\<exists>reviewer operator. accountRoleToolNames (JStr ''reviewer'') = Inr reviewer
     \<and> accountRoleToolNames (JStr ''operator'') = Inr operator \<and> set reviewer \<subseteq> set operator"
proof -
  have e: "\<exists>names. accountRoleToolNames (JStr r) = Inr names" if "r \<in> {''reviewer'', ''editor'', ''operator'', ''owner''}" for r
    using that roleToolNames_total [of r] by (auto simp: ACCOUNT_ROLES_def)
  obtain a where a: "accountRoleToolNames (JStr ''reviewer'') = Inr a" using e [of "''reviewer''"] by auto
  obtain b where b: "accountRoleToolNames (JStr ''editor'') = Inr b" using e [of "''editor''"] by auto
  obtain c where c: "accountRoleToolNames (JStr ''operator'') = Inr c" using e [of "''operator''"] by auto
  obtain d where d: "accountRoleToolNames (JStr ''owner'') = Inr d" using e [of "''owner''"] by auto
  from role_ladder [OF a b c d] a c show ?thesis by auto
qed

text \<open>
  C10. A tool outside the catalog is rejected by the policy gate, by the risk classification (it is never treated as
  harmless) and by the admission of a call.
\<close>

lemma unknown_tool_rejected:
  assumes "tool \<notin> set allToolNames"
  shows "\<not> is_ok (assertToolAllowed v tool) \<and> \<not> is_ok (classifyOperation env tool args)
     \<and> \<not> is_ok (admit_call az (PolicyGate v) argCheck tool org authorization args)"
proof -
  have n: "map_of TOOLS tool = None" using assms by (simp add: allToolNames_def map_of_eq_None_iff)
  have s: "map_of STATIC_TOOL_SECURITY tool = None"
    using assms contract_names by (metis allToolNames_def map_of_eq_None_iff set_map)
  have "authority_stage (PolicyGate v) tool org authorization = Inl (Bridge (berr ''not_found''))"
    by (simp add: authority_stage_def gate_assert_def assertToolAllowed_def toolDefinition_def n lift_bridge_def)
  then show ?thesis using classify_unknown [OF s] by (simp add: admit_call_def assertToolAllowed_def toolDefinition_def n)
qed

lemma unknown_tool_rejected_witness: "\<not> is_ok (classifyOperation (az_env sample_authorizer) ''rm_rf'' (JObj []))"
proof -
  have "''rm_rf'' \<notin> set allToolNames" by (simp add: allToolNames_def TOOLS_def)
  then show ?thesis using unknown_tool_rejected by blast
qed

end
